(* ===== verification/CdfPrelude.thy ===== *)
theory CdfPrelude
  imports Main "HOL-Library.Word"
begin

unbundle bit_operations_syntax

section \<open>Shared types, automation and interfaces\<close>

text \<open>
  The prelude holds what every component of the model shares: the byte and machine-integer
  types, the lemma collections, two generic interfaces (a codec and a state machine with an
  invariant) and a few list facts.

  A C++ \<open>std::string\<close>, \<open>std::string_view\<close>, \<open>std::vector<std::byte>\<close> and
  \<open>std::vector<uint8_t>\<close> are all byte sequences which the code converts into each other with
  \<open>reinterpret_cast\<close>. All four are the type \<open>bytes\<close>, lists of Isabelle's \<open>char\<close>, which has
  exactly the 256 byte values. A byte is read as an unsigned 8-bit number by \<open>u8_of\<close>.
\<close>

type_synonym bytes = "char list"
type_synonym u8 = "8 word"
type_synonym u16 = "16 word"
type_synonym u32 = "32 word"
type_synonym u64 = "64 word"
type_synonym time_t = int

named_theorems codec_simps
named_theorems frame_simps

subsection \<open>Bytes and words\<close>

definition u8_of :: "char \<Rightarrow> u8" where
  "u8_of c = word_of_nat (of_char c)"

definition chr_of :: "u8 \<Rightarrow> char" where
  "chr_of w = char_of (unat w)"

lemma unat_u8_less: "unat (w :: u8) < 256"
  using unsigned_less[of w, where ?'a = nat] by simp

lemma unat_u8_of: "unat (u8_of c) = of_char c"
  by (simp add: u8_of_def unat_of_nat)

lemma chr_of_u8_of [simp]: "chr_of (u8_of c) = c"
  by (simp add: chr_of_def unat_u8_of)

lemma u8_of_chr_of [simp]: "u8_of (chr_of w) = w"
  by (rule word_unat_eq_iff[THEN iffD2]) (simp add: unat_u8_of chr_of_def unat_u8_less)

lemma map_chr_of_u8_of [simp]: "map (chr_of \<circ> u8_of) xs = xs"
  by (induction xs) simp_all

lemma u8_of_inject [simp]: "u8_of c = u8_of d \<longleftrightarrow> c = d"
  by (metis chr_of_u8_of)

lemma bit_u8_ge: "8 \<le> n \<Longrightarrow> \<not> bit (b :: u8) n"
  using bit_imp_le_length[of b n] by auto
lemma u8_eqI: "bit a 0 = bit b 0 \<Longrightarrow> bit a 1 = bit b 1 \<Longrightarrow> bit a 2 = bit b 2 \<Longrightarrow> bit a 3 = bit b 3 \<Longrightarrow> bit a 4 = bit b 4 \<Longrightarrow> bit a 5 = bit b 5 \<Longrightarrow> bit a 6 = bit b 6 \<Longrightarrow> bit a 7 = bit b 7 \<Longrightarrow> a = (b::u8)"
  apply (rule bit_word_eqI) 
  apply (simp add: less_Suc_eq numeral_eq_Suc) by auto
lemmas u8_bits = bit_simps bit_u8_ge
lemma u8_less_64: "\<not> bit x 6 \<Longrightarrow> \<not> bit x 7 \<Longrightarrow> unat (x :: u8) < 64"
proof -
  assume "\<not> bit x 6" "\<not> bit x 7"
  then have "x = take_bit 6 x"
    by - (rule u8_eqI; simp add: u8_bits)
  then have "unat x = take_bit 6 (unat x)"
    by (metis unsigned_take_bit_eq)
  then show ?thesis
    using take_bit_nat_less_exp[of 6 "unat x"] by simp
qed

text \<open>\<open>isdigit\<close>, \<open>isalpha\<close>, \<open>isalnum\<close> and \<open>isspace\<close> of the C locale.\<close>

definition isdigit_c :: "char \<Rightarrow> bool" where
  "isdigit_c c \<longleftrightarrow> (of_char c :: nat) \<in> {48..57}"

definition isalpha_c :: "char \<Rightarrow> bool" where
  "isalpha_c c \<longleftrightarrow> (of_char c :: nat) \<in> {65..90} \<or> (of_char c :: nat) \<in> {97..122}"

definition isalnum_c :: "char \<Rightarrow> bool" where
  "isalnum_c c \<longleftrightarrow> isdigit_c c \<or> isalpha_c c"

definition isspace_c :: "char \<Rightarrow> bool" where
  "isspace_c c \<longleftrightarrow> (of_char c :: nat) \<in> {9..13} \<or> (of_char c :: nat) = 32"

subsection \<open>Codecs\<close>

text \<open>
  A codec is an encoder and a partial decoder which gives back every value of the encoder's
  domain. Base64, the ciphertext header of the key manager, the header of a derived key and
  the two-part PSK token are all instances.
\<close>

locale codec =
  fixes enc :: "'a \<Rightarrow> 'b"
    and dec :: "'b \<Rightarrow> 'a option"
    and valid :: "'a \<Rightarrow> bool"
  assumes dec_enc: "valid a \<Longrightarrow> dec (enc a) = Some a"
begin

lemma enc_inj_on: "inj_on enc {a. valid a}"
  by (rule inj_onI) (metis dec_enc mem_Collect_eq option.inject)

lemma enc_eq_iff: "valid a \<Longrightarrow> valid b \<Longrightarrow> enc a = enc b \<longleftrightarrow> a = b"
  by (metis dec_enc option.inject)

lemma dec_enc_the: "valid a \<Longrightarrow> the (dec (enc a)) = a"
  by (simp add: dec_enc)

end

subsection \<open>State machines with an invariant\<close>

text \<open>
  A component with state is a step function over its operations. The laws are that the start
  state satisfies the invariant and that every operation with admissible arguments keeps it; the
  conclusion is that every state a sequence of such operations reaches satisfies it.
\<close>

locale machine =
  fixes step :: "'op \<Rightarrow> 's \<Rightarrow> 's"
    and init :: "'s"
    and ok :: "'op \<Rightarrow> bool"
    and inv :: "'s \<Rightarrow> bool"
  assumes inv_init: "inv init"
    and inv_step: "ok opn \<Longrightarrow> inv s \<Longrightarrow> inv (step opn s)"
begin

lemma inv_run_from: "\<forall>opn \<in> set ops. ok opn \<Longrightarrow> inv s \<Longrightarrow> inv (fold step ops s)"
  by (induction ops arbitrary: s) (simp_all add: inv_step)

lemma inv_run: "\<forall>opn \<in> set ops. ok opn \<Longrightarrow> inv (fold step ops init)"
  by (rule inv_run_from) (simp_all add: inv_init)

end

end
