(* ===== verification/CdfBase64.thy ===== *)
theory CdfBase64
  imports CdfPrelude
begin

unbundle bit_operations_syntax

section \<open>Base64 (\<open>src/cdf/utils/base64.cpp\<close>, \<open>base64.h\<close>)\<close>

text \<open>
  The encoder and the decoder, with the code's buffering loops: the bytes read so far and not
  yet encoded are the list \<open>buf\<close>, which is \<open>charArray3[0..i-1]\<close> (\<open>charArray4[0..i-1]\<close> when
  decoding). The lemmas relate the loops to a chunk-by-chunk reference definition and give the
  round trip, the exact length and the alphabet of the output.
\<close>

subsection \<open>The model\<close>

definition BASE64_CHARS :: bytes where
  "BASE64_CHARS = ''ABCDEFGHIJKLMNOPQRSTUVWXYZabcdefghijklmnopqrstuvwxyz0123456789+/''"

definition IsBase64 :: "char \<Rightarrow> bool" where
  "IsBase64 c \<longleftrightarrow> isalnum_c c \<or> c = CHR ''+'' \<or> c = CHR ''/''"

text \<open>The four sextets of three bytes, as the masks and shifts on \<open>unsigned char\<close> compute them.\<close>

definition enc4 :: "u8 \<Rightarrow> u8 \<Rightarrow> u8 \<Rightarrow> u8 list" where
  "enc4 a b c =
    [drop_bit 2 (a AND 0xfc),
     push_bit 4 (a AND 0x03) + drop_bit 4 (b AND 0xf0),
     push_bit 2 (b AND 0x0f) + drop_bit 6 (c AND 0xc0),
     c AND 0x3f]"

definition b64_char :: "u8 \<Rightarrow> char" where
  "b64_char x = BASE64_CHARS ! unat x"

definition enc_buf :: "bytes \<Rightarrow> bytes" where
  "enc_buf b3 = map b64_char (enc4 (u8_of (b3 ! 0)) (u8_of (b3 ! 1)) (u8_of (b3 ! 2)))"

text \<open>The \<open>while ((bufLen--) != 0U)\<close> loop: what is left in \<open>charArray3\<close>, and \<open>ret\<close>.\<close>

fun encode_loop :: "bytes \<Rightarrow> bytes \<Rightarrow> bytes \<Rightarrow> bytes \<times> bytes" where
  "encode_loop buf [] ret = (buf, ret)"
| "encode_loop buf (c # cs) ret =
    (let buf' = buf @ [c] in
     if length buf' = 3 then encode_loop [] cs (ret @ enc_buf buf')
     else encode_loop buf' cs ret)"

definition encode_tail :: "bytes \<Rightarrow> bytes" where
  "encode_tail buf =
    (let i = length buf; b3 = buf @ replicate (3 - i) (CHR 0x00) in
     if i \<noteq> 0 then take (i + 1) (enc_buf b3) @ replicate (3 - i) (CHR ''='') else [])"

definition Base64Encode :: "bytes option \<Rightarrow> bytes" where
  "Base64Encode p =
    (case p of
       None \<Rightarrow> []
     | Some s \<Rightarrow> (let (buf, ret) = encode_loop [] s [] in ret @ encode_tail buf))"

definition Base64EncodeLen :: "u32 \<Rightarrow> u32" where
  "Base64EncodeLen dataLen = word_of_int ((uint dataLen + 2) div 3 * 4 + 1)"

text \<open>\<open>BASE64_CHARS.find\<close> assigned to an \<open>unsigned char\<close>: \<open>npos\<close> becomes 255.\<close>

fun find_char :: "char \<Rightarrow> bytes \<Rightarrow> nat option" where
  "find_char c [] = None"
| "find_char c (d # ds) = (if c = d then Some 0 else map_option Suc (find_char c ds))"

definition b64_find :: "char \<Rightarrow> u8" where
  "b64_find c = (case find_char c BASE64_CHARS of Some n \<Rightarrow> word_of_nat n | None \<Rightarrow> 255)"

definition dec3 :: "u8 \<Rightarrow> u8 \<Rightarrow> u8 \<Rightarrow> u8 \<Rightarrow> u8 list" where
  "dec3 a b c d =
    [push_bit 2 a + drop_bit 4 (b AND 0x30),
     push_bit 4 (b AND 0xf) + drop_bit 2 (c AND 0x3c),
     push_bit 6 (c AND 0x3) + d]"

definition dec_buf :: "bytes \<Rightarrow> bytes" where
  "dec_buf b4 = map chr_of
    (dec3 (b64_find (b4 ! 0)) (b64_find (b4 ! 1)) (b64_find (b4 ! 2)) (b64_find (b4 ! 3)))"

fun decode_loop :: "bytes \<Rightarrow> bytes \<Rightarrow> bytes \<Rightarrow> bytes \<times> bytes" where
  "decode_loop buf [] ret = (buf, ret)"
| "decode_loop buf (c # cs) ret =
    (if c \<noteq> CHR ''='' \<and> IsBase64 c then
       let buf' = buf @ [c] in
       if length buf' = 4 then decode_loop [] cs (ret @ dec_buf buf')
       else decode_loop buf' cs ret
     else (buf, ret))"

definition decode_tail :: "bytes \<Rightarrow> bytes" where
  "decode_tail buf =
    (let i = length buf; b4 = buf @ replicate (4 - i) (CHR 0x00) in
     if i \<noteq> 0 then take (i - 1) (dec_buf b4) else [])"

definition Base64Decode :: "bytes \<Rightarrow> bytes" where
  "Base64Decode s = (let (buf, ret) = decode_loop [] s [] in ret @ decode_tail buf)"

subsection \<open>Chunk-by-chunk reference\<close>

fun enc_ref :: "bytes \<Rightarrow> bytes" where
  "enc_ref (a # b # c # cs) = enc_buf [a, b, c] @ enc_ref cs"
| "enc_ref cs = encode_tail cs"

lemma encode_loop_ref:
  "(let (buf, r) = encode_loop [] s ret in r @ encode_tail buf) = ret @ enc_ref s"
  by (induction s arbitrary: ret rule: enc_ref.induct) (simp_all add: Let_def)

lemma Base64Encode_ref: "Base64Encode (Some s) = enc_ref s"
  using encode_loop_ref[of s "[]"] by (simp add: Base64Encode_def)

fun dec_ref :: "bytes \<Rightarrow> bytes" where
  "dec_ref (a # b # c # d # cs) = dec_buf [a, b, c, d] @ dec_ref cs"
| "dec_ref cs = decode_tail cs"

definition b64_body :: "bytes \<Rightarrow> bytes" where
  "b64_body s = takeWhile (\<lambda>c. c \<noteq> CHR ''='' \<and> IsBase64 c) s"

lemma decode_loop_takeWhile: "decode_loop buf s ret = decode_loop buf (b64_body s) ret"
  by (induction buf s ret rule: decode_loop.induct) (simp_all add: b64_body_def Let_def)

lemma decode_loop_ref:
  "\<forall>c \<in> set s. c \<noteq> CHR ''='' \<and> IsBase64 c \<Longrightarrow>
   (let (buf, r) = decode_loop [] s ret in r @ decode_tail buf) = ret @ dec_ref s"
  by (induction s arbitrary: ret rule: dec_ref.induct) (simp_all add: Let_def)

lemma set_b64_body: "\<forall>c \<in> set (b64_body s). c \<noteq> CHR ''='' \<and> IsBase64 c"
  by (auto simp: b64_body_def dest: set_takeWhileD)

lemma Base64Decode_ref: "Base64Decode s = dec_ref (b64_body s)"
  using decode_loop_ref[OF set_b64_body, of s "[]"] decode_loop_takeWhile[of "[]" s "[]"]
  by (simp add: Base64Decode_def)

subsection \<open>Sextets and the alphabet\<close>

lemma unat_less_64_all: "(\<forall>x :: u8. unat x < 64 \<longrightarrow> P x) \<longleftrightarrow> (\<forall>n \<in> set [0..<64]. P (word_of_nat n))"
proof
  assume all: "\<forall>n \<in> set [0..<64]. P (word_of_nat n)"
  show "\<forall>x :: u8. unat x < 64 \<longrightarrow> P x"
  proof (intro allI impI)
    fix x :: u8 assume "unat x < 64"
    then show "P x" using all[rule_format, of "unat x"] by simp
  qed
qed (simp add: unat_of_nat)

lemma b64_find_char: "unat x < 64 \<Longrightarrow> b64_find (b64_char x) = x"
proof -
  have "\<forall>x :: u8. unat x < 64 \<longrightarrow> b64_find (b64_char x) = x"
    unfolding unat_less_64_all by code_simp
  then show "unat x < 64 \<Longrightarrow> b64_find (b64_char x) = x" by blast
qed

lemma b64_char_alphabet: "unat x < 64 \<Longrightarrow> b64_char x \<noteq> CHR ''='' \<and> IsBase64 (b64_char x)"
proof -
  have "\<forall>x :: u8. unat x < 64 \<longrightarrow> b64_char x \<noteq> CHR ''='' \<and> IsBase64 (b64_char x)"
    unfolding unat_less_64_all by code_simp
  then show "unat x < 64 \<Longrightarrow> b64_char x \<noteq> CHR ''='' \<and> IsBase64 (b64_char x)" by blast
qed

lemma enc4_or:
  "enc4 a b c = [drop_bit 2 a, push_bit 4 (a AND 3) OR drop_bit 4 b,
                 push_bit 2 (b AND 15) OR drop_bit 6 c, c AND 63]"
  unfolding enc4_def list.inject
  by (intro conjI refl; (subst disjunctive_add_eq_or)?; rule u8_eqI; simp add: u8_bits)

lemma dec3_or:
  assumes "d AND 0xc0 = 0"
  shows "dec3 a b c d = [push_bit 2 a OR drop_bit 4 (b AND 0x30),
     push_bit 4 (b AND 0xf) OR drop_bit 2 (c AND 0x3c), push_bit 6 (c AND 3) OR d]"
proof -
  have "\<not> bit d 6" "\<not> bit d 7"
    using arg_cong[OF assms, of "\<lambda>w. bit w 6"] arg_cong[OF assms, of "\<lambda>w. bit w 7"]
    by (simp_all add: bit_simps)
  then show ?thesis
    unfolding dec3_def list.inject
    by - (intro conjI refl; subst disjunctive_add_eq_or; (rule refl)?; rule u8_eqI; simp add: u8_bits)
qed

lemma dec3_enc4:
  "dec3 (enc4 a b c ! 0) (enc4 a b c ! 1) (enc4 a b c ! 2) (enc4 a b c ! 3) = [a, b, c]"
  unfolding enc4_or
  apply (subst dec3_or)
  subgoal by (simp, rule u8_eqI; simp add: u8_bits)
  subgoal by (simp; intro conjI; rule u8_eqI; simp add: u8_bits)
  done
lemma enc4_less: "x \<in> set (enc4 a b c) \<Longrightarrow> unat x < 64"
  unfolding enc4_or by (rule u8_less_64) (auto simp: u8_bits)


subsection \<open>Round trip, length and alphabet\<close>

lemma length_enc4 [simp]: "length (enc4 a b c) = 4"
  by (simp add: enc4_def)

lemma length_enc_buf [simp]: "length (enc_buf b) = 4"
  by (simp add: enc_buf_def)

lemma length_dec_buf [simp]: "length (dec_buf b) = 3"
  by (simp add: dec_buf_def dec3_def)

lemma enc_buf_nths: "enc_buf b = [enc_buf b ! 0, enc_buf b ! 1, enc_buf b ! 2, enc_buf b ! 3]"
  by (rule nth_equalityI) (auto simp: less_Suc_eq numeral_eq_Suc)

lemma enc_buf_alphabet: "c \<in> set (enc_buf b) \<Longrightarrow> c \<noteq> CHR ''='' \<and> IsBase64 c"
  by (auto simp: enc_buf_def dest!: enc4_less b64_char_alphabet)

lemma dec_buf_enc_buf: "dec_buf (enc_buf [a, b, c]) = [a, b, c]"
proof -
  have "b64_find (enc_buf [a, b, c] ! i) = enc4 (u8_of a) (u8_of b) (u8_of c) ! i" if "i < 4" for i
    using that by (simp add: enc_buf_def b64_find_char enc4_less[OF nth_mem])
  then show ?thesis
    by (simp add: dec_buf_def dec3_enc4[simplified])
qed

lemma take_dec_buf:
  "take 1 (dec_buf [p, q, r, s]) = take 1 (dec_buf [p, q, r', s'])"
  "take 2 (dec_buf [p, q, r, s]) = take 2 (dec_buf [p, q, r, s'])"
  by (simp_all add: dec_buf_def dec3_def)

lemma decode_tail_enc:
  "decode_tail (take 2 (enc_buf [a, b, c])) = [a]"
  "decode_tail (take 3 (enc_buf [a, b, c])) = [a, b]"
proof -
  let ?e = "enc_buf [a, b, c]"
  have "decode_tail (take 2 ?e) = take 1 (dec_buf [?e ! 0, ?e ! 1, CHR 0x00, CHR 0x00])"
    by (subst enc_buf_nths) (simp add: decode_tail_def numeral_2_eq_2)
  also have "\<dots> = take 1 (dec_buf ?e)"
    by (subst (3) enc_buf_nths) (rule take_dec_buf)
  finally show "decode_tail (take 2 ?e) = [a]" by (simp add: dec_buf_enc_buf)
  have "decode_tail (take 3 ?e) = take 2 (dec_buf [?e ! 0, ?e ! 1, ?e ! 2, CHR 0x00])"
    by (subst enc_buf_nths) (simp add: decode_tail_def numeral_3_eq_3 numeral_2_eq_2)
  also have "\<dots> = take 2 (dec_buf ?e)"
    by (subst (4) enc_buf_nths) (rule take_dec_buf)
  finally show "decode_tail (take 3 ?e) = [a, b]" by (simp add: dec_buf_enc_buf)
qed

lemma b64_body_append:
  "\<forall>c \<in> set xs. c \<noteq> CHR ''='' \<and> IsBase64 c \<Longrightarrow> b64_body (xs @ ys) = xs @ b64_body ys"
  by (induction xs) (simp_all add: b64_body_def)

lemma b64_body_pad [simp]: "b64_body (CHR ''='' # ys) = []" "b64_body [] = []"
  by (simp_all add: b64_body_def)

lemma b64_body_take_enc: "b64_body (take n (enc_buf b) @ ys) = take n (enc_buf b) @ b64_body ys"
  by (rule b64_body_append) (auto dest!: in_set_takeD enc_buf_alphabet)

lemma b64_body_enc: "b64_body (enc_buf b @ ys) = enc_buf b @ b64_body ys"
  by (rule b64_body_append) (auto dest!: enc_buf_alphabet)

lemma dec_ref_enc_buf: "dec_ref (enc_buf b @ ys) = dec_buf (enc_buf b) @ dec_ref ys"
  by (subst (1 2) enc_buf_nths) simp

lemma dec_ref_short: "length xs < 4 \<Longrightarrow> dec_ref xs = decode_tail xs"
  by (cases xs rule: dec_ref.cases) auto

lemma encode_tail_simps:
  "encode_tail [] = []"
  "encode_tail [a] = take 2 (enc_buf [a, CHR 0x00, CHR 0x00]) @ ''==''"
  "encode_tail [a, b] = take 3 (enc_buf [a, b, CHR 0x00]) @ ''=''"
  by (simp_all add: encode_tail_def numeral_2_eq_2 numeral_3_eq_3)

lemma dec_ref_enc_ref: "dec_ref (b64_body (enc_ref s)) = s"
proof (induction s rule: enc_ref.induct)
  case (1 a b c cs)
  then show ?case by (simp add: b64_body_enc dec_ref_enc_buf dec_buf_enc_buf)
qed (simp_all add: encode_tail_simps b64_body_take_enc dec_ref_short decode_tail_enc,
     simp add: decode_tail_def)

interpretation b64: codec "\<lambda>s. Base64Encode (Some s)" "\<lambda>t. Some (Base64Decode t)" "\<lambda>_. True"
  by unfold_locales (simp add: Base64Encode_ref Base64Decode_ref dec_ref_enc_ref)

lemma base64_length: "length (Base64Encode (Some s)) = 4 * ((length s + 2) div 3)"
  unfolding Base64Encode_ref
proof (induction s rule: enc_ref.induct)
  case (1 a b c cs)
  have "length (a # b # c # cs) + 2 = length cs + 2 + 3" by simp
  then have "(length (a # b # c # cs) + 2) div 3 = Suc ((length cs + 2) div 3)"
    by (simp only: div_add_self2)
  then show ?case using 1 by simp
qed (simp_all add: encode_tail_simps)

lemma base64_alphabet: "c \<in> set (Base64Encode (Some s)) \<Longrightarrow> IsBase64 c \<or> c = CHR ''=''"
  unfolding Base64Encode_ref
  by (induction s rule: enc_ref.induct)
    (auto simp: encode_tail_simps dest!: in_set_takeD enc_buf_alphabet)


lemma base64_injective: "Base64Encode (Some s) = Base64Encode (Some t) \<longleftrightarrow> s = t"
  using b64.enc_eq_iff[of s t] by simp

text \<open>The decoder reads up to the first character outside the alphabet and ignores the rest.\<close>

lemma Base64Decode_stops: "Base64Decode s = Base64Decode (b64_body s)"
  by (simp add: Base64Decode_ref b64_body_def takeWhile_idem)

lemma Base64Decode_unpadded: "Base64Decode (b64_body (Base64Encode (Some s))) = s"
  by (simp add: Base64Decode_stops[symmetric] b64.dec_enc[simplified])


lemma Base64EncodeLen_nat:
  assumes "n < 3221225470"
  shows "unat (Base64EncodeLen (word_of_nat n)) = (n + 2) div 3 * 4 + 1"
proof -
  have "(n + 2) div 3 \<le> 1073741823"
    using assms by (simp add: less_eq_div_iff_mult_less_eq div_le_mono2 flip: less_Suc_eq_le)
  then have b: "(n + 2) div 3 * 4 + 1 < 4294967296" by simp
  have u: "uint (word_of_nat n :: u32) = int n"
    using assms by (simp add: uint_nat unat_of_nat)
  have "(uint (word_of_nat n :: u32) + 2) div 3 * 4 + 1 = int ((n + 2) div 3 * 4 + 1)"
    unfolding u by (simp add: zdiv_int)
  then have "Base64EncodeLen (word_of_nat n) = word_of_nat ((n + 2) div 3 * 4 + 1)"
    unfolding Base64EncodeLen_def by (simp only: of_int_of_nat_eq)
  then show ?thesis
    using b by (simp only: unat_of_nat) simp
qed

text \<open>\<open>Base64EncodeLen\<close>, which callers use to size the output buffer, is exactly the length
  of the encoding plus the terminating zero, for every input length whose result fits in 32 bits
  (one byte more wraps around).\<close>

lemma Base64EncodeLen_exact:
  assumes "length s < 3221225470"
  shows "unat (Base64EncodeLen (word_of_nat (length s))) = length (Base64Encode (Some s)) + 1"
  using Base64EncodeLen_nat[OF assms] by (simp add: base64_length mult.commute)

lemma Base64EncodeLen_wraps: "Base64EncodeLen 3221225470 = 1"
  by (simp add: Base64EncodeLen_def)

end
