(* ===== verification/CdfDefs.thy ===== *)
theory CdfDefs
  imports CdfPrelude
begin

section \<open>Shared definitions of the modules (\<open>base/\<close>, \<open>cryption/define.h\<close>, \<open>key_management/define.h\<close>)\<close>

text \<open>
  The result codes and algorithm enumerations every module uses, with the source's constructors
  (a prefix tells the enumerations apart, as the scoped enums do in C++), C strings, and the
  values of a parsed JSON document. The JSON text parser and writer are rapidjson's: they are
  parameters of the definitions that call them, and only the documents they exchange are a type
  here.
\<close>

datatype CryptionRC =
    CRC_OK | CRC_ERROR | CRC_INVALID_PARAM | CRC_KEY_EXPIRED | CRC_UNINITED | CRC_INIT_FAILED
  | CRC_DOMAIN_COUNT_INVALID | CRC_KEY_ACTIVE_FAILED

datatype CryptoSymAlg =
    AES128_GCM | AES256_GCM | SM4_CTR | AES128_CCM | CHACHA20_POLY1305 | SYM_UNKNOWN

datatype CryptoHmacAlg = HMAC_SHA256 | HMAC_SHA384 | HMAC_SHA512 | HMAC_UNKNOWN

datatype KeyManagerRC =
    KM_OK | KM_ERROR | KM_INVALID_PARAM | KM_KEY_EXPIRED | KM_UNINITED | KM_INIT_FAILED
  | KM_DOMAIN_COUNT_INVALID | KM_KEY_ACTIVE_FAILED | KM_UNSUPPORTED

datatype KeyManagerTy = OPENBAO | VAULT | KMT_UNKNOWN

text \<open>The characters of a buffer up to the first zero byte: what \<open>std::string(const char *)\<close> reads.\<close>

definition c_str :: "bytes \<Rightarrow> bytes" where
  "c_str s = takeWhile (\<lambda>c. c \<noteq> CHR 0x00) s"

lemma c_str_id [simp]: "CHR 0x00 \<notin> set s \<Longrightarrow> c_str s = s"
  unfolding c_str_def by (induction s) auto

lemma c_str_idem [simp]: "c_str (c_str s) = c_str s"
  by (simp add: c_str_def)

lemma length_c_str: "length (c_str s) \<le> length s"
  by (simp add: c_str_def length_takeWhile_le)

lemma nul_notin_c_str [simp]: "CHR 0x00 \<notin> set (c_str s)"
  by (auto simp: c_str_def dest: set_takeWhileD)

text \<open>A parsed document. Numbers that are not integers carry no payload: no code reads them.\<close>

datatype json =
    JNull | JBool bool | JInt int | JDouble | JString bytes | JArray "json list"
  | JObject "(bytes \<times> json) list"

text \<open>\<open>HasMember\<close> and \<open>operator[]\<close>: the first member with the name.\<close>

fun json_member :: "bytes \<Rightarrow> json \<Rightarrow> json option" where
  "json_member k (JObject ms) = map_of ms k"
| "json_member k _ = None"

text \<open>\<open>IsUint\<close>, \<open>IsUint64\<close>, \<open>IsInt64\<close> and \<open>IsString\<close>, with the value read when they hold.\<close>

fun json_uint :: "json \<Rightarrow> u32 option" where
  "json_uint (JInt i) = (if 0 \<le> i \<and> i < 4294967296 then Some (word_of_int i) else None)"
| "json_uint _ = None"

fun json_uint64 :: "json \<Rightarrow> u64 option" where
  "json_uint64 (JInt i) = (if 0 \<le> i \<and> i < 18446744073709551616 then Some (word_of_int i) else None)"
| "json_uint64 _ = None"

fun json_string :: "json \<Rightarrow> bytes option" where
  "json_string (JString s) = Some s"
| "json_string _ = None"

fun json_is_object :: "json \<Rightarrow> bool" where
  "json_is_object (JObject _) = True"
| "json_is_object _ = False"

lemma json_uint_of_u32 [simp]: "json_uint (JInt (uint (w :: u32))) = Some w"
  using unsigned_less[of w, where ?'a = int] by simp

end
