(* ===== verification/CdfStrUtils.thy ===== *)
theory CdfStrUtils
  imports CdfDefs
begin

section \<open>String utilities (\<open>utils/str_utils.h\<close>)\<close>

text \<open>
  \<open>Split\<close> and the number conversions. The conversions call \<open>std::stol\<close>, \<open>std::stoi\<close> and
  \<open>std::stoll\<close>, which skip leading white space, take an optional sign and the longest run of
  digits, and throw when there is no digit or the value is out of the type's range: an
  exception is the value \<open>None\<close>. The operations return whether they succeeded and the output
  argument, which keeps its old value \<open>v\<close> when an exception was caught. Rendering of integers
  by \<open>operator<<\<close>, the inverse direction, is at the end.
\<close>

subsection \<open>Conversions\<close>

definition digit_val :: "char \<Rightarrow> int" where
  "digit_val c = int (of_char c) - 48"

definition digits_val :: "bytes \<Rightarrow> int" where
  "digits_val ds = foldl (\<lambda>a c. a * 10 + digit_val c) 0 ds"

definition strip_sign :: "bytes \<Rightarrow> bool \<times> bytes" where
  "strip_sign s =
    (case s of [] \<Rightarrow> (False, [])
     | c # cs \<Rightarrow> if c = CHR ''-'' then (True, cs) else if c = CHR ''+'' then (False, cs) else (False, s))"

definition strtoll :: "bytes \<Rightarrow> int option" where
  "strtoll s =
    (let (neg, r) = strip_sign (dropWhile isspace_c (c_str s)); ds = takeWhile isdigit_c r in
     if ds = [] then None else Some (if neg then - digits_val ds else digits_val ds))"

definition in_range :: "nat \<Rightarrow> int \<Rightarrow> bool" where
  "in_range n i \<longleftrightarrow> - (2 ^ (n - 1)) \<le> i \<and> i < 2 ^ (n - 1)"

definition sto_bits :: "nat \<Rightarrow> bytes \<Rightarrow> int option" where
  "sto_bits n s =
    (case strtoll s of None \<Rightarrow> None | Some i \<Rightarrow> if in_range n i then Some i else None)"

definition StrToLong :: "bytes \<Rightarrow> int \<Rightarrow> bool \<times> int" where
  "StrToLong src v = (case sto_bits 64 src of None \<Rightarrow> (False, v) | Some i \<Rightarrow> (True, i))"

definition StrToInt :: "bytes \<Rightarrow> int \<Rightarrow> bool \<times> int" where
  "StrToInt src v = (case sto_bits 32 src of None \<Rightarrow> (False, v) | Some i \<Rightarrow> (True, i))"

definition StrToInt64 :: "bytes \<Rightarrow> int \<Rightarrow> bool \<times> int" where
  "StrToInt64 src v =
    (case sto_bits 64 src of
       None \<Rightarrow> (False, v)
     | Some tmp \<Rightarrow> if tmp < - (2 ^ 63) \<or> tmp > 2 ^ 63 - 1 then (False, 0) else (True, tmp))"

definition StrToU32 :: "bytes \<Rightarrow> u32 \<Rightarrow> bool \<times> u32" where
  "StrToU32 src v =
    (case sto_bits 64 src of
       None \<Rightarrow> (False, v)
     | Some tmp \<Rightarrow> if tmp < 0 \<or> tmp > 4294967295 then (False, 0) else (True, word_of_int tmp))"

subsection \<open>Split\<close>

text \<open>\<open>std::string_view::find\<close>: the position of the first occurrence.\<close>

fun find_sub :: "bytes \<Rightarrow> bytes \<Rightarrow> nat option" where
  "find_sub sep [] = (if sep = [] then Some 0 else None)"
| "find_sub sep (c # cs) =
    (if take (length sep) (c # cs) = sep then Some 0 else map_option Suc (find_sub sep cs))"

lemma find_sub_Some:
  "find_sub sep s = Some p \<Longrightarrow> s = take p s @ sep @ drop (p + length sep) s"
proof (induction s arbitrary: p)
  case (Cons c cs)
  show ?case
  proof (cases "take (length sep) (c # cs) = sep")
    case True
    then show ?thesis using Cons.prems append_take_drop_id[of "length sep" "c # cs"] by simp
  next
    case False
    then obtain q where "find_sub sep cs = Some q" "p = Suc q"
      using Cons.prems by auto
    then show ?thesis using Cons.IH[of q] by simp
  qed
qed (simp split: if_splits)

lemma find_sub_le: "find_sub sep s = Some p \<Longrightarrow> p + length sep \<le> length s"
proof (induction s arbitrary: p)
  case (Cons c cs)
  show ?case
  proof (cases "take (length sep) (c # cs) = sep")
    case True
    then have "length sep \<le> length (c # cs)" by (metis length_take min.cobounded1)
    then show ?thesis using Cons.prems True by simp
  qed (use Cons in auto)
qed (simp split: if_splits)

text \<open>The \<open>while\<close> loop on \<open>src[pos1..]\<close>.\<close>

function split_loop :: "bytes \<Rightarrow> bytes \<Rightarrow> bytes list \<Rightarrow> bytes list" where
  "split_loop sep rest out =
    (if sep = [] then out else
     case find_sub sep rest of
       Some p \<Rightarrow> split_loop sep (drop (p + length sep) rest) (out @ [take p rest])
     | None \<Rightarrow> (if rest \<noteq> [] then out @ [rest] else out))"
  by pat_completeness auto
termination
  by (relation "measure (\<lambda>(sep, rest, out). length rest)") (auto dest!: find_sub_le simp flip: length_greater_0_conv)

declare split_loop.simps [simp del]

definition Split :: "bytes \<Rightarrow> bytes \<Rightarrow> bytes list" where
  "Split src sep = (if sep = [] then [] else split_loop sep src [])"

lemma split_loop_out: "split_loop sep rest out = out @ split_loop sep rest []"
proof (induction "length rest" arbitrary: rest out rule: less_induct)
  case less
  show ?case
  proof (cases "sep = [] \<or> find_sub sep rest = None")
    case False
    then obtain p where p: "sep \<noteq> []" "find_sub sep rest = Some p" by auto
    then have "length (drop (p + length sep) rest) < length rest"
      by (auto dest!: find_sub_le simp flip: length_greater_0_conv)
    note ih = less[OF this]
    show ?thesis
      using p ih[of "out @ [take p rest]"] ih[of "[take p rest]"]
      by (simp add: split_loop.simps[of sep rest])
  qed (auto simp: split_loop.simps[of sep rest])
qed

lemma Split_unfold:
  "sep \<noteq> [] \<Longrightarrow> Split s sep =
    (case find_sub sep s of
       Some p \<Rightarrow> take p s # Split (drop (p + length sep) s) sep
     | None \<Rightarrow> if s = [] then [] else [s])"
  unfolding Split_def
  using split_loop_out[of sep _ "[_]"]
  by (subst split_loop.simps) (simp split: option.split)


subsection \<open>Facts about \<open>Split\<close>\<close>

lemma find_sub_char_Some: "c \<notin> set x \<Longrightarrow> find_sub [c] (x @ c # y) = Some (length x)"
  by (induction x) auto

lemma find_sub_char_None: "c \<notin> set x \<Longrightarrow> find_sub [c] x = None"
  by (induction x) auto

lemma Split_char_Cons: "c \<notin> set x \<Longrightarrow> Split (x @ c # y) [c] = x # Split y [c]"
  by (subst Split_unfold) (simp_all add: find_sub_char_Some)

lemma Split_char_last: "c \<notin> set x \<Longrightarrow> Split x [c] = (if x = [] then [] else [x])"
  by (subst Split_unfold) (simp_all add: find_sub_char_None)

lemmas Split_char = Split_char_Cons Split_char_last

fun join :: "bytes \<Rightarrow> bytes list \<Rightarrow> bytes" where
  "join sep [] = []"
| "join sep [x] = x"
| "join sep (x # xs) = x @ sep @ join sep xs"

lemma join_Cons: "xs \<noteq> [] \<Longrightarrow> join sep (x # xs) = x @ sep @ join sep xs"
  by (cases xs) auto

lemma Split_eq_Nil: "sep \<noteq> [] \<Longrightarrow> Split s sep = [] \<longleftrightarrow> s = []"
  by (subst Split_unfold) (auto split: option.split dest: find_sub_Some simp: find_sub.simps)

lemma Split_Nil: "sep \<noteq> [] \<Longrightarrow> Split [] sep = []"
  by (simp add: Split_eq_Nil)

lemma Split_join: "sep \<noteq> [] \<Longrightarrow> s = join sep (Split s sep) \<or> s = join sep (Split s sep) @ sep"
proof (induction "length s" arbitrary: s rule: less_induct)
  case less
  show ?case
  proof (cases "find_sub sep s")
    case None
    then show ?thesis using less.prems by (simp add: Split_unfold)
  next
    case (Some p)
    define r where "r = drop (p + length sep) s"
    have s: "s = take p s @ sep @ r"
      using find_sub_Some[OF Some] by (simp add: r_def)
    have sp: "Split s sep = take p s # Split r sep"
      using Some less.prems by (simp add: Split_unfold[of sep s] r_def)
    have "length r < length s"
      using find_sub_le[OF Some] less.prems by (simp add: r_def flip: length_greater_0_conv)
    then have ih: "r = join sep (Split r sep) \<or> r = join sep (Split r sep) @ sep"
      using less by blast
    show ?thesis
    proof (cases "r = []")
      case True
      then show ?thesis using s sp less.prems by (simp add: Split_Nil)
    next
      case False
      then have "join sep (Split s sep) = take p s @ sep @ join sep (Split r sep)"
        using sp less.prems by (simp add: join_Cons Split_eq_Nil)
      then show ?thesis using s ih by (metis append.assoc)
    qed
  qed
qed

lemma find_sub_take: "sep \<noteq> [] \<Longrightarrow> find_sub sep s = Some p \<Longrightarrow> find_sub sep (take p s) = None"
proof (induction s arbitrary: p)
  case (Cons c cs)
  show ?case
  proof (cases p)
    case (Suc q)
    then have ne: "take (length sep) (c # cs) \<noteq> sep" and q: "find_sub sep cs = Some q"
      using Cons.prems by (auto split: if_splits)
    have "take (length sep) (c # take q cs) \<noteq> sep"
    proof
      assume e: "take (length sep) (c # take q cs) = sep"
      then have "length sep \<le> Suc q"
        by (metis length_Cons length_take min.bounded_iff min.cobounded2 not_less_eq_eq order_trans)
      then have "take (length sep) (c # take q cs) = take (length sep) (c # cs)"
        using take_take[of "length sep" "Suc q" "c # cs"] by (simp add: min_absorb1)
      with e ne show False by simp
    qed
    then show ?thesis using Suc Cons.IH[OF Cons.prems(1) q] by simp
  qed (use Cons.prems in simp)
qed simp

subsection \<open>Rendering of integers (\<open>operator<<\<close>) and reading them back\<close>

definition digit_chr :: "nat \<Rightarrow> char" where
  "digit_chr d = char_of (48 + d)"

fun nat_str :: "nat \<Rightarrow> bytes" where
  "nat_str n = (if n < 10 then [digit_chr n] else nat_str (n div 10) @ [digit_chr (n mod 10)])"

declare nat_str.simps [simp del]

definition int_str :: "int \<Rightarrow> bytes" where
  "int_str i = (if i < 0 then CHR ''-'' # nat_str (nat (- i)) else nat_str (nat i))"

lemma of_char_digit_chr: "d < 10 \<Longrightarrow> of_char (digit_chr d) = (48 + d :: nat)"
  by (simp add: digit_chr_def)

lemma digit_chr_props:
  assumes "d < 10"
  shows "isdigit_c (digit_chr d)" "digit_val (digit_chr d) = int d" "\<not> isspace_c (digit_chr d)"
    "digit_chr d \<noteq> CHR ''-''" "digit_chr d \<noteq> CHR ''+''" "digit_chr d \<noteq> CHR 0x00"
    "digit_chr d \<noteq> CHR '':''" "digit_chr d \<noteq> CHR '';''"
proof -
  note * = of_char_digit_chr[OF assms]
  show "isdigit_c (digit_chr d)" "\<not> isspace_c (digit_chr d)"
    using assms by (simp_all add: isdigit_c_def isspace_c_def *)
  show "digit_val (digit_chr d) = int d"
    unfolding digit_val_def by (metis * add_diff_cancel_left' of_nat_add of_nat_numeral of_nat_of_char)
  have "digit_chr d \<noteq> c" if "(of_char c :: nat) < 48 \<or> 57 < (of_char c :: nat)" for c
    using * assms that by auto
  then show "digit_chr d \<noteq> CHR ''-''" "digit_chr d \<noteq> CHR ''+''" "digit_chr d \<noteq> CHR 0x00"
    "digit_chr d \<noteq> CHR '':''" "digit_chr d \<noteq> CHR '';''"
    by simp_all
qed

lemma nat_str_digits: "c \<in> set (nat_str n) \<Longrightarrow> \<exists>d < 10. c = digit_chr d"
proof (induction n rule: nat_str.induct)
  case (1 n)
  then show ?case
    using mod_less_divisor[of 10 n]
    by (subst (asm) (2) nat_str.simps) (auto split: if_splits simp del: mod_less_divisor)
qed

lemma nat_str_ne [simp]: "nat_str n \<noteq> []"
  by (subst nat_str.simps) simp

lemma digits_val_snoc: "digits_val (ds @ [c]) = digits_val ds * 10 + digit_val c"
  by (simp add: digits_val_def)

lemma digits_val_nat_str: "digits_val (nat_str n) = int n"
proof (induction n rule: nat_str.induct)
  case (1 n)
  show ?case
  proof (cases "n < 10")
    case True
    then show ?thesis
      by (subst nat_str.simps) (simp add: digits_val_def digit_chr_props)
  next
    case False
    then show ?thesis
      using 1 by (subst nat_str.simps)
        (simp add: digits_val_snoc digit_chr_props, metis div_mult_mod_eq of_nat_add of_nat_mult of_nat_numeral)
  qed
qed

lemma nat_str_isdigit: "c \<in> set (nat_str n) \<Longrightarrow> isdigit_c c"
  using nat_str_digits digit_chr_props(1) by blast

lemma notin_nat_str:
  "c \<notin> set (nat_str n)" if "\<not> isdigit_c c"
  using that nat_str_isdigit by blast

lemma notin_int_str: "\<not> isdigit_c c \<Longrightarrow> c \<noteq> CHR ''-'' \<Longrightarrow> c \<notin> set (int_str i)"
  by (auto simp: int_str_def dest: nat_str_isdigit)

lemma nat_str_hd: "\<exists>d < 10. \<exists>ds. nat_str n = digit_chr d # ds"
  by (metis list.exhaust list.set_intros(1) nat_str_digits nat_str_ne)

lemma c_str_append: "CHR 0x00 \<notin> set x \<Longrightarrow> c_str (x @ y) = x @ c_str y"
  by (auto simp: c_str_def takeWhile_append)

lemma takeWhile_nat_str:
  "r = [] \<or> \<not> isdigit_c (hd r) \<Longrightarrow> takeWhile isdigit_c (nat_str n @ r) = nat_str n"
  by (cases r) (auto simp: takeWhile_append takeWhile_eq_all_conv dest: nat_str_isdigit)

lemma strip_sign_int_str:
  "strip_sign (int_str i @ r) = (i < 0, nat_str (nat \<bar>i\<bar>) @ r)"
  using nat_str_hd[of "nat i"] digit_chr_props
  by (auto simp: int_str_def strip_sign_def)

lemma dropWhile_int_str:
  "\<forall>c \<in> set ws. isspace_c c \<Longrightarrow> dropWhile isspace_c (ws @ int_str i @ r) = int_str i @ r"
  using nat_str_hd[of "nat i"] digit_chr_props
  by (auto simp: int_str_def isspace_c_def dropWhile_append3)

lemma strtoll_int_str:
  assumes ws: "\<forall>c \<in> set ws. isspace_c c" and r: "r = [] \<or> \<not> isdigit_c (hd r)"
  shows "strtoll (ws @ int_str i @ r) = Some i"
proof -
  have "CHR 0x00 \<notin> set (ws @ int_str i)"
    using ws notin_int_str[of "CHR 0x00" i] by (auto simp: isspace_c_def isdigit_c_def)
  then have c: "c_str (ws @ int_str i @ r) = ws @ int_str i @ c_str r"
    using c_str_append[of "ws @ int_str i" r] by simp
  have r': "c_str r = [] \<or> \<not> isdigit_c (hd (c_str r))"
    using r by (cases r) (auto simp: c_str_def)
  show ?thesis
    unfolding strtoll_def c dropWhile_int_str[OF ws] strip_sign_int_str
    by (simp add: takeWhile_nat_str[OF r'] digits_val_nat_str Let_def)
qed

lemma sto_bits_int_str:
  "\<forall>c \<in> set ws. isspace_c c \<Longrightarrow> r = [] \<or> \<not> isdigit_c (hd r) \<Longrightarrow> in_range n i \<Longrightarrow>
   sto_bits n (ws @ int_str i @ r) = Some i"
  by (simp add: sto_bits_def strtoll_int_str)

lemma Split_pieces: "sep \<noteq> [] \<Longrightarrow> x \<in> set (Split s sep) \<Longrightarrow> find_sub sep x = None"
proof (induction "length s" arbitrary: s rule: less_induct)
  case less
  show ?case
  proof (cases "find_sub sep s")
    case (Some p)
    then have "length (drop (p + length sep) s) < length s"
      using find_sub_le[OF Some] less.prems by (simp flip: length_greater_0_conv)
    note ih = less.hyps[OF this less.prems(1)]
    show ?thesis
      using ih less.prems Some by (auto simp: Split_unfold[of sep s] find_sub_take)
  qed (use less.prems in \<open>simp add: Split_unfold split: if_splits\<close>)
qed

text \<open>\<open>Split\<close> cuts at every separator and loses nothing but one trailing separator: joining
  the pieces gives the text back, up to that separator, and no piece contains the separator.\<close>

lemma Split_spec:
  assumes "sep \<noteq> []"
  shows "(s = join sep (Split s sep) \<or> s = join sep (Split s sep) @ sep) \<and>
    (\<forall>x \<in> set (Split s sep). find_sub sep x = None)"
  using Split_join[OF assms] Split_pieces[OF assms] by blast

lemma Split_spec_witness:
  "''a.bc.'' = join ''.'' (Split ''a.bc.'' ''.'') \<or> ''a.bc.'' = join ''.'' (Split ''a.bc.'' ''.'') @ ''.''"
  using Split_spec[of "''.''" "''a.bc.''"] by simp

end
