(* ===== verification/CdfPsk.thy ===== *)
theory CdfPsk
  imports CdfBase64 CdfStrUtils
begin

section \<open>PSK management (\<open>modules/psk_management\<close>)\<close>

text \<open>
  The manager of pre-shared keys: the \<open>Psk\<close> object, the registry of user callbacks
  (\<open>PskCallbackMgr\<close>) and the singleton \<open>PskManager\<close> with its two maps. What the manager calls
  and is not its own code is the record \<open>psk_env\<close>, an argument of every operation: file checks of
  the key manager's binary, the key manager (\<open>Init\<close>, \<open>UnInit\<close>, \<open>KmCryptor::Encrypt\<close> and
  \<open>Decrypt\<close>), \<open>/dev/random\<close>, the clock, the C library's time conversions and rapidjson. An
  operation returns its result code, its output where it has one, and the next state; the calls
  made to user callbacks are appended to \<open>cb_log\<close>, in order, with what they returned.
\<close>

subsection \<open>Data\<close>

datatype PskManagerRC =
    PSK_OK | PSK_ERROR | PSK_INVALID_PARAM | PSK_UNINITED | PSK_INIT_FAILED | PSK_NOT_EXIST
  | PSK_UNSUPPORTED | PSK_HAS_EXPIRED | PSK_ENCRYPTO_FAIL | PSK_DECRYPTO_FAIL
  | CALL_BACK_UNREGISTED | CALL_BACK_EXECUTE_FAILED | CALL_BACK_REGISTER_FAILED
  | CALL_BACK_TYPE_MISMATCH | CALL_BACK_STANDARD_LIBRARY_EXCEPTION | CALL_BACK_UN_KNOWN

record Psk =
  pskId :: u32
  issuer :: bytes
  subject :: bytes
  pskLength :: u32
  pskContent :: bytes
  validDays :: u32
  beginTime :: time_t
  endTime :: time_t

text \<open>\<open>SecureClean\<close> overwrites the content before it frees it; a new content replaces a cleaned one.\<close>

definition Psk_SecureClean :: "Psk \<Rightarrow> Psk" where
  "Psk_SecureClean p = (if pskContent p \<noteq> [] then p\<lparr>pskContent := []\<rparr> else p)"

definition SetPskContent :: "bytes \<Rightarrow> Psk \<Rightarrow> Psk" where
  "SetPskContent newContent p = (Psk_SecureClean p)\<lparr>pskContent := newContent\<rparr>"

lemma SetPskContent_eq [simp]: "SetPskContent c p = p\<lparr>pskContent := c\<rparr>"
  by (simp add: SetPskContent_def Psk_SecureClean_def)

record PskParam =
  pp_issuer :: bytes
  pp_subject :: bytes
  pp_pskLength :: u32
  pp_beginTime :: time_t
  pp_validDays :: u32

record PskMetaData =
  md_pskId :: u32
  md_issuer :: bytes
  md_subject :: bytes
  md_pskLength :: u32
  md_validDays :: u32
  md_beginTime :: time_t
  md_endTime :: time_t

text \<open>A \<open>std::string_view\<close> with a null \<open>data()\<close> is \<open>None\<close>.\<close>

record PsKManagerInitOptions =
  algType :: CryptoSymAlg
  keyManagerType :: KeyManagerTy
  exePath :: "bytes option"
  accessToken :: "bytes option"
  domainCount :: u32
  domainId :: u32
  pskMaxCount :: u32

definition default_options :: PsKManagerInitOptions where
  "default_options =
    \<lparr>algType = AES256_GCM, keyManagerType = OPENBAO, exePath = None, accessToken = None,
     domainCount = 2, domainId = 0, pskMaxCount = 100000\<rparr>"

definition PSK_MAX_COUNT_LIMIT_MIN :: u32 where "PSK_MAX_COUNT_LIMIT_MIN = 1"
definition PSK_MAX_COUNT_LIMIT_MAX :: u32 where "PSK_MAX_COUNT_LIMIT_MAX = 4294967295"
definition PSK_NAME_LENGTH_MAX :: nat where "PSK_NAME_LENGTH_MAX = 64"
definition PSK_VALID_DAYS_MAX :: u32 where "PSK_VALID_DAYS_MAX = 365"
definition DAY_TO_SECOND_TIME :: u32 where "DAY_TO_SECOND_TIME = 24 * 60 * 60"

subsection \<open>Callbacks (\<open>PskCallbackMgr\<close>)\<close>

text \<open>What calling a user function ends with, and a call as it is logged.\<close>

datatype cb_outcome = CbReturn PskManagerRC | CbStdException | CbOtherException

datatype cb_call =
    CbCreate u32 bytes cb_outcome | CbUpdate u32 bytes cb_outcome | CbDelete u32 cb_outcome

datatype PskCallBackType = CREATE_PSK | UPDATE_PSK | DELETE_PSK

record cb_mgr =
  create_cb :: "(u32 \<Rightarrow> bytes \<Rightarrow> cb_outcome) option"
  update_cb :: "(u32 \<Rightarrow> bytes \<Rightarrow> cb_outcome) option"
  delete_cb :: "(u32 \<Rightarrow> cb_outcome) option"
  cb_log :: "cb_call list"

definition empty_cb_mgr :: cb_mgr where
  "empty_cb_mgr = \<lparr>create_cb = None, update_cb = None, delete_cb = None, cb_log = []\<rparr>"

definition RegisterCreatePskCallBack ::
  "(u32 \<Rightarrow> bytes \<Rightarrow> cb_outcome) option \<Rightarrow> cb_mgr \<Rightarrow> PskManagerRC \<times> cb_mgr" where
  "RegisterCreatePskCallBack cb m =
    (if cb = None then (PSK_INVALID_PARAM, m) else (PSK_OK, m\<lparr>create_cb := cb\<rparr>))"

definition RegisterUpdatePskCallBack ::
  "(u32 \<Rightarrow> bytes \<Rightarrow> cb_outcome) option \<Rightarrow> cb_mgr \<Rightarrow> PskManagerRC \<times> cb_mgr" where
  "RegisterUpdatePskCallBack cb m =
    (if cb = None then (PSK_INVALID_PARAM, m) else (PSK_OK, m\<lparr>update_cb := cb\<rparr>))"

definition RegisterDeletePskCallBack ::
  "(u32 \<Rightarrow> cb_outcome) option \<Rightarrow> cb_mgr \<Rightarrow> PskManagerRC \<times> cb_mgr" where
  "RegisterDeletePskCallBack cb m =
    (if cb = None then (PSK_INVALID_PARAM, m) else (PSK_OK, m\<lparr>delete_cb := cb\<rparr>))"

definition IsCallbackRegistered :: "PskCallBackType \<Rightarrow> cb_mgr \<Rightarrow> PskManagerRC" where
  "IsCallbackRegistered ty m =
    (if (case ty of CREATE_PSK \<Rightarrow> create_cb m = None | UPDATE_PSK \<Rightarrow> update_cb m = None
         | DELETE_PSK \<Rightarrow> delete_cb m = None)
     then CALL_BACK_UNREGISTED else PSK_OK)"

text \<open>The handlers of \<open>Trigger\<close>'s \<open>try\<close> block. The argument types of every call match the
  registered function's, so \<open>bad_any_cast\<close> does not occur.\<close>

fun cb_rc :: "cb_outcome \<Rightarrow> PskManagerRC" where
  "cb_rc (CbReturn rc) = rc"
| "cb_rc CbStdException = CALL_BACK_STANDARD_LIBRARY_EXCEPTION"
| "cb_rc CbOtherException = CALL_BACK_UN_KNOWN"

definition Trigger_create :: "u32 \<Rightarrow> bytes \<Rightarrow> cb_mgr \<Rightarrow> PskManagerRC \<times> cb_mgr" where
  "Trigger_create i ct m =
    (case create_cb m of
       None \<Rightarrow> (CALL_BACK_UNREGISTED, m)
     | Some f \<Rightarrow> (cb_rc (f i ct), m\<lparr>cb_log := cb_log m @ [CbCreate i ct (f i ct)]\<rparr>))"

definition Trigger_update :: "u32 \<Rightarrow> bytes \<Rightarrow> cb_mgr \<Rightarrow> PskManagerRC \<times> cb_mgr" where
  "Trigger_update i ct m =
    (case update_cb m of
       None \<Rightarrow> (CALL_BACK_UNREGISTED, m)
     | Some f \<Rightarrow> (cb_rc (f i ct), m\<lparr>cb_log := cb_log m @ [CbUpdate i ct (f i ct)]\<rparr>))"

definition Trigger_delete :: "u32 \<Rightarrow> cb_mgr \<Rightarrow> PskManagerRC \<times> cb_mgr" where
  "Trigger_delete i m =
    (case delete_cb m of
       None \<Rightarrow> (CALL_BACK_UNREGISTED, m)
     | Some f \<Rightarrow> (cb_rc (f i), m\<lparr>cb_log := cb_log m @ [CbDelete i (f i)]\<rparr>))"

subsection \<open>Environment and state of the manager\<close>

text \<open>\<open>struct tm\<close>, as far as the format \<open>%Y-%m-%d %H:%M:%S\<close> reads and writes it.\<close>

record tm =
  tm_year :: int
  tm_mon :: int
  tm_mday :: int
  tm_hour :: int
  tm_min :: int
  tm_sec :: int

text \<open>
  \<open>pe_canonical\<close> is \<open>FileUtils::CanonicalPath\<close> (\<open>None\<close> when it fails), \<open>pe_access\<close> is
  \<open>FileUtils::CheckUserAccess\<close> for read and execute. \<open>pe_random n\<close> is \<open>None\<close> when
  \<open>/dev/random\<close> cannot be opened and else the bytes \<open>read\<close> delivered, at most \<open>n\<close>.
  \<open>pe_strftime\<close> is the contents of the 20-byte buffer after \<open>strftime\<close> on the local time;
  \<open>pe_strptime\<close> is \<open>strptime\<close> with the remaining text, \<open>None\<close> for a null result.
\<close>

record psk_env =
  pe_canonical :: "bytes \<Rightarrow> bytes option"
  pe_access :: "bytes \<Rightarrow> bool"
  pe_km_init :: "KeyManagerTy \<Rightarrow> bytes \<Rightarrow> bytes \<Rightarrow> u32 \<Rightarrow> KeyManagerRC"
  pe_km_uninit :: "KeyManagerTy \<Rightarrow> KeyManagerRC"
  pe_encrypt :: "KeyManagerTy \<Rightarrow> CryptoSymAlg \<Rightarrow> bytes \<Rightarrow> u32 \<Rightarrow> CryptionRC \<times> bytes"
  pe_decrypt :: "KeyManagerTy \<Rightarrow> CryptoSymAlg \<Rightarrow> bytes \<Rightarrow> u32 \<Rightarrow> CryptionRC \<times> bytes"
  pe_random :: "nat \<Rightarrow> bytes option"
  pe_now :: time_t
  pe_strftime :: "time_t \<Rightarrow> bytes"
  pe_strptime :: "bytes \<Rightarrow> (tm \<times> bytes) option"
  pe_mktime :: "tm \<Rightarrow> time_t"
  pe_json_parse :: "bytes \<Rightarrow> json option"
  pe_json_write :: "json \<Rightarrow> bytes"

text \<open>The maps are \<open>std::map\<close>s: \<open>pskContentMap\<close> from contents to ids, \<open>pskIdMap\<close> from ids to objects.\<close>

record psk_state =
  options :: PsKManagerInitOptions
  initCount :: int
  pskContentMap :: "bytes \<rightharpoonup> u32"
  pskIdMap :: "u32 \<rightharpoonup> Psk"
  curPskMaxId :: u32
  cbs :: cb_mgr

definition psk_init_state :: psk_state where
  "psk_init_state =
    \<lparr>options = default_options, initCount = 0, pskContentMap = Map.empty,
     pskIdMap = Map.empty, curPskMaxId = 1, cbs = empty_cb_mgr\<rparr>"

definition CheckInited :: "psk_state \<Rightarrow> bool" where
  "CheckInited s \<longleftrightarrow> initCount s > 0"

text \<open>\<open>std::map::emplace\<close> and \<open>insert\<close>: an existing entry is kept.\<close>

definition map_emplace :: "'k \<Rightarrow> 'v \<Rightarrow> ('k \<rightharpoonup> 'v) \<Rightarrow> ('k \<rightharpoonup> 'v)" where
  "map_emplace k v m = (if m k = None then m(k \<mapsto> v) else m)"

definition map_erase :: "'k \<Rightarrow> ('k \<rightharpoonup> 'v) \<Rightarrow> ('k \<rightharpoonup> 'v)" where
  "map_erase k m = m(k := None)"

definition KeyManagerFactory_Borrow_ok :: "KeyManagerTy \<Rightarrow> bool" where
  "KeyManagerFactory_Borrow_ok ty = (case ty of OPENBAO \<Rightarrow> True | VAULT \<Rightarrow> True | KMT_UNKNOWN \<Rightarrow> False)"

definition path_usable :: "psk_env \<Rightarrow> bytes \<Rightarrow> bool" where
  "path_usable e p = (case pe_canonical e p of None \<Rightarrow> False | Some q \<Rightarrow> pe_access e q)"

definition ValidateInitOptions ::
  "psk_env \<Rightarrow> PsKManagerInitOptions \<Rightarrow> psk_state \<Rightarrow> PskManagerRC \<times> psk_state" where
  "ValidateInitOptions e opt s =
    (if algType opt \<noteq> AES256_GCM \<and> algType opt \<noteq> CHACHA20_POLY1305 then (PSK_INVALID_PARAM, s)
     else if keyManagerType opt \<noteq> OPENBAO \<and> keyManagerType opt \<noteq> VAULT then (PSK_INVALID_PARAM, s)
     else (case exePath opt of
       None \<Rightarrow> (PSK_INVALID_PARAM, s)
     | Some p \<Rightarrow>
         if \<not> path_usable e p then (PSK_INVALID_PARAM, s)
         else (case accessToken opt of
           None \<Rightarrow> (PSK_INVALID_PARAM, s)
         | Some tok \<Rightarrow>
             if tok = [] then (PSK_INVALID_PARAM, s)
             else if domainId opt \<ge> domainCount opt then (PSK_INVALID_PARAM, s)
             else if pskMaxCount opt < PSK_MAX_COUNT_LIMIT_MIN \<or> pskMaxCount opt > PSK_MAX_COUNT_LIMIT_MAX
             then (PSK_INVALID_PARAM, s)
             else (PSK_OK, s\<lparr>options := opt\<rparr>))))"

definition view_of :: "bytes option \<Rightarrow> bytes" where
  "view_of v = (case v of None \<Rightarrow> [] | Some s \<Rightarrow> s)"

definition Psk_Init :: "psk_env \<Rightarrow> PsKManagerInitOptions \<Rightarrow> psk_state \<Rightarrow> PskManagerRC \<times> psk_state" where
  "Psk_Init e opt s =
    (if CheckInited s then (PSK_OK, s\<lparr>initCount := initCount s + 1\<rparr>)
     else (case ValidateInitOptions e opt s of (result, s1) \<Rightarrow>
       if result \<noteq> PSK_OK then (result, s1)
       else let o1 = options s1 in
         if \<not> KeyManagerFactory_Borrow_ok (keyManagerType o1) then (PSK_ERROR, s1)
         else if pe_km_init e (keyManagerType o1) (view_of (exePath o1)) (view_of (accessToken o1))
                   (domainCount o1) \<noteq> KM_OK
         then (PSK_INIT_FAILED, s1)
         else (PSK_OK, s1\<lparr>initCount := initCount s1 + 1\<rparr>)))"

definition Psk_UnInit :: "psk_env \<Rightarrow> psk_state \<Rightarrow> PskManagerRC \<times> psk_state" where
  "Psk_UnInit e s =
    (let s1 = s\<lparr>initCount := initCount s - 1\<rparr>; ty = keyManagerType (options s1) in
     if initCount s1 < 0 then (PSK_OK, s1\<lparr>initCount := 0\<rparr>)
     else if initCount s1 > 0 then (PSK_OK, s1)
     else if \<not> KeyManagerFactory_Borrow_ok ty then (PSK_ERROR, s1)
     else if pe_km_uninit e ty \<noteq> KM_OK then (PSK_INIT_FAILED, s1)
     else (PSK_OK, s1\<lparr>pskContentMap := Map.empty, pskIdMap := Map.empty, curPskMaxId := 1,
                      options := default_options\<rparr>))"

subsection \<open>Validation, tokens and encryption\<close>

definition valid_meta :: "bytes \<Rightarrow> bytes \<Rightarrow> u32 \<Rightarrow> u32 \<Rightarrow> bool" where
  "valid_meta iss sub len days \<longleftrightarrow>
     1 \<le> length iss \<and> length iss \<le> PSK_NAME_LENGTH_MAX \<and>
     1 \<le> length sub \<and> length sub \<le> PSK_NAME_LENGTH_MAX \<and>
     (len = 256 \<or> len = 384 \<or> len = 512) \<and> 1 \<le> days \<and> days \<le> PSK_VALID_DAYS_MAX"

definition ValidatePskParams :: "PskParam \<Rightarrow> psk_state \<Rightarrow> PskManagerRC" where
  "ValidatePskParams p s =
    (if curPskMaxId s > pskMaxCount (options s) then PSK_INVALID_PARAM
     else if valid_meta (pp_issuer p) (pp_subject p) (pp_pskLength p) (pp_validDays p) then PSK_OK
     else PSK_INVALID_PARAM)"

definition FormatTime :: "psk_env \<Rightarrow> time_t \<Rightarrow> bytes" where
  "FormatTime e t = c_str (pe_strftime e t)"

definition ParseTime :: "psk_env \<Rightarrow> bytes \<Rightarrow> time_t option" where
  "ParseTime e str =
    (case pe_strptime e (c_str str) of
       None \<Rightarrow> None
     | Some (t, rest) \<Rightarrow>
         if rest \<noteq> [] then None
         else if pe_mktime e t = -1 then None else Some (pe_mktime e t))"

definition ConstructPskMetaJson :: "psk_env \<Rightarrow> Psk \<Rightarrow> json" where
  "ConstructPskMetaJson e p = JObject
    [(''pskId'', JInt (uint (pskId p))),
     (''issuer'', JString (c_str (issuer p))),
     (''subject'', JString (c_str (subject p))),
     (''pskLength'', JInt (uint (pskLength p))),
     (''validDays'', JInt (uint (validDays p))),
     (''beginTime'', JString (FormatTime e (beginTime p))),
     (''endTime'', JString (FormatTime e (endTime p)))]"

definition ConstructPskMetaJsonString :: "psk_env \<Rightarrow> Psk \<Rightarrow> bytes" where
  "ConstructPskMetaJsonString e p = c_str (pe_json_write e (ConstructPskMetaJson e p))"

definition end_time_of :: "time_t \<Rightarrow> u32 \<Rightarrow> time_t" where
  "end_time_of t days = t + uint (days * DAY_TO_SECOND_TIME)"

definition BuildPskObj :: "PskParam \<Rightarrow> bytes \<Rightarrow> psk_state \<Rightarrow> Psk" where
  "BuildPskObj p content s =
    \<lparr>pskId = curPskMaxId s, issuer = pp_issuer p, subject = pp_subject p,
     pskLength = pp_pskLength p, pskContent = content, validDays = pp_validDays p,
     beginTime = pp_beginTime p, endTime = end_time_of (pp_beginTime p) (pp_validDays p)\<rparr>"

definition GeneratePskContent :: "psk_env \<Rightarrow> u32 \<Rightarrow> PskManagerRC + bytes" where
  "GeneratePskContent e len =
    (if len = 0 then Inl PSK_INVALID_PARAM
     else (case pe_random e (unat len) of
       None \<Rightarrow> Inl PSK_ERROR
     | Some bs \<Rightarrow> if length bs \<noteq> unat len then Inl PSK_ERROR else Inr bs))"

definition EncryptPskToken :: "psk_env \<Rightarrow> bytes \<Rightarrow> psk_state \<Rightarrow> PskManagerRC + bytes" where
  "EncryptPskToken e tok s =
    (let o1 = options s in
     case pe_encrypt e (keyManagerType o1) (algType o1) tok (domainId o1) of (rc, cipher) \<Rightarrow>
       if rc \<noteq> CRC_OK then Inl PSK_ENCRYPTO_FAIL else Inr cipher)"

definition DecryptPskCiphertext :: "psk_env \<Rightarrow> bytes \<Rightarrow> psk_state \<Rightarrow> PskManagerRC + bytes" where
  "DecryptPskCiphertext e ct s =
    (let o1 = options s in
     case pe_decrypt e (keyManagerType o1) (algType o1) ct (domainId o1) of (rc, plaintext) \<Rightarrow>
       if rc \<noteq> CRC_OK then Inl PSK_DECRYPTO_FAIL else Inr plaintext)"

definition ConcatenatePskToken :: "bytes \<Rightarrow> bytes \<Rightarrow> bytes" where
  "ConcatenatePskToken content meta =
    Base64Encode (Some content) @ [CHR ''.''] @ Base64Encode (Some meta)"

definition SplitPskToken :: "bytes \<Rightarrow> (bytes \<times> bytes) option" where
  "SplitPskToken tok =
    (case find_sub ''.'' tok of
       None \<Rightarrow> None
     | Some dotPos \<Rightarrow> Some (Base64Decode (take dotPos tok), Base64Decode (drop (dotPos + 1) tok)))"

definition BuildAndEncryptPskToken :: "psk_env \<Rightarrow> Psk \<Rightarrow> psk_state \<Rightarrow> PskManagerRC + bytes" where
  "BuildAndEncryptPskToken e p s =
    EncryptPskToken e (ConcatenatePskToken (pskContent p) (ConstructPskMetaJsonString e p)) s"

subsection \<open>Operations\<close>

text \<open>The three triggers: an unregistered callback is skipped, any result but \<open>OK\<close> is a failure.\<close>

definition TriggerCreatePskCallback :: "u32 \<Rightarrow> bytes \<Rightarrow> psk_state \<Rightarrow> PskManagerRC \<times> psk_state" where
  "TriggerCreatePskCallback i ct s =
    (if IsCallbackRegistered CREATE_PSK (cbs s) \<noteq> PSK_OK then (PSK_OK, s)
     else case Trigger_create i ct (cbs s) of (cbRet, m) \<Rightarrow>
       (if cbRet \<noteq> PSK_OK then CALL_BACK_EXECUTE_FAILED else PSK_OK, s\<lparr>cbs := m\<rparr>))"

definition TriggerUpdatePskCallback :: "u32 \<Rightarrow> bytes \<Rightarrow> psk_state \<Rightarrow> PskManagerRC \<times> psk_state" where
  "TriggerUpdatePskCallback i ct s =
    (if IsCallbackRegistered UPDATE_PSK (cbs s) \<noteq> PSK_OK then (PSK_OK, s)
     else case Trigger_update i ct (cbs s) of (cbRet, m) \<Rightarrow>
       (if cbRet \<noteq> PSK_OK then CALL_BACK_EXECUTE_FAILED else PSK_OK, s\<lparr>cbs := m\<rparr>))"

definition TriggerDeletePskCallback :: "u32 \<Rightarrow> psk_state \<Rightarrow> PskManagerRC \<times> psk_state" where
  "TriggerDeletePskCallback i s =
    (if IsCallbackRegistered DELETE_PSK (cbs s) \<noteq> PSK_OK then (PSK_OK, s)
     else case Trigger_delete i (cbs s) of (cbRet, m) \<Rightarrow>
       (if cbRet \<noteq> PSK_OK then CALL_BACK_EXECUTE_FAILED else PSK_OK, s\<lparr>cbs := m\<rparr>))"

text \<open>The two \<open>emplace\<close> calls and the \<open>fetch_add\<close> that end a creation.\<close>

definition store_new :: "Psk \<Rightarrow> psk_state \<Rightarrow> psk_state" where
  "store_new p s = s\<lparr>pskContentMap := map_emplace (pskContent p) (pskId p) (pskContentMap s),
                     pskIdMap := map_emplace (pskId p) p (pskIdMap s),
                     curPskMaxId := curPskMaxId s + 1\<rparr>"

definition create_psk :: "psk_env \<Rightarrow> Psk \<Rightarrow> psk_state \<Rightarrow> PskManagerRC \<times> Psk option \<times> psk_state" where
  "create_psk e p s =
    (case BuildAndEncryptPskToken e p s of
       Inl rc \<Rightarrow> (rc, None, s)
     | Inr encryptedPskToken \<Rightarrow>
         (case TriggerCreatePskCallback (pskId p) encryptedPskToken s of (rc, s1) \<Rightarrow>
           if rc \<noteq> PSK_OK then (CALL_BACK_EXECUTE_FAILED, None, s1)
           else (PSK_OK, Some p, store_new p s1)))"

definition GeneratePsk ::
  "psk_env \<Rightarrow> PskParam \<Rightarrow> psk_state \<Rightarrow> PskManagerRC \<times> Psk option \<times> psk_state" where
  "GeneratePsk e p s =
    (if \<not> CheckInited s then (PSK_UNINITED, None, s)
     else let result = ValidatePskParams p s in
       if result \<noteq> PSK_OK then (result, None, s)
       else (case GeneratePskContent e (pp_pskLength p) of
         Inl rc \<Rightarrow> (rc, None, s)
       | Inr content \<Rightarrow> create_psk e (BuildPskObj p content s) s))"

definition ImportPsk ::
  "psk_env \<Rightarrow> PskParam \<Rightarrow> bytes \<Rightarrow> psk_state \<Rightarrow> PskManagerRC \<times> Psk option \<times> psk_state" where
  "ImportPsk e p content s =
    (if \<not> CheckInited s then (PSK_UNINITED, None, s)
     else let result = ValidatePskParams p s in
       if result \<noteq> PSK_OK then (result, None, s)
       else if unat (pp_pskLength p) \<noteq> length content then (PSK_INVALID_PARAM, None, s)
       else create_psk e (BuildPskObj p content s) s)"

definition DeletePsk :: "u32 \<Rightarrow> psk_state \<Rightarrow> PskManagerRC \<times> psk_state" where
  "DeletePsk i s =
    (if \<not> CheckInited s then (PSK_UNINITED, s)
     else (case pskIdMap s i of
       None \<Rightarrow> (PSK_NOT_EXIST, s)
     | Some p \<Rightarrow>
         (case TriggerDeletePskCallback i s of (rc, s1) \<Rightarrow>
           if rc \<noteq> PSK_OK then (CALL_BACK_EXECUTE_FAILED, s1)
           else (PSK_OK, s1\<lparr>pskContentMap := map_erase (pskContent p) (pskContentMap s1),
                            pskIdMap := map_erase i (pskIdMap s1)\<rparr>))))"

definition ClearAllData :: "psk_state \<Rightarrow> psk_state" where
  "ClearAllData s = s\<lparr>pskContentMap := Map.empty, pskIdMap := Map.empty, curPskMaxId := 1,
                      options := default_options\<rparr>"

definition ValidatePskMetaData :: "PskMetaData \<Rightarrow> psk_state \<Rightarrow> PskManagerRC" where
  "ValidatePskMetaData d s =
    (if md_pskId d > pskMaxCount (options s) then PSK_INVALID_PARAM
     else if valid_meta (md_issuer d) (md_subject d) (md_pskLength d) (md_validDays d) then PSK_OK
     else PSK_INVALID_PARAM)"

definition BuildPskObjWithMetaData :: "PskMetaData \<Rightarrow> bytes \<Rightarrow> psk_state \<Rightarrow> Psk" where
  "BuildPskObjWithMetaData d content s =
    \<lparr>pskId = curPskMaxId s, issuer = md_issuer d, subject = md_subject d,
     pskLength = md_pskLength d, pskContent = content, validDays = md_validDays d,
     beginTime = md_beginTime d, endTime = md_endTime d\<rparr>"

text \<open>\<open>HasMember(k) && doc[k].IsUint()\<close> with the value, and the same for strings.\<close>

definition uint_field :: "bytes \<Rightarrow> json \<Rightarrow> u32 option" where
  "uint_field k doc = Option.bind (json_member k doc) json_uint"

definition string_field :: "bytes \<Rightarrow> json \<Rightarrow> bytes option" where
  "string_field k doc = map_option c_str (Option.bind (json_member k doc) json_string)"

definition ParsePskMetaJsonString :: "psk_env \<Rightarrow> bytes \<Rightarrow> PskMetaData option" where
  "ParsePskMetaJsonString e txt =
    (case pe_json_parse e (c_str txt) of
       None \<Rightarrow> None
     | Some doc \<Rightarrow>
         if \<not> json_is_object doc then None
         else (case (uint_field ''pskId'' doc, string_field ''issuer'' doc, string_field ''subject'' doc,
                     uint_field ''pskLength'' doc, uint_field ''validDays'' doc,
                     string_field ''beginTime'' doc, string_field ''endTime'' doc) of
           (Some i, Some iss, Some sub, Some len, Some days, Some bt, Some et) \<Rightarrow>
             (case (ParseTime e bt, ParseTime e et) of
               (Some b, Some t) \<Rightarrow> Some \<lparr>md_pskId = i, md_issuer = iss, md_subject = sub, md_pskLength = len,
                                      md_validDays = days, md_beginTime = b, md_endTime = t\<rparr>
             | _ \<Rightarrow> None)
         | _ \<Rightarrow> None))"

definition DecryptAndParsePskToken ::
  "psk_env \<Rightarrow> bytes \<Rightarrow> psk_state \<Rightarrow> PskManagerRC + bytes \<times> PskMetaData" where
  "DecryptAndParsePskToken e ct s =
    (case DecryptPskCiphertext e ct s of
       Inl rc \<Rightarrow> Inl rc
     | Inr tok \<Rightarrow>
         (case SplitPskToken tok of
           None \<Rightarrow> Inl PSK_ERROR
         | Some (content, metaJson) \<Rightarrow>
             (case ParsePskMetaJsonString e metaJson of
               None \<Rightarrow> Inl PSK_ERROR
             | Some d \<Rightarrow> Inr (content, d))))"

text \<open>The \<open>for\<close> loop of \<open>LoadAllPsk\<close>: it stops at the first failure and keeps what was loaded.\<close>

fun load_loop :: "psk_env \<Rightarrow> bytes list \<Rightarrow> psk_state \<Rightarrow> PskManagerRC \<times> psk_state" where
  "load_loop e [] s = (PSK_OK, s)"
| "load_loop e (ct # cts) s =
    (if ct = [] then (PSK_INVALID_PARAM, s)
     else (case DecryptAndParsePskToken e ct s of
       Inl rc \<Rightarrow> (rc, s)
     | Inr (content, d) \<Rightarrow>
         let rc = ValidatePskMetaData d s in
         if rc \<noteq> PSK_OK then (rc, s)
         else load_loop e cts (store_new (BuildPskObjWithMetaData d content s) s)))"

definition LoadAllPsk :: "psk_env \<Rightarrow> bytes list \<Rightarrow> psk_state \<Rightarrow> PskManagerRC \<times> psk_state" where
  "LoadAllPsk e cts s =
    (if \<not> CheckInited s then (PSK_UNINITED, s)
     else if cts = [] then (PSK_INVALID_PARAM, s)
     else load_loop e cts (ClearAllData s))"

text \<open>
  \<open>UpdatePsk\<close> accepts an id, a content, or both when they name the same object. The length check
  of the content is only logged and does not change the result. The output argument is assigned
  before the encryption; on a later failure it is left with an empty content.
\<close>

definition isValidPskLength :: "bytes \<Rightarrow> bool" where
  "isValidPskLength content \<longleftrightarrow>
     length content \<le> 512 \<and> (length content = 256 \<or> length content = 384 \<or> length content = 512)"

definition find_psk :: "u32 \<Rightarrow> bytes \<Rightarrow> psk_state \<Rightarrow> Psk option" where
  "find_psk i content s =
    (case (pskIdMap s i, pskContentMap s content) of
       (Some p, Some j) \<Rightarrow> if pskId p = j then Some p else None
     | (Some p, None) \<Rightarrow> Some p
     | (None, Some j) \<Rightarrow> pskIdMap s j
     | (None, None) \<Rightarrow> None)"

definition renew :: "psk_env \<Rightarrow> bytes \<Rightarrow> Psk \<Rightarrow> Psk" where
  "renew e newContent p =
    p\<lparr>pskContent := newContent, beginTime := pe_now e, endTime := end_time_of (pe_now e) (validDays p)\<rparr>"

definition replace_psk :: "Psk \<Rightarrow> Psk \<Rightarrow> psk_state \<Rightarrow> psk_state" where
  "replace_psk prePsk p s =
    s\<lparr>pskIdMap := map_emplace (pskId p) p (map_erase (pskId prePsk) (pskIdMap s)),
      pskContentMap := map_emplace (pskContent p) (pskId p)
        (map_erase (pskContent prePsk) (pskContentMap s))\<rparr>"

definition UpdatePsk ::
  "psk_env \<Rightarrow> u32 \<Rightarrow> bytes \<Rightarrow> psk_state \<Rightarrow> PskManagerRC \<times> Psk option \<times> psk_state" where
  "UpdatePsk e i content s =
    (if \<not> CheckInited s then (PSK_UNINITED, None, s)
     else (case find_psk i content s of
       None \<Rightarrow> (PSK_INVALID_PARAM, None, s)
     | Some prePsk \<Rightarrow>
         (case GeneratePskContent e (pskLength prePsk) of
           Inl rc \<Rightarrow> (rc, None, s)
         | Inr newContent \<Rightarrow>
             let p = renew e newContent prePsk in
             (case BuildAndEncryptPskToken e p s of
               Inl rc \<Rightarrow> (rc, Some (p\<lparr>pskContent := []\<rparr>), s)
             | Inr encryptedPskToken \<Rightarrow>
                 (case TriggerUpdatePskCallback (pskId p) encryptedPskToken s of (rc, s1) \<Rightarrow>
                   if rc \<noteq> PSK_OK then (CALL_BACK_EXECUTE_FAILED, Some (p\<lparr>pskContent := []\<rparr>), s1)
                   else (PSK_OK, Some p, replace_psk prePsk p s1))))))"

definition GetPsk :: "u32 \<Rightarrow> psk_state \<Rightarrow> PskManagerRC \<times> bytes option" where
  "GetPsk i s =
    (if \<not> CheckInited s then (PSK_UNINITED, None)
     else (case pskIdMap s i of
       None \<Rightarrow> (PSK_NOT_EXIST, None)
     | Some p \<Rightarrow> (PSK_OK, Some (pskContent p))))"

definition ConstructPskMetaData :: "Psk \<Rightarrow> PskMetaData" where
  "ConstructPskMetaData p =
    \<lparr>md_pskId = pskId p, md_issuer = issuer p, md_subject = subject p, md_pskLength = pskLength p,
     md_validDays = validDays p, md_beginTime = beginTime p, md_endTime = endTime p\<rparr>"

definition GetPskMetaData :: "u32 \<Rightarrow> psk_state \<Rightarrow> PskManagerRC \<times> PskMetaData option" where
  "GetPskMetaData i s =
    (if \<not> CheckInited s then (PSK_UNINITED, None)
     else (case pskIdMap s i of
       None \<Rightarrow> (PSK_NOT_EXIST, None)
     | Some p \<Rightarrow> (PSK_OK, Some (ConstructPskMetaData p))))"

definition CheckPskValid :: "psk_env \<Rightarrow> u32 \<Rightarrow> psk_state \<Rightarrow> PskManagerRC" where
  "CheckPskValid e i s =
    (if \<not> CheckInited s then PSK_UNINITED
     else (case pskIdMap s i of
       None \<Rightarrow> PSK_NOT_EXIST
     | Some p \<Rightarrow> if pe_now e > endTime p then PSK_HAS_EXPIRED else PSK_OK))"

text \<open>The result is \<open>PSK_HAS_EXPIRED\<close> whether or not the update succeeded.\<close>

definition CheckPskValidAndAutoUpdate :: "psk_env \<Rightarrow> u32 \<Rightarrow> psk_state \<Rightarrow> PskManagerRC \<times> psk_state" where
  "CheckPskValidAndAutoUpdate e i s =
    (if \<not> CheckInited s then (PSK_UNINITED, s)
     else (case pskIdMap s i of
       None \<Rightarrow> (PSK_NOT_EXIST, s)
     | Some p \<Rightarrow>
         if pe_now e \<le> endTime p then (PSK_OK, s)
         else (case UpdatePsk e i [] s of (ret, _, s1) \<Rightarrow> (PSK_HAS_EXPIRED, s1))))"

subsection \<open>The manager as a state machine\<close>

datatype psk_op =
    OpInit psk_env PsKManagerInitOptions
  | OpUnInit psk_env
  | OpGenerate psk_env PskParam
  | OpImport psk_env PskParam bytes
  | OpUpdate psk_env u32 bytes
  | OpDelete u32
  | OpAutoUpdate psk_env u32
  | OpLoadAll psk_env "bytes list"
  | OpRegCreate "(u32 \<Rightarrow> bytes \<Rightarrow> cb_outcome) option"
  | OpRegUpdate "(u32 \<Rightarrow> bytes \<Rightarrow> cb_outcome) option"
  | OpRegDelete "(u32 \<Rightarrow> cb_outcome) option"

fun psk_step :: "psk_op \<Rightarrow> psk_state \<Rightarrow> psk_state" where
  "psk_step (OpInit e opt) s = snd (Psk_Init e opt s)"
| "psk_step (OpUnInit e) s = snd (Psk_UnInit e s)"
| "psk_step (OpGenerate e p) s = snd (snd (GeneratePsk e p s))"
| "psk_step (OpImport e p c) s = snd (snd (ImportPsk e p c s))"
| "psk_step (OpUpdate e i c) s = snd (snd (UpdatePsk e i c s))"
| "psk_step (OpDelete i) s = snd (DeletePsk i s)"
| "psk_step (OpAutoUpdate e i) s = snd (CheckPskValidAndAutoUpdate e i s)"
| "psk_step (OpLoadAll e cts) s = snd (LoadAllPsk e cts s)"
| "psk_step (OpRegCreate cb) s = s\<lparr>cbs := snd (RegisterCreatePskCallBack cb (cbs s))\<rparr>"
| "psk_step (OpRegUpdate cb) s = s\<lparr>cbs := snd (RegisterUpdatePskCallBack cb (cbs s))\<rparr>"
| "psk_step (OpRegDelete cb) s = s\<lparr>cbs := snd (RegisterDeletePskCallBack cb (cbs s))\<rparr>"

subsection \<open>The invariant of the two maps\<close>

definition id_entry_ok :: "psk_state \<Rightarrow> u32 \<Rightarrow> Psk \<Rightarrow> bool" where
  "id_entry_ok s i p \<longleftrightarrow> pskId p = i \<and> 1 \<le> i \<and> i < curPskMaxId s \<and>
     valid_meta (issuer p) (subject p) (pskLength p) (validDays p)"

definition psk_inv :: "psk_state \<Rightarrow> bool" where
  "psk_inv s \<longleftrightarrow>
     0 \<le> initCount s \<and> 1 \<le> curPskMaxId s \<and> pskMaxCount (options s) < 4294967295 \<and>
     (\<forall>i p. pskIdMap s i = Some p \<longrightarrow> id_entry_ok s i p) \<and>
     (\<forall>c i. pskContentMap s c = Some i \<longrightarrow> (\<exists>p. pskIdMap s i = Some p \<and> pskContent p = c))"

fun psk_ok :: "psk_op \<Rightarrow> bool" where
  "psk_ok (OpInit e opt) = (pskMaxCount opt < 4294967295)"
| "psk_ok (OpLoadAll e cts) = (length cts < 4294967295)"
| "psk_ok _ = True"

lemma u32_suc: "(w :: u32) < 4294967295 \<Longrightarrow> unat (w + 1) = unat w + 1 \<and> w < w + 1"
proof -
  assume "w < 4294967295"
  then have "w \<noteq> - 1" by auto
  then have "unat (1 + w) = Suc (unat w)"
    by (metis add_eq_0_iff unatSuc add.inverse_inverse)
  then show ?thesis by (simp add: add.commute word_less_nat_alt)
qed

lemma psk_invD:
  assumes "psk_inv s"
  shows "pskIdMap s i = Some p \<Longrightarrow> id_entry_ok s i p"
    and "pskContentMap s c = Some j \<Longrightarrow> \<exists>p. pskIdMap s j = Some p \<and> pskContent p = c"
    and "1 \<le> curPskMaxId s" "pskMaxCount (options s) < 4294967295" "0 \<le> initCount s"
  using assms by (auto simp: psk_inv_def)

lemma psk_inv_fresh: "psk_inv s \<Longrightarrow> pskIdMap s (curPskMaxId s) = None"
  using psk_invD(1)[of s "curPskMaxId s"] by (cases "pskIdMap s (curPskMaxId s)") (auto simp: id_entry_ok_def)

lemma psk_inv_store_new:
  assumes inv: "psk_inv s" and id: "pskId p = curPskMaxId s" and lim: "curPskMaxId s < 4294967295"
    and v: "valid_meta (issuer p) (subject p) (pskLength p) (validDays p)"
  shows "psk_inv (store_new p s)"
proof -
  note lt = u32_suc[OF lim]
  have new: "pskIdMap (store_new p s) = (pskIdMap s)(curPskMaxId s \<mapsto> p)"
    using psk_inv_fresh[OF inv] by (simp add: store_new_def map_emplace_def id)
  have "id_entry_ok (store_new p s) i q" if "pskIdMap (store_new p s) i = Some q" for i q
    using that lt id v psk_invD(1,3)[OF inv] unfolding new
    by (fastforce simp: id_entry_ok_def store_new_def split: if_splits)
  moreover have "\<exists>q. pskIdMap (store_new p s) i = Some q \<and> pskContent q = c"
    if "pskContentMap (store_new p s) c = Some i" for c i
    using that psk_invD(2)[OF inv] psk_inv_fresh[OF inv] id unfolding new
    by (fastforce simp: store_new_def map_emplace_def split: if_splits)
  moreover have "1 \<le> curPskMaxId s + 1"
    using lt psk_invD(3)[OF inv] by (simp add: word_le_nat_alt)
  ultimately show ?thesis
    using psk_invD(4,5)[OF inv] by (simp add: psk_inv_def) (simp add: store_new_def)
qed

lemma psk_inv_cbs [simp]: "psk_inv (s\<lparr>cbs := m\<rparr>) = psk_inv s"
  by (simp add: psk_inv_def id_entry_ok_def)

text \<open>What a change of the two maps has to satisfy.\<close>

lemma psk_inv_maps:
  assumes inv: "psk_inv s" and s': "s' = s\<lparr>pskContentMap := cm, pskIdMap := im\<rparr>"
    and ids: "\<And>i p. im i = Some p \<Longrightarrow> id_entry_ok s i p"
    and cts: "\<And>c i. cm c = Some i \<Longrightarrow> \<exists>p. im i = Some p \<and> pskContent p = c"
  shows "psk_inv s'"
  using psk_invD(3-5)[OF inv] ids cts by (simp add: psk_inv_def id_entry_ok_def s')

lemma psk_inv_delete:
  assumes inv: "psk_inv s" and p: "pskIdMap s i = Some p"
  shows "psk_inv (s\<lparr>pskContentMap := map_erase (pskContent p) (pskContentMap s),
                    pskIdMap := map_erase i (pskIdMap s)\<rparr>)"
proof (rule psk_inv_maps[OF inv refl])
  fix c j assume c: "map_erase (pskContent p) (pskContentMap s) c = Some j"
  then have "c \<noteq> pskContent p" "pskContentMap s c = Some j"
    by (auto simp: map_erase_def split: if_splits)
  moreover then obtain q where "pskIdMap s j = Some q" "pskContent q = c"
    using psk_invD(2)[OF inv] by blast
  ultimately show "\<exists>p. map_erase i (pskIdMap s) j = Some p \<and> pskContent p = c"
    using p by (cases "j = i") (auto simp: map_erase_def)
qed (use psk_invD(1)[OF inv] in \<open>auto simp: map_erase_def split: if_splits\<close>)

lemma psk_inv_replace:
  assumes inv: "psk_inv s" and q: "pskIdMap s (pskId q) = Some q"
    and id: "pskId p = pskId q" and v: "valid_meta (issuer p) (subject p) (pskLength p) (validDays p)"
  shows "psk_inv (replace_psk q p s)"
proof (rule psk_inv_maps[OF inv])
  show "replace_psk q p s = s\<lparr>
    pskContentMap := map_emplace (pskContent p) (pskId p) (map_erase (pskContent q) (pskContentMap s)),
    pskIdMap := (pskIdMap s)(pskId q \<mapsto> p)\<rparr>"
    by (simp add: replace_psk_def map_emplace_def map_erase_def id)
  fix i r assume "((pskIdMap s)(pskId q \<mapsto> p)) i = Some r"
  then show "id_entry_ok s i r"
    using psk_invD(1)[OF inv q] psk_invD(1)[OF inv, of i r] id v
    by (cases "i = pskId q") (simp_all add: id_entry_ok_def)
next
  fix c i assume c: "map_emplace (pskContent p) (pskId p) (map_erase (pskContent q) (pskContentMap s)) c = Some i"
  show "\<exists>r. ((pskIdMap s)(pskId q \<mapsto> p)) i = Some r \<and> pskContent r = c"
  proof (cases "c \<noteq> pskContent q \<and> pskContentMap s c = Some i")
    case True
    then obtain r where "pskIdMap s i = Some r" "pskContent r = c"
      using psk_invD(2)[OF inv] by blast
    then show ?thesis using True q by (cases "i = pskId q") auto
  next
    case False
    then have "c = pskContent p \<and> i = pskId p"
      using c by (auto simp: map_emplace_def map_erase_def split: if_splits)
    then show ?thesis by (simp add: id)
  qed
qed

subsection \<open>Every operation's outcomes\<close>

text \<open>The store a user keeps through the callbacks: the calls that returned \<open>OK\<close>, replayed.\<close>

fun apply_call :: "cb_call \<Rightarrow> (u32 \<rightharpoonup> bytes) \<Rightarrow> (u32 \<rightharpoonup> bytes)" where
  "apply_call (CbCreate i ct r) m = (if cb_rc r = PSK_OK then m(i \<mapsto> ct) else m)"
| "apply_call (CbUpdate i ct r) m = (if cb_rc r = PSK_OK then m(i \<mapsto> ct) else m)"
| "apply_call (CbDelete i r) m = (if cb_rc r = PSK_OK then m(i := None) else m)"

definition cb_store :: "cb_mgr \<Rightarrow> (u32 \<rightharpoonup> bytes)" where
  "cb_store m = fold apply_call (cb_log m) Map.empty"

text \<open>From \<open>m0\<close> to \<open>m\<close> no registration changed and the store was changed by \<open>f\<close>.\<close>

definition cb_did :: "((u32 \<rightharpoonup> bytes) \<Rightarrow> (u32 \<rightharpoonup> bytes)) \<Rightarrow> cb_mgr \<Rightarrow> cb_mgr \<Rightarrow> bool" where
  "cb_did f m0 m \<longleftrightarrow> create_cb m = create_cb m0 \<and> update_cb m = update_cb m0 \<and>
     delete_cb m = delete_cb m0 \<and> cb_store m = f (cb_store m0)"

lemma cb_did_refl [simp]: "cb_did (\<lambda>st. st) m m"
  by (simp add: cb_did_def)

lemma TriggerCreate_cases:
  obtains (fail) m where "TriggerCreatePskCallback i ct s = (CALL_BACK_EXECUTE_FAILED, s\<lparr>cbs := m\<rparr>)"
      "cb_did (\<lambda>st. st) (cbs s) m"
  | (ok) m where "TriggerCreatePskCallback i ct s = (PSK_OK, s\<lparr>cbs := m\<rparr>)"
      "cb_did (\<lambda>st. if create_cb (cbs s) = None then st else st(i \<mapsto> ct)) (cbs s) m"
proof (cases "create_cb (cbs s)")
  case None
  then show thesis using ok[of "cbs s"]
    by (simp add: TriggerCreatePskCallback_def IsCallbackRegistered_def)
next
  case (Some f)
  then show thesis
    using ok[of "snd (Trigger_create i ct (cbs s))"] fail[of "snd (Trigger_create i ct (cbs s))"]
    by (cases "cb_rc (f i ct) = PSK_OK")
      (simp_all add: TriggerCreatePskCallback_def IsCallbackRegistered_def Trigger_create_def cb_did_def cb_store_def)
qed

lemma TriggerUpdate_cases:
  obtains (fail) m where "TriggerUpdatePskCallback i ct s = (CALL_BACK_EXECUTE_FAILED, s\<lparr>cbs := m\<rparr>)"
      "cb_did (\<lambda>st. st) (cbs s) m"
  | (ok) m where "TriggerUpdatePskCallback i ct s = (PSK_OK, s\<lparr>cbs := m\<rparr>)"
      "cb_did (\<lambda>st. if update_cb (cbs s) = None then st else st(i \<mapsto> ct)) (cbs s) m"
proof (cases "update_cb (cbs s)")
  case None
  then show thesis using ok[of "cbs s"]
    by (simp add: TriggerUpdatePskCallback_def IsCallbackRegistered_def)
next
  case (Some f)
  then show thesis
    using ok[of "snd (Trigger_update i ct (cbs s))"] fail[of "snd (Trigger_update i ct (cbs s))"]
    by (cases "cb_rc (f i ct) = PSK_OK")
      (simp_all add: TriggerUpdatePskCallback_def IsCallbackRegistered_def Trigger_update_def cb_did_def cb_store_def)
qed

lemma TriggerDelete_cases:
  obtains (fail) m where "TriggerDeletePskCallback i s = (CALL_BACK_EXECUTE_FAILED, s\<lparr>cbs := m\<rparr>)"
      "cb_did (\<lambda>st. st) (cbs s) m"
  | (ok) m where "TriggerDeletePskCallback i s = (PSK_OK, s\<lparr>cbs := m\<rparr>)"
      "cb_did (\<lambda>st. if delete_cb (cbs s) = None then st else st(i := None)) (cbs s) m"
proof (cases "delete_cb (cbs s)")
  case None
  then show thesis using ok[of "cbs s"]
    by (simp add: TriggerDeletePskCallback_def IsCallbackRegistered_def)
next
  case (Some f)
  then show thesis
    using ok[of "snd (Trigger_delete i (cbs s))"] fail[of "snd (Trigger_delete i (cbs s))"]
    by (cases "cb_rc (f i) = PSK_OK")
      (simp_all add: TriggerDeletePskCallback_def IsCallbackRegistered_def Trigger_delete_def cb_did_def cb_store_def)
qed

lemma BuildPskObj_sel [simp]:
  "pskId (BuildPskObj p c s) = curPskMaxId s" "issuer (BuildPskObj p c s) = pp_issuer p"
  "subject (BuildPskObj p c s) = pp_subject p" "pskLength (BuildPskObj p c s) = pp_pskLength p"
  "pskContent (BuildPskObj p c s) = c" "validDays (BuildPskObj p c s) = pp_validDays p"
  by (simp_all add: BuildPskObj_def)

lemma renew_sel [simp]:
  "pskId (renew e c p) = pskId p" "issuer (renew e c p) = issuer p"
  "subject (renew e c p) = subject p" "pskLength (renew e c p) = pskLength p"
  "pskContent (renew e c p) = c" "validDays (renew e c p) = validDays p"
  by (simp_all add: renew_def)

lemma BuildAndEncrypt_Inl: "BuildAndEncryptPskToken e p s = Inl rc \<Longrightarrow> rc = PSK_ENCRYPTO_FAIL"
  by (auto simp: BuildAndEncryptPskToken_def EncryptPskToken_def Let_def split: prod.splits if_splits)

lemma GeneratePskContent_Inl: "GeneratePskContent e n = Inl rc \<Longrightarrow> rc = PSK_INVALID_PARAM \<or> rc = PSK_ERROR"
  by (auto simp: GeneratePskContent_def split: if_splits option.splits)

lemma GeneratePskContent_Inr: "GeneratePskContent e n = Inr bs \<Longrightarrow> length bs = unat n"
  by (auto simp: GeneratePskContent_def split: if_splits option.splits)

lemma create_psk_cases:
  obtains (fail) rc m where "create_psk e p s = (rc, None, s\<lparr>cbs := m\<rparr>)" "rc \<noteq> PSK_OK"
      "cb_did (\<lambda>st. st) (cbs s) m"
  | (ok) m ct where "BuildAndEncryptPskToken e p s = Inr ct"
      "cb_did (\<lambda>st. if create_cb (cbs s) = None then st else st(pskId p \<mapsto> ct)) (cbs s) m"
      "create_psk e p s = (PSK_OK, Some p, store_new p (s\<lparr>cbs := m\<rparr>))"
proof (cases "BuildAndEncryptPskToken e p s")
  case (Inl rc)
  then show thesis
    using fail[of rc "cbs s"] BuildAndEncrypt_Inl[OF Inl] by (simp add: create_psk_def)
next
  case (Inr ct)
  then show thesis
    using fail ok by (cases rule: TriggerCreate_cases[of "pskId p" ct s]) (simp_all add: create_psk_def)
qed

lemma ValidatePskParams_OK:
  "ValidatePskParams p s = PSK_OK \<longleftrightarrow> curPskMaxId s \<le> pskMaxCount (options s) \<and>
     valid_meta (pp_issuer p) (pp_subject p) (pp_pskLength p) (pp_validDays p)"
  by (auto simp: ValidatePskParams_def not_less)

lemma GeneratePsk_cases:
  obtains (fail) rc m where "GeneratePsk e p s = (rc, None, s\<lparr>cbs := m\<rparr>)" "rc \<noteq> PSK_OK"
      "cb_did (\<lambda>st. st) (cbs s) m"
  | (ok) content ct m where "CheckInited s" "ValidatePskParams p s = PSK_OK"
      "GeneratePskContent e (pp_pskLength p) = Inr content"
      "BuildAndEncryptPskToken e (BuildPskObj p content s) s = Inr ct"
      "cb_did (\<lambda>st. if create_cb (cbs s) = None then st else st(curPskMaxId s \<mapsto> ct)) (cbs s) m"
      "GeneratePsk e p s = (PSK_OK, Some (BuildPskObj p content s), store_new (BuildPskObj p content s) (s\<lparr>cbs := m\<rparr>))"
proof (cases "CheckInited s \<and> ValidatePskParams p s = PSK_OK")
  case False
  then show thesis
    by (intro fail[of "fst (GeneratePsk e p s)" "cbs s"]) (auto simp: GeneratePsk_def Let_def)
next
  case True
  note g = True
  show thesis
  proof (cases "GeneratePskContent e (pp_pskLength p)")
    case (Inl rc)
    then show thesis
      using g fail[of rc "cbs s"] GeneratePskContent_Inl[OF Inl] by (auto simp: GeneratePsk_def)
  next
    case (Inr content)
    note stop = fail and fin = ok[of content]
    have eq: "GeneratePsk e p s = create_psk e (BuildPskObj p content s) s"
      using g Inr by (simp add: GeneratePsk_def)
    show thesis
    proof (cases rule: create_psk_cases[of e "BuildPskObj p content s" s])
      case (ok m ct)
      show thesis
        using g Inr ok(1,3) fin[of ct m] ok(2)[unfolded BuildPskObj_sel] by (simp add: eq)
    qed (rule stop, simp_all add: eq)
  qed
qed

lemma ImportPsk_cases:
  obtains (fail) rc m where "ImportPsk e p content s = (rc, None, s\<lparr>cbs := m\<rparr>)" "rc \<noteq> PSK_OK"
      "cb_did (\<lambda>st. st) (cbs s) m"
  | (ok) ct m where "CheckInited s" "ValidatePskParams p s = PSK_OK"
      "length content = unat (pp_pskLength p)"
      "BuildAndEncryptPskToken e (BuildPskObj p content s) s = Inr ct"
      "cb_did (\<lambda>st. if create_cb (cbs s) = None then st else st(curPskMaxId s \<mapsto> ct)) (cbs s) m"
      "ImportPsk e p content s = (PSK_OK, Some (BuildPskObj p content s), store_new (BuildPskObj p content s) (s\<lparr>cbs := m\<rparr>))"
proof (cases "CheckInited s \<and> ValidatePskParams p s = PSK_OK \<and> length content = unat (pp_pskLength p)")
  case False
  then show thesis
    by (intro fail[of "fst (ImportPsk e p content s)" "cbs s"]) (auto simp: ImportPsk_def Let_def)
next
  case True
  note g = True and stop = fail and fin = ok
  have eq: "ImportPsk e p content s = create_psk e (BuildPskObj p content s) s"
    using g by (simp add: ImportPsk_def)
  show thesis
  proof (cases rule: create_psk_cases[of e "BuildPskObj p content s" s])
    case (ok m ct)
    show thesis
      using g ok(1,3) fin[of ct m] ok(2)[unfolded BuildPskObj_sel] by (simp add: eq)
  qed (rule stop, simp_all add: eq)
qed

lemma DeletePsk_cases:
  obtains (fail) rc m where "DeletePsk i s = (rc, s\<lparr>cbs := m\<rparr>)" "rc \<noteq> PSK_OK"
      "cb_did (\<lambda>st. st) (cbs s) m"
  | (ok) p m where "CheckInited s" "pskIdMap s i = Some p"
      "cb_did (\<lambda>st. if delete_cb (cbs s) = None then st else st(i := None)) (cbs s) m"
      "DeletePsk i s = (PSK_OK, s\<lparr>cbs := m, pskContentMap := map_erase (pskContent p) (pskContentMap s),
                            pskIdMap := map_erase i (pskIdMap s)\<rparr>)"
proof (cases "CheckInited s \<and> pskIdMap s i \<noteq> None")
  case False
  then show thesis
    by (intro fail[of "fst (DeletePsk i s)" "cbs s"]) (auto simp: DeletePsk_def Let_def)
next
  case True
  then show thesis
    using fail ok by (cases rule: TriggerDelete_cases[of i s]) (auto simp: DeletePsk_def)
qed

lemma UpdatePsk_cases:
  obtains (fail) rc out m where "UpdatePsk e i content s = (rc, out, s\<lparr>cbs := m\<rparr>)" "rc \<noteq> PSK_OK"
      "cb_did (\<lambda>st. st) (cbs s) m"
  | (ok) q new ct m where "CheckInited s" "find_psk i content s = Some q"
      "GeneratePskContent e (pskLength q) = Inr new"
      "BuildAndEncryptPskToken e (renew e new q) s = Inr ct"
      "cb_did (\<lambda>st. if update_cb (cbs s) = None then st else st(pskId q \<mapsto> ct)) (cbs s) m"
      "UpdatePsk e i content s = (PSK_OK, Some (renew e new q), replace_psk q (renew e new q) (s\<lparr>cbs := m\<rparr>))"
proof (cases "CheckInited s \<and> find_psk i content s \<noteq> None")
  case False
  then show thesis
    by (intro fail[of "fst (UpdatePsk e i content s)" None "cbs s"]) (auto simp: UpdatePsk_def Let_def)
next
  case True
  then obtain q where q: "CheckInited s" "find_psk i content s = Some q" by auto
  show thesis
  proof (cases "GeneratePskContent e (pskLength q)")
    case (Inl rc)
    then show thesis
      using q fail[of rc None "cbs s"] GeneratePskContent_Inl[OF Inl] by (auto simp: UpdatePsk_def)
  next
    case (Inr new)
    note g = Inr
    show thesis
    proof (cases "BuildAndEncryptPskToken e (renew e new q) s")
      case (Inl rc)
      then show thesis
        using q g fail[of rc _ "cbs s"] BuildAndEncrypt_Inl[OF Inl] by (simp add: UpdatePsk_def Let_def)
    next
      case (Inr ct)
      have "pskId (renew e new q) = pskId q" by (simp add: renew_def)
      then show thesis
        using q g Inr fail ok[of q new ct]
        by (cases rule: TriggerUpdate_cases[of "pskId q" ct s]) (auto simp: UpdatePsk_def Let_def)
    qed
  qed
qed

subsection \<open>Every operation keeps the invariant\<close>

lemma psk_inv_create:
  assumes "psk_inv s" "ValidatePskParams p s = PSK_OK"
  shows "psk_inv (store_new (BuildPskObj p c s) (s\<lparr>cbs := m\<rparr>))"
proof (rule psk_inv_store_new)
  show "curPskMaxId (s\<lparr>cbs := m\<rparr>) < 4294967295"
    using assms psk_invD(4)[OF assms(1)] by (auto simp: ValidatePskParams_OK)
qed (use assms in \<open>simp_all add: ValidatePskParams_OK\<close>)

lemma psk_inv_Generate: "psk_inv s \<Longrightarrow> psk_inv (snd (snd (GeneratePsk e p s)))"
  by (cases rule: GeneratePsk_cases[of e p s]) (simp_all add: psk_inv_create)

lemma psk_inv_Import: "psk_inv s \<Longrightarrow> psk_inv (snd (snd (ImportPsk e p c s)))"
  by (cases rule: ImportPsk_cases[of e p c s]) (simp_all add: psk_inv_create)

lemma psk_inv_Delete: "psk_inv s \<Longrightarrow> psk_inv (snd (DeletePsk i s))"
  using psk_inv_delete[of "s\<lparr>cbs := m\<rparr>" i for m]
  by (cases rule: DeletePsk_cases[of i s]) simp_all

lemma find_psk_inv:
  assumes inv: "psk_inv s" and f: "find_psk i c s = Some q"
  shows "pskIdMap s (pskId q) = Some q" "id_entry_ok s (pskId q) q"
proof -
  obtain j where j: "pskIdMap s j = Some q"
    using f by (auto simp: find_psk_def split: option.splits if_splits)
  then show "pskIdMap s (pskId q) = Some q" "id_entry_ok s (pskId q) q"
    using psk_invD(1)[OF inv j] by (auto simp: id_entry_ok_def)
qed

lemma psk_inv_Update: "psk_inv s \<Longrightarrow> psk_inv (snd (snd (UpdatePsk e i c s)))"
proof (cases rule: UpdatePsk_cases[of e i c s])
  case (ok q new ct m)
  assume inv: "psk_inv s"
  have "psk_inv (replace_psk q (renew e new q) (s\<lparr>cbs := m\<rparr>))"
    using inv find_psk_inv[OF inv ok(2)]
    by (intro psk_inv_replace) (simp_all add: id_entry_ok_def)
  then show ?thesis using ok by simp
qed simp

lemma psk_inv_AutoUpdate: "psk_inv s \<Longrightarrow> psk_inv (snd (CheckPskValidAndAutoUpdate e i s))"
  using psk_inv_Update[of s e i "[]"]
  by (auto simp: CheckPskValidAndAutoUpdate_def split: option.split prod.split)

lemma psk_inv_Init:
  "psk_inv s \<Longrightarrow> pskMaxCount opt < 4294967295 \<Longrightarrow> psk_inv (snd (Psk_Init e opt s))"
  by (auto simp: psk_inv_def Psk_Init_def ValidateInitOptions_def id_entry_ok_def Let_def split: option.split)

lemma psk_inv_UnInit: "psk_inv s \<Longrightarrow> psk_inv (snd (Psk_UnInit e s))"
  by (auto simp: psk_inv_def Psk_UnInit_def id_entry_ok_def Let_def default_options_def)

lemma ValidatePskMetaData_OK:
  "ValidatePskMetaData d s = PSK_OK \<longleftrightarrow> md_pskId d \<le> pskMaxCount (options s) \<and>
     valid_meta (md_issuer d) (md_subject d) (md_pskLength d) (md_validDays d)"
  by (auto simp: ValidatePskMetaData_def not_less)

lemma psk_inv_load_one:
  assumes inv: "psk_inv s" and lim: "curPskMaxId s < 4294967295"
    and ok: "ValidatePskMetaData d s = PSK_OK"
  shows "psk_inv (store_new (BuildPskObjWithMetaData d c s) s)"
  using ok by (intro psk_inv_store_new inv lim) (simp_all add: BuildPskObjWithMetaData_def ValidatePskMetaData_OK)

lemma curPskMaxId_store_new [simp]: "curPskMaxId (store_new p s) = curPskMaxId s + 1"
  by (simp add: store_new_def)

text \<open>One step of the loop: it stops with the state as it is, or goes on with one object more.\<close>

lemma load_loop_Cons_cases:
  obtains (stop) rc where "load_loop e (ct # cts) s = (rc, s)"
  | (go) c d where "ct \<noteq> []" "DecryptAndParsePskToken e ct s = Inr (c, d)"
      "ValidatePskMetaData d s = PSK_OK"
      "load_loop e (ct # cts) s = load_loop e cts (store_new (BuildPskObjWithMetaData d c s) s)"
proof (cases "DecryptAndParsePskToken e ct s")
  case (Inr r)
  obtain c d where "r = (c, d)" by fastforce
  then show thesis
    using Inr stop[of "fst (load_loop e (ct # cts) s)"] go[of c d]
    by (cases "ct \<noteq> [] \<and> ValidatePskMetaData d s = PSK_OK") (auto simp: Let_def)
qed (use stop[of "fst (load_loop e (ct # cts) s)"] in auto)

lemma psk_inv_load_loop:
  "psk_inv s \<Longrightarrow> unat (curPskMaxId s) + length cts < 4294967296 \<Longrightarrow> psk_inv (snd (load_loop e cts s))"
proof (induction cts arbitrary: s)
  case (Cons ct cts)
  show ?case
  proof (cases rule: load_loop_Cons_cases[of e ct cts s])
    case (go c d)
    have lim: "curPskMaxId s < 4294967295"
      using Cons.prems(2) by (simp add: word_less_nat_alt)
    show ?thesis
      unfolding go(4)
      using Cons.prems(2) u32_suc[OF lim]
      by (intro Cons.IH psk_inv_load_one Cons.prems lim go(3)) simp
  qed (use Cons.prems in simp)
qed simp

lemma psk_inv_LoadAll:
  assumes "psk_inv s" "length cts < 4294967295"
  shows "psk_inv (snd (LoadAllPsk e cts s))"
proof -
  have "psk_inv (ClearAllData s)"
    using assms(1) by (simp add: psk_inv_def ClearAllData_def default_options_def)
  moreover have "curPskMaxId (ClearAllData s) = 1" by (simp add: ClearAllData_def)
  ultimately show ?thesis
    using assms psk_inv_load_loop[of "ClearAllData s" cts e] by (simp add: LoadAllPsk_def)
qed

lemma psk_inv_init: "psk_inv psk_init_state"
  by (simp add: psk_inv_def psk_init_state_def default_options_def)

lemma psk_inv_step: "psk_ok opn \<Longrightarrow> psk_inv s \<Longrightarrow> psk_inv (psk_step opn s)"
  by (cases opn) (simp_all add: psk_inv_Init psk_inv_UnInit psk_inv_Generate psk_inv_Import psk_inv_Delete
      psk_inv_Update psk_inv_AutoUpdate psk_inv_LoadAll)

interpretation psk: machine psk_step psk_init_state psk_ok psk_inv
  by unfold_locales (simp_all add: psk_inv_init psk_inv_step)

subsection \<open>The two-part token\<close>

lemma dot_notin_base64: "CHR ''.'' \<notin> set (Base64Encode (Some s))"
  by (auto dest!: base64_alphabet simp: IsBase64_def isalnum_c_def isdigit_c_def isalpha_c_def)

lemma SplitPskToken_Concatenate: "SplitPskToken (ConcatenatePskToken c m) = Some (c, m)"
  by (simp add: SplitPskToken_def ConcatenatePskToken_def find_sub_char_Some dot_notin_base64
      b64.dec_enc[simplified])

interpretation psk_token: codec "\<lambda>(c, m). ConcatenatePskToken c m" SplitPskToken "\<lambda>_. True"
  by unfold_locales (auto simp: SplitPskToken_Concatenate)
subsection \<open>What is persisted\<close>

text \<open>Memory and the user's store agree: the same ids, and each stored text is the encrypted token
  of the object in memory.\<close>

definition entry_synced :: "psk_state \<Rightarrow> u32 \<Rightarrow> bool" where
  "entry_synced s i \<longleftrightarrow>
     (case pskIdMap s i of
        None \<Rightarrow> cb_store (cbs s) i = None
      | Some p \<Rightarrow> (\<exists>e ct. cb_store (cbs s) i = Some ct \<and> BuildAndEncryptPskToken e p s = Inr ct))"

definition sync_inv :: "psk_state \<Rightarrow> bool" where
  "sync_inv s \<longleftrightarrow> psk_inv s \<and> create_cb (cbs s) \<noteq> None \<and> update_cb (cbs s) \<noteq> None \<and>
     delete_cb (cbs s) \<noteq> None \<and> (initCount s = 0 \<longrightarrow> pskIdMap s = Map.empty) \<and> (\<forall>i. entry_synced s i)"

text \<open>The operations on keys, and a first or repeated \<open>Init\<close>.\<close>

fun sync_op :: "psk_op \<Rightarrow> bool" where
  "sync_op (OpInit e opt) = (pskMaxCount opt < 4294967295)"
| "sync_op (OpGenerate e p) = True"
| "sync_op (OpImport e p c) = True"
| "sync_op (OpUpdate e i c) = True"
| "sync_op (OpDelete i) = True"
| "sync_op (OpAutoUpdate e i) = True"
| "sync_op _ = False"

definition registered_state ::
  "(u32 \<Rightarrow> bytes \<Rightarrow> cb_outcome) \<Rightarrow> (u32 \<Rightarrow> bytes \<Rightarrow> cb_outcome) \<Rightarrow> (u32 \<Rightarrow> cb_outcome) \<Rightarrow> psk_state" where
  "registered_state c u d =
     psk_init_state\<lparr>cbs := \<lparr>create_cb = Some c, update_cb = Some u, delete_cb = Some d, cb_log = []\<rparr>\<rparr>"

lemma sync_op_ok: "sync_op opn \<Longrightarrow> psk_ok opn"
  by (cases opn) simp_all

lemma BuildAndEncrypt_options:
  "options s' = options s \<Longrightarrow> BuildAndEncryptPskToken e p s' = BuildAndEncryptPskToken e p s"
  by (simp add: BuildAndEncryptPskToken_def EncryptPskToken_def)

text \<open>A change of the maps and of the store at the same ids keeps them in step.\<close>

lemma entry_synced_change:
  assumes "\<forall>i. entry_synced s i" and "options s' = options s"
    and m: "\<And>j. (pskIdMap s' j = pskIdMap s j \<and> cb_store (cbs s') j = cb_store (cbs s) j) \<or>
       (pskIdMap s' j = None \<and> cb_store (cbs s') j = None) \<or>
       (\<exists>e p ct. pskIdMap s' j = Some p \<and> cb_store (cbs s') j = Some ct \<and> BuildAndEncryptPskToken e p s = Inr ct)"
  shows "\<forall>i. entry_synced s' i"
proof
  fix i
  show "entry_synced s' i"
    using m[of i] assms(1)[rule_format, of i] BuildAndEncrypt_options[OF assms(2)]
    by (auto simp: entry_synced_def split: option.splits)
qed

lemma sync_quiet:
  assumes "sync_inv s" "cb_did (\<lambda>st. st) (cbs s) m" shows "sync_inv (s\<lparr>cbs := m\<rparr>)"
proof -
  have "\<forall>i. entry_synced (s\<lparr>cbs := m\<rparr>) i"
    using assms by - (rule entry_synced_change[of s], simp_all add: sync_inv_def cb_did_def)
  then show ?thesis using assms by (simp add: sync_inv_def cb_did_def)
qed

lemma sync_create:
  assumes s: "sync_inv s" and c: "CheckInited s" and v: "ValidatePskParams p s = PSK_OK"
    and b: "BuildAndEncryptPskToken e (BuildPskObj p content s) s = Inr ct"
    and m: "cb_did (\<lambda>st. if create_cb (cbs s) = None then st else st(curPskMaxId s \<mapsto> ct)) (cbs s) m"
  shows "sync_inv (store_new (BuildPskObj p content s) (s\<lparr>cbs := m\<rparr>))" (is "sync_inv ?s'")
proof -
  have inv: "psk_inv s" and cb: "create_cb (cbs s) \<noteq> None" using s by (auto simp: sync_inv_def)
  have im: "pskIdMap ?s' = (pskIdMap s)(curPskMaxId s \<mapsto> BuildPskObj p content s)"
    using psk_inv_fresh[OF inv] by (simp add: store_new_def map_emplace_def)
  have st: "cb_store (cbs ?s') = (cb_store (cbs s))(curPskMaxId s \<mapsto> ct)"
    using m cb by (simp add: cb_did_def store_new_def)
  have "\<forall>i. entry_synced ?s' i"
  proof (rule entry_synced_change[of s])
    show "\<forall>i. entry_synced s i" using s by (simp add: sync_inv_def)
    show "options ?s' = options s" by (simp add: store_new_def)
  qed (unfold im st, use b in \<open>auto simp del: BuildPskObj_sel\<close>)
  moreover have "initCount ?s' \<noteq> 0" using c by (simp add: store_new_def CheckInited_def)
  moreover have "create_cb (cbs ?s') = create_cb (cbs s)" "update_cb (cbs ?s') = update_cb (cbs s)"
    "delete_cb (cbs ?s') = delete_cb (cbs s)"
    using m by (simp_all add: store_new_def cb_did_def)
  ultimately show ?thesis
    using s psk_inv_create[OF inv v] by (simp add: sync_inv_def)
qed

lemma sync_Delete: "sync_inv s \<Longrightarrow> sync_inv (snd (DeletePsk i s))"
proof (cases rule: DeletePsk_cases[of i s])
  case (ok p m)
  assume s: "sync_inv s"
  let ?s' = "snd (DeletePsk i s)"
  have "\<forall>i. entry_synced ?s' i"
  proof (rule entry_synced_change[of s])
    show "\<forall>i. entry_synced s i" using s by (simp add: sync_inv_def)
  qed (use ok s in \<open>auto simp: map_erase_def cb_did_def sync_inv_def\<close>)
  then show ?thesis
    using s ok psk_inv_Delete[of s i] by (simp add: sync_inv_def cb_did_def CheckInited_def)
qed (simp add: sync_quiet)

lemma sync_Update: "sync_inv s \<Longrightarrow> sync_inv (snd (snd (UpdatePsk e i c s)))"
proof (cases rule: UpdatePsk_cases[of e i c s])
  case (ok q new ct m)
  assume s: "sync_inv s"
  let ?s' = "snd (snd (UpdatePsk e i c s))"
  have "\<forall>i. entry_synced ?s' i"
  proof (rule entry_synced_change[of s])
    show "\<forall>i. entry_synced s i" using s by (simp add: sync_inv_def)
  qed (use ok s in \<open>auto simp: replace_psk_def map_emplace_def map_erase_def cb_did_def sync_inv_def\<close>)
  then show ?thesis
    using s ok psk_inv_Update[of s e i c]
    by (simp add: sync_inv_def cb_did_def CheckInited_def replace_psk_def)
qed (simp add: sync_quiet)

lemma sync_AutoUpdate: "sync_inv s \<Longrightarrow> sync_inv (snd (CheckPskValidAndAutoUpdate e i s))"
  using sync_Update[of s e i "[]"]
  by (auto simp: CheckPskValidAndAutoUpdate_def split: option.split prod.split)

lemma sync_Generate: "sync_inv s \<Longrightarrow> sync_inv (snd (snd (GeneratePsk e p s)))"
  by (cases rule: GeneratePsk_cases[of e p s]) (simp_all add: sync_quiet sync_create)

lemma sync_Import: "sync_inv s \<Longrightarrow> sync_inv (snd (snd (ImportPsk e p c s)))"
  by (cases rule: ImportPsk_cases[of e p c s]) (simp_all add: sync_quiet sync_create)

lemma Psk_Init_frame:
  "cbs (snd (Psk_Init e opt s)) = cbs s" "pskIdMap (snd (Psk_Init e opt s)) = pskIdMap s"
  "CheckInited s \<Longrightarrow> options (snd (Psk_Init e opt s)) = options s"
  "initCount s \<le> initCount (snd (Psk_Init e opt s))"
  by (auto simp: Psk_Init_def ValidateInitOptions_def Let_def split: option.split)

lemma sync_Init:
  assumes s: "sync_inv s" and o: "pskMaxCount opt < 4294967295"
  shows "sync_inv (snd (Psk_Init e opt s))"
proof -
  let ?s' = "snd (Psk_Init e opt s)"
  have "\<forall>i. entry_synced ?s' i"
  proof (cases "CheckInited s")
    case True
    then show ?thesis
      using s by - (rule entry_synced_change[of s], simp_all add: sync_inv_def Psk_Init_frame)
  next
    case False
    then have "pskIdMap s = Map.empty"
      using s by (auto simp: sync_inv_def CheckInited_def psk_inv_def)
    then show ?thesis
      using s by (auto simp: sync_inv_def entry_synced_def Psk_Init_frame)
  qed
  moreover have "initCount s \<ge> 0" using s by (simp add: sync_inv_def psk_inv_def)
  ultimately show ?thesis
    using s psk_inv_Init[OF _ o, of s e] Psk_Init_frame(4)[of s e opt]
    by (auto simp: sync_inv_def Psk_Init_frame(1,2))
qed

lemma sync_init: "sync_inv (registered_state c u d)"
proof -
  have "psk_inv (registered_state c u d)"
    by (simp add: registered_state_def psk_inv_init)
  then show ?thesis
    by (simp add: sync_inv_def registered_state_def entry_synced_def cb_store_def psk_init_state_def)
qed

lemma sync_step: "sync_op opn \<Longrightarrow> sync_inv s \<Longrightarrow> sync_inv (psk_step opn s)"
  by (cases opn) (simp_all add: sync_Init sync_Generate sync_Import sync_Delete sync_Update sync_AutoUpdate)

interpretation psk_sync: machine psk_step "registered_state c u d" sync_op sync_inv for c u d
  by unfold_locales (simp_all add: sync_init sync_step)

subsection \<open>Reloading persisted keys\<close>

text \<open>What reloading relies on: the cipher, the JSON library and the C library's time conversions
  give back what was written, for this object.\<close>

definition time_kept :: "psk_env \<Rightarrow> time_t \<Rightarrow> bool" where
  "time_kept e t \<longleftrightarrow> t \<noteq> - 1 \<and>
     (case pe_strptime e (FormatTime e t) of
        None \<Rightarrow> False
      | Some (v, rest) \<Rightarrow> rest = [] \<and> pe_mktime e v = t)"

definition storable :: "psk_env \<Rightarrow> Psk \<Rightarrow> bool" where
  "storable e p \<longleftrightarrow>
     pe_json_parse e (ConstructPskMetaJsonString e p) = Some (ConstructPskMetaJson e p) \<and>
     time_kept e (beginTime p) \<and> time_kept e (endTime p) \<and>
     CHR 0x00 \<notin> set (issuer p) \<and> CHR 0x00 \<notin> set (subject p) \<and>
     valid_meta (issuer p) (subject p) (pskLength p) (validDays p) \<and>
     pskId p \<le> pskMaxCount default_options"

definition cipher_law :: "psk_env \<Rightarrow> bool" where
  "cipher_law e \<longleftrightarrow> (\<forall>ty alg tok dm ct. pe_encrypt e ty alg tok dm = (CRC_OK, ct) \<longrightarrow>
     ct \<noteq> [] \<and> pe_decrypt e ty alg ct dm = (CRC_OK, tok))"

lemma ParseTime_FormatTime: "time_kept e t \<Longrightarrow> ParseTime e (FormatTime e t) = Some t"
  by (auto simp: ParseTime_def time_kept_def FormatTime_def split: option.splits)

lemma nul_notin_FormatTime [simp]: "CHR 0x00 \<notin> set (FormatTime e t)"
  by (simp add: FormatTime_def)

lemma c_str_ConstructPskMeta [simp]: "c_str (ConstructPskMetaJsonString e p) = ConstructPskMetaJsonString e p"
  by (simp add: ConstructPskMetaJsonString_def)

lemma ParsePskMeta_Construct:
  "storable e p \<Longrightarrow>
   ParsePskMetaJsonString e (ConstructPskMetaJsonString e p) = Some (ConstructPskMetaData p)"
  by (simp add: ParsePskMetaJsonString_def storable_def
      ConstructPskMetaJson_def uint_field_def string_field_def ParseTime_FormatTime
      ConstructPskMetaData_def del: json_uint.simps)

text \<open>The ciphertext \<open>ct\<close> holds the key \<open>p\<close>: with the options \<open>opts\<close> it decrypts to the text of \<open>p\<close>.\<close>

definition token_for :: "psk_env \<Rightarrow> PsKManagerInitOptions \<Rightarrow> Psk \<Rightarrow> bytes \<Rightarrow> bool" where
  "token_for e opts p ct \<longleftrightarrow> ct \<noteq> [] \<and> pe_decrypt e (keyManagerType opts) (algType opts) ct (domainId opts) =
     (CRC_OK, ConcatenatePskToken (pskContent p) (ConstructPskMetaJsonString e p))"

lemma BuildAndEncrypt_token: "cipher_law e \<Longrightarrow> BuildAndEncryptPskToken e p s = Inr ct \<Longrightarrow> token_for e (options s) p ct"
  by (auto simp: BuildAndEncryptPskToken_def EncryptPskToken_def cipher_law_def token_for_def Let_def split: prod.splits if_splits)

lemma DecryptAndParse_token:
  "storable e p \<Longrightarrow> token_for e (options s) p ct \<Longrightarrow>
    ct \<noteq> [] \<and> DecryptAndParsePskToken e ct s = Inr (pskContent p, ConstructPskMetaData p)"
  by (simp add: token_for_def DecryptAndParsePskToken_def DecryptPskCiphertext_def SplitPskToken_Concatenate ParsePskMeta_Construct)

lemma load_loop_restores:
  "list_all2 (\<lambda>p ct. storable e p \<and> token_for e default_options p ct) ps cts \<Longrightarrow>
    psk_inv s \<Longrightarrow> options s = default_options \<Longrightarrow>
    unat (curPskMaxId s) + length cts < 4294967296 \<Longrightarrow>
    fst (load_loop e cts s) = PSK_OK \<and>
    curPskMaxId (snd (load_loop e cts s)) = curPskMaxId s + word_of_nat (length cts) \<and>
    (\<forall>i < curPskMaxId s. pskIdMap (snd (load_loop e cts s)) i = pskIdMap s i) \<and>
    (\<forall>k < length ps. pskIdMap (snd (load_loop e cts s)) (curPskMaxId s + word_of_nat k) =
       Some ((ps ! k)\<lparr>pskId := curPskMaxId s + word_of_nat k\<rparr>))"
proof (induction ps cts arbitrary: s rule: list_all2_induct)
  case (Cons p ps ct cts)
  let ?p = "BuildPskObjWithMetaData (ConstructPskMetaData p) (pskContent p) s"
  let ?s1 = "store_new ?p s"
  have lim: "curPskMaxId s < 4294967295"
    using Cons.prems by (simp add: word_less_nat_alt)
  note suc = u32_suc[OF lim]
  have p: "storable e p" and b: "token_for e (options s) p ct"
    using Cons.hyps Cons.prems(2) by simp_all
  note d = DecryptAndParse_token[OF p b]
  have v: "ValidatePskMetaData (ConstructPskMetaData p) s = PSK_OK"
    using p Cons.prems by (simp add: ValidatePskMetaData_OK storable_def ConstructPskMetaData_def)
  have eq: "load_loop e (ct # cts) s = load_loop e cts ?s1"
    using d v by simp
  have inv: "psk_inv ?s1"
    using psk_inv_load_one[OF Cons.prems(1) lim v] by simp
  have ih: "fst (load_loop e cts ?s1) = PSK_OK \<and>
    curPskMaxId (snd (load_loop e cts ?s1)) = curPskMaxId ?s1 + word_of_nat (length cts) \<and>
    (\<forall>i < curPskMaxId ?s1. pskIdMap (snd (load_loop e cts ?s1)) i = pskIdMap ?s1 i) \<and>
    (\<forall>k < length ps. pskIdMap (snd (load_loop e cts ?s1)) (curPskMaxId ?s1 + word_of_nat k) =
       Some ((ps ! k)\<lparr>pskId := curPskMaxId ?s1 + word_of_nat k\<rparr>))"
    using Cons.prems suc by (intro Cons.IH inv) (simp_all add: store_new_def)
  have pe: "?p = p\<lparr>pskId := curPskMaxId s\<rparr>"
    by (simp add: BuildPskObjWithMetaData_def ConstructPskMetaData_def)
  have old: "pskIdMap ?s1 i = pskIdMap s i" if "i < curPskMaxId s" for i
    using that by (auto simp: store_new_def map_emplace_def BuildPskObjWithMetaData_def)
  have new: "pskIdMap ?s1 (curPskMaxId s) = Some (p\<lparr>pskId := curPskMaxId s\<rparr>)"
    using psk_inv_fresh[OF Cons.prems(1)]
    by (simp add: store_new_def map_emplace_def pe)
  show ?case
    unfolding eq
  proof (intro conjI allI impI)
    fix i assume "i < curPskMaxId s"
    then show "pskIdMap (snd (load_loop e cts ?s1)) i = pskIdMap s i"
      using ih old suc by (metis curPskMaxId_store_new order.strict_trans)
  next
    fix k assume k: "k < length (p # ps)"
    show "pskIdMap (snd (load_loop e cts ?s1)) (curPskMaxId s + word_of_nat k) =
       Some (((p # ps) ! k)\<lparr>pskId := curPskMaxId s + word_of_nat k\<rparr>)"
    proof (cases k)
      case 0
      then show ?thesis using ih new suc by simp
    next
      case (Suc j)
      then show ?thesis using ih k by (simp add: add.assoc)
    qed
  qed (use ih in \<open>simp_all add: add.assoc\<close>)
qed simp

subsection \<open>Properties\<close>

lemma end_time_of_days: "days \<le> PSK_VALID_DAYS_MAX \<Longrightarrow> end_time_of t days = t + 86400 * uint days"
proof -
  assume "days \<le> PSK_VALID_DAYS_MAX"
  then have "unat days \<le> 365" by (simp add: PSK_VALID_DAYS_MAX_def word_le_nat_alt)
  then have "unat days * unat (86400 :: u32) < 2 ^ LENGTH(32)"
    by simp
  then have "unat (days * 86400) = unat days * unat (86400 :: u32)"
    by (rule unat_mult_lem[THEN iffD1])
  then have "int (unat (days * 86400)) = int (unat days) * 86400" by simp
  then show ?thesis
    unfolding end_time_of_def DAY_TO_SECOND_TIME_def uint_nat by simp
qed

lemma store_new_fresh:
  "psk_inv s \<Longrightarrow> pskId k = curPskMaxId s \<Longrightarrow> pskIdMap (store_new k (s\<lparr>cbs := m\<rparr>)) = (pskIdMap s)(pskId k \<mapsto> k)"
  using psk_inv_fresh[of s] by (simp add: store_new_def map_emplace_def)

text \<open>A small environment for the instances below: a cipher that prefixes a byte, constant random
  bytes, decimal time stamps, and a JSON parser that returns a fixed document.\<close>

definition demo_env :: "json \<Rightarrow> psk_env" where
  "demo_env doc =
    \<lparr>pe_canonical = Some, pe_access = (\<lambda>_. True), pe_km_init = (\<lambda>_ _ _ _. KM_OK),
     pe_km_uninit = (\<lambda>_. KM_OK), pe_encrypt = (\<lambda>_ _ tok _. (CRC_OK, CHR ''c'' # tok)),
     pe_decrypt = (\<lambda>_ _ ct _. (CRC_OK, tl ct)), pe_random = (\<lambda>n. Some (replicate n (CHR ''k''))),
     pe_now = 5000, pe_strftime = int_str,
     pe_strptime = (\<lambda>s. Some (\<lparr>tm_year = the (strtoll s), tm_mon = 1, tm_mday = 1, tm_hour = 0, tm_min = 0, tm_sec = 0\<rparr>, [])),
     pe_mktime = tm_year, pe_json_parse = (\<lambda>_. Some doc), pe_json_write = (\<lambda>_. ''doc'')\<rparr>"

definition demo_opts :: PsKManagerInitOptions where
  "demo_opts = default_options\<lparr>exePath := Some ''/usr/bin/bao'', accessToken := Some ''t''\<rparr>"

definition demo_param :: PskParam where
  "demo_param = \<lparr>pp_issuer = ''ca'', pp_subject = ''node'', pp_pskLength = 256, pp_beginTime = 1000, pp_validDays = 2\<rparr>"

definition demo_state :: psk_state where
  "demo_state = psk_init_state\<lparr>initCount := 1, options := demo_opts\<rparr>"

lemma demo_inv: "psk_inv demo_state"
  by (simp add: demo_state_def demo_opts_def psk_inv_def psk_init_state_def default_options_def)

lemma demo_valid: "ValidatePskParams demo_param demo_state = PSK_OK"
  by (simp add: ValidatePskParams_OK demo_param_def demo_state_def demo_opts_def psk_init_state_def
      default_options_def valid_meta_def PSK_NAME_LENGTH_MAX_def PSK_VALID_DAYS_MAX_def)

definition demo_psk :: Psk where
  "demo_psk = BuildPskObj demo_param (replicate 256 (CHR ''k'')) demo_state"

lemma demo_build: "\<exists>ct. BuildAndEncryptPskToken (demo_env d) p s = Inr ct"
  by (simp add: BuildAndEncryptPskToken_def EncryptPskToken_def demo_env_def Let_def)

lemma demo_generate:
  "GeneratePsk (demo_env d) demo_param demo_state = (PSK_OK, Some demo_psk, store_new demo_psk demo_state)"
proof -
  have c: "CheckInited demo_state" by (simp add: CheckInited_def demo_state_def)
  have g: "GeneratePskContent (demo_env d) (pp_pskLength demo_param) = Inr (replicate 256 (CHR ''k''))"
    by (simp add: GeneratePskContent_def demo_env_def demo_param_def)
  have t: "TriggerCreatePskCallback i ct demo_state = (PSK_OK, demo_state)" for i ct
    by (simp add: TriggerCreatePskCallback_def IsCallbackRegistered_def demo_state_def psk_init_state_def empty_cb_mgr_def)
  obtain ct where "BuildAndEncryptPskToken (demo_env d) demo_psk demo_state = Inr ct"
    using demo_build by blast
  then show ?thesis
    by (simp add: GeneratePsk_def c g demo_valid create_psk_def t flip: demo_psk_def)
qed

text \<open>C1: the two maps of the manager stay consistent on every run: every object is stored under
  its own id, ids lie between 1 and the next id to assign, the metadata are within the documented
  limits, and every content entry leads to an object with that content. The runs are all sequences
  of operations in which the configured maximum count is below the largest 32-bit value and a
  reload has fewer than that many tokens.\<close>

theorem psk_reachable_inv:
  assumes "\<forall>opn \<in> set ops. psk_ok opn"
  shows "psk_inv (fold psk_step ops psk_init_state)"
  using assms by (rule psk.inv_run)

lemma psk_reachable_inv_witness:
  "psk_inv (fold psk_step
     [OpInit (demo_env JNull) demo_opts, OpGenerate (demo_env JNull) demo_param, OpDelete 1] psk_init_state)"
  by (rule psk_reachable_inv) (simp add: demo_opts_def default_options_def)



text \<open>C16: a key that \<open>GeneratePsk\<close> returns has an id that was not in use, can be read back under it,
  has exactly the requested length, expires the requested number of days after its begin time, and
  no other key changed.\<close>

theorem GeneratePsk_effect:
  assumes inv: "psk_inv s" and g: "GeneratePsk e p s = (PSK_OK, Some k, s')"
  shows "pskIdMap s (pskId k) = None \<and> GetPsk (pskId k) s' = (PSK_OK, Some (pskContent k)) \<and>
    length (pskContent k) = unat (pp_pskLength p) \<and>
    endTime k = pp_beginTime p + 86400 * uint (pp_validDays p) \<and>
    (\<forall>j. j \<noteq> pskId k \<longrightarrow> pskIdMap s' j = pskIdMap s j)"
proof (cases rule: GeneratePsk_cases[of e p s])
  case (ok content ct m)
  then have k: "k = BuildPskObj p content s" "s' = store_new k (s\<lparr>cbs := m\<rparr>)" using g by auto
  then have "pskIdMap s' = (pskIdMap s)(pskId k \<mapsto> k)"
    using store_new_fresh[OF inv, of k m] by simp
  moreover have "CheckInited s'"
    using ok(1) k(2) by (simp add: CheckInited_def store_new_def)
  moreover have "endTime k = pp_beginTime p + 86400 * uint (pp_validDays p)"
    using ok(2) end_time_of_days[of "pp_validDays p"]
    by (simp add: k(1) BuildPskObj_def ValidatePskParams_OK valid_meta_def)
  ultimately show ?thesis
    using psk_inv_fresh[OF inv] GeneratePskContent_Inr[OF ok(3)] k(1) by (simp add: GetPsk_def)
qed (use g in simp)

lemma GeneratePsk_effect_witness:
  "let k = demo_psk; s' = store_new demo_psk demo_state in
   pskIdMap demo_state (pskId k) = None \<and> GetPsk (pskId k) s' = (PSK_OK, Some (pskContent k)) \<and>
    length (pskContent k) = unat (pp_pskLength demo_param) \<and>
    endTime k = pp_beginTime demo_param + 86400 * uint (pp_validDays demo_param)"
  using GeneratePsk_effect[OF demo_inv demo_generate[of JNull]] by (simp add: Let_def)


lemma demo_update:
  "UpdatePsk (demo_env d) 1 [] (store_new demo_psk demo_state) =
    (PSK_OK, Some (renew (demo_env d) (replicate 256 (CHR ''k'')) demo_psk),
     replace_psk demo_psk (renew (demo_env d) (replicate 256 (CHR ''k'')) demo_psk) (store_new demo_psk demo_state))"
proof -
  let ?s = "store_new demo_psk demo_state" and ?k = "renew (demo_env d) (replicate 256 (CHR ''k'')) demo_psk"
  have f: "CheckInited ?s" "find_psk 1 [] ?s = Some demo_psk" "pskLength demo_psk = 256"
    by (simp_all add: CheckInited_def store_new_def demo_state_def psk_init_state_def find_psk_def map_emplace_def
        demo_psk_def BuildPskObj_def demo_param_def)
  have g: "GeneratePskContent (demo_env d) 256 = Inr (replicate 256 (CHR ''k''))"
    by (simp add: GeneratePskContent_def demo_env_def)
  have t: "TriggerUpdatePskCallback i ct ?s = (PSK_OK, ?s)" for i ct
    by (simp add: TriggerUpdatePskCallback_def IsCallbackRegistered_def demo_state_def psk_init_state_def
        empty_cb_mgr_def store_new_def)
  obtain ct where "BuildAndEncryptPskToken (demo_env d) ?k ?s = Inr ct"
    using demo_build by blast
  then show ?thesis
    by (simp add: UpdatePsk_def f g t Let_def)
qed

lemma demo_inv_new: "psk_inv (store_new demo_psk demo_state)"
  using psk_inv_Generate[OF demo_inv, of "demo_env JNull" demo_param] by (simp add: demo_generate)


lemma DeletePsk_OK:
  assumes "DeletePsk i s = (PSK_OK, s')"
  shows "GetPsk i s' = (PSK_NOT_EXIST, None)"
    "\<exists>p. pskIdMap s i = Some p \<and> pskContentMap s' (pskContent p) = None"
    "\<And>j. j \<noteq> i \<Longrightarrow> pskIdMap s' j = pskIdMap s j" "curPskMaxId s' = curPskMaxId s"
  using assms
  by (cases rule: DeletePsk_cases[of i s]; auto simp: GetPsk_def CheckInited_def map_erase_def)+





lemma LoadAllPsk_tokens:
  assumes "CheckInited s" "psk_inv s" "ps \<noteq> []" "length ps < 4294967295"
    and l: "list_all2 (\<lambda>p ct. storable e p \<and> token_for e default_options p ct) ps cts"
  shows "fst (LoadAllPsk e cts s) = PSK_OK \<and>
    (\<forall>k < length ps. pskIdMap (snd (LoadAllPsk e cts s)) (1 + word_of_nat k) =
       Some ((ps ! k)\<lparr>pskId := 1 + word_of_nat k\<rparr>))"
proof -
  have n: "length cts = length ps" "cts \<noteq> []"
    using list_all2_lengthD[OF l] assms(3) by auto
  have c: "psk_inv (ClearAllData s)" "options (ClearAllData s) = default_options"
    "curPskMaxId (ClearAllData s) = 1"
    using assms(2) by (simp_all add: psk_inv_def ClearAllData_def default_options_def)
  have "LoadAllPsk e cts s = load_loop e cts (ClearAllData s)"
    using assms(1) n by (simp add: LoadAllPsk_def)
  moreover have "unat (curPskMaxId (ClearAllData s)) + length cts < 4294967296"
    using assms(4) n c(3) by simp
  ultimately show ?thesis
    using load_loop_restores[OF l c(1,2)] unfolding c(3) by simp
qed

text \<open>C5: reloading restores the keys: from the tokens which \<open>BuildAndEncryptPskToken\<close> made of the
  keys \<open>ps\<close>, \<open>LoadAllPsk\<close> succeeds and puts each key back under its position in the list, with
  issuer, subject, length, content, days and times as they were. The hypotheses are that the cipher
  decrypts what it encrypted, that JSON and time stamps survive being written and read, and that
  the tokens were made with the options \<open>LoadAllPsk\<close> resets to.\<close>

theorem LoadAllPsk_restores:
  assumes "CheckInited s" "psk_inv s" "cipher_law e" "ps \<noteq> []" "length ps < 4294967295"
    and "options s0 = default_options"
    and l: "list_all2 (\<lambda>p ct. storable e p \<and> BuildAndEncryptPskToken e p s0 = Inr ct) ps cts"
  shows "fst (LoadAllPsk e cts s) = PSK_OK \<and>
    (\<forall>k < length ps. pskIdMap (snd (LoadAllPsk e cts s)) (1 + word_of_nat k) =
       Some ((ps ! k)\<lparr>pskId := 1 + word_of_nat k\<rparr>))"
proof (rule LoadAllPsk_tokens[OF assms(1,2,4,5)])
  show "list_all2 (\<lambda>p ct. storable e p \<and> token_for e default_options p ct) ps cts"
    using l by (rule list_all2_mono) (use assms(6) in \<open>metis BuildAndEncrypt_token[OF assms(3)]\<close>)
qed

definition demo_doc :: json where
  "demo_doc = ConstructPskMetaJson (demo_env JNull) demo_psk"

lemma demo_time_kept: "t \<noteq> - 1 \<Longrightarrow> time_kept (demo_env d) t"
proof -
  have c: "FormatTime (demo_env d) t = int_str t"
    using notin_int_str[of "CHR 0x00" t] by (simp add: FormatTime_def demo_env_def isdigit_c_def)
  show "t \<noteq> - 1 \<Longrightarrow> time_kept (demo_env d) t"
    unfolding time_kept_def c using strtoll_int_str[of "[]" "[]" t] by (simp add: demo_env_def)
qed

lemma demo_storable: "storable (demo_env demo_doc) demo_psk"
proof -
  have "ConstructPskMetaJson (demo_env d) p = ConstructPskMetaJson (demo_env JNull) p" for d p
    by (simp add: ConstructPskMetaJson_def FormatTime_def demo_env_def)
  then have "demo_doc = ConstructPskMetaJson (demo_env demo_doc) demo_psk"
    unfolding demo_doc_def by (rule sym)
  moreover have "pe_json_parse (demo_env d) x = Some d" for d x
    by (simp add: demo_env_def)
  ultimately have "pe_json_parse (demo_env demo_doc) x = Some (ConstructPskMetaJson (demo_env demo_doc) demo_psk)" for x
    by simp
  then show ?thesis
    by (simp add: storable_def demo_time_kept demo_psk_def BuildPskObj_def demo_param_def demo_state_def
        psk_init_state_def valid_meta_def PSK_NAME_LENGTH_MAX_def PSK_VALID_DAYS_MAX_def default_options_def
        end_time_of_def DAY_TO_SECOND_TIME_def)
qed

lemma demo_cipher_law: "cipher_law (demo_env d)"
  by (auto simp: cipher_law_def demo_env_def)

lemma LoadAllPsk_restores_witness:
  "\<exists>cts. fst (LoadAllPsk (demo_env demo_doc) cts demo_state) = PSK_OK \<and>
    pskIdMap (snd (LoadAllPsk (demo_env demo_doc) cts demo_state)) 1 = Some (demo_psk\<lparr>pskId := 1\<rparr>)"
proof -
  obtain ct where ct: "BuildAndEncryptPskToken (demo_env demo_doc) demo_psk psk_init_state = Inr ct"
    using demo_build by blast
  have "list_all2 (\<lambda>p ct. storable (demo_env demo_doc) p \<and>
      BuildAndEncryptPskToken (demo_env demo_doc) p psk_init_state = Inr ct) [demo_psk] [ct]"
    by (simp add: ct demo_storable)
  moreover have "CheckInited demo_state" "options psk_init_state = default_options"
    by (simp_all add: CheckInited_def demo_state_def psk_init_state_def)
  ultimately show ?thesis
    using LoadAllPsk_restores[of demo_state "demo_env demo_doc" "[demo_psk]" psk_init_state "[ct]"]
      demo_inv demo_cipher_law by auto
qed

text \<open>\<open>LoadAllPsk\<close> forgets the configuration: whatever options the manager was initialised with,
  after a reload of a non-empty list the algorithm, key manager, domain and maximum count are the
  defaults, which is also what it decrypts with and what later keys are encrypted with.\<close>

lemma LoadAllPsk_resets_options:
  assumes "CheckInited s" "cts \<noteq> []"
  shows "options (snd (LoadAllPsk e cts s)) = default_options"
proof -
  have "options (snd (load_loop e cts t)) = options t" for t
  proof (induction cts arbitrary: t)
    case (Cons ct cts)
    then show ?case
      by (cases rule: load_loop_Cons_cases[of e ct cts t]) (simp_all add: store_new_def)
  qed simp
  then show ?thesis
    using assms by (simp add: LoadAllPsk_def ClearAllData_def)
qed

lemma LoadAllPsk_resets_options_witness:
  "options (snd (LoadAllPsk (demo_env JNull) [''x''] (demo_state\<lparr>options := demo_opts\<lparr>algType := CHACHA20_POLY1305\<rparr>\<rparr>)))
     = default_options"
  by (rule LoadAllPsk_resets_options) (simp_all add: CheckInited_def demo_state_def)

text \<open>A content imported twice: deleting the second key removes the content entry of the first, which
  stays in memory but can no longer be found by its content.\<close>

lemma duplicate_content_lost:
  assumes inv: "psk_inv s" and c: "pskContentMap s c = Some i"
    and imp: "ImportPsk e p c s = (PSK_OK, Some k, s1)" and del: "DeletePsk (pskId k) s1 = (PSK_OK, s2)"
  shows "(\<exists>q. pskIdMap s2 i = Some q \<and> pskContent q = c) \<and> pskContentMap s2 c = None"
proof -
  obtain q where q: "pskIdMap s i = Some q" "pskContent q = c"
    using psk_invD(2)[OF inv c] by blast
  obtain m where k: "k = BuildPskObj p c s" "s1 = store_new k (s\<lparr>cbs := m\<rparr>)"
    using imp by (cases rule: ImportPsk_cases[of e p c s]) auto
  have s1: "pskIdMap s1 = (pskIdMap s)(pskId k \<mapsto> k)"
    using store_new_fresh[OF inv, of k m] k by simp
  have "i \<noteq> pskId k"
    using psk_inv_fresh[OF inv] q(1) k(1) by auto
  then have "pskIdMap s2 i = Some q"
    using DeletePsk_OK[OF del] s1 q by simp
  moreover have "pskContentMap s2 c = None"
    using DeletePsk_OK[OF del] s1 k(1) by auto
  ultimately show ?thesis using q by blast
qed

text \<open>A successful automatic update is reported as \<open>PSK_HAS_EXPIRED\<close> too.\<close>

lemma AutoUpdate_reports_expired:
  assumes "CheckInited s" "pskIdMap s i = Some p" "endTime p < pe_now e"
    and "UpdatePsk e i [] s = (PSK_OK, Some k, s')"
  shows "CheckPskValidAndAutoUpdate e i s = (PSK_HAS_EXPIRED, s')"
  using assms by (simp add: CheckPskValidAndAutoUpdate_def)

end
