(* ===== verification/CdfHmac.thy ===== *)
theory CdfHmac
  imports CdfDefs
begin

section \<open>HMAC (\<open>modules/cryption/hmac.cpp\<close>)\<close>

text \<open>
  The checks around OpenSSL's one-shot \<open>HMAC\<close>. OpenSSL is a parameter: \<open>hm_md\<close> tells whether the
  digest of an algorithm is available, \<open>hm_hmac\<close> is \<open>HMAC\<close> itself (\<open>None\<close> for a null result). The
  output is what is in \<open>outData\<close> afterwards.
\<close>

record hmac_env =
  hm_md :: "CryptoHmacAlg \<Rightarrow> bool"
  hm_hmac :: "CryptoHmacAlg \<Rightarrow> bytes \<Rightarrow> bytes \<Rightarrow> bytes option"

definition HMAC_SHA256_LENGTH :: nat where "HMAC_SHA256_LENGTH = 32"
definition HMAC_SHA384_LENGTH :: nat where "HMAC_SHA384_LENGTH = 48"
definition HMAC_SHA512_LENGTH :: nat where "HMAC_SHA512_LENGTH = 64"

lemmas hmac_lengths = HMAC_SHA256_LENGTH_def HMAC_SHA384_LENGTH_def HMAC_SHA512_LENGTH_def

definition Hmac_CheckKeyLen :: "CryptoHmacAlg \<Rightarrow> nat \<Rightarrow> CryptionRC" where
  "Hmac_CheckKeyLen hmacAlg keyLen =
    (if hmacAlg = HMAC_SHA256 then
       (if keyLen < HMAC_SHA256_LENGTH then CRC_INVALID_PARAM else CRC_OK)
     else if hmacAlg = HMAC_SHA384 then
       (if keyLen < HMAC_SHA384_LENGTH then CRC_INVALID_PARAM else CRC_OK)
     else if hmacAlg = HMAC_SHA512 then
       (if keyLen < HMAC_SHA512_LENGTH then CRC_INVALID_PARAM else CRC_OK)
     else CRC_INVALID_PARAM)"

fun GetKeyLenMin :: "CryptoHmacAlg \<Rightarrow> nat" where
  "GetKeyLenMin HMAC_SHA256 = HMAC_SHA256_LENGTH"
| "GetKeyLenMin HMAC_SHA384 = HMAC_SHA384_LENGTH"
| "GetKeyLenMin HMAC_SHA512 = HMAC_SHA512_LENGTH"
| "GetKeyLenMin HMAC_UNKNOWN = 0"

fun GetEstimateHmacOutLen :: "CryptoHmacAlg \<Rightarrow> nat" where
  "GetEstimateHmacOutLen HMAC_SHA256 = HMAC_SHA256_LENGTH"
| "GetEstimateHmacOutLen HMAC_SHA384 = HMAC_SHA384_LENGTH"
| "GetEstimateHmacOutLen HMAC_SHA512 = HMAC_SHA512_LENGTH"
| "GetEstimateHmacOutLen HMAC_UNKNOWN = 0"

text \<open>\<open>outData = None\<close> is a null pointer: \<open>HMAC\<close> then uses a static buffer and the code reports an error.\<close>

definition NativeHmac ::
  "hmac_env \<Rightarrow> CryptoHmacAlg \<Rightarrow> bytes \<Rightarrow> bytes \<Rightarrow> bytes option \<Rightarrow> CryptionRC \<times> bytes option" where
  "NativeHmac h hmacAlg key input outData =
    (if key = [] \<or> input = [] then (CRC_INVALID_PARAM, outData)
     else if Hmac_CheckKeyLen hmacAlg (length key) \<noteq> CRC_OK then (CRC_INVALID_PARAM, outData)
     else if hmacAlg \<noteq> HMAC_SHA256 \<and> hmacAlg \<noteq> HMAC_SHA384 \<and> hmacAlg \<noteq> HMAC_SHA512
     then (CRC_INVALID_PARAM, outData)
     else if \<not> hm_md h hmacAlg then (CRC_ERROR, outData)
     else (case hm_hmac h hmacAlg key input of
       None \<Rightarrow> (CRC_ERROR, outData)
     | Some d \<Rightarrow> if outData = None then (CRC_ERROR, None) else (CRC_OK, Some d)))"

text \<open>OpenSSL's contract: the digest has the length of its algorithm.\<close>

definition hmac_law :: "hmac_env \<Rightarrow> bool" where
  "hmac_law h \<longleftrightarrow> (\<forall>alg key inp d. hm_hmac h alg key inp = Some d \<longrightarrow> length d = GetEstimateHmacOutLen alg)"

lemma Hmac_CheckKeyLen_OK:
  "Hmac_CheckKeyLen alg n = CRC_OK \<longleftrightarrow> alg \<noteq> HMAC_UNKNOWN \<and> GetKeyLenMin alg \<le> n"
  by (cases alg) (auto simp: Hmac_CheckKeyLen_def)

text \<open>Success is exactly: a known and available algorithm, a key of at least the digest's length, a
  non-empty input and a result from OpenSSL.\<close>

lemma NativeHmac_OK:
  "NativeHmac h alg key input outData = (CRC_OK, out) \<longleftrightarrow>
     alg \<noteq> HMAC_UNKNOWN \<and> GetKeyLenMin alg \<le> length key \<and> input \<noteq> [] \<and> hm_md h alg \<and>
     outData \<noteq> None \<and> out \<noteq> None \<and> out = hm_hmac h alg key input"
proof -
  have "key \<noteq> []" if "alg \<noteq> HMAC_UNKNOWN" "GetKeyLenMin alg \<le> length key"
    using that by (cases alg) (auto simp: hmac_lengths)
  then show ?thesis
    by (cases alg) (auto simp: NativeHmac_def Hmac_CheckKeyLen_OK split: option.split)
qed

lemma NativeHmac_length:
  "hmac_law h \<Longrightarrow> NativeHmac h alg key input outData = (CRC_OK, Some d) \<Longrightarrow>
   length d = GetEstimateHmacOutLen alg \<and> 32 \<le> length d"
  by (cases alg) (auto simp: NativeHmac_OK hmac_law_def hmac_lengths)

end
