(* ===== verification/CdfJwt.thy ===== *)
theory CdfJwt
  imports CdfBase64 CdfStrUtils CdfHmac
begin

section \<open>JWT authentication (\<open>modules/authentication/jwt\<close>)\<close>

text \<open>
  The token header and its text form, the store of the present and the previous signing key
  (\<open>JwtKeyPass\<close>) and the server (\<open>JwtAuthServer::Impl\<close>). The key manager, the clock, the file checks
  and OpenSSL's HMAC are the record \<open>jwt_env\<close>. Memory allocation is taken not to fail, so the
  branches that return \<open>NEW_OBJ_FAIL\<close> are not in the model; \<open>memcpy_s\<close> fails exactly on an empty
  destination, which is the case of an absent key.
\<close>

subsection \<open>Data\<close>

type_synonym i16 = "16 word"

datatype JwtAuthMode = INTERNAL_KEY | EXTERNAL_KEY | JWT_MODE_UNKNOWN

datatype JwtAuthRC =
    JWT_OK | JWT_ERROR | JWT_NEW_OBJ_FAIL | JWT_NOT_SUPPORTED | JWT_PARAM_INVALID
  | JWT_BASE64_ENCODE_FAIL | JWT_BASE64_DECODE_FAIL | JWT_HMAC_ENCODE_FAIL | JWT_OPENSSL_INIT_FAIL
  | JWT_TOKEN_EXPIRED | JWT_CREATE_TOKEN_FAIL | JWT_TOKEN_VALIDATE_FAIL | JWT_KEY_PASS_INVALID
  | JWT_KEY_MANAGER_INIT_FAIL | JWT_ENCRYPT_FAIL | JWT_DECRYPT_FAIL | JWT_ERASE_KEY_FAIL
  | JWT_REFRESH_KEY_FAIL | JWT_SET_KEY_FAIL | JWT_UNKNOWN

record CDFDistAuthServerOptions =
  jo_keyTransferMode :: JwtAuthMode
  jo_tokenExpireMinutes :: i16
  jo_algType :: CryptoHmacAlg
  jo_keyManagerType :: KeyManagerTy
  jo_serverKeyExpiredHours :: i16
  jo_domainCount :: i16
  jo_domainId :: i16
  jo_execPath :: bytes
  jo_accessToken :: bytes

definition jwt_default_options :: CDFDistAuthServerOptions where
  "jwt_default_options =
    \<lparr>jo_keyTransferMode = INTERNAL_KEY, jo_tokenExpireMinutes = 480, jo_algType = HMAC_SHA256,
     jo_keyManagerType = OPENBAO, jo_serverKeyExpiredHours = 24, jo_domainCount = 2,
     jo_domainId = 0, jo_execPath = [], jo_accessToken = []\<rparr>"

text \<open>A C buffer with a length: \<open>None\<close> is a null pointer; the buffer holds at least \<open>len\<close> bytes.\<close>

record CDFDistAuthCreateTokenOptions =
  co_key :: "bytes option"
  co_keyLen :: u32
  co_input :: "bytes option"
  co_inputLen :: u32
  co_token :: "bytes option"
  co_tokenLen :: u32

record CDFDistAuthValidateTokenOptions =
  vo_key :: "bytes option"
  vo_keyLen :: u32
  vo_token :: "bytes option"
  vo_tokenLen :: u32

definition JWT_EXPIRE_TIME_MAX_MINUTE :: int where "JWT_EXPIRE_TIME_MAX_MINUTE = 32767"
definition JWT_SECONDS_PER_MINUTE :: int where "JWT_SECONDS_PER_MINUTE = 60"
definition JWT_MINUTES_PER_HOUR :: int where "JWT_MINUTES_PER_HOUR = 60"
definition JWT_INPUT_LENGTH_MAX :: u32 where "JWT_INPUT_LENGTH_MAX = 1024 * 1024 * 100"
definition JWT_KEY_LENGTH_MAX :: u32 where "JWT_KEY_LENGTH_MAX = 1048576"
definition HMAC_SHA256_MIN_LENGTH :: u32 where "HMAC_SHA256_MIN_LENGTH = 32"
definition HMAC_SHA384_MIN_LENGTH :: u32 where "HMAC_SHA384_MIN_LENGTH = 48"
definition HMAC_SHA512_MIN_LENGTH :: u32 where "HMAC_SHA512_MIN_LENGTH = 64"
definition DOMAIN_ID_MAX :: u32 where "DOMAIN_ID_MAX = 1023"
definition SECONDS_PER_HOUR :: u64 where "SECONDS_PER_HOUR = 3600"
definition MAX_ALLOWED_EXPIRE_HOURS :: u64 where "MAX_ALLOWED_EXPIRE_HOURS = 65535"
definition DEFAULT_SERVER_EXPIRE_HOURS :: u64 where "DEFAULT_SERVER_EXPIRE_HOURS = 24"

record jwt_env =
  je_now :: int
  je_canonical :: "bytes \<Rightarrow> bytes option"
  je_access :: "bytes \<Rightarrow> bool"
  je_km_init :: "KeyManagerTy \<Rightarrow> bytes \<Rightarrow> bytes \<Rightarrow> u32 \<Rightarrow> KeyManagerRC"
  je_encrypt :: "KeyManagerTy \<Rightarrow> CryptoSymAlg \<Rightarrow> bytes \<Rightarrow> u32 \<Rightarrow> CryptionRC \<times> bytes"
  je_decrypt :: "KeyManagerTy \<Rightarrow> CryptoSymAlg \<Rightarrow> bytes \<Rightarrow> u32 \<Rightarrow> CryptionRC \<times> bytes"
  je_hmac :: hmac_env

subsection \<open>Token header\<close>

record JwtTokenHeader =
  mAlg :: CryptoHmacAlg
  mExpireTimeMinute :: i16
  mCreateTimeSec :: u64

fun alg_int :: "CryptoHmacAlg \<Rightarrow> int" where
  "alg_int HMAC_SHA256 = 0" | "alg_int HMAC_SHA384 = 1" | "alg_int HMAC_SHA512 = 2"
| "alg_int HMAC_UNKNOWN = 3"

definition now_u64 :: "jwt_env \<Rightarrow> u64" where
  "now_u64 e = word_of_int (je_now e)"

definition JwtTokenHeader_new :: "jwt_env \<Rightarrow> CryptoHmacAlg \<Rightarrow> i16 \<Rightarrow> JwtTokenHeader" where
  "JwtTokenHeader_new e alg expireTime =
    \<lparr>mAlg = alg, mExpireTimeMinute = expireTime, mCreateTimeSec = now_u64 e\<rparr>"

definition ToString :: "JwtTokenHeader \<Rightarrow> bytes" where
  "ToString h =
    ''alg: '' @ int_str (alg_int (mAlg h)) @ ''; expireTime: '' @ int_str (sint (mExpireTimeMinute h)) @
    ''; createTime:'' @ int_str (uint (mCreateTimeSec h)) @ '';''"

definition CryptoHmacAlg_of_int :: "int \<Rightarrow> CryptoHmacAlg option" where
  "CryptoHmacAlg_of_int i =
    (if i = 0 then Some HMAC_SHA256 else if i = 1 then Some HMAC_SHA384
     else if i = 2 then Some HMAC_SHA512 else None)"

definition GetAlgType :: "bytes list \<Rightarrow> CryptoHmacAlg option" where
  "GetAlgType algVec =
    (case StrToInt (algVec ! 1) 0 of (ok, typeId) \<Rightarrow>
       if \<not> ok then None else CryptoHmacAlg_of_int typeId)"

text \<open>The header's algorithm, expiry in minutes and creation time; \<open>None\<close> is \<open>PARAM_INVALID\<close>.\<close>

definition GetInfoByToken :: "bytes \<Rightarrow> (CryptoHmacAlg \<times> int \<times> int) option" where
  "GetInfoByToken headerStr =
    (let splitVec = Split headerStr '';'' in
     if headerStr = [] \<or> length splitVec \<noteq> 3 then None
     else let algVec = Split (splitVec ! 0) '':'' in
       if length algVec \<noteq> 2 then None
       else (case GetAlgType algVec of
         None \<Rightarrow> None
       | Some alg \<Rightarrow>
           let timeVec = Split (splitVec ! 1) '':'' in
           if length timeVec \<noteq> 2 then None
           else (case StrToInt64 (timeVec ! 1) 0 of (ok1, expireTimeMinute) \<Rightarrow>
             if \<not> ok1 then None
             else let createTimeVec = Split (splitVec ! 2) '':'' in
               if length createTimeVec \<noteq> 2 then None
               else (case StrToLong (createTimeVec ! 1) 0 of (ok2, createTimeSec) \<Rightarrow>
                 if \<not> ok2 \<or> expireTimeMinute > JWT_EXPIRE_TIME_MAX_MINUTE then None
                 else Some (alg, expireTimeMinute, createTimeSec)))))"

subsection \<open>Key store\<close>

record JwtKeyPass =
  kp_key :: "bytes option"
  kp_oldKey :: "bytes option"
  kp_hours :: u64
  kp_newTime :: u64
  kp_oldTime :: u64

definition JwtKeyPass_new :: "u64 \<Rightarrow> JwtKeyPass" where
  "JwtKeyPass_new expireHours =
    \<lparr>kp_key = None, kp_oldKey = None,
     kp_hours = (if expireHours > MAX_ALLOWED_EXPIRE_HOURS then DEFAULT_SERVER_EXPIRE_HOURS else expireHours),
     kp_newTime = 0, kp_oldTime = 0\<rparr>"

definition GetKey :: "JwtKeyPass \<Rightarrow> bytes" where
  "GetKey k = (case kp_key k of None \<Rightarrow> [] | Some b \<Rightarrow> b)"

definition GetOldKey :: "JwtKeyPass \<Rightarrow> bytes" where
  "GetOldKey k = (case kp_oldKey k of None \<Rightarrow> [] | Some b \<Rightarrow> b)"

definition IsExpired :: "jwt_env \<Rightarrow> JwtKeyPass \<Rightarrow> bool" where
  "IsExpired e k \<longleftrightarrow> kp_newTime k + kp_hours k * SECONDS_PER_HOUR < now_u64 e"

definition IsOldKeyExpired :: "jwt_env \<Rightarrow> JwtKeyPass \<Rightarrow> bool" where
  "IsOldKeyExpired e k \<longleftrightarrow> kp_oldTime k + kp_hours k * SECONDS_PER_HOUR < now_u64 e"

definition SetKey ::
  "jwt_env \<Rightarrow> bytes option \<Rightarrow> KeyManagerTy \<Rightarrow> u32 \<Rightarrow> CryptoSymAlg \<Rightarrow> JwtKeyPass \<Rightarrow> JwtAuthRC \<times> JwtKeyPass" where
  "SetKey e key ty dm alg k =
    (case key of
       None \<Rightarrow> (JWT_PARAM_INVALID, k)
     | Some raw \<Rightarrow>
         if raw = [] then (JWT_PARAM_INVALID, k)
         else (case je_encrypt e ty alg raw dm of (rc, cipher) \<Rightarrow>
           if rc \<noteq> CRC_OK then (JWT_ENCRYPT_FAIL, k)
           else if cipher = [] then (JWT_SET_KEY_FAIL, k\<lparr>kp_key := None\<rparr>)
           else (JWT_OK, k\<lparr>kp_key := Some cipher, kp_newTime := now_u64 e\<rparr>)))"

definition RefreshKey ::
  "jwt_env \<Rightarrow> bytes option \<Rightarrow> KeyManagerTy \<Rightarrow> u32 \<Rightarrow> CryptoSymAlg \<Rightarrow> JwtKeyPass \<Rightarrow> JwtAuthRC \<times> JwtKeyPass" where
  "RefreshKey e key ty dm alg k =
    (if key = None \<or> key = Some [] then (JWT_PARAM_INVALID, k)
     else let k1 = k\<lparr>kp_oldKey := None\<rparr> in
       if GetKey k1 = [] then (JWT_REFRESH_KEY_FAIL, k1)
       else let k2 = k1\<lparr>kp_oldKey := kp_key k1, kp_oldTime := kp_newTime k1\<rparr> in
         (case SetKey e key ty dm alg k2 of (rc, k3) \<Rightarrow>
           if rc \<noteq> JWT_OK then (JWT_REFRESH_KEY_FAIL, k3) else (JWT_OK, k3)))"

subsection \<open>Server\<close>

record jwt_server =
  started :: bool
  js_options :: CDFDistAuthServerOptions
  tokenHeader :: JwtTokenHeader
  keyPass :: JwtKeyPass

definition jwt_server_new :: jwt_server where
  "jwt_server_new =
    \<lparr>started = False, js_options = jwt_default_options,
     tokenHeader = \<lparr>mAlg = HMAC_SHA256, mExpireTimeMinute = 0, mCreateTimeSec = 0\<rparr>,
     keyPass = \<lparr>kp_key = None, kp_oldKey = None, kp_hours = DEFAULT_SERVER_EXPIRE_HOURS,
                kp_newTime = 0, kp_oldTime = 0\<rparr>\<rparr>"

definition JWT_DEFAULT_SYM_ENC_ALG :: CryptoSymAlg where
  "JWT_DEFAULT_SYM_ENC_ALG = AES256_GCM"

definition u32_of_i16 :: "i16 \<Rightarrow> u32" where "u32_of_i16 w = scast w"
definition u64_of_i16 :: "i16 \<Rightarrow> u64" where "u64_of_i16 w = scast w"

definition jwt_path_usable :: "jwt_env \<Rightarrow> bytes \<Rightarrow> bool" where
  "jwt_path_usable e p = (case je_canonical e p of None \<Rightarrow> False | Some q \<Rightarrow> je_access e q)"

definition ValidateOptions ::
  "jwt_env \<Rightarrow> CDFDistAuthServerOptions \<Rightarrow> jwt_server \<Rightarrow> JwtAuthRC \<times> jwt_server" where
  "ValidateOptions e opt s =
    (if jo_algType opt = HMAC_UNKNOWN then (JWT_PARAM_INVALID, s)
     else if jo_keyTransferMode opt \<noteq> EXTERNAL_KEY \<and>
       (u32_of_i16 (jo_domainCount opt) > DOMAIN_ID_MAX \<or> sint (jo_domainId opt) < 0 \<or>
        sint (jo_domainId opt) \<ge> sint (jo_domainCount opt) \<or>
        sint (jo_tokenExpireMinutes opt) < - 1 \<or>
        sint (jo_tokenExpireMinutes opt) > JWT_EXPIRE_TIME_MAX_MINUTE \<or>
        sint (jo_serverKeyExpiredHours opt) < - 1 \<or>
        JWT_MINUTES_PER_HOUR * sint (jo_serverKeyExpiredHours opt) > JWT_EXPIRE_TIME_MAX_MINUTE \<or>
        \<not> jwt_path_usable e (jo_execPath opt) \<or> jo_accessToken opt = [])
     then (JWT_PARAM_INVALID, s)
     else (JWT_OK, s\<lparr>js_options := opt\<rparr>))"

definition Borrow_ok :: "KeyManagerTy \<Rightarrow> bool" where
  "Borrow_ok ty = (case ty of OPENBAO \<Rightarrow> True | VAULT \<Rightarrow> True | KMT_UNKNOWN \<Rightarrow> False)"

definition Jwt_Start ::
  "jwt_env \<Rightarrow> CDFDistAuthServerOptions \<Rightarrow> jwt_server \<Rightarrow> JwtAuthRC \<times> jwt_server" where
  "Jwt_Start e opt s =
    (if started s then (JWT_OK, s)
     else if jo_keyTransferMode opt \<noteq> INTERNAL_KEY \<and> jo_keyTransferMode opt \<noteq> EXTERNAL_KEY
     then (JWT_PARAM_INVALID, s)
     else (case ValidateOptions e opt s of (result, s1) \<Rightarrow>
       if result \<noteq> JWT_OK then (result, s1)
       else let o1 = js_options s1;
                s2 = s1\<lparr>tokenHeader := JwtTokenHeader_new e (jo_algType o1) (jo_tokenExpireMinutes o1)\<rparr> in
         if jo_keyTransferMode o1 = INTERNAL_KEY then
           (if \<not> Borrow_ok (jo_keyManagerType o1) then (JWT_ERROR, s2)
            else if je_km_init e (jo_keyManagerType o1) (jo_execPath o1) (jo_accessToken o1)
                      (u32_of_i16 (jo_domainCount o1)) \<noteq> KM_OK
            then (JWT_KEY_MANAGER_INIT_FAIL, s2)
            else (JWT_OK, s2\<lparr>keyPass := JwtKeyPass_new (u64_of_i16 (jo_serverKeyExpiredHours o1)),
                            started := True\<rparr>))
         else (JWT_OK, s2\<lparr>started := True\<rparr>)))"

definition Jwt_Stop :: "jwt_server \<Rightarrow> JwtAuthRC \<times> jwt_server" where
  "Jwt_Stop s =
    (if \<not> started s then (JWT_OK, s)
     else let s1 = s\<lparr>started := False\<rparr> in
       if jo_keyTransferMode (js_options s1) = INTERNAL_KEY \<and> \<not> Borrow_ok (jo_keyManagerType (js_options s1))
       then (JWT_ERROR, s1) else (JWT_OK, s1))"

definition Jwt_CheckKeyLen :: "u32 \<Rightarrow> jwt_server \<Rightarrow> JwtAuthRC" where
  "Jwt_CheckKeyLen keyLen s =
    (let alg = jo_algType (js_options s) in
     if alg = HMAC_SHA256 then (if keyLen < HMAC_SHA256_MIN_LENGTH then JWT_PARAM_INVALID else JWT_OK)
     else if alg = HMAC_SHA384 then (if keyLen < HMAC_SHA384_MIN_LENGTH then JWT_PARAM_INVALID else JWT_OK)
     else if alg = HMAC_SHA512 then (if keyLen < HMAC_SHA512_MIN_LENGTH then JWT_PARAM_INVALID else JWT_OK)
     else JWT_PARAM_INVALID)"

text \<open>The argument is a \<open>std::string_view\<close>: \<open>None\<close> has a null \<open>data()\<close> and size 0.\<close>

definition key_domain :: "jwt_server \<Rightarrow> u32" where
  "key_domain s = u32_of_i16 (jo_domainId (js_options s))"

definition RefreshEncryptionKey :: "jwt_env \<Rightarrow> bytes option \<Rightarrow> jwt_server \<Rightarrow> JwtAuthRC \<times> jwt_server" where
  "RefreshEncryptionKey e newKey s =
    (let keyLen = word_of_nat (case newKey of None \<Rightarrow> 0 | Some k \<Rightarrow> length k) in
     if \<not> started s then (JWT_ERROR, s)
     else if jo_keyTransferMode (js_options s) \<noteq> INTERNAL_KEY then (JWT_PARAM_INVALID, s)
     else if newKey = None \<or> keyLen = 0 then (JWT_PARAM_INVALID, s)
     else if keyLen \<ge> JWT_KEY_LENGTH_MAX then (JWT_PARAM_INVALID, s)
     else if Jwt_CheckKeyLen keyLen s \<noteq> JWT_OK then (JWT_PARAM_INVALID, s)
     else (case RefreshKey e newKey (jo_keyManagerType (js_options s)) (key_domain s)
             JWT_DEFAULT_SYM_ENC_ALG (keyPass s) of (rc, k) \<Rightarrow> (rc, s\<lparr>keyPass := k\<rparr>)))"

definition SetEncryptionKey :: "jwt_env \<Rightarrow> bytes option \<Rightarrow> jwt_server \<Rightarrow> JwtAuthRC \<times> jwt_server" where
  "SetEncryptionKey e newKey s =
    (let keyLen = word_of_nat (case newKey of None \<Rightarrow> 0 | Some k \<Rightarrow> length k) in
     if \<not> started s then (JWT_ERROR, s)
     else if jo_keyTransferMode (js_options s) \<noteq> INTERNAL_KEY then (JWT_NOT_SUPPORTED, s)
     else if newKey = None \<or> keyLen = 0 then (JWT_PARAM_INVALID, s)
     else if keyLen \<ge> JWT_KEY_LENGTH_MAX then (JWT_PARAM_INVALID, s)
     else if Jwt_CheckKeyLen keyLen s \<noteq> JWT_OK then (JWT_PARAM_INVALID, s)
     else if length (c_str (the newKey)) \<noteq> unat keyLen then (JWT_PARAM_INVALID, s)
     else (case SetKey e newKey (jo_keyManagerType (js_options s)) (key_domain s)
             JWT_DEFAULT_SYM_ENC_ALG (keyPass s) of (rc, k) \<Rightarrow> (rc, s\<lparr>keyPass := k\<rparr>)))"

definition EstimateTokenLength :: "u32 \<Rightarrow> jwt_server \<Rightarrow> JwtAuthRC \<times> u32" where
  "EstimateTokenLength inputLen s =
    (if inputLen > JWT_INPUT_LENGTH_MAX then (JWT_PARAM_INVALID, 0)
     else let outLen = GetEstimateHmacOutLen (mAlg (tokenHeader s)) in
       if outLen = 0 then (JWT_PARAM_INVALID, 0)
       else (JWT_OK, Base64EncodeLen (word_of_nat (length (ToString (tokenHeader s)))) +
               Base64EncodeLen inputLen + Base64EncodeLen (word_of_nat outLen) + 2))"

definition strnlen :: "bytes \<Rightarrow> u32 \<Rightarrow> nat" where
  "strnlen buf n = length (c_str (take (unat n) buf))"

definition CalSignB64 ::
  "jwt_env \<Rightarrow> CryptoHmacAlg \<Rightarrow> bytes \<Rightarrow> bytes \<Rightarrow> JwtAuthRC + bytes" where
  "CalSignB64 e alg totalB64 key =
    (if key = [] then Inl JWT_KEY_PASS_INVALID
     else (case NativeHmac (je_hmac e) alg key totalB64 (Some (replicate (GetEstimateHmacOutLen alg) (CHR 0x00))) of
       (rc, hmac) \<Rightarrow>
         if rc \<noteq> CRC_OK then Inl JWT_HMAC_ENCODE_FAIL
         else let hmacB64 = Base64Encode hmac in
           if hmacB64 = [] then Inl JWT_BASE64_ENCODE_FAIL
           else Inr (Split hmacB64 ''='' ! 0)))"

definition CheckCalculateSignature ::
  "jwt_env \<Rightarrow> CryptoHmacAlg \<Rightarrow> bytes \<Rightarrow> bytes \<Rightarrow> jwt_server \<Rightarrow> JwtAuthRC + bytes" where
  "CheckCalculateSignature e alg key totalB64 s =
    (if key = [] then Inl JWT_KEY_PASS_INVALID
     else (case je_decrypt e (jo_keyManagerType (js_options s)) JWT_DEFAULT_SYM_ENC_ALG key (key_domain s) of
       (rc, cipher) \<Rightarrow>
         if rc \<noteq> CRC_OK then Inl JWT_DECRYPT_FAIL else CalSignB64 e alg totalB64 cipher))"

definition CreateTokenFromExternalKey ::
  "jwt_env \<Rightarrow> bytes \<Rightarrow> bytes \<Rightarrow> jwt_server \<Rightarrow> JwtAuthRC + bytes" where
  "CreateTokenFromExternalKey e key input s =
    (let headerB64 = Base64Encode (Some (ToString (tokenHeader s))) in
     if headerB64 = [] then Inl JWT_BASE64_ENCODE_FAIL
     else let headerB64Str = Split headerB64 ''='' ! 0;
              payloadB64 = Base64Encode (Some input);
              totalB64 = headerB64Str @ ''.'' @ payloadB64 in
       (case CalSignB64 e (mAlg (tokenHeader s)) totalB64 key of
         Inl rc \<Rightarrow> Inl rc
       | Inr signB64 \<Rightarrow> Inr (headerB64Str @ ''.'' @ payloadB64 @ ''.'' @ signB64)))"

definition CreateTokenFromInternalKey ::
  "jwt_env \<Rightarrow> bytes \<Rightarrow> jwt_server \<Rightarrow> JwtAuthRC + bytes" where
  "CreateTokenFromInternalKey e input s =
    (if GetKey (keyPass s) = [] \<or> IsExpired e (keyPass s) then Inl JWT_KEY_PASS_INVALID
     else (case je_decrypt e (jo_keyManagerType (js_options s)) JWT_DEFAULT_SYM_ENC_ALG
                  (GetKey (keyPass s)) (key_domain s) of
       (rc, plaintext) \<Rightarrow>
         if rc \<noteq> CRC_OK then Inl JWT_DECRYPT_FAIL
         else (case CreateTokenFromExternalKey e plaintext input s of
           Inl _ \<Rightarrow> Inl JWT_CREATE_TOKEN_FAIL
         | Inr tok \<Rightarrow> Inr tok)))"

definition CheckCreateTokenParams :: "CDFDistAuthCreateTokenOptions \<Rightarrow> jwt_server \<Rightarrow> JwtAuthRC" where
  "CheckCreateTokenParams opt s =
    (if \<not> started s then JWT_ERROR
     else (case co_input opt of
       None \<Rightarrow> JWT_PARAM_INVALID
     | Some input \<Rightarrow>
         if co_inputLen opt = 0 \<or> co_token opt = None \<or> co_tokenLen opt = 0 then JWT_PARAM_INVALID
         else if strnlen input (co_inputLen opt) \<noteq> unat (co_inputLen opt - 1) then JWT_PARAM_INVALID
         else if co_inputLen opt > JWT_INPUT_LENGTH_MAX then JWT_PARAM_INVALID
         else JWT_OK))"

text \<open>The bytes \<open>buf[0..len-1]\<close> of a C buffer.\<close>

definition buf_of :: "bytes option \<Rightarrow> u32 \<Rightarrow> bytes" where
  "buf_of p len = (case p of None \<Rightarrow> [] | Some b \<Rightarrow> take (unat len) b)"

definition create_inner ::
  "jwt_env \<Rightarrow> CDFDistAuthCreateTokenOptions \<Rightarrow> jwt_server \<Rightarrow> JwtAuthRC + bytes" where
  "create_inner e opt s =
    (let input = buf_of (co_input opt) (co_inputLen opt) in
     case jo_keyTransferMode (js_options s) of
       INTERNAL_KEY \<Rightarrow> CreateTokenFromInternalKey e input s
     | EXTERNAL_KEY \<Rightarrow>
         (case co_key opt of
            None \<Rightarrow> Inl JWT_KEY_PASS_INVALID
          | Some key \<Rightarrow>
              if co_keyLen opt = 0 then Inl JWT_KEY_PASS_INVALID
              else if strnlen key (co_keyLen opt) \<noteq> unat (co_keyLen opt - 1) then Inl JWT_PARAM_INVALID
              else (case CreateTokenFromExternalKey e (buf_of (co_key opt) (co_keyLen opt)) input s of
                Inl _ \<Rightarrow> Inl JWT_CREATE_TOKEN_FAIL
              | Inr tok \<Rightarrow> Inr tok))
     | JWT_MODE_UNKNOWN \<Rightarrow> Inl JWT_PARAM_INVALID)"

definition CreateToken ::
  "jwt_env \<Rightarrow> CDFDistAuthCreateTokenOptions \<Rightarrow> jwt_server \<Rightarrow> JwtAuthRC \<times> CDFDistAuthCreateTokenOptions" where
  "CreateToken e opt s =
    (let result = CheckCreateTokenParams opt s in
     if result \<noteq> JWT_OK then (result, opt)
     else (case create_inner e opt s of
       Inl rc \<Rightarrow> (rc, opt)
     | Inr tok \<Rightarrow>
         let innerToken = tok @ [CHR 0x00] in
         if unat (co_tokenLen opt) < length innerToken then (JWT_CREATE_TOKEN_FAIL, opt)
         else (JWT_OK, opt\<lparr>co_tokenLen := word_of_nat (length innerToken - 1),
           co_token := map_option (\<lambda>buf. innerToken @ drop (length innerToken) buf) (co_token opt)\<rparr>)))"

definition CheckValidateTokenParams :: "CDFDistAuthValidateTokenOptions \<Rightarrow> jwt_server \<Rightarrow> JwtAuthRC" where
  "CheckValidateTokenParams opt s =
    (if \<not> started s then JWT_ERROR
     else (case vo_token opt of
       None \<Rightarrow> JWT_PARAM_INVALID
     | Some token \<Rightarrow>
         if vo_tokenLen opt = 0 then JWT_PARAM_INVALID
         else if strnlen token (vo_tokenLen opt) \<noteq> unat (vo_tokenLen opt - 1) then JWT_PARAM_INVALID
         else if vo_tokenLen opt > JWT_INPUT_LENGTH_MAX then JWT_PARAM_INVALID
         else JWT_OK))"

text \<open>The output is left empty for a length that is 1 modulo 4.\<close>

definition TryFixBase64 :: "bytes \<Rightarrow> bytes" where
  "TryFixBase64 input =
    (if length input mod 4 = 0 then input
     else if length input mod 4 = 2 then input @ ''==''
     else if length input mod 4 = 3 then input @ ''=''
     else [])"

definition token_expired :: "jwt_env \<Rightarrow> int \<Rightarrow> int \<Rightarrow> bool" where
  "token_expired e expireTimeMinute createTimeSec \<longleftrightarrow>
     expireTimeMinute > JWT_EXPIRE_TIME_MAX_MINUTE \<or>
     (expireTimeMinute \<noteq> - 1 \<and> je_now e \<ge> createTimeSec \<and>
      je_now e - createTimeSec > expireTimeMinute * JWT_SECONDS_PER_MINUTE)"

definition CheckTokenExpiredTime :: "jwt_env \<Rightarrow> bytes \<Rightarrow> JwtAuthRC + CryptoHmacAlg" where
  "CheckTokenExpiredTime e hdr =
    (let headerData = Base64Decode (TryFixBase64 hdr) in
     if headerData = [] then Inl JWT_ERROR
     else (case GetInfoByToken headerData of
       None \<Rightarrow> Inl JWT_PARAM_INVALID
     | Some (alg, expireTimeMinute, createTimeSec) \<Rightarrow>
         if token_expired e expireTimeMinute createTimeSec then Inl JWT_TOKEN_EXPIRED else Inr alg))"

definition ValidateTokenFromInternalKey ::
  "jwt_env \<Rightarrow> CryptoHmacAlg \<Rightarrow> bytes \<Rightarrow> bytes \<Rightarrow> jwt_server \<Rightarrow> JwtAuthRC + bytes" where
  "ValidateTokenFromInternalKey e alg totalB64 sig s =
    (let k = keyPass s; noOld = (GetOldKey k = [] \<or> IsOldKeyExpired e k) in
     if (GetKey k = [] \<or> IsExpired e k) \<and> noOld then Inl JWT_KEY_PASS_INVALID
     else (case CheckCalculateSignature e alg (GetKey k) totalB64 s of
       Inl rc \<Rightarrow> Inl rc
     | Inr signB64 \<Rightarrow>
         if signB64 = sig then Inr signB64
         else if noOld then Inl JWT_TOKEN_VALIDATE_FAIL
         else (case CheckCalculateSignature e alg (GetOldKey k) totalB64 s of
           Inl rc \<Rightarrow> Inl rc
         | Inr signB64' \<Rightarrow> if signB64' = sig then Inr signB64' else Inl JWT_TOKEN_VALIDATE_FAIL)))"

definition sign_to_check ::
  "jwt_env \<Rightarrow> CDFDistAuthValidateTokenOptions \<Rightarrow> CryptoHmacAlg \<Rightarrow> bytes \<Rightarrow> bytes \<Rightarrow> jwt_server \<Rightarrow> JwtAuthRC + bytes" where
  "sign_to_check e opt alg totalB64 sig s =
    (if jo_keyTransferMode (js_options s) = INTERNAL_KEY then ValidateTokenFromInternalKey e alg totalB64 sig s
     else (case vo_key opt of
       None \<Rightarrow> Inl JWT_KEY_PASS_INVALID
     | Some key \<Rightarrow>
         if vo_keyLen opt = 0 then Inl JWT_KEY_PASS_INVALID
         else if strnlen key (vo_keyLen opt) \<noteq> unat (vo_keyLen opt - 1) then Inl JWT_PARAM_INVALID
         else CalSignB64 e alg totalB64 (buf_of (vo_key opt) (vo_keyLen opt))))"

definition ValidateToken ::
  "jwt_env \<Rightarrow> CDFDistAuthValidateTokenOptions \<Rightarrow> jwt_server \<Rightarrow> JwtAuthRC" where
  "ValidateToken e opt s =
    (let result = CheckValidateTokenParams opt s in
     if result \<noteq> JWT_OK then result
     else let b64Vec = Split (c_str (the (vo_token opt))) ''.'' in
       if length b64Vec \<noteq> 3 then JWT_PARAM_INVALID
       else (case CheckTokenExpiredTime e (b64Vec ! 0) of
         Inl rc \<Rightarrow> rc
       | Inr alg \<Rightarrow>
           (case sign_to_check e opt alg (b64Vec ! 0 @ ''.'' @ b64Vec ! 1) (b64Vec ! 2) s of
             Inl rc \<Rightarrow> rc
           | Inr signB64 \<Rightarrow> if signB64 \<noteq> b64Vec ! 2 then JWT_TOKEN_VALIDATE_FAIL else JWT_OK)))"

subsection \<open>Unpadded Base64\<close>

lemma enc_ref_parts:
  "\<exists>pad \<in> {[], ''='', ''==''}. enc_ref s = b64_body (enc_ref s) @ pad \<and> (length (b64_body (enc_ref s)) + length pad) mod 4 = 0"
proof (induction s rule: enc_ref.induct)
  case (1 a b c cs)
  from 1 obtain pad where p: "pad \<in> {[], ''='', ''==''}" "enc_ref cs = b64_body (enc_ref cs) @ pad"
    "(length (b64_body (enc_ref cs)) + length pad) mod 4 = 0" by (elim bexE conjE)
  have "enc_ref (a # b # c # cs) = b64_body (enc_ref (a # b # c # cs)) @ pad"
    using p(2) by (simp add: b64_body_enc)
  moreover have "(length (b64_body (enc_ref (a # b # c # cs))) + length pad) mod 4 = 0"
    using p(3) by (simp add: b64_body_enc) (simp add: add.assoc flip: numeral_plus_one)
  ultimately show ?case using p(1) by (intro bexI[of _ pad] conjI)
qed (simp_all add: encode_tail_simps b64_body_take_enc)

definition unpadded :: "bytes \<Rightarrow> bytes" where
  "unpadded s = b64_body (Base64Encode (Some s))"

lemma unpadded_parts:
  obtains pad where "Base64Encode (Some s) = unpadded s @ pad" "pad \<in> {[], ''='', ''==''}"
    "(length (unpadded s) + length pad) mod 4 = 0"
  using enc_ref_parts[of s] by (auto simp: unpadded_def Base64Encode_ref)

lemma set_unpadded: "\<forall>c \<in> set (unpadded s). c \<noteq> CHR ''='' \<and> IsBase64 c"
  unfolding unpadded_def by (rule set_b64_body)

lemma unpadded_ne: "s \<noteq> [] \<Longrightarrow> unpadded s \<noteq> []"
proof
  assume "s \<noteq> []" "unpadded s = []"
  then have "Base64Decode (b64_body (Base64Encode (Some s))) = []"
    unfolding unpadded_def by (simp add: Base64Decode_ref decode_tail_def)
  then show False using \<open>s \<noteq> []\<close> Base64Decode_unpadded[of s] by simp
qed

lemma Split_unpadded: "s \<noteq> [] \<Longrightarrow> Split (Base64Encode (Some s)) ''='' ! 0 = unpadded s"
proof -
  assume s: "s \<noteq> []"
  obtain pad where p: "Base64Encode (Some s) = unpadded s @ pad" "pad \<in> {[], ''='', ''==''}"
    using unpadded_parts[of s] by metis
  have n: "CHR ''='' \<notin> set (unpadded s)" using set_unpadded by blast
  consider "pad = []" | q where "pad = CHR ''='' # q" using p(2) by auto
  then show ?thesis
    by cases (simp_all add: p(1) Split_char_Cons[OF n] Split_char_last[OF n] unpadded_ne[OF s])
qed

lemma TryFix_unpadded: "Base64Decode (TryFixBase64 (unpadded s)) = s"
proof -
  obtain pad where p: "pad \<in> {[], ''='', ''==''}" "(length (unpadded s) + length pad) mod 4 = 0"
    using unpadded_parts[of s] by metis
  then have "\<exists>q \<in> {[], ''='', ''==''}. TryFixBase64 (unpadded s) = unpadded s @ q"
    unfolding TryFixBase64_def by (elim insertE; simp; presburger)
  then obtain q where q: "q \<in> {[], ''='', ''==''}" "TryFixBase64 (unpadded s) = unpadded s @ q" by blast
  have "b64_body (unpadded s @ q) = unpadded s"
    using q(1) by (subst b64_body_append[OF set_unpadded]) auto
  then show ?thesis
    using q(2) Base64Decode_unpadded[of s] Base64Decode_stops[of "unpadded s @ q"]
    by (simp flip: unpadded_def)
qed

lemma dot_notin_unpadded: "CHR ''.'' \<notin> set (unpadded s)"
proof -
  have "\<not> IsBase64 (CHR ''.'')"
    by (simp add: IsBase64_def isalnum_c_def isdigit_c_def isalpha_c_def)
  then show ?thesis using set_unpadded[of s] by blast
qed

lemma length_unpadded: "length (unpadded s) \<le> length (Base64Encode (Some s))"
  by (metis unpadded_parts length_append le_add1)

subsection \<open>The header's text form\<close>

lemma Split3:
  assumes "c \<notin> set x" "c \<notin> set y" "c \<notin> set z" "z \<noteq> []"
  shows "Split (x @ c # y @ c # z @ [c]) [c] = [x, y, z]" "Split (x @ c # y @ c # z) [c] = [x, y, z]"
proof -
  have "Split (z @ [c]) [c] = [z]"
    using Split_char_Cons[OF assms(3), of "[]"] by (simp add: Split_Nil)
  then show "Split (x @ c # y @ c # z @ [c]) [c] = [x, y, z]"
    by (simp add: Split_char_Cons[OF assms(1)] Split_char_Cons[OF assms(2)])
  show "Split (x @ c # y @ c # z) [c] = [x, y, z]"
    by (simp add: Split_char_Cons[OF assms(1)] Split_char_Cons[OF assms(2)] Split_char_last[OF assms(3)] assms(4))
qed

lemma Split2: "c \<notin> set x \<Longrightarrow> c \<notin> set y \<Longrightarrow> y \<noteq> [] \<Longrightarrow> Split (x @ c # y) [c] = [x, y]"
  by (simp add: Split_char_Cons Split_char_last)

lemma int_str_ne [simp]: "int_str i \<noteq> []"
  by (simp add: int_str_def)

lemma sep_notin_int_str: "CHR '';'' \<notin> set (int_str i)" "CHR '':'' \<notin> set (int_str i)"
  by (rule notin_int_str; simp add: isdigit_c_def)+

definition header_ok :: "JwtTokenHeader \<Rightarrow> bool" where
  "header_ok h \<longleftrightarrow> mAlg h \<noteq> HMAC_UNKNOWN \<and> uint (mCreateTimeSec h) < 2 ^ 63"

definition header_info :: "JwtTokenHeader \<Rightarrow> CryptoHmacAlg \<times> int \<times> int" where
  "header_info h = (mAlg h, sint (mExpireTimeMinute h), uint (mCreateTimeSec h))"

lemma ToString_shape:
  "ToString h = (''alg: '' @ int_str (alg_int (mAlg h))) @ CHR '';'' #
     ('' expireTime: '' @ int_str (sint (mExpireTimeMinute h))) @ CHR '';'' #
     ('' createTime:'' @ int_str (uint (mCreateTimeSec h))) @ '';''"
  by (simp add: ToString_def)

lemma i16_bounds: "- 32768 \<le> sint (w :: i16)" "sint (w :: i16) < 32768"
  using sint_greater_eq[of w] sint_less[of w] by simp_all

lemma GetInfoByToken_ToString:
  assumes "header_ok h"
  shows "GetInfoByToken (ToString h) = Some (header_info h)"
proof -
  let ?a = "int_str (alg_int (mAlg h))" and ?x = "int_str (sint (mExpireTimeMinute h))"
    and ?c = "int_str (uint (mCreateTimeSec h))"
  have s: "Split (ToString h) '';'' = [''alg: '' @ ?a, '' expireTime: '' @ ?x, '' createTime:'' @ ?c]"
    unfolding ToString_shape by (rule Split3) (simp_all add: sep_notin_int_str)
  have a: "Split (''alg: '' @ ?a) '':'' = [''alg'', '' '' @ ?a]"
    and x: "Split ('' expireTime: '' @ ?x) '':'' = ['' expireTime'', '' '' @ ?x]"
    and c: "Split ('' createTime:'' @ ?c) '':'' = ['' createTime'', ?c]"
    using Split2[of "CHR '':''" "''alg''" "'' '' @ ?a"] Split2[of "CHR '':''" "'' expireTime''" "'' '' @ ?x"]
      Split2[of "CHR '':''" "'' createTime''" ?c]
    by (simp_all add: sep_notin_int_str)
  have al: "GetAlgType [''alg'', '' '' @ ?a] = Some (mAlg h)"
    using assms sto_bits_int_str[of "'' ''" "[]" 32 "alg_int (mAlg h)"]
    by (cases "mAlg h") (auto simp: GetAlgType_def StrToInt_def CryptoHmacAlg_of_int_def header_ok_def
        in_range_def isspace_c_def)
  have xl: "StrToInt64 ('' '' @ ?x) 0 = (True, sint (mExpireTimeMinute h))"
    using sto_bits_int_str[of "'' ''" "[]" 64 "sint (mExpireTimeMinute h)"] i16_bounds[of "mExpireTimeMinute h"]
    by (simp add: StrToInt64_def in_range_def isspace_c_def)
  have cl: "StrToLong ?c 0 = (True, uint (mCreateTimeSec h))"
  proof -
    have "in_range 64 (uint (mCreateTimeSec h))"
      using assms order_trans[OF _ uint_ge_0[of "mCreateTimeSec h"], of "- 9223372036854775808"]
      by (simp add: in_range_def header_ok_def)
    then show ?thesis
      using sto_bits_int_str[of "[]" "[]" 64 "uint (mCreateTimeSec h)"] by (simp add: StrToLong_def)
  qed
  have "ToString h \<noteq> []" by (simp add: ToString_def)
  then show ?thesis
    using al xl cl i16_bounds[of "mExpireTimeMinute h"]
    by (simp add: GetInfoByToken_def s a[simplified] x[simplified] c[simplified] header_info_def Let_def
        JWT_EXPIRE_TIME_MAX_MINUTE_def)
qed

text \<open>The same as a codec on the header's values.\<close>

definition header_of :: "CryptoHmacAlg \<times> int \<times> int \<Rightarrow> JwtTokenHeader" where
  "header_of i = (case i of (alg, x, c) \<Rightarrow>
     \<lparr>mAlg = alg, mExpireTimeMinute = word_of_int x, mCreateTimeSec = word_of_int c\<rparr>)"

definition header_values :: "CryptoHmacAlg \<times> int \<times> int \<Rightarrow> bool" where
  "header_values i = (case i of (alg, x, c) \<Rightarrow>
     alg \<noteq> HMAC_UNKNOWN \<and> - 32768 \<le> x \<and> x < 32768 \<and> 0 \<le> c \<and> c < 2 ^ 63)"

lemma header_of_info: "header_values i \<Longrightarrow> header_ok (header_of i) \<and> header_info (header_of i) = i"
proof -
  obtain alg x c where i: "i = (alg, x, c)" by (cases i)
  assume "header_values i"
  then have v: "alg \<noteq> HMAC_UNKNOWN" "- 32768 \<le> x" "x < 32768" "0 \<le> c" "c < 9223372036854775808"
    by (simp_all add: header_values_def i)
  have "sint (word_of_int x :: i16) = x"
    using v by (simp add: sint_sbintrunc' signed_take_bit_int_eq_self)
  moreover have "uint (word_of_int c :: u64) = c"
    using v by (simp add: uint_word_of_int)
  ultimately show ?thesis
    using v by (simp add: header_of_def header_ok_def header_info_def i)
qed

interpretation jwt_header: codec "\<lambda>i. ToString (header_of i)" GetInfoByToken header_values
  by unfold_locales (use GetInfoByToken_ToString header_of_info in fastforce)


subsection \<open>Tokens\<close>

lemma c_str_Nul [simp]: "c_str (CHR 0x00 # r) = []" "c_str [] = []"
  by (simp_all add: c_str_def)

lemma nul_notin_base64: "CHR 0x00 \<notin> set (Base64Encode (Some s))" "CHR 0x00 \<notin> set (unpadded s)"
proof -
  have n: "\<not> IsBase64 (CHR 0x00)"
    by (simp add: IsBase64_def isalnum_c_def isdigit_c_def isalpha_c_def)
  then show "CHR 0x00 \<notin> set (unpadded s)" using set_unpadded[of s] by blast
  show "CHR 0x00 \<notin> set (Base64Encode (Some s))"
    using n base64_alphabet[of "CHR 0x00" s] by auto
qed

lemma dot_notin_payload: "CHR ''.'' \<notin> set (Base64Encode (Some s))"
  by (auto dest!: base64_alphabet simp: IsBase64_def isalnum_c_def isdigit_c_def isalpha_c_def)

lemma CalSignB64_Inr:
  assumes law: "hmac_law (je_hmac e)" and c: "CalSignB64 e alg msg key = Inr sig"
  obtains d where "sig = unpadded d" "d \<noteq> []" "length d = GetEstimateHmacOutLen alg" "key \<noteq> []"
    "alg \<noteq> HMAC_UNKNOWN" "hm_hmac (je_hmac e) alg key msg = Some d"
proof -
  let ?buf = "Some (replicate (GetEstimateHmacOutLen alg) (CHR 0x00))"
  obtain out where n0: "NativeHmac (je_hmac e) alg key msg ?buf = (CRC_OK, out)" and k: "key \<noteq> []"
    and sig0: "sig = Split (Base64Encode out) ''='' ! 0"
    using c by (auto simp: CalSignB64_def Let_def split: if_splits prod.splits)
  then obtain d where out: "out = Some d" using NativeHmac_OK by blast
  note n = n0[unfolded out] and sig = sig0[unfolded out]
  have d: "length d = GetEstimateHmacOutLen alg" "d \<noteq> []"
    using NativeHmac_length[OF law n] by auto
  show thesis
    using that[of d] d k sig Split_unpadded[OF d(2)] n by (auto simp: NativeHmac_OK)
qed

text \<open>The three parts of a token, and that \<open>Split\<close> finds them again.\<close>

lemma CreateTokenFromExternalKey_Inr:
  assumes "CreateTokenFromExternalKey e key input s = Inr tok"
  obtains sig where "tok = unpadded (ToString (tokenHeader s)) @ CHR ''.'' # Base64Encode (Some input) @ CHR ''.'' # sig"
    "CalSignB64 e (mAlg (tokenHeader s))
       (unpadded (ToString (tokenHeader s)) @ CHR ''.'' # Base64Encode (Some input)) key = Inr sig"
proof -
  have "ToString (tokenHeader s) \<noteq> []" by (simp add: ToString_def)
  note h = Split_unpadded[OF this]
  show thesis
    using assms that by (auto simp: CreateTokenFromExternalKey_def Let_def h split: if_splits sum.splits)
qed

lemma Split_token:
  assumes "hmac_law (je_hmac e)" "CreateTokenFromExternalKey e key input s = Inr tok" "input \<noteq> []"
  obtains sig where
    "Split tok ''.'' = [unpadded (ToString (tokenHeader s)), Base64Encode (Some input), sig]"
    "CalSignB64 e (mAlg (tokenHeader s))
       (unpadded (ToString (tokenHeader s)) @ CHR ''.'' # Base64Encode (Some input)) key = Inr sig"
    "CHR 0x00 \<notin> set tok"
    "length tok + 1 \<le> length (Base64Encode (Some (ToString (tokenHeader s)))) + length (Base64Encode (Some input))
       + 4 * ((GetEstimateHmacOutLen (mAlg (tokenHeader s)) + 2) div 3) + 3"
proof -
  obtain sig where tok: "tok = unpadded (ToString (tokenHeader s)) @ CHR ''.'' # Base64Encode (Some input) @ CHR ''.'' # sig"
    and c: "CalSignB64 e (mAlg (tokenHeader s))
       (unpadded (ToString (tokenHeader s)) @ CHR ''.'' # Base64Encode (Some input)) key = Inr sig"
    using CreateTokenFromExternalKey_Inr[OF assms(2)] by metis
  obtain d where d: "sig = unpadded d" "d \<noteq> []" "length d = GetEstimateHmacOutLen (mAlg (tokenHeader s))"
    using CalSignB64_Inr[OF assms(1) c] by metis
  have sp: "Split tok ''.'' = [unpadded (ToString (tokenHeader s)), Base64Encode (Some input), sig]"
    unfolding tok d(1)
    by (rule Split3(2)) (simp_all add: dot_notin_unpadded dot_notin_payload unpadded_ne[OF d(2)])
  have nul: "CHR 0x00 \<notin> set tok"
    unfolding tok d(1) by (simp add: nul_notin_base64)
  have "length (unpadded d) \<le> 4 * ((GetEstimateHmacOutLen (mAlg (tokenHeader s)) + 2) div 3)"
    using length_unpadded[of d] base64_length[of d] d(3) by simp
  then have len: "length tok + 1 \<le> length (Base64Encode (Some (ToString (tokenHeader s)))) + length (Base64Encode (Some input))
       + 4 * ((GetEstimateHmacOutLen (mAlg (tokenHeader s)) + 2) div 3) + 3"
    using length_unpadded[of "ToString (tokenHeader s)"] unfolding tok d(1) by simp
  show thesis using that[OF sp c nul len] .
qed


lemma CheckTokenExpiredTime_header:
  assumes "header_ok h" "\<not> token_expired e (sint (mExpireTimeMinute h)) (uint (mCreateTimeSec h))"
  shows "CheckTokenExpiredTime e (unpadded (ToString h)) = Inr (mAlg h)"
proof -
  have "ToString h \<noteq> []" by (simp add: ToString_def)
  then show ?thesis
    using assms by (simp add: CheckTokenExpiredTime_def TryFix_unpadded GetInfoByToken_ToString header_info_def Let_def)
qed

text \<open>The caller's buffers are as long as their lengths say.\<close>

definition buf_ok :: "bytes option \<Rightarrow> u32 \<Rightarrow> bool" where
  "buf_ok p n \<longleftrightarrow> (case p of None \<Rightarrow> True | Some b \<Rightarrow> unat n \<le> length b)"

text \<open>The arguments that present the token \<open>CreateToken\<close> returned.\<close>

definition present ::
  "CDFDistAuthCreateTokenOptions \<Rightarrow> CDFDistAuthCreateTokenOptions \<Rightarrow> CDFDistAuthValidateTokenOptions" where
  "present opt opt' = \<lparr>vo_key = co_key opt, vo_keyLen = co_keyLen opt, vo_token = co_token opt',
     vo_tokenLen = co_tokenLen opt' + 1\<rparr>"

lemma CalSignB64_Inl: "CalSignB64 e alg msg key = Inl rc \<Longrightarrow> rc \<noteq> JWT_OK"
  by (auto simp: CalSignB64_def Let_def split: if_splits prod.splits)

lemma CheckCalculateSignature_Inl: "CheckCalculateSignature e alg key msg s = Inl rc \<Longrightarrow> rc \<noteq> JWT_OK"
  by (auto simp: CheckCalculateSignature_def CalSignB64_Inl split: if_splits prod.splits)

lemma create_inner_Inl: "create_inner e opt s = Inl rc \<Longrightarrow> rc \<noteq> JWT_OK"
  by (auto simp: create_inner_def CreateTokenFromInternalKey_def Let_def
      split: if_splits prod.splits sum.splits option.splits JwtAuthMode.splits)

lemma CreateToken_OK:
  assumes c: "CreateToken e opt s = (JWT_OK, opt')" and b: "buf_ok (co_input opt) (co_inputLen opt)"
  obtains tok rest where "create_inner e opt s = Inr tok" "started s"
    "buf_of (co_input opt) (co_inputLen opt) \<noteq> []" "co_token opt' = Some (tok @ CHR 0x00 # rest)"
    "unat (co_tokenLen opt') = length tok" "length tok + 1 < 2 ^ 32"
proof -
  have p: "CheckCreateTokenParams opt s = JWT_OK"
    using c by (auto simp: CreateToken_def Let_def split: if_splits)
  then obtain input buf where i: "started s" "co_input opt = Some input" "co_inputLen opt \<noteq> 0"
      "co_token opt = Some buf"
    by (auto simp: CheckCreateTokenParams_def split: if_splits option.splits)
  obtain tok where t: "create_inner e opt s = Inr tok" "\<not> unat (co_tokenLen opt) < length tok + 1"
    "opt' = opt\<lparr>co_tokenLen := word_of_nat (length tok),
           co_token := Some ((tok @ [CHR 0x00]) @ drop (length tok + 1) buf)\<rparr>"
    using c p i(4) create_inner_Inl[of e opt s] by (auto simp: CreateToken_def Let_def split: if_splits sum.splits)
  have "0 < unat (co_inputLen opt)"
    using i(3) by (simp add: unat_gt_0)
  then have ne: "buf_of (co_input opt) (co_inputLen opt) \<noteq> []"
    using b i(2) by (auto simp: buf_of_def buf_ok_def)
  have lt: "length tok + 1 < 2 ^ 32"
    using t(2) unsigned_less[of "co_tokenLen opt", where ?'a = nat] by simp
  show thesis
    using that[of tok "drop (length tok + 1) buf"] t(1,3) i(1) ne lt by (simp add: unat_of_nat)
qed

lemma CheckValidateTokenParams_present:
  assumes "started s" "CHR 0x00 \<notin> set tok" "length tok + 1 \<le> unat JWT_INPUT_LENGTH_MAX"
  shows "CheckValidateTokenParams \<lparr>vo_key = k, vo_keyLen = n, vo_token = Some (tok @ CHR 0x00 # rest),
     vo_tokenLen = word_of_nat (length tok) + 1\<rparr> s = JWT_OK"
proof -
  have b: "length tok + 1 \<le> 104857600"
    using assms(3) by (simp add: JWT_INPUT_LENGTH_MAX_def)
  then have u: "unat (word_of_nat (length tok) + 1 :: u32) = length tok + 1"
  proof -
    have "(word_of_nat (length tok) + 1 :: u32) = word_of_nat (length tok + 1)" by simp
    then show ?thesis using b by (simp only: unat_of_nat) simp
  qed
  then have "(word_of_nat (length tok) + 1 :: u32) \<noteq> 0" by force
  then show ?thesis
    using assms u b
    by (simp add: CheckValidateTokenParams_def strnlen_def c_str_append word_le_nat_alt JWT_INPUT_LENGTH_MAX_def not_less
        unat_of_nat) 
qed


text \<open>What \<open>ValidateToken\<close> does with a token of the right form.\<close>

lemma ValidateToken_parts:
  assumes p: "CheckValidateTokenParams v s = JWT_OK"
    and sp: "Split (c_str (the (vo_token v))) ''.'' = [unpadded (ToString h), payload, sig]"
    and h: "header_ok h" and exp: "\<not> token_expired e (sint (mExpireTimeMinute h)) (uint (mCreateTimeSec h))"
    and sign: "sign_to_check e v (mAlg h) (unpadded (ToString h) @ CHR ''.'' # payload) sig s = Inr sig"
  shows "ValidateToken e v s = JWT_OK"
  using assms by (simp add: ValidateToken_def CheckTokenExpiredTime_header Let_def)

lemma CalSignB64_env: "je_hmac e2 = je_hmac e \<Longrightarrow> CalSignB64 e2 = CalSignB64 e"
  by (intro ext) (simp add: CalSignB64_def)

text \<open>The signature check for the server's own key, at a later time \<open>e2\<close>.\<close>

definition same_services :: "jwt_env \<Rightarrow> jwt_env \<Rightarrow> bool" where
  "same_services e e2 \<longleftrightarrow> je_hmac e2 = je_hmac e \<and> je_decrypt e2 = je_decrypt e"

lemma CreateTokenFromInternalKey_Inr:
  assumes "CreateTokenFromInternalKey e input s = Inr tok"
  obtains raw where "GetKey (keyPass s) \<noteq> []"
    "je_decrypt e (jo_keyManagerType (js_options s)) JWT_DEFAULT_SYM_ENC_ALG (GetKey (keyPass s)) (key_domain s) = (CRC_OK, raw)"
    "CreateTokenFromExternalKey e raw input s = Inr tok"
  using assms by (auto simp: CreateTokenFromInternalKey_def split: if_splits prod.splits sum.splits)

lemma create_inner_Inr:
  assumes c: "create_inner e opt s = Inr tok" and sv: "same_services e e2"
    and exp: "jo_keyTransferMode (js_options s) = INTERNAL_KEY \<Longrightarrow> \<not> IsExpired e2 (keyPass s)"
  obtains key where
    "CreateTokenFromExternalKey e key (buf_of (co_input opt) (co_inputLen opt)) s = Inr tok"
    "\<And>msg sig v. vo_key v = co_key opt \<Longrightarrow> vo_keyLen v = co_keyLen opt \<Longrightarrow>
       CalSignB64 e (mAlg (tokenHeader s)) msg key = Inr sig \<Longrightarrow>
       sign_to_check e2 v (mAlg (tokenHeader s)) msg sig s = Inr sig"
proof (cases "jo_keyTransferMode (js_options s)")
  case INTERNAL_KEY
  obtain raw where r: "GetKey (keyPass s) \<noteq> []"
    "je_decrypt e (jo_keyManagerType (js_options s)) JWT_DEFAULT_SYM_ENC_ALG (GetKey (keyPass s)) (key_domain s) = (CRC_OK, raw)"
    "CreateTokenFromExternalKey e raw (buf_of (co_input opt) (co_inputLen opt)) s = Inr tok"
    using c INTERNAL_KEY CreateTokenFromInternalKey_Inr[of e _ s tok] by (auto simp: create_inner_def Let_def)
  show thesis
    using that[OF r(3)] INTERNAL_KEY r(1,2) sv exp
    by (simp add: sign_to_check_def ValidateTokenFromInternalKey_def CheckCalculateSignature_def same_services_def
        CalSignB64_env[of e2 e] Let_def)
next
  case EXTERNAL_KEY
  then have "co_key opt \<noteq> None" "co_keyLen opt \<noteq> 0"
    "strnlen (the (co_key opt)) (co_keyLen opt) = unat (co_keyLen opt - 1)"
    "CreateTokenFromExternalKey e (buf_of (co_key opt) (co_keyLen opt)) (buf_of (co_input opt) (co_inputLen opt)) s = Inr tok"
    using c by (auto simp: create_inner_def Let_def split: if_splits option.splits sum.splits)
  with that[OF this(4)] EXTERNAL_KEY sv show thesis
    by (auto simp: sign_to_check_def same_services_def CalSignB64_env[of e2 e])
qed (use c in \<open>simp add: create_inner_def\<close>)

lemma jwt_accepted_core:
  assumes law: "hmac_law (je_hmac e)" and h: "header_ok (tokenHeader s)"
    and c: "CreateToken e opt s = (JWT_OK, opt')" and b: "buf_ok (co_input opt) (co_inputLen opt)"
    and len: "unat (co_tokenLen opt') < unat JWT_INPUT_LENGTH_MAX"
    and sv: "same_services e e2"
    and fresh: "\<not> token_expired e2 (sint (mExpireTimeMinute (tokenHeader s))) (uint (mCreateTimeSec (tokenHeader s)))"
    and key: "jo_keyTransferMode (js_options s) = INTERNAL_KEY \<Longrightarrow> \<not> IsExpired e2 (keyPass s)"
  shows "ValidateToken e2 (present opt opt') s = JWT_OK"
proof -
  obtain tok rest where t: "create_inner e opt s = Inr tok" "started s"
    "buf_of (co_input opt) (co_inputLen opt) \<noteq> []" "co_token opt' = Some (tok @ CHR 0x00 # rest)"
    "unat (co_tokenLen opt') = length tok" "length tok + 1 < 2 ^ 32"
    using CreateToken_OK[OF c b] by metis
  obtain k where k: "CreateTokenFromExternalKey e k (buf_of (co_input opt) (co_inputLen opt)) s = Inr tok"
    and chk: "\<And>msg sig v. vo_key v = co_key opt \<Longrightarrow> vo_keyLen v = co_keyLen opt \<Longrightarrow>
       CalSignB64 e (mAlg (tokenHeader s)) msg k = Inr sig \<Longrightarrow>
       sign_to_check e2 v (mAlg (tokenHeader s)) msg sig s = Inr sig"
    using create_inner_Inr[OF t(1) sv key] by metis
  obtain sig where sp: "Split tok ''.'' = [unpadded (ToString (tokenHeader s)), Base64Encode (Some (buf_of (co_input opt) (co_inputLen opt))), sig]"
    and cs: "CalSignB64 e (mAlg (tokenHeader s))
       (unpadded (ToString (tokenHeader s)) @ CHR ''.'' # Base64Encode (Some (buf_of (co_input opt) (co_inputLen opt)))) k = Inr sig"
    and nul: "CHR 0x00 \<notin> set tok"
    using Split_token[OF law k t(3)] by metis
  have tl: "co_tokenLen opt' = word_of_nat (length tok)"
    using arg_cong[OF t(5), of "word_of_nat :: nat \<Rightarrow> u32"] by simp
  show ?thesis
  proof (rule ValidateToken_parts[OF _ _ h fresh])
    show "CheckValidateTokenParams (present opt opt') s = JWT_OK"
      unfolding present_def t(4) tl using len t(5)
      by (intro CheckValidateTokenParams_present t(2) nul) simp
    show "Split (c_str (the (vo_token (present opt opt')))) ''.'' =
        [unpadded (ToString (tokenHeader s)), Base64Encode (Some (buf_of (co_input opt) (co_inputLen opt))), sig]"
      using nul sp by (simp add: present_def t(4) c_str_append)
    show "sign_to_check e2 (present opt opt') (mAlg (tokenHeader s))
       (unpadded (ToString (tokenHeader s)) @ CHR ''.'' # Base64Encode (Some (buf_of (co_input opt) (co_inputLen opt)))) sig s = Inr sig"
      using cs by (intro chk) (simp_all add: present_def)
  qed
qed


text \<open>C10: a token that \<open>CreateToken\<close> made, presented with the length it reported plus the terminator,
  is accepted by the same server, with its own key or with a key supplied by the caller, at any
  later time at which the token and the key have not expired. OpenSSL's digests have their
  documented length, the key manager's decryption does not change, and the caller's buffers are as
  long as announced.\<close>

theorem jwt_created_token_accepted:
  assumes law: "hmac_law (je_hmac e)" and h: "header_ok (tokenHeader s)"
    and c: "CreateToken e opt s = (JWT_OK, opt')" and b: "buf_ok (co_input opt) (co_inputLen opt)"
    and len: "unat (co_tokenLen opt') < unat JWT_INPUT_LENGTH_MAX"
    and sv: "same_services e e2"
    and fresh: "\<not> token_expired e2 (sint (mExpireTimeMinute (tokenHeader s))) (uint (mCreateTimeSec (tokenHeader s)))"
    and key: "jo_keyTransferMode (js_options s) = INTERNAL_KEY \<Longrightarrow> \<not> IsExpired e2 (keyPass s)"
  shows "ValidateToken e2 (present opt opt') s = JWT_OK"
  using assms by (rule jwt_accepted_core)

definition key_accepted :: "jwt_env \<Rightarrow> CDFDistAuthValidateTokenOptions \<Rightarrow> jwt_server \<Rightarrow> bytes \<Rightarrow> bool" where
  "key_accepted e v s key \<longleftrightarrow>
     (if jo_keyTransferMode (js_options s) = INTERNAL_KEY then
        (\<exists>enc. (enc = GetKey (keyPass s) \<or> enc = GetOldKey (keyPass s) \<and> \<not> IsOldKeyExpired e (keyPass s)) \<and>
           enc \<noteq> [] \<and>
           je_decrypt e (jo_keyManagerType (js_options s)) JWT_DEFAULT_SYM_ENC_ALG enc (key_domain s) = (CRC_OK, key))
      else key = buf_of (vo_key v) (vo_keyLen v))"

lemma CheckCalculateSignature_Inr:
  assumes "CheckCalculateSignature e alg enc msg s = Inr sig"
  obtains key where "enc \<noteq> []"
    "je_decrypt e (jo_keyManagerType (js_options s)) JWT_DEFAULT_SYM_ENC_ALG enc (key_domain s) = (CRC_OK, key)"
    "CalSignB64 e alg msg key = Inr sig"
  using assms by (auto simp: CheckCalculateSignature_def split: if_splits prod.splits)

lemma sign_to_check_Inr:
  assumes "sign_to_check e v alg msg sig s = Inr sig'" "sig' = sig"
  shows "\<exists>key. CalSignB64 e alg msg key = Inr sig \<and> key_accepted e v s key"
proof (cases "jo_keyTransferMode (js_options s) = INTERNAL_KEY")
  case True
  then have "ValidateTokenFromInternalKey e alg msg sig s = Inr sig"
    using assms by (simp add: sign_to_check_def)
  then consider "CheckCalculateSignature e alg (GetKey (keyPass s)) msg s = Inr sig"
    | "CheckCalculateSignature e alg (GetOldKey (keyPass s)) msg s = Inr sig" "\<not> IsOldKeyExpired e (keyPass s)"
    by (auto simp: ValidateTokenFromInternalKey_def Let_def split: if_splits sum.splits)
  then show ?thesis
  proof cases
    case 1
    then show ?thesis
      by (rule CheckCalculateSignature_Inr) (use True in \<open>auto simp: key_accepted_def\<close>)
  next
    case 2
    show ?thesis
      using 2(1) by (rule CheckCalculateSignature_Inr) (use True 2(2) in \<open>auto simp: key_accepted_def\<close>)
  qed
next
  case False
  then show ?thesis
    using assms by (auto simp: sign_to_check_def key_accepted_def split: if_splits option.splits)
qed

lemma sign_to_check_Inl: "sign_to_check e v alg msg sig s = Inl rc \<Longrightarrow> rc \<noteq> JWT_OK"
  by (auto simp: sign_to_check_def ValidateTokenFromInternalKey_def CalSignB64_Inl CheckCalculateSignature_Inl Let_def
      split: if_splits option.splits sum.splits)

lemma CheckTokenExpiredTime_Inl: "CheckTokenExpiredTime e hdr = Inl rc \<Longrightarrow> rc \<noteq> JWT_OK"
  by (auto simp: CheckTokenExpiredTime_def Let_def split: if_splits option.splits)

lemma CheckTokenExpiredTime_Inr:
  "CheckTokenExpiredTime e hdr = Inr alg \<Longrightarrow>
   \<exists>x c. GetInfoByToken (Base64Decode (TryFixBase64 hdr)) = Some (alg, x, c) \<and> \<not> token_expired e x c"
  by (auto simp: CheckTokenExpiredTime_def Let_def split: if_splits option.splits)


subsection \<open>Rotation of the key\<close>

definition cipher_back :: "jwt_env \<Rightarrow> jwt_env \<Rightarrow> bool" where
  "cipher_back e1 e2 \<longleftrightarrow> (\<forall>ty alg raw dm c. je_encrypt e1 ty alg raw dm = (CRC_OK, c) \<longrightarrow>
     je_decrypt e2 ty alg c dm = (CRC_OK, raw))"

definition hmac_total :: "hmac_env \<Rightarrow> bool" where
  "hmac_total h \<longleftrightarrow> (\<forall>alg. hm_md h alg) \<and> (\<forall>alg key inp. hm_hmac h alg key inp \<noteq> None)"

lemma RefreshKey_OK:
  assumes "RefreshKey e key ty dm alg k = (JWT_OK, k')"
  obtains raw c where "key = Some raw" "je_encrypt e ty alg raw dm = (CRC_OK, c)" "c \<noteq> []" "kp_key k \<noteq> None"
    "k' = k\<lparr>kp_oldKey := kp_key k, kp_oldTime := kp_newTime k, kp_key := Some c, kp_newTime := now_u64 e\<rparr>"
proof (cases key)
  case (Some raw)
  then show thesis
    using assms that
    by (cases "kp_key k") (auto simp: RefreshKey_def SetKey_def GetKey_def Let_def split: if_splits prod.splits)
qed (use assms in \<open>simp add: RefreshKey_def\<close>)

lemma RefreshEncryptionKey_OK:
  assumes "RefreshEncryptionKey e newKey s = (JWT_OK, s2)"
  obtains raw c where "started s" "jo_keyTransferMode (js_options s) = INTERNAL_KEY" "newKey = Some raw"
    "Jwt_CheckKeyLen (word_of_nat (length raw)) s = JWT_OK"
    "je_encrypt e (jo_keyManagerType (js_options s)) JWT_DEFAULT_SYM_ENC_ALG raw (key_domain s) = (CRC_OK, c)" "c \<noteq> []"
    "kp_key (keyPass s) \<noteq> None"
    "s2 = s\<lparr>keyPass := (keyPass s)\<lparr>kp_oldKey := kp_key (keyPass s), kp_oldTime := kp_newTime (keyPass s),
       kp_key := Some c, kp_newTime := now_u64 e\<rparr>\<rparr>"
proof -
  obtain raw where r: "started s" "jo_keyTransferMode (js_options s) = INTERNAL_KEY" "newKey = Some raw"
    "Jwt_CheckKeyLen (word_of_nat (length raw)) s = JWT_OK"
    and k: "RefreshKey e newKey (jo_keyManagerType (js_options s)) (key_domain s) JWT_DEFAULT_SYM_ENC_ALG (keyPass s)
       = (JWT_OK, keyPass s2)" and s2: "s2 = s\<lparr>keyPass := keyPass s2\<rparr>"
    using assms by (auto simp: RefreshEncryptionKey_def Let_def split: if_splits prod.splits)
  show thesis
    using k by (rule RefreshKey_OK) (use that[OF r] r(3) s2 in auto)
qed

lemma Jwt_CheckKeyLen_OK:
  "Jwt_CheckKeyLen n s = JWT_OK \<Longrightarrow> GetKeyLenMin (jo_algType (js_options s)) \<le> unat n \<and> jo_algType (js_options s) \<noteq> HMAC_UNKNOWN"
  by (cases "jo_algType (js_options s)")
    (auto simp: Jwt_CheckKeyLen_def Let_def hmac_lengths word_less_nat_alt HMAC_SHA256_MIN_LENGTH_def
      HMAC_SHA384_MIN_LENGTH_def HMAC_SHA512_MIN_LENGTH_def split: if_splits)

lemma CalSignB64_total:
  assumes law: "hmac_law (je_hmac e)" and t: "hmac_total (je_hmac e)" and "msg \<noteq> []" "alg \<noteq> HMAC_UNKNOWN" "GetKeyLenMin alg \<le> length key"
  shows "\<exists>sig. CalSignB64 e alg msg key = Inr sig"
proof -
  have "hm_hmac (je_hmac e) alg key msg \<noteq> None"
    using t unfolding hmac_total_def by blast
  then obtain d where d: "hm_hmac (je_hmac e) alg key msg = Some d" by blast
  have n: "NativeHmac (je_hmac e) alg key msg (Some b) = (CRC_OK, Some d)" for b
    using assms d by (simp add: NativeHmac_OK hmac_total_def)
  have "d \<noteq> []"
    using NativeHmac_length[OF law n] by auto
  then have "Base64Encode (Some d) \<noteq> []"
    using base64_injective[of d "[]"] by (simp add: Base64Encode_ref encode_tail_simps)
  moreover have "key \<noteq> []" using assms by (cases alg) (auto simp: hmac_lengths)
  ultimately show ?thesis by (simp add: CalSignB64_def n)
qed

text \<open>What \<open>CreateToken\<close> leaves in the caller's buffer when the server signs with its own key.\<close>

lemma CreateToken_internal:
  assumes law: "hmac_law (je_hmac e)" and c: "CreateToken e opt s = (JWT_OK, opt')"
    and b: "buf_ok (co_input opt) (co_inputLen opt)" and i: "jo_keyTransferMode (js_options s) = INTERNAL_KEY"
  obtains tok rest k sig where
    "co_token opt' = Some (tok @ CHR 0x00 # rest)" "unat (co_tokenLen opt') = length tok"
    "co_tokenLen opt' = word_of_nat (length tok)" "CHR 0x00 \<notin> set tok" "GetKey (keyPass s) \<noteq> []"
    "je_decrypt e (jo_keyManagerType (js_options s)) JWT_DEFAULT_SYM_ENC_ALG (GetKey (keyPass s)) (key_domain s) = (CRC_OK, k)"
    "Split tok ''.'' = [unpadded (ToString (tokenHeader s)), Base64Encode (Some (buf_of (co_input opt) (co_inputLen opt))), sig]"
    "CalSignB64 e (mAlg (tokenHeader s)) (unpadded (ToString (tokenHeader s)) @ CHR ''.'' #
       Base64Encode (Some (buf_of (co_input opt) (co_inputLen opt)))) k = Inr sig"
proof -
  obtain tok rest where t: "create_inner e opt s = Inr tok"
    "buf_of (co_input opt) (co_inputLen opt) \<noteq> []" "co_token opt' = Some (tok @ CHR 0x00 # rest)"
    "unat (co_tokenLen opt') = length tok"
    using CreateToken_OK[OF c b] by metis
  obtain k where k: "GetKey (keyPass s) \<noteq> []"
    "je_decrypt e (jo_keyManagerType (js_options s)) JWT_DEFAULT_SYM_ENC_ALG (GetKey (keyPass s)) (key_domain s) = (CRC_OK, k)"
    "CreateTokenFromExternalKey e k (buf_of (co_input opt) (co_inputLen opt)) s = Inr tok"
    using t(1) i CreateTokenFromInternalKey_Inr[of e _ s tok] by (auto simp: create_inner_def Let_def)
  have tl: "co_tokenLen opt' = word_of_nat (length tok)"
    using arg_cong[OF t(4), of "word_of_nat :: nat \<Rightarrow> u32"] by simp
  obtain sig where "Split tok ''.'' = [unpadded (ToString (tokenHeader s)), Base64Encode (Some (buf_of (co_input opt) (co_inputLen opt))), sig]"
    "CalSignB64 e (mAlg (tokenHeader s)) (unpadded (ToString (tokenHeader s)) @ CHR ''.'' #
       Base64Encode (Some (buf_of (co_input opt) (co_inputLen opt)))) k = Inr sig" "CHR 0x00 \<notin> set tok"
    using Split_token[OF law k(3) t(2)] by metis
  then show thesis
    using that t(3,4) tl k(1,2) by blast
qed

text \<open>Refreshing the signing key does not invalidate tokens made with the previous key. Only what is
  encrypted and decrypted here has to be decrypted again by the services of the validation.\<close>

lemma refresh_core:
  fixes s :: jwt_server and dm :: u32
  defines "ty \<equiv> jo_keyManagerType (js_options s)" and "dm \<equiv> key_domain s"
  assumes law: "hmac_law (je_hmac e)" and tot: "hmac_total (je_hmac e)" and h: "header_ok (tokenHeader s)"
    and alg: "mAlg (tokenHeader s) = jo_algType (js_options s)"
    and c: "CreateToken e opt s = (JWT_OK, opt')" and b: "buf_ok (co_input opt) (co_inputLen opt)"
    and len: "unat (co_tokenLen opt') < unat JWT_INPUT_LENGTH_MAX"
    and r: "RefreshEncryptionKey e1 newKey s = (JWT_OK, s2)"
    and hm: "je_hmac e2 = je_hmac e"
    and oback: "\<And>k. je_decrypt e ty JWT_DEFAULT_SYM_ENC_ALG (GetKey (keyPass s)) dm = (CRC_OK, k) \<Longrightarrow>
      je_decrypt e2 ty JWT_DEFAULT_SYM_ENC_ALG (GetKey (keyPass s)) dm = (CRC_OK, k)"
    and cback: "cipher_back e1 e2"
    and fresh: "\<not> token_expired e2 (sint (mExpireTimeMinute (tokenHeader s))) (uint (mCreateTimeSec (tokenHeader s)))"
    and key: "\<not> IsOldKeyExpired e2 (keyPass s2)"
  shows "ValidateToken e2 (present opt opt') s2 = JWT_OK"
proof -
  obtain raw c2 where ref: "started s" "jo_keyTransferMode (js_options s) = INTERNAL_KEY" "newKey = Some raw"
    "Jwt_CheckKeyLen (word_of_nat (length raw)) s = JWT_OK"
    "je_encrypt e1 (jo_keyManagerType (js_options s)) JWT_DEFAULT_SYM_ENC_ALG raw (key_domain s) = (CRC_OK, c2)" "c2 \<noteq> []"
    "kp_key (keyPass s) \<noteq> None"
    "s2 = s\<lparr>keyPass := (keyPass s)\<lparr>kp_oldKey := kp_key (keyPass s), kp_oldTime := kp_newTime (keyPass s),
       kp_key := Some c2, kp_newTime := now_u64 e1\<rparr>\<rparr>"
    using RefreshEncryptionKey_OK[OF r] by metis
  let ?P = "Base64Encode (Some (buf_of (co_input opt) (co_inputLen opt)))" and ?H = "unpadded (ToString (tokenHeader s))"
  let ?msg = "?H @ CHR ''.'' # ?P"
  obtain tok rest k sig where t: "co_token opt' = Some (tok @ CHR 0x00 # rest)" "unat (co_tokenLen opt') = length tok"
    and tl: "co_tokenLen opt' = word_of_nat (length tok)" and nul: "CHR 0x00 \<notin> set tok"
    and k: "GetKey (keyPass s) \<noteq> []"
    "je_decrypt e (jo_keyManagerType (js_options s)) JWT_DEFAULT_SYM_ENC_ALG (GetKey (keyPass s)) (key_domain s) = (CRC_OK, k)"
    and sp: "Split tok ''.'' = [?H, ?P, sig]" and cs: "CalSignB64 e (mAlg (tokenHeader s)) ?msg k = Inr sig"
    using CreateToken_internal[OF law c b ref(2)] by metis
  have "unat (word_of_nat (length raw) :: u32) \<le> length raw"
    by (simp add: unat_of_nat)
  then obtain sig2 where cs2: "CalSignB64 e (mAlg (tokenHeader s)) ?msg raw = Inr sig2"
    using CalSignB64_total[OF law tot, of ?msg "mAlg (tokenHeader s)" raw] Jwt_CheckKeyLen_OK[OF ref(4)] alg by auto
  have sameopt: "js_options s2 = js_options s" "started s2" "key_domain s2 = key_domain s" "tokenHeader s2 = tokenHeader s"
    "GetKey (keyPass s2) = c2" "GetOldKey (keyPass s2) = GetKey (keyPass s)"
    using ref(1,7,8) by (auto simp: key_domain_def GetKey_def GetOldKey_def)
  have new: "CheckCalculateSignature e2 (mAlg (tokenHeader s)) c2 ?msg s2 = Inr sig2"
    using ref(5,6) cback cs2 CalSignB64_env[OF hm]
    by (simp add: CheckCalculateSignature_def sameopt cipher_back_def)
  have old: "CheckCalculateSignature e2 (mAlg (tokenHeader s)) (GetKey (keyPass s)) ?msg s2 = Inr sig"
    using k(1) oback[unfolded ty_def dm_def, OF k(2)] cs CalSignB64_env[OF hm]
    by (simp add: CheckCalculateSignature_def sameopt)
  have sign: "sign_to_check e2 v (mAlg (tokenHeader s)) ?msg sig s2 = Inr sig" for v
    using new old key k(1) ref(2)
    by (simp add: sign_to_check_def ValidateTokenFromInternalKey_def sameopt Let_def)
  show ?thesis
  proof (rule ValidateToken_parts[OF _ _ h fresh sign])
    show "CheckValidateTokenParams (present opt opt') s2 = JWT_OK"
      unfolding present_def t(1) tl using len t(2) sameopt(2)
      by (intro CheckValidateTokenParams_present nul) simp_all
    show "Split (c_str (the (vo_token (present opt opt')))) ''.'' = [?H, ?P, sig]"
      using nul sp by (simp add: present_def t(1) c_str_append)
  qed
qed


subsection \<open>Sizes\<close>

lemma length_nat_str: "n < 10 ^ Suc k \<Longrightarrow> length (nat_str n) \<le> Suc k"
proof (induction k arbitrary: n)
  case 0
  then show ?case by (subst nat_str.simps) simp
next
  case (Suc k)
  then have "n div 10 < 10 ^ Suc k" by simp
  then show ?case
    using Suc.IH[of "n div 10"] by (subst nat_str.simps) auto
qed

lemma length_int_str: "\<bar>i\<bar> < 10 ^ Suc k \<Longrightarrow> length (int_str i) \<le> k + 2"
proof -
  assume "\<bar>i\<bar> < 10 ^ Suc k"
  then have "nat \<bar>i\<bar> < 10 ^ Suc k"
    by (simp add: nat_less_iff)
  from length_nat_str[OF this] show ?thesis
    by (auto simp: int_str_def)
qed

lemma length_ToString: "length (ToString h) \<le> 100"
proof -
  have "length (int_str (alg_int (mAlg h))) \<le> 2"
    using length_int_str[of "alg_int (mAlg h)" 0] by (cases "mAlg h") simp_all
  moreover have "length (int_str (sint (mExpireTimeMinute h))) \<le> 6"
    using i16_bounds[of "mExpireTimeMinute h"] length_int_str[of "sint (mExpireTimeMinute h)" 4] by simp
  moreover have "length (int_str (uint (mCreateTimeSec h))) \<le> 22"
    using unsigned_less[of "mCreateTimeSec h", where ?'a = int] uint_ge_0[of "mCreateTimeSec h"]
      length_int_str[of "uint (mCreateTimeSec h)" 20] by simp
  ultimately show ?thesis by (simp add: ToString_def)
qed

lemma EstimateTokenLength_value:
  assumes "EstimateTokenLength n s = (JWT_OK, out)"
  shows "unat out = ((length (ToString (tokenHeader s)) + 2) div 3 * 4 + 1) + ((unat n + 2) div 3 * 4 + 1)
    + ((GetEstimateHmacOutLen (mAlg (tokenHeader s)) + 2) div 3 * 4 + 1) + 2"
proof -
  let ?h = "length (ToString (tokenHeader s))" and ?o = "GetEstimateHmacOutLen (mAlg (tokenHeader s))"
  have n: "unat n \<le> 104857600" and
    out: "out = Base64EncodeLen (word_of_nat ?h) + Base64EncodeLen n + Base64EncodeLen (word_of_nat ?o) + 2"
    using assms by (auto simp: EstimateTokenLength_def Let_def not_less word_le_nat_alt JWT_INPUT_LENGTH_MAX_def split: if_splits)
  have h: "unat (Base64EncodeLen (word_of_nat ?h)) = (?h + 2) div 3 * 4 + 1"
    using length_ToString[of "tokenHeader s"] by (intro Base64EncodeLen_nat) simp
  have i: "unat (Base64EncodeLen n) = (unat n + 2) div 3 * 4 + 1"
    using Base64EncodeLen_nat[of "unat n"] n by simp
  have o: "unat (Base64EncodeLen (word_of_nat ?o)) = (?o + 2) div 3 * 4 + 1"
    by (intro Base64EncodeLen_nat) (cases "mAlg (tokenHeader s)"; simp add: hmac_lengths)
  have hb: "(?h + 2) div 3 * 4 + 1 \<le> 137"
    using div_le_mono[of "?h + 2" 102 3] length_ToString[of "tokenHeader s"] by simp
  have ib: "(unat n + 2) div 3 * 4 + 1 \<le> 139810137"
    using div_le_mono[of "unat n + 2" 104857602 3] n by simp
  have ob: "(?o + 2) div 3 * 4 + 1 \<le> 89"
    by (cases "mAlg (tokenHeader s)") (simp_all add: hmac_lengths)
  show ?thesis
    unfolding out unat_word_ariths h i o using hb ib ob by simp
qed

lemma CreateToken_fits_core:
  assumes law: "hmac_law (je_hmac e)" and p: "CheckCreateTokenParams opt s = JWT_OK"
    and t: "create_inner e opt s = Inr tok" and b: "buf_ok (co_input opt) (co_inputLen opt)"
    and est: "EstimateTokenLength (co_inputLen opt) s = (JWT_OK, n)" and fit: "n \<le> co_tokenLen opt"
  shows "fst (CreateToken e opt s) = JWT_OK"
proof -
  let ?in = "buf_of (co_input opt) (co_inputLen opt)"
  obtain k where k: "CreateTokenFromExternalKey e k ?in s = Inr tok"
    using t CreateTokenFromInternalKey_Inr[of e ?in s tok]
    by (auto simp: create_inner_def Let_def split: JwtAuthMode.splits if_splits option.splits sum.splits)
  have "0 < unat (co_inputLen opt)" "co_input opt \<noteq> None"
    using p by (auto simp: CheckCreateTokenParams_def unat_gt_0 split: if_splits option.splits)
  then have ne: "?in \<noteq> []" and il: "length ?in = unat (co_inputLen opt)"
    using b by (auto simp: buf_of_def buf_ok_def)
  have "length tok + 1 \<le> unat n"
  proof -
    have "length tok + 1 \<le> length (Base64Encode (Some (ToString (tokenHeader s)))) + length (Base64Encode (Some ?in))
       + 4 * ((GetEstimateHmacOutLen (mAlg (tokenHeader s)) + 2) div 3) + 3"
      using Split_token[OF law k ne] by metis
    then show ?thesis
      unfolding EstimateTokenLength_value[OF est] base64_length il by linarith
  qed
  then show ?thesis
    using p t fit by (simp add: CreateToken_def Let_def word_le_nat_alt not_less)
qed


lemma CreateTokenFromExternalKey_total:
  assumes "hmac_law (je_hmac e)" "hmac_total (je_hmac e)" "mAlg (tokenHeader s) \<noteq> HMAC_UNKNOWN"
    and "GetKeyLenMin (mAlg (tokenHeader s)) \<le> length key"
  shows "\<exists>tok. CreateTokenFromExternalKey e key input s = Inr tok"
proof -
  have n: "ToString (tokenHeader s) \<noteq> []" by (simp add: ToString_def)
  have b: "Base64Encode (Some (ToString (tokenHeader s))) \<noteq> []"
    using base64_injective[of "ToString (tokenHeader s)" "[]"] n by (simp add: Base64Encode_ref encode_tail_simps)
  obtain sig where "CalSignB64 e (mAlg (tokenHeader s))
      (unpadded (ToString (tokenHeader s)) @ CHR ''.'' # Base64Encode (Some input)) key = Inr sig"
    using CalSignB64_total[OF assms(1,2) _ assms(3,4)] by blast
  then show ?thesis
    by (simp add: CreateTokenFromExternalKey_def Split_unpadded[OF n] b Let_def)
qed

subsection \<open>The server as a state machine\<close>

datatype jwt_op =
    JStart jwt_env CDFDistAuthServerOptions
  | JStop
  | JSet jwt_env "bytes option"
  | JRefresh jwt_env "bytes option"

fun jwt_step :: "jwt_op \<Rightarrow> jwt_server \<Rightarrow> jwt_server" where
  "jwt_step (JStart e opt) s = snd (Jwt_Start e opt s)"
| "jwt_step JStop s = snd (Jwt_Stop s)"
| "jwt_step (JSet e key) s = snd (SetEncryptionKey e key s)"
| "jwt_step (JRefresh e key) s = snd (RefreshEncryptionKey e key s)"

definition clock_ok :: "jwt_env \<Rightarrow> bool" where
  "clock_ok e \<longleftrightarrow> 0 \<le> je_now e \<and> je_now e < 2 ^ 63"

fun jwt_ok :: "jwt_op \<Rightarrow> bool" where
  "jwt_ok (JStart e opt) = clock_ok e"
| "jwt_ok JStop = True"
| "jwt_ok (JSet e key) = clock_ok e"
| "jwt_ok (JRefresh e key) = clock_ok e"

definition keypass_ok :: "JwtKeyPass \<Rightarrow> bool" where
  "keypass_ok k \<longleftrightarrow> kp_hours k \<le> MAX_ALLOWED_EXPIRE_HOURS \<and> uint (kp_newTime k) < 2 ^ 63 \<and>
     uint (kp_oldTime k) < 2 ^ 63 \<and> kp_key k \<noteq> Some [] \<and> kp_oldKey k \<noteq> Some []"

definition jwt_inv :: "jwt_server \<Rightarrow> bool" where
  "jwt_inv s \<longleftrightarrow> keypass_ok (keyPass s) \<and>
     (started s \<longrightarrow> header_ok (tokenHeader s) \<and> mAlg (tokenHeader s) = jo_algType (js_options s) \<and>
        mExpireTimeMinute (tokenHeader s) = jo_tokenExpireMinutes (js_options s) \<and>
        (jo_keyTransferMode (js_options s) = INTERNAL_KEY \<or> jo_keyTransferMode (js_options s) = EXTERNAL_KEY))"

lemma now_u64_range: "clock_ok e \<Longrightarrow> uint (now_u64 e) = je_now e"
  by (simp add: clock_ok_def now_u64_def uint_word_of_int)

lemma keypass_new_ok: "keypass_ok (JwtKeyPass_new h)"
  by (auto simp: keypass_ok_def JwtKeyPass_new_def MAX_ALLOWED_EXPIRE_HOURS_def DEFAULT_SERVER_EXPIRE_HOURS_def)

lemma SetKey_ok:
  assumes "keypass_ok k" "clock_ok e" shows "keypass_ok (snd (SetKey e key ty dm alg k))"
  using assms now_u64_range[OF assms(2)]
  by (auto simp: SetKey_def keypass_ok_def clock_ok_def split: option.split prod.split)

lemma RefreshKey_ok:
  assumes k: "keypass_ok k" and e: "clock_ok e" shows "keypass_ok (snd (RefreshKey e key ty dm alg k))"
proof -
  have "keypass_ok (k\<lparr>kp_oldKey := kp_key k, kp_oldTime := kp_newTime k\<rparr>)" "keypass_ok (k\<lparr>kp_oldKey := None\<rparr>)"
    using k by (simp_all add: keypass_ok_def)
  with SetKey_ok[OF this(1) e, of key ty dm alg] show ?thesis
    using k by (auto simp: RefreshKey_def Let_def split: prod.splits)
qed

lemma jwt_inv_keyPass:
  "jwt_inv s \<Longrightarrow> keypass_ok k \<Longrightarrow> jwt_inv (s\<lparr>keyPass := k\<rparr>)"
  by (simp add: jwt_inv_def)

lemma jwt_inv_Start:
  assumes inv: "jwt_inv s" and e: "clock_ok e"
  shows "jwt_inv (snd (Jwt_Start e opt s))"
proof (cases "started s \<or> fst (ValidateOptions e opt s) \<noteq> JWT_OK \<or>
    jo_keyTransferMode opt \<noteq> INTERNAL_KEY \<and> jo_keyTransferMode opt \<noteq> EXTERNAL_KEY")
  case True
  then show ?thesis
    using inv by (auto simp: Jwt_Start_def ValidateOptions_def split: prod.splits if_splits)
next
  case False
  then have v: "ValidateOptions e opt s = (JWT_OK, s\<lparr>js_options := opt\<rparr>)" "jo_algType opt \<noteq> HMAC_UNKNOWN"
    by (auto simp: ValidateOptions_def split: if_splits)
  have h: "header_ok (JwtTokenHeader_new e (jo_algType opt) (jo_tokenExpireMinutes opt))"
    using v(2) now_u64_range[OF e] e by (simp add: header_ok_def JwtTokenHeader_new_def clock_ok_def)
  have "keypass_ok (keyPass s)" using inv by (simp add: jwt_inv_def)
  then show ?thesis
    using False h keypass_new_ok
    by (auto simp: Jwt_Start_def v Let_def jwt_inv_def) (simp_all add: JwtTokenHeader_new_def)
qed

lemma jwt_inv_Stop: "jwt_inv s \<Longrightarrow> jwt_inv (snd (Jwt_Stop s))"
  by (simp add: Jwt_Stop_def Let_def jwt_inv_def)

lemma jwt_inv_step: "jwt_ok opn \<Longrightarrow> jwt_inv s \<Longrightarrow> jwt_inv (jwt_step opn s)"
proof (cases opn)
  case (JSet e key)
  then show "jwt_ok opn \<Longrightarrow> jwt_inv s \<Longrightarrow> jwt_inv (jwt_step opn s)"
    using SetKey_ok[of "keyPass s" e key "jo_keyManagerType (js_options s)" "key_domain s" JWT_DEFAULT_SYM_ENC_ALG]
    by (auto simp: SetEncryptionKey_def Let_def jwt_inv_def split: prod.splits)
next
  case (JRefresh e key)
  then show "jwt_ok opn \<Longrightarrow> jwt_inv s \<Longrightarrow> jwt_inv (jwt_step opn s)"
    using RefreshKey_ok[of "keyPass s" e key "jo_keyManagerType (js_options s)" "key_domain s" JWT_DEFAULT_SYM_ENC_ALG]
    by (auto simp: RefreshEncryptionKey_def Let_def jwt_inv_def split: prod.splits)
qed (simp_all add: jwt_inv_Start jwt_inv_Stop)

lemma jwt_inv_new: "jwt_inv jwt_server_new"
  by (simp add: jwt_inv_def jwt_server_new_def keypass_ok_def MAX_ALLOWED_EXPIRE_HOURS_def DEFAULT_SERVER_EXPIRE_HOURS_def)

interpretation jwt: machine jwt_step jwt_server_new jwt_ok jwt_inv
  by unfold_locales (simp_all add: jwt_inv_new jwt_inv_step)

text \<open>The 64-bit deadline does not wrap around.\<close>

lemma deadline_exact:
  fixes t h :: u64
  assumes "h \<le> 65535" "uint t < 2 ^ 63" shows "uint (t + h * 3600) = uint t + uint h * 3600"
proof -
  have "uint h \<le> 65535" using assms(1) by (simp add: word_le_def)
  then show ?thesis
    using assms(2) by (simp add: uint_word_ariths)
qed

lemma IsExpired_exact:
  assumes "keypass_ok k" "clock_ok e"
  shows "IsExpired e k \<longleftrightarrow> uint (kp_newTime k) + uint (kp_hours k) * 3600 < je_now e"
    "IsOldKeyExpired e k \<longleftrightarrow> uint (kp_oldTime k) + uint (kp_hours k) * 3600 < je_now e"
  using assms deadline_exact[of "kp_hours k" "kp_newTime k"] deadline_exact[of "kp_hours k" "kp_oldTime k"]
    now_u64_range[OF assms(2)]
  by (simp_all add: IsExpired_def IsOldKeyExpired_def word_less_def SECONDS_PER_HOUR_def keypass_ok_def
      MAX_ALLOWED_EXPIRE_HOURS_def)


subsection \<open>Properties\<close>

definition demo_hmac :: hmac_env where
  "demo_hmac = \<lparr>hm_md = (\<lambda>_. True), hm_hmac = (\<lambda>alg key inp. Some (replicate (GetEstimateHmacOutLen alg) (last key)))\<rparr>"

definition demo_jenv :: "int \<Rightarrow> jwt_env" where
  "demo_jenv t = \<lparr>je_now = t, je_canonical = Some, je_access = (\<lambda>_. True), je_km_init = (\<lambda>_ _ _ _. KM_OK),
     je_encrypt = (\<lambda>_ _ raw _. (CRC_OK, CHR ''e'' # raw)), je_decrypt = (\<lambda>_ _ c _. (CRC_OK, tl c)),
     je_hmac = demo_hmac\<rparr>"

lemma demo_laws: "hmac_law (je_hmac (demo_jenv t))" "hmac_total (je_hmac (demo_jenv t))"
    "cipher_back (demo_jenv t) (demo_jenv u)" "same_services (demo_jenv t) (demo_jenv u)"
  by (auto simp: hmac_law_def hmac_total_def cipher_back_def same_services_def demo_jenv_def demo_hmac_def)

definition demo_server :: jwt_server where
  "demo_server = \<lparr>started = True, js_options = jwt_default_options,
     tokenHeader = \<lparr>mAlg = HMAC_SHA256, mExpireTimeMinute = 480, mCreateTimeSec = 1000\<rparr>,
     keyPass = \<lparr>kp_key = Some (CHR ''e'' # replicate 32 (CHR ''k'')), kp_oldKey = None, kp_hours = 24,
       kp_newTime = 1000, kp_oldTime = 0\<rparr>\<rparr>"

definition demo_copt :: CDFDistAuthCreateTokenOptions where
  "demo_copt = \<lparr>co_key = None, co_keyLen = 0, co_input = Some [CHR ''h'', CHR ''i'', CHR 0x00], co_inputLen = 3,
     co_token = Some [], co_tokenLen = 1000\<rparr>"

text \<open>A server with the options and the header of \<open>demo_server\<close>, its own key, and some environment.\<close>

definition demo_like :: "jwt_env \<Rightarrow> jwt_server \<Rightarrow> bool" where
  "demo_like e s \<longleftrightarrow> started s \<and> js_options s = jwt_default_options \<and> tokenHeader s = tokenHeader demo_server \<and>
     je_hmac e = demo_hmac \<and> \<not> IsExpired e (keyPass s) \<and> GetKey (keyPass s) \<noteq> [] \<and>
     je_decrypt e OPENBAO AES256_GCM (GetKey (keyPass s)) 0 = (CRC_OK, replicate 32 (CHR ''k''))"

lemma demo_like_demo: "demo_like (demo_jenv 2000) demo_server"
  by (simp add: demo_like_def IsExpired_def demo_server_def demo_jenv_def now_u64_def SECONDS_PER_HOUR_def GetKey_def)

lemma demo_hmac_laws: "hmac_law demo_hmac" "hmac_total demo_hmac"
  using demo_laws(1,2)[of 0] by (simp_all add: demo_jenv_def)

lemma demo_inner: "demo_like e s \<Longrightarrow> \<exists>tok. create_inner e demo_copt s = Inr tok"
proof -
  assume d: "demo_like e s"
  have "\<exists>tok. CreateTokenFromExternalKey e (replicate 32 (CHR ''k'')) inp s = Inr tok" for inp
    by (rule CreateTokenFromExternalKey_total)
      (use d in \<open>simp_all add: demo_like_def demo_hmac_laws demo_server_def hmac_lengths\<close>)
  then obtain tok where "CreateTokenFromExternalKey e (replicate 32 (CHR ''k''))
      (buf_of (co_input demo_copt) (co_inputLen demo_copt)) s = Inr tok" by blast
  then show ?thesis
    using d by (simp add: create_inner_def CreateTokenFromInternalKey_def Let_def demo_like_def
        jwt_default_options_def key_domain_def u32_of_i16_def JWT_DEFAULT_SYM_ENC_ALG_def)
qed

lemma demo_params: "demo_like e s \<Longrightarrow> CheckCreateTokenParams demo_copt s = JWT_OK"
  by (simp add: CheckCreateTokenParams_def demo_copt_def demo_like_def jwt_default_options_def strnlen_def c_str_def
      JWT_INPUT_LENGTH_MAX_def)

lemma demo_estimate:
  assumes "demo_like e s" shows "\<exists>n. EstimateTokenLength 3 s = (JWT_OK, n) \<and> n \<le> 1000"
proof -
  have t: "started s" "mAlg (tokenHeader s) = HMAC_SHA256"
    using assms by (simp_all add: demo_like_def demo_server_def)
  then obtain n where n: "EstimateTokenLength 3 s = (JWT_OK, n)"
    by (simp add: EstimateTokenLength_def JWT_INPUT_LENGTH_MAX_def hmac_lengths)
  have "(length (ToString (tokenHeader s)) + 2) div 3 * 4 + 1 \<le> 137"
    using div_le_mono[of "length (ToString (tokenHeader s)) + 2" 102 3] length_ToString by simp
  then have "unat n \<le> 1000"
    unfolding EstimateTokenLength_value[OF n] by (simp add: t hmac_lengths)
  then show ?thesis using n by (simp add: word_le_nat_alt)
qed

lemma demo_buf: "buf_ok (co_input demo_copt) (co_inputLen demo_copt)"
  by (simp add: buf_ok_def demo_copt_def)

lemma demo_create:
  assumes d: "demo_like e s"
  obtains opt' where "CreateToken e demo_copt s = (JWT_OK, opt')" "unat (co_tokenLen opt') < unat JWT_INPUT_LENGTH_MAX"
proof -
  obtain tok where t: "create_inner e demo_copt s = Inr tok"
    using demo_inner[OF d] by blast
  have law: "hmac_law (je_hmac e)"
    using d demo_hmac_laws by (simp add: demo_like_def)
  obtain n where "EstimateTokenLength 3 s = (JWT_OK, n)" "n \<le> 1000"
    using demo_estimate[OF d] by blast
  then have f: "fst (CreateToken e demo_copt s) = JWT_OK"
    by (intro CreateToken_fits_core[OF law demo_params[OF d] t demo_buf]) (auto simp: demo_copt_def)
  then have l: "length tok < 1000"
    using t demo_params[OF d] by (auto simp: CreateToken_def Let_def demo_copt_def split: if_splits)
  have "unat (co_tokenLen (snd (CreateToken e demo_copt s))) = length tok"
    using t demo_params[OF d] l by (simp add: CreateToken_def Let_def demo_copt_def unat_of_nat)
  then show thesis
    using that[of "snd (CreateToken e demo_copt s)"] f l by (simp add: prod_eq_iff JWT_INPUT_LENGTH_MAX_def)
qed

lemma jwt_created_token_accepted_witness:
  "\<exists>opt'. ValidateToken (demo_jenv 3000) (present demo_copt opt') demo_server = JWT_OK"
proof -
  obtain opt' where c: "CreateToken (demo_jenv 2000) demo_copt demo_server = (JWT_OK, opt')"
    "unat (co_tokenLen opt') < unat JWT_INPUT_LENGTH_MAX" by (rule demo_create[OF demo_like_demo])
  have "ValidateToken (demo_jenv 3000) (present demo_copt opt') demo_server = JWT_OK"
  proof (rule jwt_created_token_accepted[OF demo_laws(1) _ c(1) demo_buf c(2) demo_laws(4)])
    show "header_ok (tokenHeader demo_server)" by (simp add: header_ok_def demo_server_def)
    show "\<not> token_expired (demo_jenv 3000) (sint (mExpireTimeMinute (tokenHeader demo_server)))
      (uint (mCreateTimeSec (tokenHeader demo_server)))"
      by (simp add: token_expired_def demo_server_def demo_jenv_def JWT_EXPIRE_TIME_MAX_MINUTE_def JWT_SECONDS_PER_MINUTE_def)
    show "\<not> IsExpired (demo_jenv 3000) (keyPass demo_server)"
      by (simp add: IsExpired_def demo_server_def demo_jenv_def now_u64_def SECONDS_PER_HOUR_def)
  qed
  then show ?thesis by blast
qed


text \<open>parsing the text of a header gives back its algorithm, expiry and creation time, for every
  supported algorithm, every 16-bit expiry and every creation time below \<open>2 ^ 63\<close>.\<close>

lemma jwt_header_roundtrip:
  assumes "header_ok h"
  shows "GetInfoByToken (ToString h) = Some (mAlg h, sint (mExpireTimeMinute h), uint (mCreateTimeSec h))"
  using GetInfoByToken_ToString[OF assms] by (simp add: header_info_def)

lemma jwt_header_roundtrip_witness:
  "GetInfoByToken (ToString \<lparr>mAlg = HMAC_SHA384, mExpireTimeMinute = - 1, mCreateTimeSec = 1700000000\<rparr>)
     = Some (HMAC_SHA384, - 1, 1700000000)"
  using jwt_header_roundtrip[of "\<lparr>mAlg = HMAC_SHA384, mExpireTimeMinute = - 1, mCreateTimeSec = 1700000000\<rparr>"]
  by (simp add: header_ok_def)

text \<open>a buffer of the size \<open>EstimateTokenLength\<close> reports is always large enough: \<open>CreateToken\<close> then
  succeeds whenever the token could be made, and never answers that the buffer is too short.\<close>

lemma CreateToken_fits:
  assumes "hmac_law (je_hmac e)" and "CheckCreateTokenParams opt s = JWT_OK"
    and "create_inner e opt s = Inr tok" and "buf_ok (co_input opt) (co_inputLen opt)"
    and "EstimateTokenLength (co_inputLen opt) s = (JWT_OK, n)" and "n \<le> co_tokenLen opt"
  shows "fst (CreateToken e opt s) = JWT_OK"
  using assms by (rule CreateToken_fits_core)

lemma CreateToken_fits_witness: "fst (CreateToken (demo_jenv 2000) demo_copt demo_server) = JWT_OK"
proof -
  obtain tok where t: "create_inner (demo_jenv 2000) demo_copt demo_server = Inr tok"
    using demo_inner[OF demo_like_demo] by blast
  obtain n where "EstimateTokenLength 3 demo_server = (JWT_OK, n)" "n \<le> 1000"
    using demo_estimate[OF demo_like_demo] by blast
  then show ?thesis
    by (intro CreateToken_fits[OF demo_laws(1) demo_params[OF demo_like_demo] t demo_buf]) (auto simp: demo_copt_def)
qed

text \<open>key expiry is exact in every reachable state of the server: the 64-bit deadline never wraps
  around, so the present and the previous key are expired exactly when the clock has passed their
  creation time plus the configured hours.\<close>

lemma jwt_reachable_expiry:
  assumes "\<forall>opn \<in> set ops. jwt_ok opn" and "s = fold jwt_step ops jwt_server_new" and "clock_ok e"
  shows "(IsExpired e (keyPass s) \<longleftrightarrow> uint (kp_newTime (keyPass s)) + uint (kp_hours (keyPass s)) * 3600 < je_now e) \<and>
    (IsOldKeyExpired e (keyPass s) \<longleftrightarrow> uint (kp_oldTime (keyPass s)) + uint (kp_hours (keyPass s)) * 3600 < je_now e)"
proof -
  have "keypass_ok (keyPass s)"
    using jwt.inv_run[OF assms(1)] assms(2) by (simp add: jwt_inv_def)
  then show ?thesis using IsExpired_exact[OF _ assms(3)] by blast
qed

lemma jwt_reachable_expiry_witness:
  "let s = fold jwt_step [JStart (demo_jenv 1000) (jwt_default_options\<lparr>jo_accessToken := ''t''\<rparr>),
      JSet (demo_jenv 1000) (Some (replicate 32 (CHR ''k'')))] jwt_server_new in
   IsExpired (demo_jenv 90000) (keyPass s) =
     (uint (kp_newTime (keyPass s)) + uint (kp_hours (keyPass s)) * 3600 < je_now (demo_jenv 90000))"
  unfolding Let_def
  by (rule jwt_reachable_expiry[OF _ refl, THEN conjunct1]) (simp_all add: clock_ok_def demo_jenv_def)

text \<open>an expiry of \<open>-1\<close> means "never" for tokens but not for the server's key: the option is
  converted to an unsigned 64-bit number, exceeds the maximum and is replaced by the default of 24
  hours.\<close>

lemma minus_one_expiry:
  "kp_hours (JwtKeyPass_new (u64_of_i16 (- 1))) = 24 \<and> \<not> token_expired e (- 1) c"
  by (simp add: JwtKeyPass_new_def u64_of_i16_def MAX_ALLOWED_EXPIRE_HOURS_def DEFAULT_SERVER_EXPIRE_HOURS_def
      token_expired_def JWT_EXPIRE_TIME_MAX_MINUTE_def)

end
