(* ===== verification/CdfEngine.thy ===== *)
theory CdfEngine
  imports CdfDefs CdfBase64
begin

section \<open>Symmetric encryption and key derivation (\<open>modules/cryption/native_cryptor*\<close>)\<close>

text \<open>
  \<open>NativeCryptor\<close>, the entry point the key managers use, and the \<open>CryptoEngine\<close> behind it: the
  parameter checks, the layout of the ciphertext buffer (IV, AAD, tag, data), the calls of OpenSSL
  in their order, and the PBKDF2 output format with its parser.

  OpenSSL is a parameter. \<open>ce_seal\<close> is the sequence of EVP calls of an encryption, from
  \<open>EVP_EncryptInit_ex\<close> to the read of the tag (\<open>None\<close> when one of them does not return 1);
  \<open>ce_dec\<close> is the sequence of a decryption up to \<open>EVP_DecryptUpdate\<close>, with the tag when it is set
  before (CCM), and \<open>ce_final\<close> is \<open>EVP_DecryptFinal_ex\<close> after setting the tag (the other AEAD modes).
  \<open>ce_rand k n\<close> is what the \<open>k\<close>-th call of \<open>GetRand\<close> in an operation stores in \<open>n\<close> bytes, and \<open>ce_stack\<close>
  is what the uninitialised buffer on the stack happens to hold. The state of the engine is the
  cipher suite of its configuration; the caller holds \<open>gMutex\<close> for a whole operation.
\<close>

datatype CcsecCryptErrorCode =
    CCSEC_CRYPT_OK | CCSEC_CRYPT_ERROR | CCSEC_CRYPT_PARAM_INVALID
  | CCSEC_OPENSSL_EAL_CIPHER_CTX_NULL | CCSEC_OPENSSL_CRYPT_EAL_ERR_ALGID
  | CCSEC_OPENSSL_CRYPT_AES_ERR_KEYLEN

datatype CcsecCipherSuite =
    CCSEC_AES_GCM_128 | CCSEC_AES_GCM_256 | CCSEC_AES_CCM_128 | CCSEC_CHACHA20_POLY1305
  | CCSEC_SM4_CTR | CCSEC_UNSPECIFIED

record crypto_env =
  ce_rand :: "nat \<Rightarrow> nat \<Rightarrow> bytes option"
  ce_stack :: "nat \<Rightarrow> char"
  ce_ctx :: bool
  ce_fetch :: "string \<Rightarrow> (u32 \<times> u32) option"
  ce_seal :: "string \<Rightarrow> bytes \<Rightarrow> bytes \<Rightarrow> bytes option \<Rightarrow> bytes \<Rightarrow> (bytes \<times> bytes) option"
  ce_tag_len :: u32
  ce_dec :: "string \<Rightarrow> bytes \<Rightarrow> bytes \<Rightarrow> bytes option \<Rightarrow> bytes option \<Rightarrow> bytes \<Rightarrow> bytes option"
  ce_final :: "string \<Rightarrow> bytes \<Rightarrow> bytes \<Rightarrow> bytes \<Rightarrow> bytes \<Rightarrow> bytes \<Rightarrow> bool"
  ce_md :: "string \<Rightarrow> bool"
  ce_pbkdf2 :: "string \<Rightarrow> bytes \<Rightarrow> bytes \<Rightarrow> u32 \<Rightarrow> u32 \<Rightarrow> bytes option"

definition PLAINTEXT_MAX_LENGTH :: nat where "PLAINTEXT_MAX_LENGTH = 1024 * 1024"
definition CIPHERTEXT_MAX_LENGTH :: nat where "CIPHERTEXT_MAX_LENGTH = 2 * 1024 * 1024"

subsection \<open>The configuration: lengths and offsets of the ciphertext buffer\<close>

definition GetIVLength :: "CcsecCipherSuite \<Rightarrow> nat" where
  "GetIVLength s = (if s = CCSEC_SM4_CTR then 16 else 12)"

definition GetAADLength :: "CcsecCipherSuite \<Rightarrow> nat" where
  "GetAADLength s = 16"

definition TAG_LEN_DEFAULT :: nat where "TAG_LEN_DEFAULT = 16"
definition mIVOffset :: nat where "mIVOffset = 0"
definition mAADOffset :: nat where "mAADOffset = mIVOffset + 12"
definition mTagOffset :: nat where "mTagOffset = mAADOffset + 16"
definition mCipherOffset :: nat where "mCipherOffset = mTagOffset + TAG_LEN_DEFAULT"

lemmas layout_defs = GetIVLength_def GetAADLength_def TAG_LEN_DEFAULT_def mIVOffset_def
  mAADOffset_def mTagOffset_def mCipherOffset_def

fun GetCipherSuite :: "CryptoSymAlg \<Rightarrow> CcsecCipherSuite" where
  "GetCipherSuite AES128_GCM = CCSEC_AES_GCM_128"
| "GetCipherSuite AES256_GCM = CCSEC_AES_GCM_256"
| "GetCipherSuite SM4_CTR = CCSEC_SM4_CTR"
| "GetCipherSuite AES128_CCM = CCSEC_AES_CCM_128"
| "GetCipherSuite CHACHA20_POLY1305 = CCSEC_CHACHA20_POLY1305"
| "GetCipherSuite SYM_UNKNOWN = CCSEC_UNSPECIFIED"

text \<open>\<open>nullptr\<close> for an unspecified suite; no caller passes one.\<close>

fun convertCipherSuiteId :: "CcsecCipherSuite \<Rightarrow> string" where
  "convertCipherSuiteId CCSEC_AES_GCM_128 = ''aes-128-gcm''"
| "convertCipherSuiteId CCSEC_AES_GCM_256 = ''aes-256-gcm''"
| "convertCipherSuiteId CCSEC_AES_CCM_128 = ''aes-128-ccm''"
| "convertCipherSuiteId CCSEC_CHACHA20_POLY1305 = ''chacha20-poly1305''"
| "convertCipherSuiteId CCSEC_SM4_CTR = ''sm4-ctr''"
| "convertCipherSuiteId CCSEC_UNSPECIFIED = ''''"

fun GetAlgLen :: "CcsecCipherSuite \<Rightarrow> u32" where
  "GetAlgLen CCSEC_AES_GCM_128 = 128"
| "GetAlgLen CCSEC_AES_CCM_128 = 128"
| "GetAlgLen CCSEC_SM4_CTR = 128"
| "GetAlgLen CCSEC_AES_GCM_256 = 256"
| "GetAlgLen CCSEC_CHACHA20_POLY1305 = 256"
| "GetAlgLen CCSEC_UNSPECIFIED = 0"

text \<open>The 64-bit sum is compared with \<open>UINT32_MAX\<close>; the result is 32 bits wide.\<close>

definition EstimatedCipherLen :: "u32 \<Rightarrow> u32" where
  "EstimatedCipherLen plainTextLen =
    (if 2 ^ 32 - 1 < unat plainTextLen + mCipherOffset then 0
     else of_nat mCipherOffset + plainTextLen)"

definition EstimatedPlainLen :: "u32 \<Rightarrow> u32" where
  "EstimatedPlainLen cipherTextLen =
    (if unat cipherTextLen \<le> mCipherOffset then 0 else cipherTextLen - of_nat mCipherOffset)"

subsection \<open>Buffers\<close>

text \<open>Storing \<open>bs\<close> at an offset of a buffer, reading \<open>n\<close> bytes from one, and the initial contents.\<close>

definition write_at :: "bytes \<Rightarrow> nat \<Rightarrow> bytes \<Rightarrow> bytes" where
  "write_at buf off bs = take off buf @ bs @ drop (off + length bs) buf"

definition read_at :: "bytes \<Rightarrow> nat \<Rightarrow> nat \<Rightarrow> bytes" where
  "read_at buf off n = take n (drop off buf)"

definition stack_buf :: "crypto_env \<Rightarrow> nat \<Rightarrow> bytes" where
  "stack_buf E n = map (ce_stack E) [0..<n]"

text \<open>\<open>memcpy_s\<close> of securec refuses an empty destination and one above \<open>SECUREC_MEM_MAX_LEN\<close>.\<close>

definition memcpy_s_ok :: "nat \<Rightarrow> bool" where
  "memcpy_s_ok n \<longleftrightarrow> 0 < n \<and> n \<le> 0x7fffffff"

subsection \<open>Encryption\<close>

definition rand_fill :: "crypto_env \<Rightarrow> nat \<Rightarrow> bytes \<Rightarrow> nat \<Rightarrow> nat \<Rightarrow> bytes option" where
  "rand_fill E k buf off n =
    (case ce_rand E k n of None \<Rightarrow> None | Some r \<Rightarrow> Some (write_at buf off r))"

text \<open>Both encryption routines return the code, the ciphertext buffer and the ciphertext length.\<close>

definition OpensslCcmEncrypt ::
  "crypto_env \<Rightarrow> CcsecCipherSuite \<Rightarrow> bytes \<Rightarrow> bytes \<Rightarrow> u32 \<Rightarrow> bytes \<Rightarrow> u32
     \<Rightarrow> CcsecCryptErrorCode \<times> bytes \<times> u32" where
  "OpensslCcmEncrypt E s cryptoKey plainText plainTextLen cipherText cipherTextLen =
    (case rand_fill E 0 cipherText mIVOffset (GetIVLength s) of
       None \<Rightarrow> (CCSEC_CRYPT_ERROR, cipherText, cipherTextLen)
     | Some b1 \<Rightarrow> (case rand_fill E 1 b1 mAADOffset (GetAADLength s) of
         None \<Rightarrow> (CCSEC_CRYPT_ERROR, b1, cipherTextLen)
       | Some b2 \<Rightarrow>
         let iv = read_at b2 mIVOffset (GetIVLength s) in
         if \<not> ce_ctx E then (CCSEC_OPENSSL_EAL_CIPHER_CTX_NULL, b2, cipherTextLen)
         else (case ce_fetch E (convertCipherSuiteId s) of
           None \<Rightarrow> (CCSEC_OPENSSL_EAL_CIPHER_CTX_NULL, b2, cipherTextLen)
         | Some _ \<Rightarrow>
           (case ce_seal E (convertCipherSuiteId s) cryptoKey iv
                   (Some (read_at b2 mAADOffset (GetAADLength s))) (take (unat plainTextLen) plainText) of
             None \<Rightarrow> (CCSEC_CRYPT_ERROR, b2, cipherTextLen)
           | Some (c, t) \<Rightarrow>
             let b3 = write_at (write_at b2 mCipherOffset c) mTagOffset t in
             if ce_tag_len E \<noteq> of_nat TAG_LEN_DEFAULT
             then (CCSEC_CRYPT_OK, b3, EstimatedCipherLen plainTextLen)
             else (CCSEC_CRYPT_OK, b3, EstimatedCipherLen plainTextLen)))))"

text \<open>
  A tag of the wrong length makes \<open>OpensslCcmEncrypt\<close> return \<open>false\<close> as an \<open>int32_t\<close>, which is
  \<open>CCSEC_CRYPT_OK\<close>: both branches of the last conditional succeed.
\<close>

definition OpensslEncrypt ::
  "crypto_env \<Rightarrow> CcsecCipherSuite \<Rightarrow> bytes \<Rightarrow> u32 \<Rightarrow> bytes \<Rightarrow> u32 \<Rightarrow> bytes \<Rightarrow> u32
     \<Rightarrow> CcsecCryptErrorCode \<times> bytes \<times> u32" where
  "OpensslEncrypt E s cryptoKey cryptoKeyLen plainText plainTextLen cipherText cipherTextLen =
    (if s = CCSEC_AES_CCM_128
     then OpensslCcmEncrypt E s cryptoKey plainText plainTextLen cipherText cipherTextLen
     else (case rand_fill E 0 cipherText mIVOffset (GetIVLength s) of
       None \<Rightarrow> (CCSEC_CRYPT_ERROR, cipherText, cipherTextLen)
     | Some b1 \<Rightarrow> (case rand_fill E 1 b1 mAADOffset (GetAADLength s) of
         None \<Rightarrow> (CCSEC_CRYPT_ERROR, b1, cipherTextLen)
       | Some b2 \<Rightarrow>
         if \<not> ce_ctx E then (CCSEC_OPENSSL_EAL_CIPHER_CTX_NULL, b2, cipherTextLen)
         else (case ce_fetch E (convertCipherSuiteId s) of
           None \<Rightarrow> (CCSEC_OPENSSL_EAL_CIPHER_CTX_NULL, b2, cipherTextLen)
         | Some (ivl, kl) \<Rightarrow>
           if of_nat (GetIVLength s) \<noteq> ivl \<or> cryptoKeyLen \<noteq> kl then (CCSEC_CRYPT_ERROR, b2, cipherTextLen)
           else (case ce_seal E (convertCipherSuiteId s) cryptoKey
                   (read_at b2 mIVOffset (GetIVLength s))
                   (if s = CCSEC_SM4_CTR then None else Some (read_at b2 mAADOffset (GetAADLength s)))
                   (take (unat plainTextLen) plainText) of
             None \<Rightarrow> (CCSEC_CRYPT_ERROR, b2, cipherTextLen)
           | Some (c, t) \<Rightarrow>
             let b3 = write_at b2 mCipherOffset c in
             (CCSEC_CRYPT_OK, (if s = CCSEC_SM4_CTR then b3 else write_at b3 mTagOffset t),
              EstimatedCipherLen plainTextLen))))))"

definition MULTIPLIER_FACTOR :: u32 where "MULTIPLIER_FACTOR = 8"

text \<open>\<open>CryptoEngine::Encrypt\<close>; the pointers its callers pass are not null.\<close>

definition Engine_Encrypt ::
  "crypto_env \<Rightarrow> CcsecCipherSuite \<Rightarrow> bytes \<Rightarrow> u32 \<Rightarrow> bytes \<Rightarrow> u32 \<Rightarrow> bytes \<Rightarrow> u32
     \<Rightarrow> CcsecCryptErrorCode \<times> bytes \<times> u32" where
  "Engine_Encrypt E s cryptoKey cryptoKeyLen plainText plainTextLen cipherText cipherTextLen =
    (if plainTextLen = 0 \<or> cryptoKeyLen = 0 then (CCSEC_CRYPT_PARAM_INVALID, cipherText, cipherTextLen)
     else if (- 1 :: u32) div MULTIPLIER_FACTOR < cryptoKeyLen
     then (CCSEC_OPENSSL_CRYPT_AES_ERR_KEYLEN, cipherText, cipherTextLen)
     else if cryptoKeyLen * MULTIPLIER_FACTOR \<noteq> GetAlgLen s
     then (CCSEC_OPENSSL_CRYPT_AES_ERR_KEYLEN, cipherText, cipherTextLen)
     else if GetAlgLen s = 0 then (CCSEC_OPENSSL_CRYPT_EAL_ERR_ALGID, cipherText, cipherTextLen)
     else OpensslEncrypt E s cryptoKey cryptoKeyLen plainText plainTextLen cipherText cipherTextLen)"

subsection \<open>Decryption\<close>

text \<open>
  Both decryption routines return the code, the plaintext buffer and the plaintext length. With the
  AEAD modes other than CCM the plaintext is in the buffer before the tag is checked.
\<close>

definition OpensslCcmDecrypt ::
  "crypto_env \<Rightarrow> CcsecCipherSuite \<Rightarrow> bytes \<Rightarrow> bytes \<Rightarrow> u32 \<Rightarrow> bytes \<Rightarrow> u32
     \<Rightarrow> CcsecCryptErrorCode \<times> bytes \<times> u32" where
  "OpensslCcmDecrypt E s cryptoKey cipherText cipherTextLen plainText plainTextLen =
    (let cipherLen = unat cipherTextLen - mCipherOffset in
     if \<not> ce_ctx E then (CCSEC_OPENSSL_EAL_CIPHER_CTX_NULL, plainText, plainTextLen)
     else (case ce_fetch E (convertCipherSuiteId s) of
       None \<Rightarrow> (CCSEC_OPENSSL_EAL_CIPHER_CTX_NULL, plainText, plainTextLen)
     | Some _ \<Rightarrow>
       (case ce_dec E (convertCipherSuiteId s) cryptoKey (read_at cipherText mIVOffset (GetIVLength s))
               (Some (read_at cipherText mAADOffset (GetAADLength s)))
               (Some (read_at cipherText mTagOffset TAG_LEN_DEFAULT))
               (read_at cipherText mCipherOffset cipherLen) of
         None \<Rightarrow> (CCSEC_CRYPT_ERROR, plainText, plainTextLen)
       | Some p \<Rightarrow> (CCSEC_CRYPT_OK, write_at plainText 0 p, EstimatedPlainLen cipherTextLen))))"

definition OpensslDecrypt ::
  "crypto_env \<Rightarrow> CcsecCipherSuite \<Rightarrow> bytes \<Rightarrow> bytes \<Rightarrow> u32 \<Rightarrow> bytes \<Rightarrow> u32
     \<Rightarrow> CcsecCryptErrorCode \<times> bytes \<times> u32" where
  "OpensslDecrypt E s cryptoKey cipherText cipherTextLen plainText plainTextLen =
    (if s = CCSEC_AES_CCM_128
     then OpensslCcmDecrypt E s cryptoKey cipherText cipherTextLen plainText plainTextLen
     else let tagBuffer = read_at cipherText mTagOffset TAG_LEN_DEFAULT;
              iv = read_at cipherText mIVOffset (GetIVLength s);
              aad = read_at cipherText mAADOffset (GetAADLength s);
              body = read_at cipherText mCipherOffset (unat cipherTextLen - mCipherOffset) in
       if \<not> ce_ctx E then (CCSEC_OPENSSL_EAL_CIPHER_CTX_NULL, plainText, plainTextLen)
       else (case ce_fetch E (convertCipherSuiteId s) of
         None \<Rightarrow> (CCSEC_OPENSSL_EAL_CIPHER_CTX_NULL, plainText, plainTextLen)
       | Some _ \<Rightarrow>
         (case ce_dec E (convertCipherSuiteId s) cryptoKey iv
                 (if s = CCSEC_SM4_CTR then None else Some aad) None body of
           None \<Rightarrow> (CCSEC_CRYPT_ERROR, plainText, plainTextLen)
         | Some p \<Rightarrow>
           if s \<noteq> CCSEC_SM4_CTR \<and> \<not> ce_final E (convertCipherSuiteId s) cryptoKey iv aad body tagBuffer
           then (CCSEC_CRYPT_ERROR, write_at plainText 0 p, EstimatedPlainLen cipherTextLen)
           else (CCSEC_CRYPT_OK, write_at plainText 0 p, EstimatedPlainLen cipherTextLen))))"

definition Engine_Decrypt ::
  "crypto_env \<Rightarrow> CcsecCipherSuite \<Rightarrow> bytes \<Rightarrow> u32 \<Rightarrow> bytes \<Rightarrow> u32 \<Rightarrow> bytes \<Rightarrow> u32
     \<Rightarrow> CcsecCryptErrorCode \<times> bytes \<times> u32" where
  "Engine_Decrypt E s cryptoKey cryptoKeyLen cipherText cipherTextLen plainText plainTextLen =
    (if cipherTextLen = 0 \<or> cryptoKeyLen = 0 then (CCSEC_CRYPT_PARAM_INVALID, plainText, plainTextLen)
     else if unat cipherTextLen \<le> mCipherOffset then (CCSEC_CRYPT_PARAM_INVALID, plainText, plainTextLen)
     else if (- 1 :: u32) div MULTIPLIER_FACTOR < cryptoKeyLen
     then (CCSEC_OPENSSL_CRYPT_AES_ERR_KEYLEN, plainText, plainTextLen)
     else if cryptoKeyLen * MULTIPLIER_FACTOR \<noteq> GetAlgLen s
     then (CCSEC_OPENSSL_CRYPT_AES_ERR_KEYLEN, plainText, plainTextLen)
     else if GetAlgLen s = 0 then (CCSEC_OPENSSL_CRYPT_EAL_ERR_ALGID, plainText, plainTextLen)
     else OpensslDecrypt E s cryptoKey cipherText cipherTextLen plainText plainTextLen)"

subsection \<open>The engine's state and the entry points\<close>

definition InitCrypto :: "CcsecCipherSuite \<Rightarrow> CcsecCipherSuite \<Rightarrow> CcsecCryptErrorCode \<times> CcsecCipherSuite" where
  "InitCrypto suite s =
    (if s \<noteq> CCSEC_UNSPECIFIED then (CCSEC_CRYPT_OK, s)
     else if suite \<noteq> CCSEC_UNSPECIFIED then (CCSEC_CRYPT_OK, suite)
     else (CCSEC_CRYPT_PARAM_INVALID, s))"

definition KeyEncrypt ::
  "crypto_env \<Rightarrow> bytes \<Rightarrow> u32 \<Rightarrow> bytes \<Rightarrow> u32 \<Rightarrow> bytes \<Rightarrow> u32 \<Rightarrow> CcsecCipherSuite
     \<Rightarrow> (CcsecCryptErrorCode \<times> bytes \<times> u32) \<times> CcsecCipherSuite" where
  "KeyEncrypt E cryptoKey cryptoKeyLen plainText plainTextLen cipherText cipherTextLen s =
    (let s' = (if s = CCSEC_UNSPECIFIED then snd (InitCrypto CCSEC_AES_GCM_256 s) else s) in
     (Engine_Encrypt E s' cryptoKey cryptoKeyLen plainText plainTextLen cipherText cipherTextLen, s'))"

definition KeyDecrypt ::
  "crypto_env \<Rightarrow> bytes \<Rightarrow> u32 \<Rightarrow> bytes \<Rightarrow> u32 \<Rightarrow> bytes \<Rightarrow> u32 \<Rightarrow> CcsecCipherSuite
     \<Rightarrow> (CcsecCryptErrorCode \<times> bytes \<times> u32) \<times> CcsecCipherSuite" where
  "KeyDecrypt E cryptoKey cryptoKeyLen cipherText cipherTextLen plainText plainTextLen s =
    (let s' = (if s = CCSEC_UNSPECIFIED then snd (InitCrypto CCSEC_AES_GCM_256 s) else s) in
     (Engine_Decrypt E s' cryptoKey cryptoKeyLen cipherText cipherTextLen plainText plainTextLen, s'))"

definition NativeCryptor_Encrypt ::
  "crypto_env \<Rightarrow> CryptoSymAlg \<Rightarrow> bytes \<Rightarrow> bytes \<Rightarrow> CcsecCipherSuite
     \<Rightarrow> (CryptionRC \<times> bytes) \<times> CcsecCipherSuite" where
  "NativeCryptor_Encrypt E alg plaintext key s =
    (let suite = GetCipherSuite alg in
     if suite = CCSEC_UNSPECIFIED then ((CRC_INVALID_PARAM, []), s)
     else if plaintext = [] \<or> PLAINTEXT_MAX_LENGTH \<le> length plaintext then ((CRC_INVALID_PARAM, []), suite)
     else if key = [] then ((CRC_INVALID_PARAM, []), suite)
     else let cipherTextLen = EstimatedCipherLen (of_nat (length plaintext));
              cipherText = stack_buf E (unat cipherTextLen);
              ((ret, buf, len), s') = KeyEncrypt E key (of_nat (length key)) plaintext
                 (of_nat (length plaintext)) cipherText cipherTextLen suite in
       if ret \<noteq> CCSEC_CRYPT_OK then ((CRC_ERROR, []), s')
       else if \<not> memcpy_s_ok (unat len) then ((CRC_ERROR, []), s')
       else ((CRC_OK, take (unat len) buf), s'))"

definition NativeCryptor_Decrypt ::
  "crypto_env \<Rightarrow> CryptoSymAlg \<Rightarrow> bytes \<Rightarrow> bytes \<Rightarrow> CcsecCipherSuite
     \<Rightarrow> (CryptionRC \<times> bytes) \<times> CcsecCipherSuite" where
  "NativeCryptor_Decrypt E alg ciphertext key s =
    (let suite = GetCipherSuite alg in
     if suite = CCSEC_UNSPECIFIED then ((CRC_INVALID_PARAM, []), s)
     else if ciphertext = [] \<or> CIPHERTEXT_MAX_LENGTH \<le> length ciphertext then ((CRC_INVALID_PARAM, []), suite)
     else if key = [] then ((CRC_INVALID_PARAM, []), suite)
     else let plainTextLen = EstimatedCipherLen (of_nat (length ciphertext));
              plainText = stack_buf E (unat plainTextLen);
              ((ret, buf, len), s') = KeyDecrypt E key (of_nat (length key)) ciphertext
                 (of_nat (length ciphertext)) plainText plainTextLen suite in
       if ret \<noteq> CCSEC_CRYPT_OK then ((CRC_ERROR, []), s')
       else if \<not> memcpy_s_ok (unat len) then ((CRC_ERROR, []), s')
       else ((CRC_OK, take (unat len) buf), s'))"


subsection \<open>Which inputs are accepted\<close>

lemma NativeCryptor_Encrypt_OK:
  assumes "NativeCryptor_Encrypt E alg p k s = ((CRC_OK, c), s')"
  shows "alg \<noteq> SYM_UNKNOWN" "s' = GetCipherSuite alg" "0 < length p" "length p < PLAINTEXT_MAX_LENGTH"
    "\<exists>buf len. OpensslEncrypt E (GetCipherSuite alg) k (of_nat (length k)) p (of_nat (length p))
        (stack_buf E (unat (EstimatedCipherLen (of_nat (length p))))) (EstimatedCipherLen (of_nat (length p)))
      = (CCSEC_CRYPT_OK, buf, len) \<and> c = take (unat len) buf"
    "of_nat (length k) * 8 = GetAlgLen (GetCipherSuite alg)" "(of_nat (length k) :: u32) \<le> 0x1fffffff"
  using assms by (cases alg; auto simp: NativeCryptor_Encrypt_def KeyEncrypt_def Engine_Encrypt_def Let_def
    MULTIPLIER_FACTOR_def not_less split: if_splits prod.splits)+

lemma unat_of_nat_u32: "n < 2 ^ 32 \<Longrightarrow> unat (of_nat n :: u32) = n"
  by (simp add: unat_of_nat)

lemma of_nat_u32_pos: "0 < n \<Longrightarrow> n < 2 ^ 32 \<Longrightarrow> (of_nat n :: u32) \<noteq> 0"
  by (metis less_irrefl unat_of_nat_u32 unsigned_0)

lemma NativeCryptor_Decrypt_OK:
  assumes "alg \<noteq> SYM_UNKNOWN" "44 < length c" "length c < CIPHERTEXT_MAX_LENGTH"
    "of_nat (length k) * (8 :: u32) = GetAlgLen (GetCipherSuite alg)"
    "(of_nat (length k) :: u32) \<le> 0x1fffffff" "(of_nat (length k) :: u32) \<noteq> 0"
    "OpensslDecrypt E (GetCipherSuite alg) k c (of_nat (length c))
        (stack_buf E (unat (EstimatedCipherLen (of_nat (length c))))) (EstimatedCipherLen (of_nat (length c)))
      = (CCSEC_CRYPT_OK, buf, len)" "memcpy_s_ok (unat len)"
  shows "NativeCryptor_Decrypt E alg c k s = ((CRC_OK, take (unat len) buf), GetCipherSuite alg)"
proof -
  have 1: "(of_nat (length c) :: u32) \<noteq> 0" "unat (of_nat (length c) :: u32) = length c"
    using assms(2,3) of_nat_u32_pos[of "length c"] unat_of_nat_u32[of "length c"]
    by (auto simp: CIPHERTEXT_MAX_LENGTH_def)
  have 2: "GetCipherSuite alg \<noteq> CCSEC_UNSPECIFIED" "GetAlgLen (GetCipherSuite alg) \<noteq> 0"
    using assms(1) by (cases alg; simp)+
  have 3: "k \<noteq> []" "c \<noteq> []"
    using assms(2,6) by auto
  show ?thesis
    using assms 1 2 3
    by (simp add: NativeCryptor_Decrypt_def KeyDecrypt_def Engine_Decrypt_def Let_def MULTIPLIER_FACTOR_def
        layout_defs not_less)
qed

subsection \<open>The layout of a ciphertext\<close>

lemma write_at_first: "length r = length a \<Longrightarrow> write_at (a @ b) 0 r = r @ b"
  by (simp add: write_at_def)

lemma write_at_skip: "n = length a + m \<Longrightarrow> write_at (a @ b) n r = a @ write_at b m r"
  by (simp add: write_at_def)

lemma read_at_first: "n = length a \<Longrightarrow> read_at (a @ b) 0 n = a"
  by (simp add: read_at_def)

lemma read_at_skip: "n = length a + m \<Longrightarrow> read_at (a @ b) n l = read_at b m l"
  by (simp add: read_at_def)

lemma length_stack_buf [simp]: "length (stack_buf E n) = n"
  by (simp add: stack_buf_def)

lemma stack_buf_split: "stack_buf E (44 + n) = map (ce_stack E) [0..<12] @ map (ce_stack E) [12..<28] @
  map (ce_stack E) [28..<44] @ map (ce_stack E) [44..<44 + n]"
proof -
  have "[0..<44 + n] = [0..<12] @ [12..<28] @ [28..<44] @ [44..<44 + n]"
    using upt_add_eq_append[of 0 44 n] upt_add_eq_append[of 0 28 16] upt_add_eq_append[of 0 12 16] by simp
  then show ?thesis
    by (simp only: stack_buf_def map_append)
qed

lemma unat_EstimatedCipherLen:
  "n < 2 ^ 32 - 44 \<Longrightarrow> unat (EstimatedCipherLen (of_nat n)) = 44 + n"
  by (simp add: EstimatedCipherLen_def layout_defs unat_of_nat unat_word_ariths)

text \<open>
  The documented behaviour of the libraries: a filled buffer has the requested length, a sealed
  text has the length of the plaintext and a 16-byte tag, and opening what was sealed gives the
  plaintext, with CCM's tag set first and the other modes' tag checked at the end.
\<close>

definition crypto_law :: "crypto_env \<Rightarrow> bool" where
  "crypto_law E \<longleftrightarrow>
    (\<forall>k n r. ce_rand E k n = Some r \<longrightarrow> length r = n) \<and>
    (\<forall>n key iv aad p c t. ce_seal E n key iv aad p = Some (c, t) \<longrightarrow> length c = length p \<and> length t = 16) \<and>
    (\<forall>n key iv p c t. ce_seal E n key iv None p = Some (c, t) \<longrightarrow> ce_dec E n key iv None None c = Some p) \<and>
    (\<forall>key iv a p c t. ce_seal E ''aes-128-ccm'' key iv (Some a) p = Some (c, t) \<longrightarrow>
       ce_dec E ''aes-128-ccm'' key iv (Some a) (Some t) c = Some p) \<and>
    (\<forall>n key iv a p c t. n \<noteq> ''aes-128-ccm'' \<longrightarrow> ce_seal E n key iv (Some a) p = Some (c, t) \<longrightarrow>
       ce_dec E n key iv (Some a) None c = Some p \<and> ce_final E n key iv a c t)"

lemma crypto_lawD:
  assumes "crypto_law E"
  shows "ce_rand E k n = Some r \<Longrightarrow> length r = n"
    "ce_seal E nm key iv aad p = Some (c, t) \<Longrightarrow> length c = length p"
    "ce_seal E nm key iv aad p = Some (c, t) \<Longrightarrow> length t = 16"
    "ce_seal E nm key iv None p = Some (c, t) \<Longrightarrow> ce_dec E nm key iv None None c = Some p"
    "ce_seal E ''aes-128-ccm'' key iv (Some a) p = Some (c, t) \<Longrightarrow>
       ce_dec E ''aes-128-ccm'' key iv (Some a) (Some t) c = Some p"
    "nm \<noteq> ''aes-128-ccm'' \<Longrightarrow> ce_seal E nm key iv (Some a) p = Some (c, t) \<Longrightarrow>
       ce_dec E nm key iv (Some a) None c = Some p"
    "nm \<noteq> ''aes-128-ccm'' \<Longrightarrow> ce_seal E nm key iv (Some a) p = Some (c, t) \<Longrightarrow>
       ce_final E nm key iv a c t"
proof -
  note L = assms[unfolded crypto_law_def]
  note L1 = L[THEN conjunct1, rule_format]
  note R1 = L[THEN conjunct2]
  note L2 = R1[THEN conjunct1, rule_format]
  note R2 = R1[THEN conjunct2]
  note L3 = R2[THEN conjunct1, rule_format]
  note L4 = R2[THEN conjunct2, THEN conjunct1, rule_format]
  note L5 = R2[THEN conjunct2, THEN conjunct2, rule_format]
  show "ce_rand E k n = Some r \<Longrightarrow> length r = n" by (rule L1)
  show "ce_seal E nm key iv aad p = Some (c, t) \<Longrightarrow> length c = length p" by (rule L2[THEN conjunct1])
  show "ce_seal E nm key iv aad p = Some (c, t) \<Longrightarrow> length t = 16" by (rule L2[THEN conjunct2])
  show "ce_seal E nm key iv None p = Some (c, t) \<Longrightarrow> ce_dec E nm key iv None None c = Some p" by (rule L3)
  show "ce_seal E ''aes-128-ccm'' key iv (Some a) p = Some (c, t) \<Longrightarrow>
    ce_dec E ''aes-128-ccm'' key iv (Some a) (Some t) c = Some p" by (rule L4)
  show "nm \<noteq> ''aes-128-ccm'' \<Longrightarrow> ce_seal E nm key iv (Some a) p = Some (c, t) \<Longrightarrow>
    ce_dec E nm key iv (Some a) None c = Some p" by (rule L5[THEN conjunct1])
  show "nm \<noteq> ''aes-128-ccm'' \<Longrightarrow> ce_seal E nm key iv (Some a) p = Some (c, t) \<Longrightarrow>
    ce_final E nm key iv a c t" by (rule L5[THEN conjunct2])
qed

text \<open>What an encryption leaves in the buffer: the AEAD modes fill it completely.\<close>

lemma OpensslEncrypt_layout:
  assumes law: "crypto_law E" and s: "s \<noteq> CCSEC_UNSPECIFIED" and n: "length p < 2 ^ 32 - 44"
    and ok: "OpensslEncrypt E s k kl p (of_nat (length p)) (stack_buf E (44 + length p)) l = (CCSEC_CRYPT_OK, buf, len)"
  shows "\<exists>iv aad c t. unat len = 44 + length p \<and> length c = length p \<and> length t = 16 \<and> length aad = 16 \<and>
    ce_ctx E \<and> ce_fetch E (convertCipherSuiteId s) \<noteq> None \<and>
    (if s = CCSEC_SM4_CTR
     then length iv = 16 \<and> ce_seal E ''sm4-ctr'' k (take 12 iv @ take 4 aad) None p = Some (c, t) \<and>
       buf = take 12 iv @ aad @ map (ce_stack E) [28..<44] @ c
     else length iv = 12 \<and> ce_seal E (convertCipherSuiteId s) k iv (Some aad) p = Some (c, t) \<and>
       buf = iv @ aad @ t @ c)"
proof -
  let ?b0 = "map (ce_stack E) [0..<12]" and ?b1 = "map (ce_stack E) [12..<28]"
    and ?b2 = "map (ce_stack E) [28..<44]" and ?b3 = "map (ce_stack E) [44..<44 + length p]"
  have b: "stack_buf E (44 + length p) = ?b0 @ ?b1 @ ?b2 @ ?b3"
    by (rule stack_buf_split)
  have len: "unat (EstimatedCipherLen (of_nat (length p))) = 44 + length p"
    using n by (rule unat_EstimatedCipherLen)
  have np: "unat (of_nat (length p) :: u32) = length p"
    using n by (simp add: unat_of_nat_u32)
  from ok obtain r0 r1 c t where r: "ce_rand E 0 (GetIVLength s) = Some r0" "ce_rand E 1 16 = Some r1"
    and ctx: "ce_ctx E" "ce_fetch E (convertCipherSuiteId s) \<noteq> None"
    and seal: "ce_seal E (convertCipherSuiteId s) k
       (read_at (write_at (write_at (stack_buf E (44 + length p)) 0 r0) 12 r1) 0 (GetIVLength s))
       (if s = CCSEC_SM4_CTR then None
        else Some (read_at (write_at (write_at (stack_buf E (44 + length p)) 0 r0) 12 r1) 12 16)) p = Some (c, t)"
    and buf: "buf = (let b3 = write_at (write_at (write_at (stack_buf E (44 + length p)) 0 r0) 12 r1) 44 c
       in if s = CCSEC_SM4_CTR then b3 else write_at b3 28 t)"
    and l: "len = EstimatedCipherLen (of_nat (length p))"
    using np by (auto simp: OpensslEncrypt_def OpensslCcmEncrypt_def rand_fill_def Let_def mIVOffset_def
        mAADOffset_def mTagOffset_def mCipherOffset_def TAG_LEN_DEFAULT_def GetAADLength_def
        split: if_splits option.splits prod.splits)
  note L = crypto_lawD[OF law]
  have lens: "length r0 = GetIVLength s" "length r1 = 16" "length c = length p" "length t = 16"
    using L(1)[OF r(1)] L(1)[OF r(2)] L(2)[OF seal] L(3)[OF seal] by auto
  show ?thesis
  proof (cases "s = CCSEC_SM4_CTR")
    case True
    then show ?thesis
      using lens seal buf l len ctx
      by (intro exI[of _ r0] exI[of _ r1] exI[of _ c] exI[of _ t])
        (simp add: b GetIVLength_def write_at_def read_at_def Let_def)
  next
    case False
    then show ?thesis
      using lens seal buf l len ctx
      by (intro exI[of _ r0] exI[of _ r1] exI[of _ c] exI[of _ t])
        (simp add: b GetIVLength_def write_at_def read_at_def Let_def)
  qed
qed


subsection \<open>Round trip\<close>

text \<open>Reading back the fields of a ciphertext, whatever wrote them.\<close>

lemma EstimatedPlainLen_cipher:
  "n < 2 ^ 32 - 44 \<Longrightarrow> EstimatedPlainLen (of_nat (44 + n)) = of_nat n"
proof (cases "n = 0")
  case False
  assume "n < 2 ^ 32 - 44"
  then have "unat (of_nat (44 + n) :: u32) = 44 + n"
    by (intro unat_of_nat_u32) simp
  with False show ?thesis
    unfolding EstimatedPlainLen_def by (simp add: layout_defs)
qed (simp add: EstimatedPlainLen_def layout_defs)

lemma OpensslDecrypt_parts:
  assumes "length iv = 12" "length aad = 16" "length t = 16" "s \<noteq> CCSEC_SM4_CTR" "length c < 2 ^ 32 - 44"
    "ce_ctx E" "ce_fetch E (convertCipherSuiteId s) \<noteq> None"
    "if s = CCSEC_AES_CCM_128 then ce_dec E ''aes-128-ccm'' k iv (Some aad) (Some t) c = Some p
     else ce_dec E (convertCipherSuiteId s) k iv (Some aad) None c = Some p \<and>
       ce_final E (convertCipherSuiteId s) k iv aad c t"
  shows "OpensslDecrypt E s k (iv @ aad @ t @ c) (of_nat (44 + length c)) pb pl =
    (CCSEC_CRYPT_OK, write_at pb 0 p, of_nat (length c))"
proof -
  obtain N :: u32 where N: "N = of_nat (44 + length c)" by blast
  have n: "unat N = 44 + length c"
    unfolding N using assms(5) by (intro unat_of_nat_u32) simp
  have e: "EstimatedPlainLen N = of_nat (length c)"
    unfolding N using assms(5) by (rule EstimatedPlainLen_cipher)
  have r: "read_at (iv @ aad @ t @ c) 0 12 = iv" "read_at (iv @ aad @ t @ c) 12 16 = aad"
     "read_at (iv @ aad @ t @ c) 28 16 = t" "read_at (iv @ aad @ t @ c) 44 (length c) = c"
    using assms(1-3) by (simp_all add: read_at_def)
  obtain x where x: "ce_fetch E (convertCipherSuiteId s) = Some x"
    using assms(7) by blast
  show ?thesis
    unfolding N[symmetric]
    using assms(4,6,8) n e r x
    by (cases "s = CCSEC_AES_CCM_128") (simp_all add: OpensslDecrypt_def OpensslCcmDecrypt_def Let_def layout_defs)
qed

lemma OpensslDecrypt_sm4:
  assumes "length iv = 12" "length aad = 16" "length t = 16" "length c < 2 ^ 32 - 44"
    "ce_ctx E" "ce_fetch E ''sm4-ctr'' \<noteq> None"
    "ce_dec E ''sm4-ctr'' k (iv @ take 4 aad) None None c = Some p"
  shows "OpensslDecrypt E CCSEC_SM4_CTR k (iv @ aad @ t @ c) (of_nat (44 + length c)) pb pl =
    (CCSEC_CRYPT_OK, write_at pb 0 p, of_nat (length c))"
proof -
  obtain N :: u32 where N: "N = of_nat (44 + length c)" by blast
  have n: "unat N = 44 + length c"
    unfolding N using assms(4) by (intro unat_of_nat_u32) simp
  have e: "EstimatedPlainLen N = of_nat (length c)"
    unfolding N using assms(4) by (rule EstimatedPlainLen_cipher)
  have r: "read_at (iv @ aad @ t @ c) 0 16 = iv @ take 4 aad" "read_at (iv @ aad @ t @ c) 44 (length c) = c"
    using assms(1-3) by (simp_all add: read_at_def)
  obtain x where x: "ce_fetch E ''sm4-ctr'' = Some x"
    using assms(6) by blast
  show ?thesis
    unfolding N[symmetric]
    using assms(5,7) n e r x by (simp add: OpensslDecrypt_def Let_def layout_defs)
qed

lemma convertCipherSuiteId_ccm: "convertCipherSuiteId s = ''aes-128-ccm'' \<longleftrightarrow> s = CCSEC_AES_CCM_128"
  by (cases s) simp_all

lemma NativeCryptor_Encrypt_layout:
  assumes law: "crypto_law E" and ok: "NativeCryptor_Encrypt E alg p k s = ((CRC_OK, c), s')"
  shows "\<exists>iv aad body t. length c = 44 + length p \<and> length body = length p \<and> length t = 16 \<and> length aad = 16 \<and>
    (if alg = SM4_CTR
     then length iv = 16 \<and> ce_seal E ''sm4-ctr'' k (take 12 iv @ take 4 aad) None p = Some (body, t) \<and>
       c = take 12 iv @ aad @ map (ce_stack E) [28..<44] @ body
     else length iv = 12 \<and> ce_seal E (convertCipherSuiteId (GetCipherSuite alg)) k iv (Some aad) p = Some (body, t) \<and>
       c = iv @ aad @ t @ body) \<and> ce_ctx E \<and> ce_fetch E (convertCipherSuiteId (GetCipherSuite alg)) \<noteq> None"
proof -
  note O = NativeCryptor_Encrypt_OK[OF ok]
  have n: "length p < 2 ^ 32 - 44"
    using O(4) by (simp add: PLAINTEXT_MAX_LENGTH_def)
  have u: "GetCipherSuite alg \<noteq> CCSEC_UNSPECIFIED" and sm: "GetCipherSuite alg = CCSEC_SM4_CTR \<longleftrightarrow> alg = SM4_CTR"
    using O(1) by (cases alg; simp)+
  from O(5) obtain buf len where b:
    "OpensslEncrypt E (GetCipherSuite alg) k (of_nat (length k)) p (of_nat (length p))
        (stack_buf E (44 + length p)) (EstimatedCipherLen (of_nat (length p))) = (CCSEC_CRYPT_OK, buf, len)"
    "c = take (unat len) buf"
    unfolding unat_EstimatedCipherLen[OF n] by blast
  obtain iv aad body t where x: "unat len = 44 + length p" "length body = length p" "length t = 16" "length aad = 16"
    "ce_ctx E" "ce_fetch E (convertCipherSuiteId (GetCipherSuite alg)) \<noteq> None"
    "if alg = SM4_CTR
     then length iv = 16 \<and> ce_seal E ''sm4-ctr'' k (take 12 iv @ take 4 aad) None p = Some (body, t) \<and>
       buf = take 12 iv @ aad @ map (ce_stack E) [28..<44] @ body
     else length iv = 12 \<and> ce_seal E (convertCipherSuiteId (GetCipherSuite alg)) k iv (Some aad) p = Some (body, t) \<and>
       buf = iv @ aad @ t @ body"
    using OpensslEncrypt_layout[OF law u n b(1)] unfolding sm by blast
  have "length buf = 44 + length p"
    using x by (auto split: if_splits)
  then have "c = buf"
    using b(2) x(1) by simp
  then show ?thesis
    using x \<open>length buf = 44 + length p\<close> by blast
qed

lemma NativeCryptor_core:
  assumes law: "crypto_law E" and ok: "NativeCryptor_Encrypt E alg p k s = ((CRC_OK, c), s')"
  shows "NativeCryptor_Decrypt E alg c k s'' = ((CRC_OK, p), GetCipherSuite alg)"
proof -
  note O = NativeCryptor_Encrypt_OK[OF ok] and L = crypto_lawD[OF law]
  obtain iv aad body t where lc: "length c = 44 + length p" and lb: "length body = length p"
    and lt: "length t = 16" and la: "length aad = 16"
    and sm: "if alg = SM4_CTR
     then length iv = 16 \<and> ce_seal E ''sm4-ctr'' k (take 12 iv @ take 4 aad) None p = Some (body, t) \<and>
       c = take 12 iv @ aad @ map (ce_stack E) [28..<44] @ body
     else length iv = 12 \<and> ce_seal E (convertCipherSuiteId (GetCipherSuite alg)) k iv (Some aad) p = Some (body, t) \<and>
       c = iv @ aad @ t @ body"
    and ctx: "ce_ctx E" "ce_fetch E (convertCipherSuiteId (GetCipherSuite alg)) \<noteq> None"
    using NativeCryptor_Encrypt_layout[OF law ok] by blast
  have n: "length body < 2 ^ 32 - 44" "length c < CIPHERTEXT_MAX_LENGTH" "44 < length c"
    using O(3,4) lb lc by (simp_all add: PLAINTEXT_MAX_LENGTH_def CIPHERTEXT_MAX_LENGTH_def)
  have D: "OpensslDecrypt E (GetCipherSuite alg) k c (of_nat (length c)) pb pl =
      (CCSEC_CRYPT_OK, write_at pb 0 p, of_nat (length p))" for pb pl
  proof (cases "alg = SM4_CTR")
    case True
    then show ?thesis
      using sm OpensslDecrypt_sm4[of "take 12 iv" aad "map (ce_stack E) [28..<44]" body E k p pb pl] la n ctx lb lc
        L(4)[of "''sm4-ctr''" k "take 12 iv @ take 4 aad" p body t] by simp
  next
    case False
    then have "GetCipherSuite alg \<noteq> CCSEC_SM4_CTR"
      by (cases alg) simp_all
    moreover have "if GetCipherSuite alg = CCSEC_AES_CCM_128
      then ce_dec E ''aes-128-ccm'' k iv (Some aad) (Some t) body = Some p
      else ce_dec E (convertCipherSuiteId (GetCipherSuite alg)) k iv (Some aad) None body = Some p \<and>
        ce_final E (convertCipherSuiteId (GetCipherSuite alg)) k iv aad body t"
      using sm False L(5)[of k iv aad p body t]
        L(6,7)[of "convertCipherSuiteId (GetCipherSuite alg)" k iv aad p body t]
      by (cases "GetCipherSuite alg = CCSEC_AES_CCM_128") (simp_all add: convertCipherSuiteId_ccm)
    ultimately show ?thesis
      using sm False OpensslDecrypt_parts[of iv aad t "GetCipherSuite alg" body E k p pb pl] la lt n ctx lb lc
      by (simp add: add.commute)
  qed
  have "GetAlgLen (GetCipherSuite alg) \<noteq> 0"
    using O(1) by (cases alg) simp_all
  then have k0: "(of_nat (length k) :: u32) \<noteq> 0"
    using O(6) by auto
  have lp: "unat (of_nat (length p) :: u32) = length p"
    using n(1) lb by (intro unat_of_nat_u32) simp
  have "NativeCryptor_Decrypt E alg c k s'' =
    ((CRC_OK, take (unat (of_nat (length p) :: u32)) (write_at (stack_buf E (unat (EstimatedCipherLen (of_nat (length c))))) 0 p)),
      GetCipherSuite alg)"
    using n O(1,3,4) O(6,7) k0 D lp
    by (intro NativeCryptor_Decrypt_OK)
      (simp_all add: word_le_nat_alt memcpy_s_ok_def PLAINTEXT_MAX_LENGTH_def)
  then show ?thesis
    by (simp add: lp write_at_def)
qed



text \<open>C11: Decrypting what \<open>NativeCryptor::Encrypt\<close> returned, with the same algorithm and key and
  whatever suite the engine was left with in between, gives the plaintext, for all five algorithms.\<close>

theorem NativeCryptor_roundtrip:
  assumes law: "crypto_law E" and ok: "NativeCryptor_Encrypt E alg p k s = ((CRC_OK, c), s')"
  shows "NativeCryptor_Decrypt E alg c k s'' = ((CRC_OK, p), GetCipherSuite alg)"
  using law ok by (rule NativeCryptor_core)

text \<open>A concrete instance of the libraries, for evaluating the model.\<close>

definition toy_crypto :: crypto_env where
  "toy_crypto = \<lparr>ce_rand = (\<lambda>k n. Some (replicate n (if k = 0 then CHR ''i'' else CHR ''a''))),
     ce_stack = (\<lambda>_. CHR ''S''), ce_ctx = True,
     ce_fetch = (\<lambda>n. Some (if n = ''sm4-ctr'' then 16 else 12,
        if n = ''aes-256-gcm'' \<or> n = ''chacha20-poly1305'' then 32 else 16)),
     ce_seal = (\<lambda>n key iv aad p. Some (rev p, replicate 16 CHR ''T'')), ce_tag_len = 16,
     ce_dec = (\<lambda>n key iv aad tag c. Some (rev c)),
     ce_final = (\<lambda>n key iv aad c t. t = replicate 16 CHR ''T''),
     ce_md = (\<lambda>_. True), ce_pbkdf2 = (\<lambda>md key salt it n. Some (replicate (unat n) CHR ''d''))\<rparr>"

lemma toy_crypto_law: "crypto_law toy_crypto"
  by (simp add: crypto_law_def toy_crypto_def)

lemma rep_simps: "replicate 12 x = [x,x,x,x,x,x,x,x,x,x,x,x]"
  "replicate 16 x = [x,x,x,x,x,x,x,x,x,x,x,x,x,x,x,x]"
  by (simp_all add: numeral_eq_Suc)

lemma toy_stack: "stack_buf toy_crypto n = replicate n CHR ''S''"
  by (simp add: stack_buf_def toy_crypto_def map_replicate_trivial)

lemma toy_encrypt: "NativeCryptor_Encrypt toy_crypto AES256_GCM ''hi'' (replicate 32 CHR ''k'') CCSEC_UNSPECIFIED =
    ((CRC_OK, replicate 12 CHR ''i'' @ replicate 16 CHR ''a'' @ replicate 16 CHR ''T'' @ ''ih''), CCSEC_AES_GCM_256)"
  unfolding NativeCryptor_Encrypt_def toy_stack 
  by (simp add: KeyEncrypt_def Engine_Encrypt_def OpensslEncrypt_def rand_fill_def write_at_def
      read_at_def toy_crypto_def EstimatedCipherLen_def layout_defs PLAINTEXT_MAX_LENGTH_def memcpy_s_ok_def
      MULTIPLIER_FACTOR_def)

lemma toy_encrypt_sm4: "NativeCryptor_Encrypt toy_crypto SM4_CTR ''hi'' (replicate 16 CHR ''k'') CCSEC_UNSPECIFIED =
    ((CRC_OK, replicate 12 CHR ''i'' @ replicate 16 CHR ''a'' @ replicate 16 CHR ''S'' @ ''ih''), CCSEC_SM4_CTR)"
  unfolding NativeCryptor_Encrypt_def toy_stack 
  by (simp add: KeyEncrypt_def Engine_Encrypt_def OpensslEncrypt_def rand_fill_def write_at_def
      read_at_def toy_crypto_def EstimatedCipherLen_def layout_defs PLAINTEXT_MAX_LENGTH_def memcpy_s_ok_def
      MULTIPLIER_FACTOR_def)

lemma NativeCryptor_roundtrip_witness:
  "NativeCryptor_Decrypt toy_crypto AES256_GCM
     (replicate 12 CHR ''i'' @ replicate 16 CHR ''a'' @ replicate 16 CHR ''T'' @ ''ih'')
     (replicate 32 CHR ''k'') CCSEC_SM4_CTR = ((CRC_OK, ''hi''), CCSEC_AES_GCM_256)"
  using NativeCryptor_roundtrip[OF toy_crypto_law toy_encrypt, of CCSEC_SM4_CTR] by simp

text \<open>A ciphertext of an authenticated mode is the IV, the AAD, the tag and the data, in that
  order and with nothing else: 44 bytes more than the plaintext; the key has exactly the length of
  its algorithm.\<close>

lemma NativeCryptor_aead_layout:
  assumes law: "crypto_law E" and k: "length k < 2 ^ 29" and alg: "alg \<noteq> SM4_CTR"
    and ok: "NativeCryptor_Encrypt E alg p k s = ((CRC_OK, c), s')"
  shows "\<exists>iv aad tag body. c = iv @ aad @ tag @ body \<and> length iv = 12 \<and> length aad = 16 \<and> length tag = 16 \<and>
    length c = 44 + length p \<and> 8 * length k = unat (GetAlgLen (GetCipherSuite alg)) \<and>
    ce_seal E (convertCipherSuiteId (GetCipherSuite alg)) k iv (Some aad) p = Some (body, tag)"
proof -
  have "unat (of_nat (8 * length k) :: u32) = 8 * length k"
    using k by (intro unat_of_nat_u32) simp
  moreover have "(of_nat (8 * length k) :: u32) = GetAlgLen (GetCipherSuite alg)"
    using NativeCryptor_Encrypt_OK(6)[OF ok] by (simp add: mult.commute)
  ultimately have "8 * length k = unat (GetAlgLen (GetCipherSuite alg))"
    by simp
  then show ?thesis
    using NativeCryptor_Encrypt_layout[OF law ok] alg by auto
qed

lemma NativeCryptor_aead_layout_witness:
  "\<exists>iv aad tag body. replicate 12 CHR ''i'' @ replicate 16 CHR ''a'' @ replicate 16 CHR ''T'' @ ''ih'' =
     iv @ aad @ tag @ body \<and> length iv = 12 \<and> length aad = 16 \<and> length tag = 16 \<and>
    ce_seal toy_crypto ''aes-256-gcm'' (replicate 32 CHR ''k'') iv (Some aad) ''hi'' = Some (body, tag)"
  using NativeCryptor_aead_layout[OF toy_crypto_law _ _ toy_encrypt]
  by (simp only: length_replicate GetCipherSuite.simps convertCipherSuiteId.simps) fastforce

text \<open>With SM4-CTR nothing is written to the tag field: bytes 28 to 43 of the ciphertext the
  caller stores or sends are what the uninitialised stack buffer of \<open>NativeCryptor::Encrypt\<close> held.\<close>

lemma Sm4_ciphertext_holds_stack:
  assumes law: "crypto_law E" and ok: "NativeCryptor_Encrypt E SM4_CTR p k s = ((CRC_OK, c), s')"
  shows "take 16 (drop 28 c) = map (ce_stack E) [28..<44] \<and> length c = 44 + length p"
proof -
  obtain iv :: bytes and aad body :: bytes where
    "length iv = 16" "length aad = 16" "length c = 44 + length p"
    "c = take 12 iv @ aad @ map (ce_stack E) [28..<44] @ body"
    using NativeCryptor_Encrypt_layout[OF law ok] by auto
  then show ?thesis
    by simp
qed

lemma Sm4_ciphertext_holds_stack_witness:
  "take 16 (drop 28 (replicate 12 CHR ''i'' @ replicate 16 CHR ''a'' @ replicate 16 CHR ''S'' @ ''ih'')) =
     map (ce_stack toy_crypto) [28..<44]"
  using Sm4_ciphertext_holds_stack[OF toy_crypto_law toy_encrypt_sm4] by (rule conjunct1)

end
