(* ===== verification/CdfPbkdf2.thy ===== *)
theory CdfPbkdf2
  imports CdfEngine
begin

section \<open>Key derivation (\<open>modules/cryption/native_cryptor_engine.cpp\<close>)\<close>

text \<open>
  \<open>Pbkdf2Hmac\<close> returns Base64 of the algorithm id, the iteration count, the output length, the
  derived key and the salt; \<open>GetPbkdf2Config\<close> reads the configuration back from it. The algorithm id
  is an enum read with \<open>static_cast\<close> from a byte, so any number can occur in it: it is an \<open>int\<close>.
\<close>

record Pbkdf2ConfigStruct =
  ccsecCryptMacAlgId :: int
  iterationTimes :: u32
  outLen :: u32
  salt :: bytes

definition PBKDF2_ITERATION_TIMES_MIN :: u32 where "PBKDF2_ITERATION_TIMES_MIN = 1000"
definition PBKDF2_ITERATION_TIMES_MAX :: u32 where "PBKDF2_ITERATION_TIMES_MAX = 20000000"
definition PBKDF2_OUT_LEN_MIN :: u32 where "PBKDF2_OUT_LEN_MIN = 32"
definition PBKDF2_OUT_LEN_MAX :: u32 where "PBKDF2_OUT_LEN_MAX = 128"
definition PBKDF2_SALT_LEN_MIN :: nat where "PBKDF2_SALT_LEN_MIN = 16"
definition PBKDF2_SALT_LEN_MAX :: nat where "PBKDF2_SALT_LEN_MAX = 64"
definition PBKDF2_OUT_OFFSET :: nat where "PBKDF2_OUT_OFFSET = 7"

lemmas pbkdf2_bounds = PBKDF2_ITERATION_TIMES_MIN_def PBKDF2_ITERATION_TIMES_MAX_def PBKDF2_OUT_LEN_MIN_def
  PBKDF2_OUT_LEN_MAX_def PBKDF2_SALT_LEN_MIN_def PBKDF2_SALT_LEN_MAX_def PBKDF2_OUT_OFFSET_def

text \<open>The ids are 0 (SHA-256), 1 (SHA-384), 2 (SHA-512) and 3 (SM3).\<close>

definition ValidPbkdf2Alg :: "int list" where "ValidPbkdf2Alg = [0, 1, 2, 3]"

definition ConvertOpenSSLAlgId :: "int \<Rightarrow> string" where
  "ConvertOpenSSLAlgId algId =
    (if algId = 0 then ''sha2-256'' else if algId = 1 then ''sha2-384''
     else if algId = 2 then ''sha2-512'' else if algId = 3 then ''sm3'' else '''')"

definition ValidatePbkdf2Config :: "Pbkdf2ConfigStruct \<Rightarrow> CcsecCryptErrorCode" where
  "ValidatePbkdf2Config cfg =
    (if ccsecCryptMacAlgId cfg \<notin> set ValidPbkdf2Alg then CCSEC_CRYPT_PARAM_INVALID
     else if length (salt cfg) < PBKDF2_SALT_LEN_MIN \<or> PBKDF2_SALT_LEN_MAX < length (salt cfg)
     then CCSEC_CRYPT_PARAM_INVALID
     else if iterationTimes cfg < PBKDF2_ITERATION_TIMES_MIN \<or> PBKDF2_ITERATION_TIMES_MAX < iterationTimes cfg
     then CCSEC_CRYPT_PARAM_INVALID
     else if outLen cfg < PBKDF2_OUT_LEN_MIN \<or> PBKDF2_OUT_LEN_MAX < outLen cfg
     then CCSEC_CRYPT_PARAM_INVALID
     else CCSEC_CRYPT_OK)"

text \<open>The low byte of a 32-bit number: \<open>x & 0xFF\<close> stored in a \<open>uint8_t\<close>.\<close>

definition low_byte :: "u32 \<Rightarrow> char" where
  "low_byte x = chr_of (ucast (x AND 0xFF))"

definition pbkdf2_header :: "Pbkdf2ConfigStruct \<Rightarrow> bytes" where
  "pbkdf2_header cfg =
    [chr_of (word_of_int (ccsecCryptMacAlgId cfg)),
     low_byte (drop_bit 24 (iterationTimes cfg)), low_byte (drop_bit 16 (iterationTimes cfg)),
     low_byte (drop_bit 8 (iterationTimes cfg)), low_byte (iterationTimes cfg),
     low_byte (drop_bit 8 (outLen cfg)), low_byte (outLen cfg)]"

definition Pbkdf2Hmac ::
  "crypto_env \<Rightarrow> bytes \<Rightarrow> Pbkdf2ConfigStruct \<Rightarrow> bytes \<Rightarrow> CcsecCryptErrorCode \<times> bytes" where
  "Pbkdf2Hmac E key cfg outBase64 =
    (if ValidatePbkdf2Config cfg \<noteq> CCSEC_CRYPT_OK then (CCSEC_CRYPT_PARAM_INVALID, outBase64)
     else let n = PBKDF2_OUT_OFFSET + unat (outLen cfg) + length (salt cfg);
              outTmp = write_at (replicate n (CHR 0x00)) 0 (pbkdf2_header cfg);
              alg = ConvertOpenSSLAlgId (ccsecCryptMacAlgId cfg) in
       if \<not> ce_md E alg then (CCSEC_OPENSSL_EAL_CIPHER_CTX_NULL, outBase64)
       else (case ce_pbkdf2 E alg key (salt cfg) (iterationTimes cfg) (outLen cfg) of
         None \<Rightarrow> (CCSEC_CRYPT_ERROR, outBase64)
       | Some d \<Rightarrow>
         let outTmp = write_at outTmp PBKDF2_OUT_OFFSET d in
         if \<not> memcpy_s_ok (length (salt cfg)) then (CCSEC_CRYPT_ERROR, outBase64)
         else let outTmp = write_at outTmp (PBKDF2_OUT_OFFSET + unat (outLen cfg)) (salt cfg) in
           (CCSEC_CRYPT_OK, Base64Encode (Some outTmp))))"

definition base64_decode_len :: "nat \<Rightarrow> nat" where
  "base64_decode_len n = n div 4 * 3 + 3"

definition resize_bytes :: "nat \<Rightarrow> bytes \<Rightarrow> bytes" where
  "resize_bytes n v = take n v @ replicate (n - length v) (CHR 0x00)"

lemma length_resize_bytes [simp]: "length (resize_bytes n v) = n"
  by (simp add: resize_bytes_def)

definition GetPbkdf2Config ::
  "crypto_env \<Rightarrow> bytes \<Rightarrow> Pbkdf2ConfigStruct \<Rightarrow> CcsecCryptErrorCode \<times> Pbkdf2ConfigStruct" where
  "GetPbkdf2Config E base64Code cfg =
    (let srcLen = length base64Code;
         minSrcLen = (PBKDF2_OUT_OFFSET + unat PBKDF2_OUT_LEN_MIN + PBKDF2_SALT_LEN_MIN + 2) div 3 * 4 in
     if srcLen < minSrcLen then (CCSEC_CRYPT_PARAM_INVALID, cfg)
     else let decodeBufLen = unat (of_nat (base64_decode_len srcLen) :: u32);
              decodedData = Base64Decode base64Code in
       if decodeBufLen < length decodedData then (CCSEC_CRYPT_ERROR, cfg)
       else let decodeBuf = write_at (stack_buf E decodeBufLen) 0 decodedData;
                b = (\<lambda>i. u8_of (decodeBuf ! i));
                it = push_bit 24 (ucast (b 1)) OR push_bit 16 (ucast (b 2)) OR push_bit 8 (ucast (b 3)) OR ucast (b 4);
                ol = push_bit 8 (ucast (b 5)) OR ucast (b 6);
                saltLen = (of_nat (length decodedData) :: u32) - ol - of_nat PBKDF2_OUT_OFFSET;
                cfg1 = cfg\<lparr>ccsecCryptMacAlgId := uint (b 0), iterationTimes := it, outLen := ol,
                          salt := resize_bytes (unat saltLen) (salt cfg)\<rparr> in
         if \<not> memcpy_s_ok (unat saltLen) then (CCSEC_CRYPT_ERROR, cfg1)
         else (CCSEC_CRYPT_OK,
               cfg1\<lparr>salt := read_at decodeBuf (PBKDF2_OUT_OFFSET + unat ol) (unat saltLen)\<rparr>))"

definition pbkdf2_law :: "crypto_env \<Rightarrow> bool" where
  "pbkdf2_law E \<longleftrightarrow> (\<forall>alg key s it n d. ce_pbkdf2 E alg key s it n = Some d \<longrightarrow> length d = unat n)"

lemma bit_low_byte: "bit (ucast (u8_of (low_byte y)) :: u32) m \<longleftrightarrow> m < 8 \<and> bit y m"
proof -
  have m: "(0xFF :: u32) = mask 8"
    by (simp add: mask_eq_exp_minus_1)
  have "bit (ucast (u8_of (low_byte y)) :: u32) m \<longleftrightarrow> m < 32 \<and> m < 8 \<and> bit y m"
    unfolding low_byte_def u8_of_chr_of m by (auto simp: bit_simps) 
  then show ?thesis by auto
qed

lemma low_bytes_u32:
  "push_bit 24 (ucast (u8_of (low_byte (drop_bit 24 x)))) OR push_bit 16 (ucast (u8_of (low_byte (drop_bit 16 x)))) OR
   push_bit 8 (ucast (u8_of (low_byte (drop_bit 8 x)))) OR ucast (u8_of (low_byte x)) = (x :: u32)" (is "?l = x")
proof (rule bit_word_eqI)
  fix n assume "n < LENGTH(32)"
  then show "bit ?l n = bit x n"
    by (cases "n < 8"; cases "n < 16"; cases "n < 24")
      (auto simp add: bit_or_iff bit_push_bit_iff bit_low_byte bit_drop_bit_eq)
qed

lemma low_bytes_u16:
  assumes "x < 2 ^ 16"
  shows "push_bit 8 (ucast (u8_of (low_byte (drop_bit 8 x)))) OR ucast (u8_of (low_byte x)) = (x :: u32)" (is "?l = x")
proof (rule bit_word_eqI)
  fix n assume "n < LENGTH(32)"
  moreover have "unat x < 2 ^ 16"
    using assms by (simp add: word_less_nat_alt)
  then have "x = take_bit 16 x"
    by (simp add: word_unat_eq_iff unsigned_take_bit_eq take_bit_nat_eq_self)
  then have "\<not> bit x n" if "16 \<le> n"
    using that by (metis bit_take_bit_iff leD)
  ultimately show "bit ?l n = bit x n"
    by (cases "n < 8"; cases "n < 16")
      (auto simp add: bit_or_iff bit_push_bit_iff bit_low_byte bit_drop_bit_eq)
qed

lemma length_pbkdf2_header: "length (pbkdf2_header cfg) = 7"
  by (simp add: pbkdf2_header_def)

text \<open>The decoded form of the output: header, derived key, salt.\<close>

lemma Pbkdf2Hmac_OK:
  assumes law: "pbkdf2_law E" and ok: "Pbkdf2Hmac E key cfg o0 = (CCSEC_CRYPT_OK, out)"
  shows "ValidatePbkdf2Config cfg = CCSEC_CRYPT_OK"
    "\<exists>d. length d = unat (outLen cfg) \<and> out = Base64Encode (Some (pbkdf2_header cfg @ d @ salt cfg)) \<and>
       ce_pbkdf2 E (ConvertOpenSSLAlgId (ccsecCryptMacAlgId cfg)) key (salt cfg) (iterationTimes cfg) (outLen cfg) = Some d"
proof -
  show "ValidatePbkdf2Config cfg = CCSEC_CRYPT_OK"
    using ok by (auto simp: Pbkdf2Hmac_def split: if_splits)
  obtain d where d: "ce_pbkdf2 E (ConvertOpenSSLAlgId (ccsecCryptMacAlgId cfg)) key (salt cfg) (iterationTimes cfg) (outLen cfg) = Some d"
    and out: "out = Base64Encode (Some (write_at (write_at (write_at (replicate (7 + unat (outLen cfg) + length (salt cfg)) (CHR 0x00)) 0
        (pbkdf2_header cfg)) 7 d) (7 + unat (outLen cfg)) (salt cfg)))"
    using ok by (auto simp: Pbkdf2Hmac_def Let_def PBKDF2_OUT_OFFSET_def split: if_splits option.splits)
  have l: "length d = unat (outLen cfg)"
    using law d by (auto simp: pbkdf2_law_def)
  have "write_at (write_at (write_at (replicate (7 + unat (outLen cfg) + length (salt cfg)) (CHR 0x00)) 0
        (pbkdf2_header cfg)) 7 d) (7 + unat (outLen cfg)) (salt cfg) = pbkdf2_header cfg @ d @ salt cfg"
    using length_pbkdf2_header[of cfg] by (simp add: write_at_def l)
  with d l out show "\<exists>d. length d = unat (outLen cfg) \<and> out = Base64Encode (Some (pbkdf2_header cfg @ d @ salt cfg)) \<and>
       ce_pbkdf2 E (ConvertOpenSSLAlgId (ccsecCryptMacAlgId cfg)) key (salt cfg) (iterationTimes cfg) (outLen cfg) = Some d"
    by metis
qed


lemma length_dec_ref: "length (dec_ref s) \<le> length s div 4 * 3 + 2"
proof (induction s rule: dec_ref.induct)
  case (1 a b c d cs)
  have "(4 + length cs) div 4 = Suc (length cs div 4)"
    by simp
  with 1 show ?case by simp
qed (simp_all add: decode_tail_def)

lemma length_Base64Decode: "length (Base64Decode s) \<le> base64_decode_len (length s)"
proof -
  have "length (b64_body s) \<le> length s"
    by (simp add: b64_body_def length_takeWhile_le)
  then have "length (b64_body s) div 4 \<le> length s div 4"
    by (rule div_le_mono)
  then show ?thesis
    unfolding Base64Decode_ref base64_decode_len_def
    by (intro order.trans[OF length_dec_ref]) (rule add_mono; simp)
qed

text \<open>
  Reading back. A code whose data are longer than the header and the announced key is accepted,
  and the salt is the rest; shorter data make the unsigned salt length wrap or vanish.
\<close>

definition read_iter :: "bytes \<Rightarrow> u32" where
  "read_iter d = push_bit 24 (ucast (u8_of (d ! 1))) OR push_bit 16 (ucast (u8_of (d ! 2))) OR
     push_bit 8 (ucast (u8_of (d ! 3))) OR ucast (u8_of (d ! 4))"

definition read_outLen :: "bytes \<Rightarrow> u32" where
  "read_outLen d = push_bit 8 (ucast (u8_of (d ! 5))) OR ucast (u8_of (d ! 6))"

lemma unat_read_outLen: "unat (read_outLen d) < 2 ^ 16"
proof -
  have "read_outLen d = take_bit 16 (read_outLen d)"
  proof (rule bit_word_eqI)
    fix n
    have "\<not> bit (u8_of (d ! 5)) (n - 8)" "\<not> bit (u8_of (d ! 6)) n" if "16 \<le> n"
      using that by (simp_all add: bit_u8_ge)
    then show "bit (read_outLen d) n = bit (take_bit 16 (read_outLen d)) n"
      by (auto simp: read_outLen_def bit_simps not_less)
  qed
  then have "unat (read_outLen d) = take_bit 16 (unat (read_outLen d))"
    by (metis unsigned_take_bit_eq)
  then show ?thesis
    using take_bit_nat_less_exp[of 16 "unat (read_outLen d)"] by simp
qed

lemma unat_minus_of_nat: "0 < m \<Longrightarrow> m < 2 ^ 32 \<Longrightarrow> unat (- of_nat m :: u32) = 2 ^ 32 - m"
proof -
  assume m: "0 < m" "m < 2 ^ 32"
  have "of_nat (2 ^ 32 - m) + of_nat m = (of_nat (2 ^ 32) :: u32)"
    using m by (simp flip: of_nat_add)
  also have "\<dots> = 0"
    by simp
  finally have "(- of_nat m :: u32) = of_nat (2 ^ 32 - m)"
    by (metis add.commute neg_eq_iff_add_eq_0)
  then show ?thesis
    using m by (simp add: unat_of_nat_u32 del: of_nat_diff)
qed

lemma saltLen_fits:
  fixes q :: u32
  assumes "7 + unat q \<le> n" "n < 2 ^ 32"
  shows "unat (of_nat n - q - of_nat 7) = n - (7 + unat q)"
proof -
  have "of_nat (n - (7 + unat q)) + of_nat (7 + unat q) = (of_nat n :: u32)"
    using assms(1) by (simp flip: of_nat_add)
  then have "(of_nat n - q - of_nat 7 :: u32) = of_nat (n - (7 + unat q))"
    by (simp add: algebra_simps)
  then show ?thesis
    using assms by (simp add: unat_of_nat_u32 del: of_nat_diff)
qed

lemma saltLen_wraps:
  fixes q :: u32
  assumes "n < 7 + unat q" "7 + unat q < 2 ^ 32"
  shows "unat (of_nat n - q - of_nat 7) = 2 ^ 32 - (7 + unat q - n)"
proof -
  have "of_nat (7 + unat q - n) + of_nat n = (of_nat (7 + unat q) :: u32)"
    using assms(1) by (simp flip: of_nat_add)
  then have "(of_nat n - q - of_nat 7 :: u32) = - of_nat (7 + unat q - n)"
    by (simp add: algebra_simps)
  then show ?thesis
    using assms by (simp add: unat_minus_of_nat del: of_nat_diff)
qed

lemma nth_decode_buf: "i < length d \<Longrightarrow> write_at b 0 d ! i = d ! i"
  by (simp add: write_at_def nth_append)

lemma GetPbkdf2Config_data:
  assumes n: "76 \<le> length code" "length code < 2 ^ 32" and D: "7 \<le> length (Base64Decode code)"
  defines "d \<equiv> Base64Decode code"
  defines "ol \<equiv> unat (read_outLen d)"
  shows "7 + ol < length d \<Longrightarrow> length d < 0x80000000 \<Longrightarrow> GetPbkdf2Config E code c0 =
      (CCSEC_CRYPT_OK, \<lparr>ccsecCryptMacAlgId = uint (u8_of (d ! 0)), iterationTimes = read_iter d,
         outLen = read_outLen d, salt = drop (7 + ol) d\<rparr>)"
    and "length d \<le> 7 + ol \<Longrightarrow>
      fst (GetPbkdf2Config E code c0) = CCSEC_CRYPT_ERROR \<and>
      (length d < 7 + ol \<longrightarrow> length (salt (snd (GetPbkdf2Config E code c0))) = 2 ^ 32 - (7 + ol - length d))"
proof -
  have bl: "unat (of_nat (base64_decode_len (length code)) :: u32) = base64_decode_len (length code)"
    using n by (intro unat_of_nat_u32) (simp add: base64_decode_len_def)
  have ld: "length d \<le> base64_decode_len (length code)"
    unfolding d_def by (rule length_Base64Decode)
  have ld32: "length d < 2 ^ 32"
    using ld n by (simp add: base64_decode_len_def)
  let ?buf = "write_at (stack_buf E (base64_decode_len (length code))) 0 d"
  have b: "?buf ! i = d ! i" if "i < 7" for i
    using that D by (intro nth_decode_buf) (simp add: d_def)
  have G: "GetPbkdf2Config E code c0 =
     (let sl = unat ((of_nat (length d) :: u32) - read_outLen d - of_nat 7);
        c1 = \<lparr>ccsecCryptMacAlgId = uint (u8_of (d ! 0)), iterationTimes = read_iter d,
         outLen = read_outLen d, salt = resize_bytes sl (salt c0)\<rparr> in
      if \<not> memcpy_s_ok sl then (CCSEC_CRYPT_ERROR, c1)
      else (CCSEC_CRYPT_OK, c1\<lparr>salt := read_at ?buf (7 + ol) sl\<rparr>))"
    using n ld b bl
    by (simp add: GetPbkdf2Config_def Let_def pbkdf2_bounds read_iter_def read_outLen_def ol_def flip: d_def)
  show "GetPbkdf2Config E code c0 =
      (CCSEC_CRYPT_OK, \<lparr>ccsecCryptMacAlgId = uint (u8_of (d ! 0)), iterationTimes = read_iter d,
         outLen = read_outLen d, salt = drop (7 + ol) d\<rparr>)" if "7 + ol < length d" "length d < 0x80000000"
  proof -
    have "unat ((of_nat (length d) :: u32) - read_outLen d - of_nat 7) = length d - (7 + ol)"
      unfolding ol_def using that ld32 by (intro saltLen_fits) (simp_all add: ol_def)
    moreover have "read_at ?buf (7 + ol) (length d - (7 + ol)) = drop (7 + ol) d"
      using that by (simp add: read_at_def write_at_def)
    ultimately show ?thesis
      unfolding G using that by (simp add: memcpy_s_ok_def Let_def)
  qed
  show "fst (GetPbkdf2Config E code c0) = CCSEC_CRYPT_ERROR \<and>
      (length d < 7 + ol \<longrightarrow> length (salt (snd (GetPbkdf2Config E code c0))) = 2 ^ 32 - (7 + ol - length d))"
    if le: "length d \<le> 7 + ol"
  proof (cases "length d = 7 + ol")
    case True
    then have "unat ((of_nat (length d) :: u32) - read_outLen d - of_nat 7) = 0"
      using saltLen_fits[of "read_outLen d" "length d"] ld32 by (simp add: ol_def)
    then show ?thesis
      unfolding G using True by (simp add: memcpy_s_ok_def Let_def)
  next
    case False
    then have sl: "unat ((of_nat (length d) :: u32) - read_outLen d - of_nat 7) = 2 ^ 32 - (7 + ol - length d)"
      unfolding ol_def using le unat_read_outLen[of d] by (intro saltLen_wraps) (simp_all add: ol_def)
    have "ol < 65536"
      using unat_read_outLen[of d] by (simp add: ol_def)
    then have nm: "\<not> memcpy_s_ok (2 ^ 32 - (7 + ol - length d))"
      by (simp add: memcpy_s_ok_def) arith
    obtain m where m: "2 ^ 32 - (7 + ol - length d) = m"
      by blast
    show ?thesis
      using sl nm unfolding G m by (simp add: Let_def)
  qed
qed


lemma pbkdf2_core:
  assumes law: "pbkdf2_law E" and ok: "Pbkdf2Hmac E key cfg o0 = (CCSEC_CRYPT_OK, out)"
  shows "GetPbkdf2Config E out c0 = (CCSEC_CRYPT_OK, cfg)"
proof -
  note V = Pbkdf2Hmac_OK(1)[OF law ok]
  obtain d where d: "length d = unat (outLen cfg)"
    and out: "out = Base64Encode (Some (pbkdf2_header cfg @ d @ salt cfg))"
    using Pbkdf2Hmac_OK(2)[OF law ok] by blast
  let ?D = "pbkdf2_header cfg @ d @ salt cfg"
  have D: "Base64Decode out = ?D"
    unfolding out by (simp add: b64.dec_enc[simplified])
  have v: "ccsecCryptMacAlgId cfg \<in> {0, 1, 2, 3}" "16 \<le> length (salt cfg)" "length (salt cfg) \<le> 64"
    "32 \<le> outLen cfg" "outLen cfg \<le> 128"
    using V by (auto simp: ValidatePbkdf2Config_def pbkdf2_bounds ValidPbkdf2Alg_def not_less split: if_splits)
  then have ol: "32 \<le> unat (outLen cfg)" "unat (outLen cfg) \<le> 128"
    by (simp_all add: word_le_nat_alt)
  have len: "length ?D = 7 + unat (outLen cfg) + length (salt cfg)"
    by (simp add: d length_pbkdf2_header)
  have lo: "length out = 4 * ((length ?D + 2) div 3)"
    unfolding out by (rule base64_length)
  have "76 \<le> length out" "length out < 2 ^ 32" "length ?D < 0x80000000"
    using v(2,3) ol unfolding lo len by auto
  note L = this
  have h: "?D ! 0 = chr_of (word_of_int (ccsecCryptMacAlgId cfg))" "read_iter ?D = iterationTimes cfg"
    by (simp_all add: pbkdf2_header_def read_iter_def low_bytes_u32)
  have ho: "read_outLen ?D = outLen cfg"
    using ol low_bytes_u16[of "outLen cfg"] by (simp add: pbkdf2_header_def read_outLen_def word_less_nat_alt)
  have ha: "uint (u8_of (?D ! 0)) = ccsecCryptMacAlgId cfg"
    using v(1) unfolding h(1) by auto
  have s: "drop (7 + unat (outLen cfg)) ?D = salt cfg"
    using d length_pbkdf2_header[of cfg] by simp
  have "GetPbkdf2Config E out c0 =
      (CCSEC_CRYPT_OK, \<lparr>ccsecCryptMacAlgId = uint (u8_of (?D ! 0)), iterationTimes = read_iter ?D,
         outLen = read_outLen ?D, salt = drop (7 + unat (read_outLen ?D)) ?D\<rparr>)"
    using GetPbkdf2Config_data(1)[of out E c0] L len ol v(2) unfolding D ho by simp
  then show ?thesis
    unfolding ho ha h(2) s by simp
qed

text \<open>For any library and password the pair is a codec of the configurations \<open>Pbkdf2Hmac\<close> accepts.\<close>

interpretation pbkdf2: codec "\<lambda>cfg. snd (Pbkdf2Hmac E key cfg o0)"
  "\<lambda>code. case GetPbkdf2Config E code c0 of (rc, cfg) \<Rightarrow> if rc = CCSEC_CRYPT_OK then Some cfg else None"
  "\<lambda>cfg. pbkdf2_law E \<and> fst (Pbkdf2Hmac E key cfg o0) = CCSEC_CRYPT_OK"
  for E key o0 c0
proof
  fix cfg
  assume a: "pbkdf2_law E \<and> fst (Pbkdf2Hmac E key cfg o0) = CCSEC_CRYPT_OK"
  then have "Pbkdf2Hmac E key cfg o0 = (CCSEC_CRYPT_OK, snd (Pbkdf2Hmac E key cfg o0))"
    by (simp add: prod_eq_iff)
  with a show "(case GetPbkdf2Config E (snd (Pbkdf2Hmac E key cfg o0)) c0 of
      (rc, cfg) \<Rightarrow> if rc = CCSEC_CRYPT_OK then Some cfg else None) = Some cfg"
    using pbkdf2_core by fastforce
qed

text \<open>C39: \<open>GetPbkdf2Config\<close> recovers from an output of \<open>Pbkdf2Hmac\<close> exactly the configuration it was
  made with: algorithm, iteration count, output length and salt. So no output belongs to two
  configurations.\<close>

theorem pbkdf2_roundtrip:
  assumes law: "pbkdf2_law E" and ok: "Pbkdf2Hmac E key cfg o0 = (CCSEC_CRYPT_OK, out)"
  shows "GetPbkdf2Config E out c0 = (CCSEC_CRYPT_OK, cfg) \<and>
    (Pbkdf2Hmac E key cfg' o0 = (CCSEC_CRYPT_OK, out) \<longrightarrow> cfg' = cfg)"
proof -
  have "cfg' = cfg" if "Pbkdf2Hmac E key cfg' o0 = (CCSEC_CRYPT_OK, out)"
    using pbkdf2.enc_eq_iff[of E key cfg' o0 cfg] law ok that by simp
  then show ?thesis
    using pbkdf2_core[OF law ok] by blast
qed

definition toy_cfg :: Pbkdf2ConfigStruct where
  "toy_cfg = \<lparr>ccsecCryptMacAlgId = 1, iterationTimes = 100000, outLen = 32, salt = replicate 16 CHR ''s''\<rparr>"

lemma pbkdf2_roundtrip_witness:
  "GetPbkdf2Config toy_crypto (snd (Pbkdf2Hmac toy_crypto ''pw'' toy_cfg [])) (toy_cfg\<lparr>salt := []\<rparr>) =
     (CCSEC_CRYPT_OK, toy_cfg)"
proof -
  have "fst (Pbkdf2Hmac toy_crypto ''pw'' toy_cfg []) = CCSEC_CRYPT_OK"
    by (simp add: Pbkdf2Hmac_def ValidatePbkdf2Config_def toy_cfg_def toy_crypto_def pbkdf2_bounds ValidPbkdf2Alg_def
        memcpy_s_ok_def Let_def)
  then have "Pbkdf2Hmac toy_crypto ''pw'' toy_cfg [] =
      (CCSEC_CRYPT_OK, snd (Pbkdf2Hmac toy_crypto ''pw'' toy_cfg []))"
    by (simp add: prod_eq_iff)
  then show ?thesis
    using pbkdf2_roundtrip[of toy_crypto "''pw''" toy_cfg "[]"] by (simp add: pbkdf2_law_def toy_crypto_def)
qed

text \<open>When the decoded data are shorter than the header and the key length announced in them, the
  unsigned salt length wraps around: the call fails, but only after resizing the caller's salt vector
  to nearly 4 GiB.\<close>

lemma GetPbkdf2Config_salt_wraps:
  assumes "76 \<le> length code" "length code < 2 ^ 32" "7 \<le> length (Base64Decode code)"
    and short: "length (Base64Decode code) < 7 + unat (read_outLen (Base64Decode code))"
  shows "fst (GetPbkdf2Config E code c0) = CCSEC_CRYPT_ERROR \<and>
    2 ^ 32 - 65535 \<le> length (salt (snd (GetPbkdf2Config E code c0)))"
  using GetPbkdf2Config_data(2)[OF assms(1-3), of E c0] short unat_read_outLen[of "Base64Decode code"] assms(3)
  by auto

lemma short_code: "Base64Decode (replicate 12 CHR ''/'' @ replicate 64 CHR ''='') = replicate 9 (CHR 0xFF)"
  by code_simp

lemma GetPbkdf2Config_salt_wraps_witness:
  "2 ^ 32 - 65535 \<le> length (salt (snd (GetPbkdf2Config toy_crypto (replicate 12 CHR ''/'' @ replicate 64 CHR ''='') toy_cfg)))"
proof -
  have "read_outLen (replicate 9 (CHR 0xFF)) = 65535"
    by (simp add: read_outLen_def u8_of_def)
  then show ?thesis
    using GetPbkdf2Config_salt_wraps[of "replicate 12 CHR ''/'' @ replicate 64 CHR ''=''" toy_crypto toy_cfg]
    unfolding short_code by simp
qed

end
