(* ===== verification/CdfOrdMap.thy ===== *)
theory CdfOrdMap
  imports CdfPrelude
begin

section \<open>Ordered maps\<close>

text \<open>
  \<open>std::map\<close> as the code uses it: a list of pairs in increasing order of the keys, so that
  iteration, \<open>begin\<close> and \<open>rbegin\<close> are the list's own. \<open>om_put\<close> is \<open>m[k] = v\<close>, \<open>om_insert\<close> is
  \<open>insert\<close> (which keeps an existing entry), \<open>map_of\<close> is \<open>find\<close>. The interface \<open>dict\<close> states what
  a client relies on; its lemmas are used through the interpretation \<open>om\<close>.
\<close>

locale dict =
  fixes get :: "'m \<Rightarrow> 'k \<Rightarrow> 'v option"
    and put :: "'k \<Rightarrow> 'v \<Rightarrow> 'm \<Rightarrow> 'm"
    and del :: "'k \<Rightarrow> 'm \<Rightarrow> 'm"
    and wf :: "'m \<Rightarrow> bool"
  assumes get_put: "wf m \<Longrightarrow> get (put k v m) = (get m)(k \<mapsto> v)"
    and get_del: "wf m \<Longrightarrow> get (del k m) = (get m)(k := None)"
    and wf_put: "wf m \<Longrightarrow> wf (put k v m)"
    and wf_del: "wf m \<Longrightarrow> wf (del k m)"
begin

lemma put_same: "wf m \<Longrightarrow> get (put k v m) k = Some v"
  by (simp add: get_put)

lemma put_other: "wf m \<Longrightarrow> k \<noteq> k' \<Longrightarrow> get (put k v m) k' = get m k'"
  by (simp add: get_put)

lemma del_same: "wf m \<Longrightarrow> get (del k m) k = None"
  by (simp add: get_del)

lemma del_other: "wf m \<Longrightarrow> k \<noteq> k' \<Longrightarrow> get (del k m) k' = get m k'"
  by (simp add: get_del)

lemma dom_put: "wf m \<Longrightarrow> dom (get (put k v m)) = insert k (dom (get m))"
  by (simp add: get_put)

lemma dom_del: "wf m \<Longrightarrow> dom (get (del k m)) = dom (get m) - {k}"
  by (auto simp: get_del)

end

type_synonym ('k, 'v) omap = "('k \<times> 'v) list"

fun om_put :: "'k :: linorder \<Rightarrow> 'v \<Rightarrow> ('k, 'v) omap \<Rightarrow> ('k, 'v) omap" where
  "om_put k v [] = [(k, v)]"
| "om_put k v ((a, b) # m) =
    (if k < a then (k, v) # (a, b) # m else if k = a then (k, v) # m else (a, b) # om_put k v m)"

definition om_insert :: "'k :: linorder \<Rightarrow> 'v \<Rightarrow> ('k, 'v) omap \<Rightarrow> ('k, 'v) omap" where
  "om_insert k v m = (if map_of m k = None then om_put k v m else m)"

definition om_erase :: "'k \<Rightarrow> ('k, 'v) omap \<Rightarrow> ('k, 'v) omap" where
  "om_erase k m = filter (\<lambda>(a, _). a \<noteq> k) m"

definition om_wf :: "('k :: linorder, 'v) omap \<Rightarrow> bool" where
  "om_wf m \<longleftrightarrow> sorted_wrt (<) (map fst m)"

definition om_last :: "('k, 'v) omap \<Rightarrow> 'k" where
  "om_last m = fst (last m)"

lemma om_wf_Nil [simp]: "om_wf []"
  by (simp add: om_wf_def)

lemma om_wf_Cons: "om_wf ((a, b) # m) \<longleftrightarrow> (\<forall>x \<in> set m. a < fst x) \<and> om_wf m"
  by (auto simp: om_wf_def)

lemma om_put_keys: "fst ` set (om_put k v m) = insert k (fst ` set m)"
  by (induction k v m rule: om_put.induct) auto

lemma map_of_below: "(\<forall>x \<in> set m. a < fst x) \<Longrightarrow> k \<le> a \<Longrightarrow> map_of m k = None" for a k :: "'k :: linorder"
  unfolding map_of_eq_None_iff by (auto simp: image_iff)

lemma map_of_om_put: "om_wf m \<Longrightarrow> map_of (om_put k v m) = (map_of m)(k \<mapsto> v)"
  by (induction k v m rule: om_put.induct) (auto simp: om_wf_Cons fun_eq_iff)

lemma om_wf_put: "om_wf m \<Longrightarrow> om_wf (om_put k v m)"
proof (induction k v m rule: om_put.induct)
  case (2 k v a b m)
  have "\<forall>x \<in> set (om_put k v m). a < fst x" if "a < k"
  proof
    fix x assume "x \<in> set (om_put k v m)"
    then have "fst x \<in> insert k (fst ` set m)"
      unfolding om_put_keys[of k v m, symmetric] by (rule imageI)
    then show "a < fst x"
      using that 2(2) by (auto simp: om_wf_Cons)
  qed
  with 2 show ?case
    by (auto simp: om_wf_Cons not_less less_le)
qed (simp add: om_wf_Cons)

lemma om_wf_filter: "om_wf m \<Longrightarrow> om_wf (filter P m)"
  by (induction m) (auto simp: om_wf_Cons)

lemma om_wf_erase: "om_wf m \<Longrightarrow> om_wf (om_erase k m)"
  unfolding om_erase_def by (rule om_wf_filter)

lemma map_of_om_erase: "map_of (om_erase k m) = (map_of m)(k := None)"
  unfolding om_erase_def by (induction m) (auto simp: fun_eq_iff)

interpretation om: dict map_of om_put om_erase om_wf
  by unfold_locales (simp_all add: map_of_om_put map_of_om_erase om_wf_put om_wf_erase)

lemma om_wf_insert: "om_wf m \<Longrightarrow> om_wf (om_insert k v m)"
  by (simp add: om_insert_def om_wf_put)

lemma map_of_om_insert:
  "om_wf m \<Longrightarrow> map_of (om_insert k v m) = (if map_of m k = None then (map_of m)(k \<mapsto> v) else map_of m)"
  by (simp add: om_insert_def om.get_put)

text \<open>\<open>rbegin\<close> is the largest key.\<close>

lemma om_last_max: "om_wf m \<Longrightarrow> map_of m k = Some v \<Longrightarrow> k \<le> om_last m"
proof (induction m)
  case (Cons x m)
  obtain a b where x: "x = (a, b)" by fastforce
  show ?case
  proof (cases "m = []")
    case False
    then have "a \<le> fst (last m)"
      using Cons(2) by (auto simp: x om_wf_Cons intro: less_imp_le)
    then show ?thesis
      using Cons False by (auto simp: x om_wf_Cons om_last_def split: if_splits)
  qed (use Cons in \<open>auto simp: x om_last_def split: if_splits\<close>)
qed simp

lemma om_last_in: "m \<noteq> [] \<Longrightarrow> map_of m (om_last m) \<noteq> None"
  unfolding om_last_def map_of_eq_None_iff by simp

lemma om_distinct: "om_wf m \<Longrightarrow> distinct (map fst m)"
  unfolding om_wf_def by (simp add: strict_sorted_iff)

lemma om_card: "om_wf m \<Longrightarrow> card (dom (map_of m)) = length m"
  using distinct_card[OF om_distinct, of m] by (simp add: dom_map_of_conv_image_fst)

end
