(* ===== verification/CdfBaoUtils.thy ===== *)
theory CdfBaoUtils
  imports CdfStrUtils CdfPbkdf2 CdfOrdMap
begin

section \<open>Running the OpenBao and Vault clients (\<open>key_management/openbao/openbao_utils.cpp\<close>)\<close>

text \<open>
  The key managers keep their keys in an OpenBao or Vault server, which they reach by running the
  \<open>bao\<close> or \<open>vault\<close> program: a login with the access token on its standard input, then the command.
  The programs and the server behind them are a parameter with a state of its own, the world \<open>'w\<close>,
  which every command may change. \<open>be_login\<close> and \<open>be_run\<close> take the program, its argument vector and
  the world; \<open>ProcFail\<close> is a failed \<open>fork\<close>, \<open>read\<close> or \<open>write\<close>, and \<open>ProcEnd ok out\<close> an ended
  process with its exit status (\<open>ok\<close> for exit code 0) and what it printed.

  An operation does not always return: a malformed key name makes \<open>substr\<close> throw, and some error
  paths lock a mutex the thread already holds or move an iterator past the end. The result type
  \<open>outcome\<close> has these as values.
\<close>

datatype proc = ProcFail | ProcEnd bool bytes

datatype 'a outcome = Ret 'a | ThrowsOutOfRange | Deadlock | UndefinedBehaviour

record 'w bao_env =
  be_pipes :: "'w \<Rightarrow> bool"
  be_login :: "'w \<Rightarrow> bytes \<Rightarrow> bytes list \<Rightarrow> bytes \<Rightarrow> proc \<times> 'w"
  be_run :: "'w \<Rightarrow> bytes \<Rightarrow> bytes list \<Rightarrow> proc \<times> 'w"
  be_json :: "bytes \<Rightarrow> json option"
  be_time :: "'w \<Rightarrow> time_t"
  be_realpath :: "bytes \<Rightarrow> bytes option"
  be_access :: "bytes \<Rightarrow> bool"
  be_crypto :: crypto_env

definition NL :: char where "NL = CHR 0x0A"

definition VAULT_LIST_EMPTY_CASE_RET :: bytes where
  "VAULT_LIST_EMPTY_CASE_RET = ''{}'' @ [NL]"

definition MakeLoginVec :: "bytes \<Rightarrow> bytes list" where
  "MakeLoginVec exePath = Split (exePath @ '' login -'') '' ''"

text \<open>
  \<open>memcmp\<close> with the output's own length: an output that is a prefix of the literal (with its
  terminating zero) counts as the empty listing; so does an empty output.
\<close>

definition list_empty_case :: "bytes \<Rightarrow> bool" where
  "list_empty_case out \<longleftrightarrow> out = take (length out) (VAULT_LIST_EMPTY_CASE_RET @ [CHR 0x00])"

definition ExecOpenbaoCmd :: "'w bao_env \<Rightarrow> bytes \<Rightarrow> bytes \<Rightarrow> bytes \<Rightarrow> 'w \<Rightarrow> (int \<times> bytes) \<times> 'w" where
  "ExecOpenbaoCmd E exePath accessToken cmdArgs w =
    (if \<not> be_pipes E w then ((1, []), w)
     else case be_login E w exePath (MakeLoginVec exePath) accessToken of
       (ProcFail, w1) \<Rightarrow> ((1, []), w1)
     | (ProcEnd ok1 out1, w1) \<Rightarrow>
       if \<not> ok1 then ((1, out1), w1)
       else case be_run E w1 exePath (Split cmdArgs '' '') of
         (ProcFail, w2) \<Rightarrow> ((1, []), w2)
       | (ProcEnd ok2 out2, w2) \<Rightarrow>
         if \<not> ok2 \<and> \<not> list_empty_case out2 then ((1, out2), w2) else ((0, out2), w2))"

definition RunCommandAndGetResult ::
  "'w bao_env \<Rightarrow> bytes \<Rightarrow> bytes \<Rightarrow> bytes \<Rightarrow> 'w \<Rightarrow> (KeyManagerRC \<times> bytes) \<times> 'w" where
  "RunCommandAndGetResult E exePath accessToken cmdArgs w =
    (if cmdArgs = [] then ((KM_ERROR, []), w)
     else if accessToken = [] then ((KM_ERROR, []), w)
     else let ((rc, out), w') = ExecOpenbaoCmd E exePath accessToken (c_str cmdArgs) w in
       if rc \<noteq> 0 then ((KM_ERROR, []), w')
       else if find_sub ''Error'' out \<noteq> None then ((KM_ERROR, out), w')
       else ((KM_OK, out), w'))"

definition RunCommandAndCheck ::
  "'w bao_env \<Rightarrow> bytes \<Rightarrow> bytes \<Rightarrow> bytes \<Rightarrow> 'w \<Rightarrow> KeyManagerRC \<times> 'w" where
  "RunCommandAndCheck E exePath accessToken cmdArgs w =
    (let ((rc, out), w') = RunCommandAndGetResult E exePath accessToken cmdArgs w in
     (if rc \<noteq> KM_OK then KM_ERROR else KM_OK, w'))"

subsection \<open>Reading the programs' JSON output\<close>

text \<open>
  \<open>HasMember\<close>, \<open>operator[]\<close> and \<open>MemberCount\<close> assert that the value is an object; a document for which
  they would not be is counted as one that fails the check. The result is the object \<open>data.keys\<close>.
\<close>

fun json_members :: "json \<Rightarrow> (bytes \<times> json) list option" where
  "json_members (JObject ms) = Some ms"
| "json_members _ = None"

definition ParseJsonAndCheck :: "'w bao_env \<Rightarrow> bytes \<Rightarrow> (bytes \<times> json) list option" where
  "ParseJsonAndCheck E readResultStr =
    (case be_json E readResultStr of
       None \<Rightarrow> None
     | Some doc \<Rightarrow>
       if json_members doc = None \<or> json_members doc = Some [] then None
       else case json_member ''data'' doc of
         None \<Rightarrow> None
       | Some data \<Rightarrow> (case json_member ''keys'' data of
           None \<Rightarrow> None
         | Some keys \<Rightarrow> (case json_members keys of
             None \<Rightarrow> None
           | Some ms \<Rightarrow> if ms = [] then None else Some ms)))"

definition GetJsonFieldAsStr :: "'w bao_env \<Rightarrow> bytes \<Rightarrow> bytes" where
  "GetJsonFieldAsStr E jsonStr =
    (case ParseJsonAndCheck E jsonStr of
       None \<Rightarrow> []
     | Some ms \<Rightarrow> (case json_string (snd (last ms)) of None \<Rightarrow> [] | Some s \<Rightarrow> c_str s))"

fun json_int :: "json \<Rightarrow> int option" where
  "json_int (JInt i) = (if -2147483648 \<le> i \<and> i < 2147483648 then Some i else None)"
| "json_int _ = None"

text \<open>The loop looks every member up again by its name, so a repeated name reads the first one.\<close>

fun max_int_loop :: "(bytes \<times> json) list \<Rightarrow> (bytes \<times> json) list \<Rightarrow> int \<Rightarrow> int" where
  "max_int_loop keys [] ret = ret"
| "max_int_loop keys ((n, _) # ms) ret =
    (case json_member (c_str n) (JObject keys) of
       None \<Rightarrow> -1
     | Some v \<Rightarrow> (case json_int v of
         None \<Rightarrow> -1
       | Some i \<Rightarrow> max_int_loop keys ms (if i > ret then i else ret)))"

definition GetJsonFieldMaxInt :: "'w bao_env \<Rightarrow> bytes \<Rightarrow> int" where
  "GetJsonFieldMaxInt E jsonStr =
    (case ParseJsonAndCheck E jsonStr of None \<Rightarrow> -1 | Some ms \<Rightarrow> max_int_loop ms ms (-1))"

text \<open>
  A key is named \<open>CDF<domain>_Key<id>\<close>. The parser returns 1 for a name without an underscore from
  position 3 on, -1 for one that is not a number, and throws when nothing follows where the id should
  start: \<open>substr\<close> beyond the end.
\<close>

definition StrDecodeToDomainIdKeyId :: "bytes \<Rightarrow> u32 \<Rightarrow> u32 \<Rightarrow> (int \<times> u32 \<times> u32) outcome" where
  "StrDecodeToDomainIdKeyId str domainId keyId =
    (if length str < 3 then Ret (1, domainId, keyId)
     else case find_sub ''_'' (drop 3 str) of
       None \<Rightarrow> Ret (1, domainId, keyId)
     | Some p \<Rightarrow>
       let domainStrEnd = 3 + p;
           (ok1, d) = StrToU32 (take p (drop 3 str)) domainId in
       if \<not> ok1 then Ret (-1, d, keyId)
       else let keyStrStart = domainStrEnd + 4 in
         if length str < keyStrStart then ThrowsOutOfRange
         else let (ok2, k) = StrToU32 (drop keyStrStart str) keyId in
           if \<not> ok2 then Ret (-1, d, k) else Ret (0, d, k))"

fun pair_loop :: "json list \<Rightarrow> (u32 \<times> u32) list \<Rightarrow> (KeyManagerRC \<times> (u32 \<times> u32) list) outcome" where
  "pair_loop [] out = Ret (KM_OK, out)"
| "pair_loop (v # vs) out =
    (case json_string v of
       None \<Rightarrow> Ret (KM_ERROR, out)
     | Some s \<Rightarrow> (case StrDecodeToDomainIdKeyId (c_str s) 0 0 of
         Ret (rc, d, k) \<Rightarrow>
           if rc = -1 then Ret (KM_ERROR, out)
           else if rc = 0 then pair_loop vs (out @ [(d, k)])
           else pair_loop vs out
       | ThrowsOutOfRange \<Rightarrow> ThrowsOutOfRange
       | Deadlock \<Rightarrow> Deadlock
       | UndefinedBehaviour \<Rightarrow> UndefinedBehaviour))"

definition GetJsonFieldIntPairVec :: "'w bao_env \<Rightarrow> bytes \<Rightarrow> (KeyManagerRC \<times> (u32 \<times> u32) list) outcome" where
  "GetJsonFieldIntPairVec E jsonStr =
    (case be_json E jsonStr of
       None \<Rightarrow> Ret (KM_ERROR, [])
     | Some doc \<Rightarrow> (case doc of
         JArray vs \<Rightarrow> if vs = [] then Ret (KM_ERROR, []) else pair_loop vs []
       | _ \<Rightarrow> Ret (KM_ERROR, [])))"

subsection \<open>Key names\<close>

definition u32_str :: "u32 \<Rightarrow> bytes" where
  "u32_str n = nat_str (unat n)"

definition key_name :: "u32 \<Rightarrow> u32 \<Rightarrow> bytes" where
  "key_name d k = ''CDF'' @ u32_str d @ ''_Key'' @ u32_str k"

lemma StrToU32_u32_str: "StrToU32 (u32_str n) v = (True, n)"
proof -
  have "uint n < 2 ^ 32" "0 \<le> uint n" "- 9223372036854775808 \<le> uint n"
    using unsigned_less[of n, where ?'a = int] uint_ge_0[of n] by (simp, simp, linarith)
  note b = this
  have u: "u32_str n = int_str (uint n)"
    by (simp add: u32_str_def int_str_def)
  have "in_range 64 (uint n)"
    using b unfolding in_range_def by (intro conjI; simp)
  then have "sto_bits 64 (u32_str n) = Some (uint n)"
    using sto_bits_int_str[of "[]" "[]" 64 "uint n"] u by simp
  with b show ?thesis
    by (simp add: StrToU32_def)
qed

lemma u32_str_char: "\<not> isdigit_c c \<Longrightarrow> c \<notin> set (u32_str n)"
  by (auto simp: u32_str_def dest: nat_str_isdigit)

lemma key_name_decode: "StrDecodeToDomainIdKeyId (key_name d k) d0 k0 = Ret (0, d, k)"
proof -
  have n: "CHR ''_'' \<notin> set (u32_str d)"
    by (rule u32_str_char) (simp add: isdigit_c_def)
  have s: "key_name d k = ''CDF'' @ u32_str d @ CHR ''_'' # ''Key'' @ u32_str k"
    by (simp add: key_name_def)
  have "drop 3 (key_name d k) = u32_str d @ CHR ''_'' # ''Key'' @ u32_str k"
    "drop (length (''CDF'' @ u32_str d @ ''_Key'')) (key_name d k) = u32_str k"
    "length (key_name d k) = 7 + length (u32_str d) + length (u32_str k)"
    unfolding s by simp_all
  note f = this(1,3)
  have g: "drop (7 + length (u32_str d)) (key_name d k) = u32_str k"
    using \<open>drop (length _) _ = _\<close> by (simp add: numeral_eq_Suc)
  show ?thesis
    using find_sub_char_Some[OF n, of "''Key'' @ u32_str k"] f g
    by (simp add: StrDecodeToDomainIdKeyId_def StrToU32_u32_str Let_def)
qed

interpretation key_name: codec "\<lambda>(d, k). key_name d k"
  "\<lambda>s. case StrDecodeToDomainIdKeyId s 0 0 of Ret (rc, d, k) \<Rightarrow> if rc = 0 then Some (d, k) else None | _ \<Rightarrow> None"
  "\<lambda>_. True"
  by unfold_locales (auto simp: key_name_decode)

lemma nul_key_name: "CHR 0x00 \<notin> set (key_name d k)"
  using u32_str_char[of "CHR 0x00"] by (auto simp: key_name_def isdigit_c_def)

lemma pair_loop_key_names:
  "pair_loop (map (\<lambda>(d, k). JString (key_name d k)) ps) out = Ret (KM_OK, out @ ps)"
  by (induction ps arbitrary: out) (auto simp: key_name_decode nul_key_name)

lemma GetJsonFieldIntPairVec_key_names:
  "ps \<noteq> [] \<Longrightarrow> be_json E out = Some (JArray (map (\<lambda>(d, k). JString (key_name d k)) ps)) \<Longrightarrow>
   GetJsonFieldIntPairVec E out = Ret (KM_OK, ps)"
  by (simp add: GetJsonFieldIntPairVec_def pair_loop_key_names)

text \<open>A name that ends too early after its number, such as \<open>key1_a\<close>, is not an error code but an exception.\<close>

lemma short_name_throws:
  assumes "length pre = 3" "length rest < 3"
  shows "StrDecodeToDomainIdKeyId (pre @ u32_str d @ CHR ''_'' # rest) d0 k0 = ThrowsOutOfRange"
proof -
  have n: "CHR ''_'' \<notin> set (u32_str d)"
    by (rule u32_str_char) (simp add: isdigit_c_def)
  have "drop 3 (pre @ u32_str d @ CHR ''_'' # rest) = u32_str d @ CHR ''_'' # rest"
    using assms by simp
  then show ?thesis
    using assms find_sub_char_Some[OF n, of rest]
    by (simp add: StrDecodeToDomainIdKeyId_def StrToU32_u32_str Let_def)
qed

end
