(* ===== verification/CdfFileUtils.thy ===== *)
theory CdfFileUtils
  imports CdfStrUtils "HOL-Library.Sublist"
begin

section \<open>File utilities (\<open>utils/file_utils.cpp\<close>)\<close>

text \<open>
  The checks on paths and files. The file system is a parameter, a record of what the system calls
  answer: \<open>stat\<close>, \<open>lstat\<close>, \<open>realpath\<close>, \<open>access\<close>, the user id, and the length and content of a file that can be
  opened and read. A function with an error message takes the message of its caller and
  returns it, changed or not.
\<close>

record file_stat =
  st_mode :: u32
  st_size :: int
  st_uid :: u32

record file_sys =
  fs_stat :: "bytes \<Rightarrow> file_stat option"
  fs_lstat :: "bytes \<Rightarrow> file_stat option"
  fs_realpath :: "bytes \<Rightarrow> bytes option"
  fs_access :: "bytes \<Rightarrow> int \<Rightarrow> bool"
  fs_getuid :: u32
  fs_length :: "bytes \<Rightarrow> nat option"
  fs_content :: "bytes \<Rightarrow> bytes option"

definition PATH_MAX :: nat where "PATH_MAX = 4096"
definition S_IFMT :: u32 where "S_IFMT = 61440"
definition S_IFDIR :: u32 where "S_IFDIR = 16384"
definition S_IFREG :: u32 where "S_IFREG = 32768"
definition S_IFLNK :: u32 where "S_IFLNK = 40960"
definition R_OK :: int where "R_OK = 4"
definition DEFAULT_MAX_DATA_SIZE :: int where "DEFAULT_MAX_DATA_SIZE = 4294967296"
definition MIN_MALLOC_SIZE :: int where "MIN_MALLOC_SIZE = 1"
definition FU_MAX_FILE_SIZE :: int where "FU_MAX_FILE_SIZE = 1024 * 1024"

subsection \<open>Paths\<close>

definition CanonicalPath :: "(bytes \<Rightarrow> bytes option) \<Rightarrow> bytes \<Rightarrow> bytes option" where
  "CanonicalPath realpath path =
    (if path = [] \<or> 4096 < length path then None else realpath (c_str path))"

text \<open>\<open>find_last_of\<close> and \<open>rfind\<close>: the last position of a character and of a string.\<close>

fun find_last :: "char \<Rightarrow> bytes \<Rightarrow> nat option" where
  "find_last x [] = None"
| "find_last x (c # cs) = (case find_last x cs of Some p \<Rightarrow> Some (Suc p) | None \<Rightarrow> if c = x then Some 0 else None)"

fun rfind :: "bytes \<Rightarrow> bytes \<Rightarrow> nat option" where
  "rfind x [] = (if x = [] then Some 0 else None)"
| "rfind x (c # cs) = (case rfind x cs of Some p \<Rightarrow> Some (Suc p) | None \<Rightarrow> if prefix x (c # cs) then Some 0 else None)"

definition GetPathBeforeLastPart :: "bytes \<Rightarrow> bytes" where
  "GetPathBeforeLastPart path =
    (if path = [] then []
     else case find_last (CHR ''/'') path of
       None \<Rightarrow> []
     | Some p \<Rightarrow> if p = 0 \<and> length path = 1 then [] else take p path)"

definition IsEndWith :: "bytes \<Rightarrow> bytes \<Rightarrow> bool" where
  "IsEndWith str sfx =
    (if str = [] \<or> sfx = [] then False
     else if length str < length sfx then False
     else rfind sfx str = Some (length str - length sfx))"

definition GetFolderPath :: "bytes \<Rightarrow> bytes \<Rightarrow> bool \<times> bytes" where
  "GetFolderPath filePath folderPath =
    (case find_last (CHR ''/'') filePath of None \<Rightarrow> (False, folderPath) | Some p \<Rightarrow> (True, take p filePath))"

definition GetFileName :: "bytes \<Rightarrow> bytes \<Rightarrow> bool \<times> bytes" where
  "GetFileName filePath fileName =
    (case find_last (CHR ''/'') filePath of None \<Rightarrow> (False, fileName) | Some p \<Rightarrow> (True, drop p filePath))"

definition IsAbsolutePath :: "bytes \<Rightarrow> bool" where
  "IsAbsolutePath filePath =
    (if filePath = [] then False
     else if hd filePath \<noteq> CHR ''/'' then False
     else if find_sub ''/../'' (c_str filePath) \<noteq> None \<or> find_sub ''/./'' (c_str filePath) \<noteq> None then False
     else True)"

subsection \<open>Existence and kind\<close>

definition S_ISDIR :: "u32 \<Rightarrow> bool" where
  "S_ISDIR m \<longleftrightarrow> m AND S_IFMT = S_IFDIR"

definition CheckFileExists :: "file_sys \<Rightarrow> bytes \<Rightarrow> bool" where
  "CheckFileExists fs filePath \<longleftrightarrow> fs_stat fs (c_str filePath) \<noteq> None"

definition CheckDirectoryExists :: "file_sys \<Rightarrow> bytes \<Rightarrow> bool" where
  "CheckDirectoryExists fs dirPath =
    (case fs_stat fs (c_str dirPath) of None \<Rightarrow> False | Some b \<Rightarrow> S_ISDIR (st_mode b))"

definition IsSymlink :: "file_sys \<Rightarrow> bytes \<Rightarrow> bool" where
  "IsSymlink fs filePath =
    (case fs_lstat fs (c_str filePath) of None \<Rightarrow> False | Some b \<Rightarrow> st_mode b AND S_IFMT = S_IFLNK)"

definition IsFile :: "file_sys \<Rightarrow> bytes \<Rightarrow> bool" where
  "IsFile fs path =
    (case fs_stat fs (c_str path) of None \<Rightarrow> False | Some st \<Rightarrow> st_mode st AND S_IFREG = S_IFREG)"

definition Exist :: "file_sys \<Rightarrow> bytes \<Rightarrow> int \<Rightarrow> bool" where
  "Exist fs path mode = fs_access fs (c_str path) mode"

definition CheckUserAccess :: "file_sys \<Rightarrow> bytes \<Rightarrow> int \<Rightarrow> bool" where
  "CheckUserAccess fs filePath mode = fs_access fs (c_str filePath) mode"

definition CheckFileStat :: "file_sys \<Rightarrow> bytes \<Rightarrow> bool" where
  "CheckFileStat fs filePath =
    (case fs_stat fs (c_str filePath) of
       None \<Rightarrow> False
     | Some st \<Rightarrow> if st_mode st AND S_IFMT \<noteq> S_IFREG \<or> FU_MAX_FILE_SIZE < st_size st then False else True)"

definition CheckFilePathExist :: "file_sys \<Rightarrow> bytes \<Rightarrow> bool \<Rightarrow> bool \<times> bytes" where
  "CheckFilePathExist fs filePath isFile =
    (case CanonicalPath (fs_realpath fs) filePath of
       None \<Rightarrow> (False, filePath)
     | Some p \<Rightarrow>
       if isFile \<and> \<not> CheckFileStat fs p then (False, p)
       else if \<not> Exist fs p R_OK then (False, p)
       else (True, p))"

definition CheckFileSuffix :: "file_sys \<Rightarrow> bytes \<Rightarrow> bytes \<Rightarrow> bool" where
  "CheckFileSuffix fs ksf sfx =
    (if \<not> IsEndWith ksf sfx then False else fst (CheckFilePathExist fs (GetPathBeforeLastPart ksf) False))"

text \<open>The path is compared with the directory in a buffer of \<open>PATH_MAX + 1\<close> bytes.\<close>

definition RegularFilePath_in :: "file_sys \<Rightarrow> bytes \<Rightarrow> bytes \<Rightarrow> bytes \<Rightarrow> bool \<times> bytes" where
  "RegularFilePath_in fs filePath baseDir errMsg =
    (if filePath = [] then (False, ''The file path is empty.'')
     else if baseDir = [] then (False, ''The file path basedir is empty.'')
     else if PATH_MAX < length filePath then (False, ''The file path exceeds the maximum value set by PATH_MAX.'')
     else if IsSymlink fs filePath then (False, ''The file is a link.'')
     else case fs_realpath fs (c_str filePath) of
       None \<Rightarrow> (False, ''The path realpath parsing failed.'')
     | Some path \<Rightarrow>
       (let realFilePath = path @ replicate (PATH_MAX + 1 - length path) (CHR 0x00);
            dir = (if last baseDir = CHR ''/'' then baseDir else baseDir @ ''/'') in
        if \<not> prefix dir realFilePath then (False, ''The file is invalid, it's not in baseDir directory.'')
        else (True, errMsg)))"

definition RegularFilePath :: "file_sys \<Rightarrow> bytes \<Rightarrow> bytes \<Rightarrow> bool \<times> bytes" where
  "RegularFilePath fs filePath errMsg =
    (if filePath = [] then (False, ''The file path is empty.'')
     else if PATH_MAX < length filePath then (False, ''The file path exceeds the maximum value set by PATH_MAX.'')
     else if IsSymlink fs filePath then (False, ''The file is a link.'')
     else case fs_realpath fs (c_str filePath) of
       None \<Rightarrow> (False, ''The path realpath parsing failed.'')
     | Some path \<Rightarrow> (True, errMsg))"

subsection \<open>Size, owner and permissions\<close>

definition GetFileSize :: "file_sys \<Rightarrow> bytes \<Rightarrow> nat" where
  "GetFileSize fs filePath =
    (if \<not> CheckFileExists fs filePath then 0
     else if \<not> fst (RegularFilePath_in fs filePath ''/'' []) then 0
     else case fs_length fs (c_str filePath) of None \<Rightarrow> 0 | Some n \<Rightarrow> n)"

definition CheckDataSize :: "int \<Rightarrow> bool" where
  "CheckDataSize sz \<longleftrightarrow> \<not> (DEFAULT_MAX_DATA_SIZE < sz \<or> sz < MIN_MALLOC_SIZE)"

definition IsFileValid :: "file_sys \<Rightarrow> bytes \<Rightarrow> bytes \<Rightarrow> bool \<times> bytes" where
  "IsFileValid fs configFile errMsg =
    (case fs_stat fs (c_str configFile) of
       None \<Rightarrow> (False, ''The input file is not a regular file or not exists'')
     | Some b \<Rightarrow>
       if S_ISDIR (st_mode b) then (False, ''The input path is a directory, not a regular file'')
       else let fileSize = GetFileSize fs configFile in
         if fileSize = 0 then (True, ''The input file is empty'')
         else if \<not> CheckDataSize (int fileSize) then (False, ''Read input file failed, file is too large'')
         else (True, errMsg))"

definition CheckOwner :: "file_sys \<Rightarrow> bytes \<Rightarrow> bytes \<Rightarrow> bool \<times> bytes" where
  "CheckOwner fs filePath errMsg =
    (case fs_stat fs (c_str filePath) of
       None \<Rightarrow> (False, ''Get file stat failed.'')
     | Some b \<Rightarrow>
       if st_uid b \<noteq> fs_getuid fs then
         (False, ''owner id diff: current process user id is '' @ nat_str (unat (fs_getuid fs)) @
            '', file owner id is '' @ nat_str (unat (st_uid b)))
       else (True, errMsg))"

text \<open>The three permission bits of others (0), the group (1) and the owner (2).\<close>

definition perm_of :: "u32 \<Rightarrow> nat \<Rightarrow> u32" where
  "perm_of m i = drop_bit (i * 3) (m AND push_bit (i * 3) 7)"

definition permMsg :: "nat \<Rightarrow> bytes" where
  "permMsg i = [''Other group permission'', ''Owner group permission'', ''Owner permission''] ! i"

fun perm_loop :: "u32 \<Rightarrow> u32 \<Rightarrow> bool \<Rightarrow> nat \<Rightarrow> bytes \<Rightarrow> bool \<times> bytes" where
  "perm_loop st mode onlyCurrentUserOp 0 errMsg = (True, errMsg)"
| "perm_loop st mode onlyCurrentUserOp (Suc i) errMsg =
    (let curPerm = perm_of st i; maxPerm = perm_of mode i in
     if curPerm OR maxPerm \<noteq> maxPerm then
       (False, '' Check '' @ permMsg i @ '' failed: Current permission is '' @ nat_str (unat curPerm) @
          '', but required no greater than '' @ nat_str (unat maxPerm) @ ''.'')
     else if Suc i \<noteq> 3 \<and> curPerm \<noteq> 0 \<and> curPerm \<noteq> 4 then
       (let m = '' Check '' @ permMsg i @ '' failed: Current permission is '' @ nat_str (unat curPerm) @
          '', but required no write or execute permission.'' in
        if onlyCurrentUserOp then (False, m) else perm_loop st mode onlyCurrentUserOp i m)
     else perm_loop st mode onlyCurrentUserOp i errMsg)"

definition CheckPermission_fu :: "file_sys \<Rightarrow> bytes \<Rightarrow> u32 \<Rightarrow> bool \<Rightarrow> bytes \<Rightarrow> bool \<times> bytes" where
  "CheckPermission_fu fs filePath mode onlyCurrentUserOp errMsg =
    (case fs_stat fs (c_str filePath) of
       None \<Rightarrow> (False, ''Get file stat failed.'')
     | Some b \<Rightarrow> perm_loop (st_mode b) mode onlyCurrentUserOp 3 errMsg)"

subsection \<open>What the checks mean\<close>

lemma rfind_last: "rfind x s = Some p \<Longrightarrow> \<exists>q. s = take p s @ x @ q"
proof (induction s arbitrary: p)
  case (Cons c cs)
  show ?case
  proof (cases "rfind x cs")
    case None
    then show ?thesis
      using Cons.prems by (auto simp: prefix_def split: if_splits)
  next
    case (Some r)
    then show ?thesis
      using Cons.prems Cons.IH[of r] by auto
  qed
qed (auto split: if_splits)

lemma rfind_suffix: "rfind x (s @ x) = Some (length s)"
proof (induction s)
  case Nil
  have "rfind x cs = None" if "length cs < length x" for cs
    using that by (induction cs) (auto dest: prefix_length_le)
  then show ?case
    by (cases x) simp_all
qed simp

lemma IsEndWith_iff: "IsEndWith str s \<longleftrightarrow> s \<noteq> [] \<and> suffix s str"
proof
  assume "IsEndWith str s"
  then have s: "s \<noteq> []" "length s \<le> length str" "rfind s str = Some (length str - length s)"
    by (auto simp: IsEndWith_def split: if_splits)
  from rfind_last[OF s(3)] obtain q where q: "str = take (length str - length s) str @ s @ q"
    by blast
  have "length q = 0"
    using arg_cong[OF q, of length] s(2) by simp
  then show "s \<noteq> [] \<and> suffix s str"
    using s(1) q by (metis append.right_neutral length_0_conv suffixI)
next
  assume "s \<noteq> [] \<and> suffix s str"
  then obtain p where "str = p @ s" "s \<noteq> []"
    by (auto simp: suffix_def)
  then show "IsEndWith str s"
    by (simp add: IsEndWith_def rfind_suffix)
qed

lemma perm_of_bit: "bit (perm_of m i) n \<longleftrightarrow> n < 3 \<and> bit m (i * 3 + n)"
proof -
  have seven: "(7 :: u32) = mask 3"
    by (simp add: mask_eq_exp_minus_1)
  show ?thesis
    unfolding perm_of_def seven using bit_imp_le_length[of m "i * 3 + n"]
    by (auto simp: bit_drop_bit_eq bit_and_iff bit_push_bit_iff bit_mask_iff add.commute)
qed

lemma or_absorb_iff: "x OR y = y \<longleftrightarrow> (\<forall>n. bit x n \<longrightarrow> bit y n)" for x y :: u32
proof
  assume "x OR y = y"
  then have "bit (x OR y) n = bit y n" for n
    by simp
  then have "bit y n \<longleftrightarrow> bit x n \<or> bit y n" for n
    by (simp add: bit_or_iff)
  then show "\<forall>n. bit x n \<longrightarrow> bit y n"
    by blast
qed (auto intro!: bit_eqI simp: bit_or_iff)

lemma perm_le: "perm_of a i OR perm_of b i = perm_of b i \<longleftrightarrow> (\<forall>n < 3. bit a (i * 3 + n) \<longrightarrow> bit b (i * 3 + n))"
  unfolding or_absorb_iff perm_of_bit by blast

lemma perm_read: "perm_of a i = 0 \<or> perm_of a i = 4 \<longleftrightarrow> \<not> bit a (i * 3) \<and> \<not> bit a (i * 3 + 1)"
proof -
  have four: "bit (4 :: u32) n \<longleftrightarrow> n = 2" for n
    using bit_exp_iff[of 2 n, where ?'a = u32] by (auto simp: bit_imp_le_length)
  have "perm_of a i = (if bit a (i * 3 + 2) then 4 else 0)" if "\<not> bit a (i * 3)" "\<not> bit a (i * 3 + 1)"
    by (rule bit_word_eqI) (use that in \<open>auto simp: perm_of_bit four less_Suc_eq numeral_3_eq_3 numeral_2_eq_2\<close>)
  moreover have "\<not> bit a (i * 3) \<and> \<not> bit a (i * 3 + 1)" if "perm_of a i = 0 \<or> perm_of a i = 4"
    using that perm_of_bit[of a i 0] perm_of_bit[of a i 1] four[of 0] four[of 1] by auto
  ultimately show ?thesis
    by metis
qed

lemma perm_loop_iff:
  "fst (perm_loop st mode only k msg) \<longleftrightarrow>
    (\<forall>i < k. (\<forall>n < 3. bit st (i * 3 + n) \<longrightarrow> bit mode (i * 3 + n)) \<and>
      (only \<longrightarrow> i \<noteq> 2 \<longrightarrow> \<not> bit st (i * 3) \<and> \<not> bit st (i * 3 + 1)))"
proof (induction k arbitrary: msg)
  case (Suc k)
  show ?case
    using Suc perm_le[of st k mode] perm_read[of st k] by (auto simp: Let_def less_Suc_eq)
qed simp

lemma mask_zero_iff: "w AND 511 = 0 \<longleftrightarrow> (\<forall>n < 9. \<not> bit w n)" for w :: u32
proof -
  have "w AND 511 = take_bit 9 w"
    by (simp add: take_bit_eq_mask mask_eq_exp_minus_1)
  then show ?thesis
    by (auto simp: bit_eq_iff bit_take_bit_iff)
qed

lemma bit_27: "bit (27 :: u32) n \<longleftrightarrow> n \<in> {0, 1, 3, 4}"
proof -
  have w: "(27 :: u32) = mask 2 OR push_bit 3 (mask 2)"
    by (simp add: mask_eq_exp_minus_1)
  show ?thesis
    unfolding w by (auto simp: bit_or_iff bit_push_bit_iff bit_mask_iff)
qed

lemma write_exec_iff: "w AND 27 = 0 \<longleftrightarrow> \<not> bit w 0 \<and> \<not> bit w 1 \<and> \<not> bit w 3 \<and> \<not> bit w 4" for w :: u32
proof -
  have "w AND 27 = 0 \<longleftrightarrow> (\<forall>n. \<not> (bit w n \<and> n \<in> {0, 1, 3, 4}))"
    unfolding bit_27[symmetric] bit_and_iff[symmetric] by (metis bit_eqI bit_0_eq bot_apply bot_bool_def)
  then show ?thesis
    by auto
qed

lemma nine_bits: "(\<forall>i < 3. \<forall>n < 3. P (i * 3 + n)) \<longleftrightarrow> (\<forall>m < 9. P m)" for P :: "nat \<Rightarrow> bool"
proof -
  have "P m" if "\<forall>i < 3. \<forall>n < 3. P (i * 3 + n)" "m < 9" for m
    using that(1)[rule_format, of "m div 3" "m mod 3"] that(2) by simp
  then show ?thesis
    by auto
qed

text \<open>\<open>CheckPermission\<close> accepts a file exactly when it can be asked for its mode, no permission bit is set that the
  given mode lacks, and, when only the current user may operate on it, the group and others can neither write
  nor execute it.\<close>

lemma CheckPermission_iff:
  "fst (CheckPermission_fu fs filePath mode onlyCurrentUserOp errMsg) \<longleftrightarrow>
    (\<exists>st. fs_stat fs (c_str filePath) = Some st \<and> (st_mode st AND NOT mode) AND 511 = 0 \<and>
      (if onlyCurrentUserOp then st_mode st AND 27 = 0 else True))"
proof -
  have "fst (perm_loop w mode onlyCurrentUserOp 3 errMsg) \<longleftrightarrow> (w AND NOT mode) AND 511 = 0 \<and>
      (if onlyCurrentUserOp then w AND 27 = 0 else True)" for w
  proof -
    have "(w AND NOT mode) AND 511 = 0 \<longleftrightarrow> (\<forall>n < 9. bit w n \<longrightarrow> bit mode n)"
      unfolding mask_zero_iff using bit_imp_le_length[of w] by (auto simp: bit_and_iff bit_not_iff)
    moreover have "(\<forall>i < 3. i \<noteq> 2 \<longrightarrow> \<not> bit w (i * 3) \<and> \<not> bit w (i * 3 + 1)) \<longleftrightarrow> w AND 27 = 0"
      unfolding write_exec_iff by (auto simp: less_Suc_eq numeral_eq_Suc)
    ultimately show ?thesis
      unfolding perm_loop_iff nine_bits[symmetric] by auto
  qed
  then show ?thesis
    by (simp add: CheckPermission_fu_def split: option.split)
qed

end
