(* ===== verification/CdfOpenbao.thy ===== *)
theory CdfOpenbao
  imports CdfBaoUtils CdfFileUtils
begin

section \<open>The OpenBao key manager (\<open>key_management/openbao/openbao_key_manager.cpp\<close>)\<close>

text \<open>
  The manager's state and all its operations. \<open>domainKeyMap\<close> maps a domain to its keys, a key id to
  its creation time. Every operation runs with the manager's mutex held and returns its result, the
  new state and the new world of the server; the value of the result shows the paths on which an
  operation locks that mutex a second time.
\<close>

record bao_state =
  inited :: bool
  domainCount :: u32
  domainKeyMap :: "(u32, (u32, int) omap) omap"
  accessToken :: bytes
  exePath :: bytes
  km_type :: KeyManagerTy

definition DOMAINID_MAX :: u32 where "DOMAINID_MAX = 1023"
definition MAX_KEY_COUNT :: nat where "MAX_KEY_COUNT = 1023"
definition DOMAINID_MIN :: u32 where "DOMAINID_MIN = 2"
definition DAY_TO_TIME :: u32 where "DAY_TO_TIME = 24 * 60 * 60"
definition VALID_TIME_IN_DAYS :: u32 where "VALID_TIME_IN_DAYS = 5 * 365"
definition VALID_TIME :: u32 where "VALID_TIME = VALID_TIME_IN_DAYS * DAY_TO_TIME"
definition KEYID_MAX :: u32 where "KEYID_MAX = 65535"

definition bao_init_state :: bao_state where
  "bao_init_state = \<lparr>inited = False, domainCount = 2, domainKeyMap = [], accessToken = [], exePath = [], km_type = OPENBAO\<rparr>"

text \<open>\<open>domainKeyMap_[domain]\<close>: the inner map, empty when the domain is absent.\<close>

definition inner :: "bao_state \<Rightarrow> u32 \<Rightarrow> (u32, int) omap" where
  "inner s d = (case map_of (domainKeyMap s) d of None \<Rightarrow> [] | Some m \<Rightarrow> m)"

definition Bao_UnInit :: "bao_state \<Rightarrow> KeyManagerRC \<times> bao_state" where
  "Bao_UnInit s = (KM_OK, s\<lparr>accessToken := [], domainKeyMap := [], domainCount := DOMAINID_MIN, inited := False\<rparr>)"

subsection \<open>Loading the keys of the server\<close>

definition list_cmd :: "bao_state \<Rightarrow> bytes" where
  "list_cmd s = exePath s @ '' list -format=json transit/keys''"

definition read_cmd :: "bao_state \<Rightarrow> u32 \<Rightarrow> u32 \<Rightarrow> bytes" where
  "read_cmd s d k = exePath s @ '' read -format=json transit/keys/'' @ key_name d k"

definition export_cmd :: "bao_state \<Rightarrow> u32 \<Rightarrow> u32 \<Rightarrow> bytes" where
  "export_cmd s d k = exePath s @ '' read transit/export/encryption-key/'' @ key_name d k @ '' -format=json''"

definition delete_cmd :: "bao_state \<Rightarrow> u32 \<Rightarrow> u32 \<Rightarrow> bytes" where
  "delete_cmd s d k = exePath s @ '' delete transit/keys/'' @ key_name d k"

definition write_cmd :: "bao_state \<Rightarrow> u32 \<Rightarrow> u32 \<Rightarrow> bytes" where
  "write_cmd s d k = exePath s @ '' write -f transit/keys/'' @ key_name d k"

definition config_cmd :: "bao_state \<Rightarrow> u32 \<Rightarrow> u32 \<Rightarrow> bytes \<Rightarrow> bytes" where
  "config_cmd s d k conf = exePath s @ '' write transit/keys/'' @ key_name d k @ ''/config '' @ conf"

definition bao_run :: "'w bao_env \<Rightarrow> bao_state \<Rightarrow> bytes \<Rightarrow> 'w \<Rightarrow> (KeyManagerRC \<times> bytes) \<times> 'w" where
  "bao_run E s cmd w = RunCommandAndGetResult E (exePath s) (accessToken s) cmd w"

definition bao_check :: "'w bao_env \<Rightarrow> bao_state \<Rightarrow> bytes \<Rightarrow> 'w \<Rightarrow> KeyManagerRC \<times> 'w" where
  "bao_check E s cmd w = RunCommandAndCheck E (exePath s) (accessToken s) cmd w"

definition add_key :: "u32 \<Rightarrow> u32 \<Rightarrow> int \<Rightarrow> bao_state \<Rightarrow> bao_state" where
  "add_key d k t s =
    s\<lparr>domainKeyMap := om_put d (om_insert k t (inner s d)) (domainKeyMap s)\<rparr>"

fun prepare_loop :: "'w bao_env \<Rightarrow> (u32 \<times> u32) list \<Rightarrow> bao_state \<Rightarrow> 'w \<Rightarrow> KeyManagerRC \<times> bao_state \<times> 'w" where
  "prepare_loop E [] s w = (KM_OK, s, w)"
| "prepare_loop E ((d, k) # ps) s w =
    (let ((rc, result), w') = bao_run E s (read_cmd s d k) w in
     if rc \<noteq> KM_OK then (KM_ERROR, s, w')
     else if result = [] then (KM_OK, s, w')
     else let t = GetJsonFieldMaxInt E result in
       if t \<noteq> -1 then prepare_loop E ps (add_key d k t s) w'
       else (KM_ERROR, s\<lparr>domainKeyMap := []\<rparr>, w'))"

definition PrepareMap :: "'w bao_env \<Rightarrow> bao_state \<Rightarrow> 'w \<Rightarrow> KeyManagerRC outcome \<times> bao_state \<times> 'w" where
  "PrepareMap E s w =
    (let ((rc, result), w') = bao_run E s (list_cmd s) w in
     if rc \<noteq> KM_OK then (Ret KM_ERROR, s, w')
     else if result = VAULT_LIST_EMPTY_CASE_RET then (Ret KM_OK, s, w')
     else case GetJsonFieldIntPairVec E result of
       Ret (rc, pairs) \<Rightarrow>
         if rc \<noteq> KM_OK then (Ret KM_ERROR, s, w')
         else let (rc, s', w'') = prepare_loop E pairs s w' in (Ret rc, s', w'')
     | ThrowsOutOfRange \<Rightarrow> (ThrowsOutOfRange, s, w')
     | Deadlock \<Rightarrow> (Deadlock, s, w')
     | UndefinedBehaviour \<Rightarrow> (UndefinedBehaviour, s, w'))"

definition Bao_Init ::
  "'w bao_env \<Rightarrow> bytes \<Rightarrow> bytes \<Rightarrow> u32 \<Rightarrow> bao_state \<Rightarrow> 'w \<Rightarrow> KeyManagerRC outcome \<times> bao_state \<times> 'w" where
  "Bao_Init E path token count s w =
    (if inited s then (Ret KM_OK, s, w)
     else case CanonicalPath (be_realpath E) path of
       None \<Rightarrow> (Ret KM_INVALID_PARAM, s, w)
     | Some exeRealPath \<Rightarrow>
       if \<not> be_access E exeRealPath then (Ret KM_INVALID_PARAM, s, w)
       else let s1 = s\<lparr>exePath := exeRealPath\<rparr> in
       if count < DOMAINID_MIN \<or> DOMAINID_MAX < count then (Ret KM_DOMAIN_COUNT_INVALID, s1, w)
       else if token = [] then (Ret KM_ERROR, s1, w)
       else if \<not> memcpy_s_ok (length token) then (Ret KM_ERROR, s1\<lparr>accessToken := []\<rparr>, w)
       else let (rc, s2, w') = PrepareMap E (s1\<lparr>accessToken := token\<rparr>) w in
         (case rc of
            Ret r \<Rightarrow> if r \<noteq> KM_OK then (Ret KM_ERROR, s2, w')
                     else (Ret KM_OK, s2\<lparr>inited := True, domainCount := count\<rparr>, w')
          | _ \<Rightarrow> (rc, s2, w')))"

subsection \<open>Creating and removing keys\<close>

definition ValidateDomain :: "bao_state \<Rightarrow> u32 \<Rightarrow> KeyManagerRC" where
  "ValidateDomain s d =
    (if \<not> inited s then KM_UNINITED
     else if domainCount s \<le> d then KM_INVALID_PARAM
     else KM_OK)"

text \<open>\<open>operator[]\<close> creates the domain's entry when there is none, also when the id cannot be given.\<close>

definition GenerateKeyId :: "u32 \<Rightarrow> bao_state \<Rightarrow> (KeyManagerRC \<times> u32) \<times> bao_state" where
  "GenerateKeyId d s =
    (let s' = s\<lparr>domainKeyMap := om_insert d [] (domainKeyMap s)\<rparr>; m = inner s' d in
     if MAX_KEY_COUNT \<le> length m then ((KM_INVALID_PARAM, 0), s')
     else if m \<noteq> [] then
       (if KEYID_MAX \<le> om_last m then ((KM_INVALID_PARAM, 0), s')
        else ((KM_OK, om_last m + 1), s'))
     else ((KM_OK, 0), s'))"

definition CreateKey ::
  "'w bao_env \<Rightarrow> u32 \<Rightarrow> bao_state \<Rightarrow> 'w \<Rightarrow> (KeyManagerRC \<times> u32) outcome \<times> bao_state \<times> 'w" where
  "CreateKey E d s w =
    (let v = ValidateDomain s d in
     if v \<noteq> KM_OK then (Ret (v, 0), s, w)
     else let ((rc, k), s1) = GenerateKeyId d s in
     if rc \<noteq> KM_OK then (Ret (rc, k), s1, w)
     else let (rc1, w1) = bao_check E s1 (write_cmd s1 d k) w in
     if rc1 \<noteq> KM_OK then (Ret (KM_ERROR, 0), s1, w1)
     else let (rc2, w2) = bao_check E s1 (config_cmd s1 d k ''exportable=true deletion_allowed=true'') w1 in
     if rc2 \<noteq> KM_OK then (Ret (KM_ERROR, 0), s1, w2)
     else let ((rc3, result), w3) = bao_run E s1 (read_cmd s1 d k) w2 in
     if rc3 \<noteq> KM_OK then (Ret (KM_ERROR, 0), s1, w3)
     else let t = GetJsonFieldMaxInt E result in
     if t = -1 then (Deadlock, s1, w3)
     else (Ret (KM_OK, k), add_key d k t s1, w3))"

definition drop_key :: "u32 \<Rightarrow> u32 \<Rightarrow> bao_state \<Rightarrow> bao_state" where
  "drop_key d k s =
    (let m = om_erase k (inner s d) in
     s\<lparr>domainKeyMap := (if m = [] then om_erase d (domainKeyMap s) else om_put d m (domainKeyMap s))\<rparr>)"

definition RemoveKey ::
  "'w bao_env \<Rightarrow> u32 \<Rightarrow> u32 \<Rightarrow> bao_state \<Rightarrow> 'w \<Rightarrow> KeyManagerRC \<times> bao_state \<times> 'w" where
  "RemoveKey E d k s w =
    (if \<not> inited s then (KM_UNINITED, s, w)
     else if domainKeyMap s = [] then (KM_ERROR, s, w)
     else if domainCount s \<le> d then (KM_INVALID_PARAM, s, w)
     else if KEYID_MAX < k then (KM_INVALID_PARAM, s, w)
     else case map_of (domainKeyMap s) d of
       None \<Rightarrow> (KM_INVALID_PARAM, s, w)
     | Some subMap \<Rightarrow>
       if map_of subMap k = None then (KM_INVALID_PARAM, s, w)
       else let (rc, w') = bao_check E s (delete_cmd s d k) w in
         if rc \<noteq> KM_OK then (KM_ERROR, s, w') else (KM_OK, drop_key d k s, w'))"

text \<open>
  The loops of \<open>DeleteAllKey\<close>. After a failed command the outer iterator moves on inside the inner
  loop, and the inner iterator is compared with the end of another map, or the end iterator is read.
\<close>

fun delete_inner ::
  "'w bao_env \<Rightarrow> bao_state \<Rightarrow> u32 \<Rightarrow> (u32 \<times> int) list \<Rightarrow> 'w \<Rightarrow> bool \<times> 'w" where
  "delete_inner E s d [] w = (True, w)"
| "delete_inner E s d ((k, t) # m) w =
    (let (rc, w') = bao_check E s (delete_cmd s d k) w in
     if rc \<noteq> KM_OK then (False, w') else delete_inner E s d m w')"

fun delete_outer ::
  "'w bao_env \<Rightarrow> bao_state \<Rightarrow> (u32 \<times> (u32, int) omap) list \<Rightarrow> 'w \<Rightarrow> bool \<times> 'w" where
  "delete_outer E s [] w = (True, w)"
| "delete_outer E s ((d, m) # ms) w =
    (let (deleted, w') = delete_inner E s d m w in
     if deleted then delete_outer E s ms w' else (False, w'))"

definition DeleteAllKey :: "'w bao_env \<Rightarrow> bao_state \<Rightarrow> 'w \<Rightarrow> KeyManagerRC outcome \<times> bao_state \<times> 'w" where
  "DeleteAllKey E s w =
    (if \<not> inited s then (Ret KM_UNINITED, s, w)
     else if domainKeyMap s = [] then (Ret KM_OK, s, w)
     else let (all_deleted, w') = delete_outer E s (domainKeyMap s) w in
       if all_deleted then (Ret KM_OK, s\<lparr>domainKeyMap := []\<rparr>, w')
       else (UndefinedBehaviour, s, w'))"

text \<open>What the display operations print: one line per key, or that there is none.\<close>

datatype display_line = NoKeyMatches | KeyLine u32 u32 int int

definition display_lines :: "u32 \<Rightarrow> (u32, int) omap \<Rightarrow> display_line list" where
  "display_lines d m = map (\<lambda>(k, t). KeyLine d k t (t + uint VALID_TIME)) m"

definition DisplayKey :: "u32 \<Rightarrow> bao_state \<Rightarrow> KeyManagerRC \<times> display_line list" where
  "DisplayKey d s =
    (if \<not> inited s then (KM_UNINITED, [])
     else if domainCount s \<le> d then (KM_INVALID_PARAM, [])
     else case map_of (domainKeyMap s) d of
       None \<Rightarrow> (KM_OK, [NoKeyMatches])
     | Some m \<Rightarrow> (KM_OK, display_lines d m))"

definition DisplayAllKey :: "bao_state \<Rightarrow> KeyManagerRC \<times> display_line list" where
  "DisplayAllKey s =
    (if \<not> inited s then (KM_UNINITED, [])
     else if domainKeyMap s = [] then (KM_OK, [NoKeyMatches])
     else (KM_OK, concat (map (\<lambda>(d, m). display_lines d m) (domainKeyMap s))))"

subsection \<open>Expiry\<close>

definition UINT32_MAX :: u32 where "UINT32_MAX = - 1"

definition CheckDomainKeysExpired :: "'w bao_env \<Rightarrow> u32 \<Rightarrow> u32 \<Rightarrow> bao_state \<Rightarrow> 'w \<Rightarrow> KeyManagerRC" where
  "CheckDomainKeysExpired E d lead s w =
    (let now = be_time E w in
     if now = -1 then KM_ERROR
     else if \<not> inited s then KM_UNINITED
     else if domainKeyMap s = [] then KM_ERROR
     else if domainCount s \<le> d then KM_INVALID_PARAM
     else case map_of (domainKeyMap s) d of
       None \<Rightarrow> KM_INVALID_PARAM
     | Some m \<Rightarrow>
       if UINT32_MAX div DAY_TO_TIME < lead then KM_INVALID_PARAM
       else if VALID_TIME_IN_DAYS < lead \<or> VALID_TIME < lead * DAY_TO_TIME then KM_INVALID_PARAM
       else let testTime = word_of_int now + lead * DAY_TO_TIME in
         if \<exists>(k, t) \<in> set m. uint testTime < t + uint VALID_TIME then KM_OK else KM_KEY_EXPIRED)"

definition CheckDomainKeysExpiredParams :: "u32 \<Rightarrow> u32 \<Rightarrow> bao_state \<Rightarrow> KeyManagerRC" where
  "CheckDomainKeysExpiredParams d lead s =
    (if \<not> inited s then KM_UNINITED
     else if domainKeyMap s = [] then KM_ERROR
     else if domainCount s \<le> d then KM_INVALID_PARAM
     else if map_of (domainKeyMap s) d = None then KM_INVALID_PARAM
     else if UINT32_MAX div DAY_TO_TIME < lead then KM_INVALID_PARAM
     else if VALID_TIME < lead * DAY_TO_TIME then KM_INVALID_PARAM
     else KM_OK)"

text \<open>The three commands that replace a key; the new one is not configured as exportable.\<close>

definition HandleCommand :: "'w bao_env \<Rightarrow> u32 \<Rightarrow> u32 \<Rightarrow> bao_state \<Rightarrow> 'w \<Rightarrow> KeyManagerRC \<times> 'w" where
  "HandleCommand E d k s w =
    (let (rc1, w1) = bao_check E s (delete_cmd s d k) w in
     if rc1 \<noteq> KM_OK then (KM_ERROR, w1)
     else let (rc2, w2) = bao_check E s (write_cmd s d k) w1 in
     if rc2 \<noteq> KM_OK then (KM_ERROR, w2)
     else let (rc3, w3) = bao_check E s (config_cmd s d k ''deletion_allowed=true'') w2 in
     if rc3 \<noteq> KM_OK then (KM_ERROR, w3) else (KM_OK, w3))"

definition set_time :: "u32 \<Rightarrow> u32 \<Rightarrow> int \<Rightarrow> bao_state \<Rightarrow> bao_state" where
  "set_time d k t s = s\<lparr>domainKeyMap := om_put d (om_put k t (inner s d)) (domainKeyMap s)\<rparr>"

text \<open>The loop iterates over the keys while it assigns to existing entries, so the keys are those at the start.\<close>

fun update_loop ::
  "'w bao_env \<Rightarrow> time_t \<Rightarrow> u32 \<Rightarrow> u32 \<Rightarrow> (u32 \<times> int) list \<Rightarrow> bao_state \<Rightarrow> 'w \<Rightarrow> KeyManagerRC \<times> bao_state \<times> 'w" where
  "update_loop E now d lead [] s w = (KM_OK, s, w)"
| "update_loop E now d lead ((k, t) # m) s w =
    (if 9223372036854775807 - uint VALID_TIME < t then (KM_ERROR, s, w)
     else if UINT32_MAX - word_of_int now < lead * DAY_TO_TIME then (KM_ERROR, s, w)
     else if t + uint VALID_TIME \<le> uint (word_of_int now + lead * DAY_TO_TIME :: u32) then
       (let (rc, w1) = HandleCommand E d k s w in
        if rc \<noteq> KM_OK then (rc, s, w1)
        else let ((rc, result), w2) = bao_run E s (read_cmd s d k) w1 in
        if rc \<noteq> KM_OK then (KM_ERROR, s, w2)
        else let timeTmp = GetJsonFieldMaxInt E result in
        if timeTmp = -1 then (KM_ERROR, s, w2)
        else update_loop E now d lead m (set_time d k timeTmp s) w2)
     else update_loop E now d lead m s w)"

definition CheckDomainKeysExpiredAndAutoUpdate ::
  "'w bao_env \<Rightarrow> u32 \<Rightarrow> u32 \<Rightarrow> bao_state \<Rightarrow> 'w \<Rightarrow> KeyManagerRC \<times> bao_state \<times> 'w" where
  "CheckDomainKeysExpiredAndAutoUpdate E d lead s w =
    (let now = be_time E w; err = CheckDomainKeysExpiredParams d lead s in
     if now = -1 then (KM_ERROR, s, w)
     else if err \<noteq> KM_OK then (err, s, w)
     else update_loop E now d lead (inner s d) s w)"

subsection \<open>Encryption with a key of the server\<close>

definition CheckEncryptAndDecryptParams :: "u32 \<Rightarrow> CryptoSymAlg \<Rightarrow> bao_state \<Rightarrow> KeyManagerRC" where
  "CheckEncryptAndDecryptParams d symAlg s =
    (if \<not> inited s then KM_UNINITED
     else if domainKeyMap s = [] then KM_ERROR
     else if domainCount s \<le> d then KM_INVALID_PARAM
     else if map_of (domainKeyMap s) d = None then KM_INVALID_PARAM
     else if symAlg \<noteq> AES256_GCM \<and> symAlg \<noteq> CHACHA20_POLY1305 then KM_INVALID_PARAM
     else KM_OK)"

text \<open>The exported key of a name, empty when it cannot be read; shared by both directions.\<close>

definition export_key :: "'w bao_env \<Rightarrow> bao_state \<Rightarrow> u32 \<Rightarrow> u32 \<Rightarrow> 'w \<Rightarrow> bytes \<times> 'w" where
  "export_key E s d k w =
    (let ((rc, result), w') = bao_run E s (export_cmd s d k) w in
     if rc \<noteq> KM_OK then ([], w')
     else let decodeKeystr = GetJsonFieldAsStr E result in
       if decodeKeystr = [] then ([], w') else (Base64Decode decodeKeystr, w'))"

text \<open>The key and, when one was looked up, its id; the domain's entry is created when missing.\<close>

definition GetLatestKey ::
  "'w bao_env \<Rightarrow> u32 \<Rightarrow> u32 \<Rightarrow> bao_state \<Rightarrow> 'w \<Rightarrow> (bytes \<times> u32) \<times> bao_state \<times> 'w" where
  "GetLatestKey E d keyId s w =
    (if ValidateDomain s d \<noteq> KM_OK then (([], keyId), s, w)
     else if domainKeyMap s = [] then (([], keyId), s, w)
     else let s' = s\<lparr>domainKeyMap := om_insert d [] (domainKeyMap s)\<rparr>; m = inner s' d in
       if m = [] then (([], keyId), s', w)
       else let k = om_last m; (key, w') = export_key E s' d k w in ((key, k), s', w'))"

fun sym_byte :: "CryptoSymAlg \<Rightarrow> u8" where
  "sym_byte AES128_GCM = 0" | "sym_byte AES256_GCM = 1" | "sym_byte SM4_CTR = 2"
| "sym_byte AES128_CCM = 3" | "sym_byte CHACHA20_POLY1305 = 4" | "sym_byte SYM_UNKNOWN = 5"

text \<open>A byte read as an algorithm; every number that is not one of the five is unknown.\<close>

definition sym_of_byte :: "u8 \<Rightarrow> CryptoSymAlg" where
  "sym_of_byte b = (if b = 0 then AES128_GCM else if b = 1 then AES256_GCM else if b = 2 then SM4_CTR
     else if b = 3 then AES128_CCM else if b = 4 then CHACHA20_POLY1305 else SYM_UNKNOWN)"

definition ConstructCipherHeader :: "CryptoSymAlg \<Rightarrow> u32 \<Rightarrow> u32 \<Rightarrow> bytes" where
  "ConstructCipherHeader symAlg d k =
    [chr_of 1, chr_of (sym_byte symAlg), low_byte (drop_bit 8 d), low_byte d, low_byte (drop_bit 8 k), low_byte k]"

definition Bao_Encrypt ::
  "'w bao_env \<Rightarrow> CryptoSymAlg \<Rightarrow> u32 \<Rightarrow> bytes \<Rightarrow> bao_state \<Rightarrow> 'w
     \<Rightarrow> (KeyManagerRC \<times> bytes) outcome \<times> bao_state \<times> 'w" where
  "Bao_Encrypt E symAlg d plaintext s w =
    (let err = CheckEncryptAndDecryptParams d symAlg s in
     if err \<noteq> KM_OK then (Ret (err, []), s, w)
     else if plaintext = [] \<or> PLAINTEXT_MAX_LENGTH \<le> length plaintext then (Ret (KM_INVALID_PARAM, []), s, w)
     else let ((key, keyId), s', w') = GetLatestKey E d 0 s w in
     if key = [] then (Deadlock, s', w')
     else let ((rc, c), _) = NativeCryptor_Encrypt (be_crypto E) symAlg plaintext key CCSEC_UNSPECIFIED in
     if rc \<noteq> CRC_OK then (Ret (KM_ERROR, []), s', w')
     else (Ret (KM_OK, Base64Encode (Some (ConstructCipherHeader symAlg d keyId @ c))), s', w'))"

text \<open>
  An empty key makes \<open>Encrypt\<close> call \<open>CreateKey\<close>, which locks for writing the mutex that \<open>Encrypt\<close>
  holds for reading. The suite the engine is left with is overwritten by every use of it.
\<close>

definition VaultDecrypt ::
  "'w bao_env \<Rightarrow> CryptoSymAlg \<Rightarrow> u32 \<Rightarrow> u32 \<Rightarrow> bytes \<Rightarrow> bao_state \<Rightarrow> 'w \<Rightarrow> bytes \<times> 'w" where
  "VaultDecrypt E symAlg d k ciphertext s w =
    (let (key, w') = export_key E s d k w in
     if key = [] then ([], w')
     else let ((rc, p), _) = NativeCryptor_Decrypt (be_crypto E) symAlg ciphertext key CCSEC_UNSPECIFIED in
     if rc \<noteq> CRC_OK then ([], w') else (p, w'))"

definition ParseCipherHeader :: "bytes \<Rightarrow> bao_state \<Rightarrow> KeyManagerRC \<times> CryptoSymAlg \<times> u32 \<times> u32" where
  "ParseCipherHeader h s =
    (if length h \<le> 6 then (KM_INVALID_PARAM, SYM_UNKNOWN, 0, 0)
     else if u8_of (h ! 0) \<noteq> 1 then (KM_INVALID_PARAM, SYM_UNKNOWN, 0, 0)
     else let symAlg = sym_of_byte (u8_of (h ! 1));
              d = push_bit 8 (ucast (u8_of (h ! 2))) OR ucast (u8_of (h ! 3));
              k = push_bit 8 (ucast (u8_of (h ! 4))) OR ucast (u8_of (h ! 5)) in
       (CheckEncryptAndDecryptParams d symAlg s, symAlg, d, k))"

definition Bas64DecodeCipherText :: "bytes \<Rightarrow> bytes" where
  "Bas64DecodeCipherText ciphertext =
    (if ciphertext = [] \<or> CIPHERTEXT_MAX_LENGTH \<le> length ciphertext then [] else Base64Decode ciphertext)"

definition Bao_Decrypt ::
  "'w bao_env \<Rightarrow> CryptoSymAlg \<Rightarrow> u32 \<Rightarrow> bytes \<Rightarrow> bao_state \<Rightarrow> 'w \<Rightarrow> (KeyManagerRC \<times> bytes) \<times> 'w" where
  "Bao_Decrypt E symAlg d ciphertext s w =
    (let err = CheckEncryptAndDecryptParams d symAlg s in
     if err \<noteq> KM_OK then ((err, []), w)
     else let native = Bas64DecodeCipherText ciphertext in
     if native = [] then ((KM_INVALID_PARAM, []), w)
     else let (ret, headerSymAlg, headerDomainId, headerKeyId) = ParseCipherHeader native s in
     if ret \<noteq> KM_OK then ((ret, []), w)
     else if headerSymAlg \<noteq> symAlg then ((KM_INVALID_PARAM, []), w)
     else if headerDomainId \<noteq> d then ((KM_INVALID_PARAM, []), w)
     else if map_of (inner s d) headerKeyId = None then ((KM_ERROR, []), w)
     else let (p, w') = VaultDecrypt E headerSymAlg headerDomainId headerKeyId (drop 6 native) s w in
     if p = [] then ((KM_ERROR, []), w') else ((KM_OK, p), w'))"

end
