(* ===== verification/CdfBaoProof.thy ===== *)
theory CdfBaoProof
  imports CdfOpenbao
begin


section \<open>Properties of the OpenBao key manager\<close>

text \<open>
  What the operations of \<open>CdfOpenbao\<close> do to the abstract map from domain and key id to creation time,
  the invariant of the manager as a state machine, the ciphertext format, and the round trip of
  encryption through a key held by the server; then a concrete server on which the properties are
  evaluated.
\<close>

subsection \<open>Lookup\<close>

text \<open>The abstract view of the state: the creation time of each key of each domain.\<close>

definition key_time :: "bao_state \<Rightarrow> u32 \<Rightarrow> u32 \<Rightarrow> int option" where
  "key_time s d = map_of (inner s d)"

definition bao_wf :: "bao_state \<Rightarrow> bool" where
  "bao_wf s \<longleftrightarrow> om_wf (domainKeyMap s) \<and> (\<forall>(d, m) \<in> set (domainKeyMap s). om_wf m)"

lemma bao_wf_inner: "bao_wf s \<Longrightarrow> om_wf (inner s d)"
  by (auto simp: bao_wf_def inner_def dest: map_of_SomeD split: option.splits)

lemma set_om_put: "set (om_put k v m) \<subseteq> insert (k, v) (set m)"
  by (induction k v m rule: om_put.induct) auto

lemma bao_wf_put: "bao_wf s \<Longrightarrow> om_wf m \<Longrightarrow> bao_wf (s\<lparr>domainKeyMap := om_put d m (domainKeyMap s)\<rparr>)"
  using set_om_put[of d m "domainKeyMap s"] by (fastforce simp: bao_wf_def om_wf_put)

lemma bao_wf_insert: "bao_wf s \<Longrightarrow> bao_wf (s\<lparr>domainKeyMap := om_insert d [] (domainKeyMap s)\<rparr>)"
  by (cases "map_of (domainKeyMap s) d") (simp_all add: om_insert_def bao_wf_put)

lemma inner_put: "bao_wf s \<Longrightarrow> inner (s\<lparr>domainKeyMap := om_put d m (domainKeyMap s)\<rparr>) d' =
    (if d' = d then m else inner s d')"
  by (simp add: inner_def om.get_put bao_wf_def)

lemma inner_insert: "bao_wf s \<Longrightarrow> inner (s\<lparr>domainKeyMap := om_insert d [] (domainKeyMap s)\<rparr>) = inner s"
  by (auto simp: inner_def fun_eq_iff map_of_om_insert bao_wf_def)

lemma bao_wf_add: "bao_wf s \<Longrightarrow> bao_wf (add_key d k t s)"
  by (simp add: add_key_def bao_wf_put bao_wf_inner om_wf_insert)

lemma inner_add: "bao_wf s \<Longrightarrow> inner (add_key d k t s) d' =
    (if d' = d then om_insert k t (inner s d) else inner s d')"
  by (simp add: add_key_def inner_put)

lemma key_time_add:
  "bao_wf s \<Longrightarrow> key_time s d k = None \<Longrightarrow>
   key_time (add_key d k t s) = (key_time s)(d := (key_time s d)(k \<mapsto> t))"
  by (auto simp: key_time_def inner_add map_of_om_insert bao_wf_inner fun_eq_iff)

lemma bao_wf_set_time: "bao_wf s \<Longrightarrow> bao_wf (set_time d k t s)"
  by (simp add: set_time_def bao_wf_put bao_wf_inner om_wf_put)

lemma key_time_set_time:
  "bao_wf s \<Longrightarrow> key_time (set_time d k t s) = (key_time s)(d := (key_time s d)(k \<mapsto> t))"
  by (auto simp: key_time_def set_time_def inner_put om.get_put bao_wf_inner fun_eq_iff)

lemma set_om_erase: "set (om_erase k m) \<subseteq> set m"
  by (auto simp: om_erase_def)

lemma bao_wf_drop: "bao_wf s \<Longrightarrow> bao_wf (drop_key d k s)"
proof (cases "om_erase k (inner s d) = []")
  case True
  assume "bao_wf s"
  then show ?thesis
    using True om_wf_erase[of "domainKeyMap s" d] set_om_erase[of d "domainKeyMap s"]
    by (auto simp: drop_key_def bao_wf_def)
next
  case False
  assume "bao_wf s"
  then show ?thesis
    using False by (simp add: drop_key_def bao_wf_put om_wf_erase bao_wf_inner)
qed

lemma key_time_drop:
  assumes "bao_wf s"
  shows "key_time (drop_key d k s) = (key_time s)(d := (key_time s d)(k := None))"
proof (cases "om_erase k (inner s d) = []")
  case True
  then have "(map_of (inner s d))(k := None) = Map.empty"
    using map_of_om_erase[of k "inner s d"] by simp
  then show ?thesis
    using True by (auto simp: key_time_def drop_key_def inner_def map_of_om_erase fun_eq_iff)
next
  case False
  then show ?thesis
    using assms by (auto simp: key_time_def drop_key_def inner_put map_of_om_erase fun_eq_iff)
qed

subsection \<open>Effect of the operations on the state\<close>

lemma bao_fields [simp]:
  "inited (add_key d k t s) = inited s" "domainCount (add_key d k t s) = domainCount s"
  "accessToken (add_key d k t s) = accessToken s" "exePath (add_key d k t s) = exePath s"
  "inited (drop_key d k s) = inited s" "domainCount (drop_key d k s) = domainCount s"
  "accessToken (drop_key d k s) = accessToken s" "exePath (drop_key d k s) = exePath s"
  "inited (set_time d k t s) = inited s" "domainCount (set_time d k t s) = domainCount s"
  "accessToken (set_time d k t s) = accessToken s" "exePath (set_time d k t s) = exePath s"
  by (simp_all add: add_key_def drop_key_def set_time_def Let_def)

lemma GenerateKeyId_state:
  assumes "GenerateKeyId d s = (r, s1)"
  shows "s1 = s\<lparr>domainKeyMap := om_insert d [] (domainKeyMap s)\<rparr>"
  using assms by (auto simp: GenerateKeyId_def Let_def split: if_splits)

lemma CreateKey_cases:
  assumes "CreateKey E d s w = (r, s', w')"
  obtains (Same) "s' = s" "\<nexists>k. r = Ret (KM_OK, k)"
  | (Entry) "s' = s\<lparr>domainKeyMap := om_insert d [] (domainKeyMap s)\<rparr>" "\<nexists>k. r = Ret (KM_OK, k)"
  | (Created) k t s1 where "ValidateDomain s d = KM_OK" "GenerateKeyId d s = ((KM_OK, k), s1)"
      "s' = add_key d k t s1" "r = Ret (KM_OK, k)"
proof -
  obtain rc k s1 where g: "GenerateKeyId d s = ((rc, k), s1)"
    by (metis prod.exhaust_sel)
  note st = GenerateKeyId_state[OF g]
  show thesis
    using assms that g st unfolding CreateKey_def
    by (auto simp: Let_def split: if_splits prod.splits)
qed

text \<open>A created key is new, its id is above every id of the domain and fits in 16 bits.\<close>

lemma GenerateKeyId_fresh:
  assumes wf: "bao_wf s" and g: "GenerateKeyId d s = ((KM_OK, k), s1)"
  shows "k \<le> 65535" "key_time s d k0 = Some t \<Longrightarrow> k0 < k" "length (inner s d) < 1023"
proof -
  have m: "inner (s\<lparr>domainKeyMap := om_insert d [] (domainKeyMap s)\<rparr>) d = inner s d"
    by (simp add: inner_insert[OF wf])
  have c: "length (inner s d) < 1023 \<and> (inner s d = [] \<and> k = 0 \<or>
      inner s d \<noteq> [] \<and> om_last (inner s d) < 65535 \<and> k = om_last (inner s d) + 1)"
    using g unfolding GenerateKeyId_def Let_def m
    by (auto simp: MAX_KEY_COUNT_def KEYID_MAX_def not_le split: if_splits)
  then show "length (inner s d) < 1023"
    by blast
  have inc: "x < x + 1 \<and> x + 1 \<le> 65535" if "x < 65535" for x :: u32
  proof -
    have "unat (x + 1) = unat x + 1"
      using that by (simp add: unat_word_ariths word_less_nat_alt)
    then show ?thesis
      using that by (simp add: word_less_nat_alt word_le_nat_alt)
  qed
  show "k \<le> 65535"
    using c inc[of "om_last (inner s d)"] by auto
  show "k0 < k" if "key_time s d k0 = Some t"
  proof -
    have "k0 \<le> om_last (inner s d)" "inner s d \<noteq> []"
      using that om_last_max[OF bao_wf_inner[OF wf]] by (auto simp: key_time_def)
    then show ?thesis
      using c inc[of "om_last (inner s d)"] by auto
  qed
qed


lemma key_time_insert [simp]: "bao_wf s \<Longrightarrow> key_time (s\<lparr>domainKeyMap := om_insert d [] (domainKeyMap s)\<rparr>) = key_time s"
  by (simp add: key_time_def inner_insert fun_eq_iff)

lemma CreateKey_core:
  assumes wf: "bao_wf s" and c: "CreateKey E d s w = (r, s', w')"
  shows "bao_wf s' \<and> inited s' = inited s \<and> domainCount s' = domainCount s \<and> accessToken s' = accessToken s \<and>
    exePath s' = exePath s \<and>
    (case r of
       Ret (KM_OK, k) \<Rightarrow> inited s \<and> d < domainCount s \<and> k \<le> 65535 \<and> length (inner s d) < 1023 \<and>
         (\<forall>k0 t. key_time s d k0 = Some t \<longrightarrow> k0 < k) \<and>
         (\<exists>t. key_time s' = (key_time s)(d := (key_time s d)(k \<mapsto> t)))
     | _ \<Rightarrow> key_time s' = key_time s)"
  using c
proof (cases rule: CreateKey_cases)
  case (Created k' t s1)
  have s1: "s1 = s\<lparr>domainKeyMap := om_insert d [] (domainKeyMap s)\<rparr>"
    using Created(2) by (rule GenerateKeyId_state)
  have wf1: "bao_wf s1" and kt: "key_time s1 = key_time s"
    unfolding s1 using wf by (simp_all add: bao_wf_insert)
  note F = GenerateKeyId_fresh[OF wf Created(2)]
  have "key_time s d k' = None"
    using F(2)[of k'] by (cases "key_time s d k'") auto
  then have "key_time s' = (key_time s)(d := (key_time s d)(k' \<mapsto> t))"
    unfolding Created(3) using key_time_add[OF wf1, of d k' t] by (simp add: kt)
  moreover have "inited s" "d < domainCount s"
    using Created(1) by (auto simp: ValidateDomain_def not_le split: if_splits)
  ultimately show ?thesis
    using Created(3,4) F wf1 by (auto simp: s1 bao_wf_add)
qed (use wf in \<open>auto simp: bao_wf_insert split: outcome.split KeyManagerRC.split\<close>)

lemma RemoveKey_core:
  assumes wf: "bao_wf s" and c: "RemoveKey E d k s w = (rc, s', w')"
  shows "if rc = KM_OK then inited s \<and> d < domainCount s \<and> key_time s d k \<noteq> None \<and> s' = drop_key d k s
     else s' = s"
  using c by (auto simp: RemoveKey_def key_time_def inner_def not_le Let_def split: if_splits option.splits prod.splits)

lemma prepare_loop_frame:
  "prepare_loop E ps s w = (rc, s', w') \<Longrightarrow> bao_wf s \<Longrightarrow> bao_wf s' \<and> inited s' = inited s \<and>
   domainCount s' = domainCount s \<and> accessToken s' = accessToken s \<and> exePath s' = exePath s"
proof (induction E ps s w rule: prepare_loop.induct)
  case (2 E d k ps s w)
  obtain rc0 result w0 where r: "bao_run E s (read_cmd s d k) w = ((rc0, result), w0)"
    by (metis prod.exhaust_sel)
  show ?case
    using 2(2) r 2(1)[OF r[symmetric] refl] 2(3) bao_wf_add[of s d k]
    by (auto simp: Let_def bao_wf_def split: if_splits)
qed auto

lemma PrepareMap_frame:
  assumes "PrepareMap E s w = (r, s', w')" "bao_wf s"
  shows "bao_wf s' \<and> inited s' = inited s \<and> domainCount s' = domainCount s \<and> accessToken s' = accessToken s \<and>
    exePath s' = exePath s"
  using assms by (auto simp: PrepareMap_def Let_def dest: prepare_loop_frame split: if_splits prod.splits outcome.splits)

lemma Init_frame:
  assumes i: "Bao_Init E path token count s w = (r, s', w')" and wf: "bao_wf s" and n: "\<not> inited s"
  shows "bao_wf s' \<and> (if r = Ret KM_OK then inited s' \<and> 2 \<le> domainCount s' \<and> domainCount s' \<le> 1023 \<and>
      accessToken s' = token \<and> token \<noteq> [] else \<not> inited s' \<and> domainCount s' = domainCount s)"
proof (cases "CanonicalPath (be_realpath E) path")
  case (Some p)
  define s1 where "s1 = s\<lparr>exePath := p, accessToken := token\<rparr>"
  have wf1: "bao_wf s1" "\<not> inited s1" "domainCount s1 = domainCount s" "accessToken s1 = token"
    using wf n by (simp_all add: bao_wf_def s1_def)
  obtain rc s2 w2 where pm: "PrepareMap E s1 w = (rc, s2, w2)"
    by (metis prod.exhaust_sel)
  note F = PrepareMap_frame[OF pm wf1(1)]
  have u: "bao_wf (s2\<lparr>inited := True, domainCount := count\<rparr>)"
    using F by (simp add: bao_wf_def)
  show ?thesis
    using i n wf F wf1 u Some pm[unfolded s1_def]
    by (auto simp: Bao_Init_def Let_def DOMAINID_MIN_def DOMAINID_MAX_def not_less bao_wf_def
      split: if_splits outcome.splits)
qed (use i wf n in \<open>auto simp: Bao_Init_def\<close>)


lemma GetLatestKey_frame:
  assumes "GetLatestKey E d k0 s w = ((key, k), s', w')" and wf: "bao_wf s"
  shows "bao_wf s' \<and> inited s' = inited s \<and> domainCount s' = domainCount s \<and> accessToken s' = accessToken s \<and>
    exePath s' = exePath s \<and> key_time s' = key_time s"
  using assms bao_wf_insert[OF wf, of d] by (auto simp: GetLatestKey_def Let_def split: if_splits prod.splits)

lemma Encrypt_frame:
  assumes e: "Bao_Encrypt E alg d p s w = (r, s', w')" and wf: "bao_wf s"
  shows "bao_wf s' \<and> inited s' = inited s \<and> domainCount s' = domainCount s \<and> accessToken s' = accessToken s \<and>
    exePath s' = exePath s \<and> key_time s' = key_time s"
proof -
  obtain key k s1 w1 where g: "GetLatestKey E d 0 s w = ((key, k), s1, w1)"
    by (metis prod.exhaust_sel)
  show ?thesis
    using e GetLatestKey_frame[OF g wf] wf g
    by (auto simp: Bao_Encrypt_def Let_def split: if_splits prod.splits)
qed

text \<open>The time until which keys have to be valid, in the 32-bit arithmetic of the code.\<close>

definition deadline :: "'w bao_env \<Rightarrow> 'w \<Rightarrow> u32 \<Rightarrow> int" where
  "deadline E w lead = uint (word_of_int (be_time E w) + lead * DAY_TO_TIME :: u32)"

lemma bao_run_cong: "exePath s' = exePath s \<Longrightarrow> accessToken s' = accessToken s \<Longrightarrow>
    bao_run E s' (read_cmd s' d k) w = bao_run E s (read_cmd s d k) w"
  by (simp add: bao_run_def read_cmd_def)

lemma update_loop_state:
  assumes "update_loop E now d lead m s w = (rc, s', w')" "bao_wf s"
    "\<forall>(k, t) \<in> set m. key_time s d k \<noteq> None"
  shows "bao_wf s' \<and> inited s' = inited s \<and> domainCount s' = domainCount s \<and> accessToken s' = accessToken s \<and>
    exePath s' = exePath s \<and> (\<forall>d'. d' \<noteq> d \<longrightarrow> key_time s' d' = key_time s d') \<and>
    dom (key_time s' d) = dom (key_time s d)"
  using assms
proof (induction m arbitrary: s w)
  case (Cons x m)
  obtain k t where x: "x = (k, t)" by fastforce
  obtain rc1 w1 where h: "HandleCommand E d k s w = (rc1, w1)"
    by (metis prod.exhaust_sel)
  obtain rc2 result w2 where r: "bao_run E s (read_cmd s d k) w1 = ((rc2, result), w2)"
    by (metis prod.exhaust_sel)
  let ?t = "GetJsonFieldMaxInt E result"
  have ks: "key_time (set_time d k ?t s) = (key_time s)(d := (key_time s d)(k \<mapsto> ?t))"
    using Cons(3) by (rule key_time_set_time)
  have pres: "\<forall>(k', t) \<in> set m. key_time (set_time d k ?t s) d k' \<noteq> None" "\<forall>(k', t) \<in> set m. key_time s d k' \<noteq> None"
    "dom ((key_time s d)(k \<mapsto> ?t)) = dom (key_time s d)"
    using Cons(4) by (auto simp: ks x)
  show ?case
    using Cons(1)[of "set_time d k ?t s" w2] Cons(1)[of s w] Cons(2,3) pres h r bao_wf_set_time[OF Cons(3), of d k ?t]
    by (auto simp: Let_def ks x split: if_splits)
qed simp

lemma update_loop_times:
  assumes "update_loop E now d lead m s w = (KM_OK, s', w')" "bao_wf s" "distinct (map fst m)"
    "\<forall>(k, t) \<in> set m. key_time s d k = Some t" "inv_dl = uint (word_of_int now + lead * DAY_TO_TIME :: u32)"
    and fresh: "\<And>k w result w'. bao_run E s (read_cmd s d k) w = ((KM_OK, result), w') \<Longrightarrow>
      inv_dl < GetJsonFieldMaxInt E result + uint VALID_TIME"
  shows "(\<forall>(k, t) \<in> set m. if inv_dl < t + uint VALID_TIME then key_time s' d k = Some t
      else \<exists>t'. key_time s' d k = Some t' \<and> inv_dl < t' + uint VALID_TIME) \<and>
    (\<forall>k. k \<notin> fst ` set m \<longrightarrow> key_time s' d k = key_time s d k)"
  using assms
proof (induction m arbitrary: s w)
  case (Cons x m)
  obtain k t where x: "x = (k, t)" by fastforce
  have km: "k \<notin> fst ` set m" "distinct (map fst m)"
    using Cons(4) by (auto simp: x)
  show ?case
  proof (cases "t + uint VALID_TIME \<le> inv_dl")
    case False
    then have "update_loop E now d lead m s w = (KM_OK, s', w')"
      using Cons(2,6) by (auto simp: x split: if_splits)
    then have "(\<forall>(k, t) \<in> set m. if inv_dl < t + uint VALID_TIME then key_time s' d k = Some t
      else \<exists>t'. key_time s' d k = Some t' \<and> inv_dl < t' + uint VALID_TIME) \<and>
    (\<forall>k. k \<notin> fst ` set m \<longrightarrow> key_time s' d k = key_time s d k)"
      by (rule Cons(1)) (use Cons(3-7) km in auto)
    then show ?thesis
      using False km Cons(5) by (auto simp: x not_le)
  next
    case True
    obtain rc1 w1 where h: "HandleCommand E d k s w = (rc1, w1)"
      by (metis prod.exhaust_sel)
    obtain rc2 result w2 where r: "bao_run E s (read_cmd s d k) w1 = ((rc2, result), w2)"
      by (metis prod.exhaust_sel)
    let ?t = "GetJsonFieldMaxInt E result"
    have u: "rc2 = KM_OK" "update_loop E now d lead m (set_time d k ?t s) w2 = (KM_OK, s', w')"
      using Cons(2,6) True h r by (auto simp: x Let_def split: if_splits)
    have ks: "key_time (set_time d k ?t s) = (key_time s)(d := (key_time s d)(k \<mapsto> ?t))"
      using Cons(3) by (rule key_time_set_time)
    have "(\<forall>(k, t) \<in> set m. if inv_dl < t + uint VALID_TIME then key_time s' d k = Some t
      else \<exists>t'. key_time s' d k = Some t' \<and> inv_dl < t' + uint VALID_TIME) \<and>
      (\<forall>k'. k' \<notin> fst ` set m \<longrightarrow> key_time s' d k' = key_time (set_time d k ?t s) d k')"
    proof (rule Cons(1)[OF u(2)])
      show "inv_dl < GetJsonFieldMaxInt E result' + uint VALID_TIME"
        if "bao_run E (set_time d k ?t s) (read_cmd (set_time d k ?t s) d k') v = ((KM_OK, result'), v')" for k' v result' v'
        using that Cons(7)[of k' v result' v'] bao_run_cong[of "set_time d k ?t s" s E d k' v] by simp
      show "\<forall>(k', t) \<in> set m. key_time (set_time d k ?t s) d k' = Some t"
        using Cons(5) km by (force simp: ks x)
    qed (use Cons(3,6) km in \<open>simp_all add: bao_wf_set_time\<close>)
    then show ?thesis
      using True km Cons(7)[of k w1 result w2] r u(1) by (auto simp: x ks not_le)
  qed
qed simp


subsection \<open>The ciphertext header\<close>

lemma sym_of_byte_sym_byte: "sym_of_byte (sym_byte a) = a"
  by (cases a) (simp_all add: sym_of_byte_def)

definition read_header :: "bytes \<Rightarrow> CryptoSymAlg \<times> u32 \<times> u32" where
  "read_header h = (sym_of_byte (u8_of (h ! 1)),
     push_bit 8 (ucast (u8_of (h ! 2))) OR ucast (u8_of (h ! 3)),
     push_bit 8 (ucast (u8_of (h ! 4))) OR ucast (u8_of (h ! 5)))"

lemma length_header [simp]: "length (ConstructCipherHeader a d k) = 6"
  by (simp add: ConstructCipherHeader_def)

lemma read_header_construct:
  "d < 2 ^ 16 \<Longrightarrow> k < 2 ^ 16 \<Longrightarrow> read_header (ConstructCipherHeader a d k @ r) = (a, d, k)"
  using low_bytes_u16[of d] low_bytes_u16[of k]
  by (simp add: read_header_def ConstructCipherHeader_def sym_of_byte_sym_byte)

interpretation cipher_header: codec "\<lambda>(a, d, k). ConstructCipherHeader a d k" "\<lambda>h. Some (read_header h)"
  "\<lambda>(a, d, k). d < 2 ^ 16 \<and> k < 2 ^ 16"
  using read_header_construct[where r = "[]"] by unfold_locales auto

lemma ParseCipherHeader_read:
  "ParseCipherHeader h s =
    (if length h \<le> 6 \<or> u8_of (h ! 0) \<noteq> 1 then (KM_INVALID_PARAM, SYM_UNKNOWN, 0, 0)
     else (CheckEncryptAndDecryptParams (fst (snd (read_header h))) (fst (read_header h)) s, read_header h))"
  by (simp add: ParseCipherHeader_def read_header_def Let_def)

lemma CheckEncryptAndDecryptParams_OK:
  "CheckEncryptAndDecryptParams d a s = KM_OK \<longleftrightarrow> inited s \<and> d < domainCount s \<and>
     map_of (domainKeyMap s) d \<noteq> None \<and> (a = AES256_GCM \<or> a = CHACHA20_POLY1305)"
  by (auto simp: CheckEncryptAndDecryptParams_def not_le)

text \<open>What a successful encryption is made of.\<close>

lemma Bao_Encrypt_OK:
  assumes e: "Bao_Encrypt E a d p s w = (Ret (KM_OK, c), s', w')" and wf: "bao_wf s"
  shows "inited s \<and> d < domainCount s \<and> (a = AES256_GCM \<or> a = CHACHA20_POLY1305) \<and>
    map_of (domainKeyMap s) d \<noteq> None \<and> s' = s \<and> inner s d \<noteq> [] \<and>
    p \<noteq> [] \<and> length p < PLAINTEXT_MAX_LENGTH \<and>
    (\<exists>key n x. export_key E s d (om_last (inner s d)) w = (key, w') \<and> key \<noteq> [] \<and>
       NativeCryptor_Encrypt (be_crypto E) a p key CCSEC_UNSPECIFIED = ((CRC_OK, n), x) \<and>
       c = Base64Encode (Some (ConstructCipherHeader a d (om_last (inner s d)) @ n)))"
proof -
  have chk: "CheckEncryptAndDecryptParams d a s = KM_OK"
    using e by (auto simp: Bao_Encrypt_def Let_def split: if_splits)
  note C = chk[unfolded CheckEncryptAndDecryptParams_OK]
  obtain m where m: "map_of (domainKeyMap s) d = Some m"
    using C by blast
  have ins: "s\<lparr>domainKeyMap := om_insert d [] (domainKeyMap s)\<rparr> = s"
    using m by (simp add: om_insert_def)
  obtain key w1 where x: "export_key E s d (om_last (inner s d)) w = (key, w1)"
    by (metis prod.exhaust_sel)
  have ne: "domainKeyMap s \<noteq> []" "ValidateDomain s d = KM_OK"
    using C by (auto simp: ValidateDomain_def)
  have g: "GetLatestKey E d 0 s w =
     (if inner s d = [] then (([], 0), s, w) else ((key, om_last (inner s d)), s, w1))"
    unfolding GetLatestKey_def ins by (simp add: ne x Let_def)
  obtain rc n x' where ec: "NativeCryptor_Encrypt (be_crypto E) a p key CCSEC_UNSPECIFIED = ((rc, n), x')"
    by (metis prod.exhaust_sel)
  show ?thesis
    using e C chk g x ec by (auto simp: Bao_Encrypt_def Let_def split: if_splits)
qed

lemma Bao_Decrypt_OK:
  "Bao_Decrypt E a d c s w = ((KM_OK, p), w') \<longleftrightarrow>
    CheckEncryptAndDecryptParams d a s = KM_OK \<and> c \<noteq> [] \<and> length c < CIPHERTEXT_MAX_LENGTH \<and>
    6 < length (Base64Decode c) \<and> u8_of (Base64Decode c ! 0) = 1 \<and>
    (\<exists>k. read_header (Base64Decode c) = (a, d, k) \<and> key_time s d k \<noteq> None \<and>
       VaultDecrypt E a d k (drop 6 (Base64Decode c)) s w = (p, w')) \<and> p \<noteq> []"
proof -
  obtain a' d' k' where h: "read_header (Base64Decode c) = (a', d', k')"
    by (metis prod.exhaust_sel)
  obtain p' w1 where v: "VaultDecrypt E a d k' (drop 6 (Base64Decode c)) s w = (p', w1)"
    by (metis prod.exhaust_sel)
  show ?thesis
    using h v by (auto simp: Bao_Decrypt_def Bas64DecodeCipherText_def ParseCipherHeader_read key_time_def Let_def
      split: if_splits prod.splits)
qed


lemma Bao_cipher_size:
  assumes "length n = 44 + length p" "length p < PLAINTEXT_MAX_LENGTH"
  shows "length (Base64Encode (Some (ConstructCipherHeader a d k @ n))) < CIPHERTEXT_MAX_LENGTH"
  using assms by (simp add: base64_length PLAINTEXT_MAX_LENGTH_def CIPHERTEXT_MAX_LENGTH_def)

lemma Bao_roundtrip_core:
  assumes law: "crypto_law (be_crypto E)" and wf: "bao_wf s" and cnt: "domainCount s \<le> 1023"
    and k: "om_last (inner s d) \<le> 65535"
    and enc: "Bao_Encrypt E a d p s w = (Ret (KM_OK, c), s', w')"
    and chk: "CheckEncryptAndDecryptParams d a t = KM_OK"
    and key: "key_time t d (om_last (inner s d)) \<noteq> None"
    and stable: "fst (export_key E t d (om_last (inner s d)) v) = fst (export_key E s d (om_last (inner s d)) w)"
  shows "fst (Bao_Decrypt E a d c t v) = (KM_OK, p)"
proof -
  let ?k = "om_last (inner s d)"
  obtain ky n x where o: "d < domainCount s" "p \<noteq> []" "length p < PLAINTEXT_MAX_LENGTH"
    "export_key E s d ?k w = (ky, w')" "ky \<noteq> []"
    "NativeCryptor_Encrypt (be_crypto E) a p ky CCSEC_UNSPECIFIED = ((CRC_OK, n), x)"
    "c = Base64Encode (Some (ConstructCipherHeader a d ?k @ n))"
    using Bao_Encrypt_OK[OF enc wf] by blast
  have b: "d < 2 ^ 16" "?k < 2 ^ 16"
    using o(1) cnt k by (simp_all add: word_less_nat_alt word_le_nat_alt)
  have D: "Base64Decode c = ConstructCipherHeader a d ?k @ n"
    unfolding o(7) by (simp add: b64.dec_enc[simplified])
  obtain iv aad body tg where ln: "length n = 44 + length p"
    using NativeCryptor_Encrypt_layout[OF law o(6)] by blast
  obtain w2 where x2: "export_key E t d ?k v = (ky, w2)"
    using stable o(4) by (metis fst_conv prod.exhaust_sel)
  have vd: "VaultDecrypt E a d ?k n t v = (p, w2)"
    using x2 o(5) NativeCryptor_core[OF law o(6), of CCSEC_UNSPECIFIED] by (simp add: VaultDecrypt_def)
  have c0: "c \<noteq> []" "length c < CIPHERTEXT_MAX_LENGTH"
    using Bao_cipher_size[OF ln o(3)] D ln unfolding o(7) by (auto simp: base64_length simp flip: length_0_conv)
  have "Bao_Decrypt E a d c t v = ((KM_OK, p), w2)"
    unfolding Bao_Decrypt_OK D
    using chk c0 ln read_header_construct[OF b, of a n] key vd o(2)
    by (simp add: ConstructCipherHeader_def)
  then show ?thesis by simp
qed

text \<open>C3: What the manager encrypted it can decrypt, also in a later state in which the domain has newer
  keys, as long as the key itself is still there and the server exports the same value for it.\<close>

theorem Bao_roundtrip:
  assumes law: "crypto_law (be_crypto E)" and wf: "bao_wf s" and cnt: "domainCount s \<le> 1023"
    and k: "om_last (inner s d) \<le> 65535"
    and enc: "Bao_Encrypt E a d p s w = (Ret (KM_OK, c), s', w')"
    and chk: "CheckEncryptAndDecryptParams d a t = KM_OK"
    and key: "key_time t d (om_last (inner s d)) \<noteq> None"
    and stable: "fst (export_key E t d (om_last (inner s d)) v) = fst (export_key E s d (om_last (inner s d)) w)"
  shows "fst (Bao_Decrypt E a d c t v) = (KM_OK, p)"
  using assms by (rule Bao_roundtrip_core)

text \<open>C20: A ciphertext is bound to its domain and algorithm and to a key the manager still has: decrypting
  it succeeds only under the parameters it was made with.\<close>

theorem Bao_Decrypt_bound:
  assumes wf: "bao_wf s" and cnt: "domainCount s \<le> 1023" and k: "om_last (inner s d) \<le> 65535"
    and enc: "Bao_Encrypt E a d p s w = (Ret (KM_OK, c), s', w')"
    and dec: "fst (Bao_Decrypt E' a' d' c t v) = (KM_OK, q)"
  shows "a' = a \<and> d' = d \<and> key_time t d (om_last (inner s d)) \<noteq> None \<and> inited t \<and> d < domainCount t"
proof -
  let ?k = "om_last (inner s d)"
  obtain n where o: "d < domainCount s" "c = Base64Encode (Some (ConstructCipherHeader a d ?k @ n))"
    using Bao_Encrypt_OK[OF enc wf] by blast
  have b: "d < 2 ^ 16" "?k < 2 ^ 16"
    using o(1) cnt k by (simp_all add: word_less_nat_alt word_le_nat_alt)
  have D: "Base64Decode c = ConstructCipherHeader a d ?k @ n"
    unfolding o(2) by (simp add: b64.dec_enc[simplified])
  obtain v' where "Bao_Decrypt E' a' d' c t v = ((KM_OK, q), v')"
    using dec by (metis prod.exhaust_sel)
  note O = this[unfolded Bao_Decrypt_OK D read_header_construct[OF b]]
  then show ?thesis
    unfolding CheckEncryptAndDecryptParams_OK by auto
qed

text \<open>When the newest key of the domain cannot be exported, \<open>Encrypt\<close> does not create a new key as
  its comment says: it never returns, because it asks for the lock it already holds.\<close>

lemma Bao_Encrypt_deadlock:
  assumes chk: "CheckEncryptAndDecryptParams d a s = KM_OK" and p: "p \<noteq> []" "length p < PLAINTEXT_MAX_LENGTH"
    and no: "inner s d = [] \<or> fst (export_key E s d (om_last (inner s d)) w) = []"
  shows "fst (Bao_Encrypt E a d p s w) = Deadlock"
proof -
  note C = chk[unfolded CheckEncryptAndDecryptParams_OK]
  have ins: "s\<lparr>domainKeyMap := om_insert d [] (domainKeyMap s)\<rparr> = s"
    using C by (auto simp: om_insert_def)
  have ne: "domainKeyMap s \<noteq> []" "ValidateDomain s d = KM_OK"
    using C by (auto simp: ValidateDomain_def)
  obtain w1 k where g: "GetLatestKey E d 0 s w = (([], k), s, w1)"
  proof (cases "inner s d = []")
    case True
    then show ?thesis
      using that unfolding GetLatestKey_def ins by (simp add: ne)
  next
    case False
    then obtain w1 where "export_key E s d (om_last (inner s d)) w = ([], w1)"
      using no by (metis fst_conv prod.exhaust_sel)
    then show ?thesis
      using that False unfolding GetLatestKey_def ins by (simp add: ne Let_def)
  qed
  then show ?thesis
    using chk p by (simp add: Bao_Encrypt_def Let_def)
qed

text \<open>The expiry check answers \<open>OK\<close> exactly when the domain has a key that is still valid \<open>lead\<close>
  days from now, five years being the life of a key.\<close>

lemma CheckDomainKeysExpired_iff:
  assumes now: "0 \<le> be_time E w" "be_time E w + uint lead * 86400 < 2 ^ 32"
  shows "CheckDomainKeysExpired E d lead s w = KM_OK \<longleftrightarrow>
    inited s \<and> d < domainCount s \<and> lead \<le> 1825 \<and>
    (\<exists>k t. (k, t) \<in> set (inner s d) \<and> be_time E w + uint lead * 86400 < t + 157680000)"
proof -
  have V: "uint VALID_TIME = 157680000"
    by (simp add: VALID_TIME_def VALID_TIME_IN_DAYS_def DAY_TO_TIME_def)
  have div: "UINT32_MAX div DAY_TO_TIME = 49710"
    by (simp add: UINT32_MAX_def DAY_TO_TIME_def)
  have l: "\<not> 49710 < lead \<and> \<not> (VALID_TIME_IN_DAYS < lead \<or> VALID_TIME < lead * DAY_TO_TIME) \<longleftrightarrow> lead \<le> 1825"
  proof (cases "lead \<le> 1825")
    case True
    then have "unat (lead * 86400) = unat lead * 86400"
      by (simp add: unat_word_ariths word_le_nat_alt)
    then show ?thesis
      using True by (simp add: VALID_TIME_IN_DAYS_def VALID_TIME_def DAY_TO_TIME_def word_le_nat_alt word_less_nat_alt)
  qed (auto simp: VALID_TIME_IN_DAYS_def)
  have T: "uint (word_of_int (be_time E w) + lead * DAY_TO_TIME :: u32) = be_time E w + uint lead * 86400"
  proof -
    have "uint (word_of_int (be_time E w) + lead * DAY_TO_TIME :: u32) =
        (be_time E w + uint lead * 86400) mod 2 ^ 32"
      by (simp add: uint_word_ariths uint_word_of_int DAY_TO_TIME_def mod_simps)
    then show ?thesis
      using now uint_ge_0[of lead] by simp
  qed
  show ?thesis
    using now l
    by (auto simp: CheckDomainKeysExpired_def Let_def V div T inner_def not_le split: option.splits)
qed


subsection \<open>The manager as a state machine\<close>

datatype bao_op =
    BInit bytes bytes u32 | BUnInit | BCreate u32 | BRemove u32 u32 | BDeleteAll
  | BUpdate u32 u32 | BEncrypt CryptoSymAlg u32 bytes | BDecrypt CryptoSymAlg u32 bytes

fun bao_step :: "'w bao_env \<Rightarrow> bao_op \<Rightarrow> bao_state \<times> 'w \<Rightarrow> bao_state \<times> 'w" where
  "bao_step E (BInit path token count) (s, w) = snd (Bao_Init E path token count s w)"
| "bao_step E BUnInit (s, w) = (snd (Bao_UnInit s), w)"
| "bao_step E (BCreate d) (s, w) = snd (CreateKey E d s w)"
| "bao_step E (BRemove d k) (s, w) = snd (RemoveKey E d k s w)"
| "bao_step E BDeleteAll (s, w) = snd (DeleteAllKey E s w)"
| "bao_step E (BUpdate d lead) (s, w) = snd (CheckDomainKeysExpiredAndAutoUpdate E d lead s w)"
| "bao_step E (BEncrypt a d p) (s, w) = snd (Bao_Encrypt E a d p s w)"
| "bao_step E (BDecrypt a d c) (s, w) = (s, snd (Bao_Decrypt E a d c s w))"

definition bao_inv :: "bao_state \<times> 'w \<Rightarrow> bool" where
  "bao_inv x \<longleftrightarrow> bao_wf (fst x) \<and> 2 \<le> domainCount (fst x) \<and> domainCount (fst x) \<le> 1023 \<and>
     (inited (fst x) \<longrightarrow> accessToken (fst x) \<noteq> [])"

lemma inner_key_time: "bao_wf s \<Longrightarrow> \<forall>(k, t) \<in> set (inner s d). key_time s d k = Some t"
  using om_distinct[OF bao_wf_inner, of s d] by (auto simp: key_time_def)

lemma AutoUpdate_frame:
  assumes "CheckDomainKeysExpiredAndAutoUpdate E d lead s w = (rc, s', w')" "bao_wf s"
  shows "bao_wf s' \<and> inited s' = inited s \<and> domainCount s' = domainCount s \<and> accessToken s' = accessToken s \<and>
    exePath s' = exePath s \<and> (\<forall>d'. d' \<noteq> d \<longrightarrow> key_time s' d' = key_time s d') \<and>
    dom (key_time s' d) = dom (key_time s d)"
proof -
  have "\<forall>(k, t) \<in> set (inner s d). key_time s d k \<noteq> None"
    using inner_key_time[OF assms(2), of d] by auto
  then show ?thesis
    using assms update_loop_state[of E "be_time E w" d lead "inner s d" s w rc s' w']
    by (auto simp: CheckDomainKeysExpiredAndAutoUpdate_def Let_def split: if_splits)
qed

lemma bao_step_inv: "bao_inv x \<Longrightarrow> bao_inv (bao_step E opn x)"
proof -
  assume i: "bao_inv x"
  obtain s w where x: "x = (s, w)" by fastforce
  note I = i[unfolded bao_inv_def x fst_conv]
  show ?thesis
  proof (cases opn)
    case (BInit path token count)
    obtain rc s' w' where e: "Bao_Init E path token count s w = (rc, s', w')"
      by (metis prod.exhaust_sel)
    show ?thesis
      using I BInit e Init_frame[OF e] by (cases "inited s") (auto simp: x bao_inv_def Bao_Init_def split: if_splits)
  next
    case (BCreate d)
    obtain rc s' w' where e: "CreateKey E d s w = (rc, s', w')"
      by (metis prod.exhaust_sel)
    show ?thesis
      using I BCreate CreateKey_core[OF _ e] by (simp add: x bao_inv_def e)
  next
    case (BRemove d k)
    obtain rc s' w' where e: "RemoveKey E d k s w = (rc, s', w')"
      by (metis prod.exhaust_sel)
    show ?thesis
      using I BRemove RemoveKey_core[OF _ e] bao_wf_drop[of s d k] by (simp add: x bao_inv_def e split: if_splits)
  next
    case BDeleteAll
    then show ?thesis
      using I by (auto simp: x bao_inv_def DeleteAllKey_def bao_wf_def split: prod.splits)
  next
    case (BUpdate d lead)
    obtain rc s' w' where e: "CheckDomainKeysExpiredAndAutoUpdate E d lead s w = (rc, s', w')"
      by (metis prod.exhaust_sel)
    show ?thesis
      using I BUpdate AutoUpdate_frame[OF e] by (simp add: x bao_inv_def e)
  next
    case (BEncrypt a d p)
    obtain rc s' w' where e: "Bao_Encrypt E a d p s w = (rc, s', w')"
      by (metis prod.exhaust_sel)
    show ?thesis
      using I BEncrypt Encrypt_frame[OF e] by (simp add: x bao_inv_def e)
  qed (use I in \<open>simp_all add: x bao_inv_def Bao_UnInit_def bao_wf_def DOMAINID_MIN_def\<close>)
qed

interpretation bao: machine "bao_step E" "(bao_init_state, w)" "\<lambda>_. True" bao_inv for E :: "'w bao_env" and w
  by unfold_locales (simp_all add: bao_step_inv, simp add: bao_inv_def bao_wf_def bao_init_state_def)

text \<open>C12: Whatever operations are run and whatever the server answers, the key map is ordered at both
  levels with one entry per domain and key, the domain count stays within its limits, and an
  initialised manager has an access token.\<close>

theorem bao_reachable_inv:
  "bao_wf (fst (fold (bao_step E) ops (bao_init_state, w))) \<and>
   2 \<le> domainCount (fst (fold (bao_step E) ops (bao_init_state, w))) \<and>
   domainCount (fst (fold (bao_step E) ops (bao_init_state, w))) \<le> 1023 \<and>
   (\<not> inited (fst (fold (bao_step E) ops (bao_init_state, w))) \<or>
     accessToken (fst (fold (bao_step E) ops (bao_init_state, w))) \<noteq> [])"
  using bao.inv_run[of ops E w] by (simp add: bao_inv_def)

text \<open>C33: A key that \<open>CreateKey\<close> reports is new: its id is larger than every id of its domain and fits
  the two bytes of the ciphertext header, the domain was not full, and exactly this key is added.
  Whenever no key is reported, the keys are unchanged.\<close>

theorem CreateKey_effect:
  assumes wf: "bao_wf s" and c: "CreateKey E d s w = (r, s', w')"
  shows "case r of
      Ret (KM_OK, k) \<Rightarrow> inited s \<and> d < domainCount s \<and> k \<le> 65535 \<and> length (inner s d) < 1023 \<and>
        (\<forall>k0 t. key_time s d k0 = Some t \<longrightarrow> k0 < k) \<and>
        (\<exists>t. key_time s' = (key_time s)(d := (key_time s d)(k \<mapsto> t)))
    | _ \<Rightarrow> key_time s' = key_time s"
  using CreateKey_core[OF wf c] by blast

text \<open>C34: \<open>RemoveKey\<close> removes exactly the key it was asked for, and only when the server deleted it; in
  every other case the state is unchanged.\<close>

theorem RemoveKey_effect:
  assumes wf: "bao_wf s" and c: "RemoveKey E d k s w = (rc, s', w')"
  shows "if rc = KM_OK
    then key_time s d k \<noteq> None \<and> key_time s' = (key_time s)(d := (key_time s d)(k := None)) \<and>
      fst (bao_check E s (delete_cmd s d k) w) = KM_OK
    else s' = s"
proof -
  have "fst (bao_check E s (delete_cmd s d k) w) = KM_OK" if "rc = KM_OK"
    using c that by (auto simp: RemoveKey_def Let_def split: if_splits option.splits prod.splits)
  then show ?thesis
    using RemoveKey_core[OF wf c] key_time_drop[OF wf, of d k] by (auto split: if_splits)
qed



subsection \<open>Loading the keys at the start\<close>

lemma prepare_loop_loads:
  assumes "bao_wf s"
    "\<And>d k v. (d, k) \<in> set ps \<Longrightarrow> \<exists>r v'. bao_run E s (read_cmd s d k) v = ((KM_OK, r), v') \<and> r \<noteq> [] \<and>
        GetJsonFieldMaxInt E r = ts d k \<and> ts d k \<noteq> -1"
    "\<And>d k t. key_time s d k = Some t \<Longrightarrow> t = ts d k"
  shows "\<exists>s' w'. prepare_loop E ps s w = (KM_OK, s', w') \<and> bao_wf s' \<and>
    key_time s' = (\<lambda>d k. if (d, k) \<in> set ps then Some (ts d k) else key_time s d k)"
  using assms
proof (induction ps arbitrary: s w)
  case (Cons x ps)
  obtain d k where x: "x = (d, k)" by fastforce
  obtain r w1 where r: "bao_run E s (read_cmd s d k) w = ((KM_OK, r), w1)" "r \<noteq> []"
    "GetJsonFieldMaxInt E r = ts d k" "ts d k \<noteq> -1"
    using Cons(3)[of d k w] by (auto simp: x)
  let ?s = "add_key d k (ts d k) s"
  have k1: "key_time ?s = (key_time s)(d := (key_time s d)(k \<mapsto> ts d k))"
  proof (cases "key_time s d k")
    case None
    then show ?thesis using Cons(2) by (simp add: key_time_add)
  next
    case (Some t)
    then have "inner ?s = inner s" "key_time s d k = Some (ts d k)"
      using Cons(2) Cons(4)[OF Some] by (auto simp: inner_add fun_eq_iff om_insert_def key_time_def)
    then show ?thesis
      by (auto simp: key_time_def fun_eq_iff)
  qed
  have "\<exists>s' w'. prepare_loop E ps ?s w1 = (KM_OK, s', w') \<and> bao_wf s' \<and>
    key_time s' = (\<lambda>d k. if (d, k) \<in> set ps then Some (ts d k) else key_time ?s d k)"
  proof (rule Cons(1))
    show "bao_wf ?s" using Cons(2) by (rule bao_wf_add)
    show "\<exists>r v'. bao_run E ?s (read_cmd ?s d' k') v = ((KM_OK, r), v') \<and> r \<noteq> [] \<and>
        GetJsonFieldMaxInt E r = ts d' k' \<and> ts d' k' \<noteq> -1" if "(d', k') \<in> set ps" for d' k' v
      using Cons(3)[of d' k' v] that bao_run_cong[of ?s s E d' k' v] by simp
    show "t = ts d' k'" if "key_time ?s d' k' = Some t" for d' k' t
      using that Cons(4) by (auto simp: k1 split: if_splits)
  qed
  then obtain s' w' where ih: "prepare_loop E ps ?s w1 = (KM_OK, s', w')" "bao_wf s'"
    "key_time s' = (\<lambda>d k. if (d, k) \<in> set ps then Some (ts d k) else key_time ?s d k)"
    by blast
  have "key_time s' = (\<lambda>d' k'. if (d', k') \<in> set (x # ps) then Some (ts d' k') else key_time s d' k')"
    unfolding ih(3) k1 x by (auto simp: fun_eq_iff)
  then show ?case
    using ih(1,2) r by (simp add: x Let_def)
qed auto

definition login_state :: "bytes \<Rightarrow> bytes \<Rightarrow> bao_state" where
  "login_state exe token = bao_init_state\<lparr>exePath := exe, accessToken := token\<rparr>"



section \<open>A concrete server for evaluating the model\<close>

text \<open>
  The server of the examples answers by the command's arguments: it lists the keys 0/5 and 1/0, gives
  every key the creation time 1000, or, when the world says so, the time 400000000 of recreated keys, and
  exports the same 32-byte key for all of them unless its world forbids it.
\<close>

datatype toy_world = Export | NoExport

definition toy_json :: "bytes \<Rightarrow> json option" where
  "toy_json out =
    (if out = ''L'' then Some (JArray [JString (key_name 0 5), JString (key_name 1 0)])
     else if out = ''R'' then Some (JObject [(''data'', JObject [(''keys'', JObject [(''1'', JInt 400000000)])])])
     else if out = ''X'' then Some (JObject [(''data'', JObject [(''keys'', JObject [(''1'', JString (replicate 42 CHR ''A'' @ ''E=''))])])])
     else None)"

definition toy_bao :: "toy_world bao_env" where
  "toy_bao = \<lparr>be_pipes = (\<lambda>_. True), be_login = (\<lambda>w _ _ _. (ProcEnd True [], w)),
     be_run = (\<lambda>w _ args. (ProcEnd True
        (if args ! 1 = ''list'' then ''L''
         else if args ! 1 \<noteq> ''read'' then ''ok''
         else if args ! 2 = ''-format=json'' then ''R''
         else if w = NoExport then ''none'' else ''X''), w)),
     be_json = toy_json, be_time = (\<lambda>_. 300000000), be_realpath = Some, be_access = (\<lambda>_. True),
     be_crypto = toy_crypto\<rparr>"

definition toy_state :: bao_state where
  "toy_state = \<lparr>inited = True, domainCount = 4, domainKeyMap = [(0, [(5, 1000)]), (1, [(0, 299999999)])],
     accessToken = ''tok'', exePath = ''/bao'', km_type = OPENBAO\<rparr>"

lemma toy_wf: "bao_wf toy_state"
  by (simp add: bao_wf_def toy_state_def om_wf_def)

lemma toy_list: "bao_run toy_bao (login_state ''/bao'' ''tok'') (list_cmd (login_state ''/bao'' ''tok'')) w = ((KM_OK, ''L''), w)"
  by code_simp

lemma toy_create: "CreateKey toy_bao 0 toy_state Export =
   (Ret (KM_OK, 6), toy_state\<lparr>domainKeyMap := [(0, [(5, 1000), (6, 400000000)]), (1, [(0, 299999999)])]\<rparr>, Export)"
  by code_simp

lemma CreateKey_effect_witness:
  "\<exists>t. key_time (toy_state\<lparr>domainKeyMap := [(0, [(5, 1000), (6, 400000000)]), (1, [(0, 299999999)])]\<rparr>) =
     (key_time toy_state)(0 := (key_time toy_state 0)(6 \<mapsto> t))"
  using CreateKey_effect[OF toy_wf toy_create] by simp

lemma toy_remove: "RemoveKey toy_bao 0 5 toy_state Export =
   (KM_OK, toy_state\<lparr>domainKeyMap := [(1, [(0, 299999999)])]\<rparr>, Export)"
  by code_simp

lemma RemoveKey_effect_witness:
  "key_time (toy_state\<lparr>domainKeyMap := [(1, [(0, 299999999)])]\<rparr>) =
     (key_time toy_state)(0 := (key_time toy_state 0)(5 := None))"
  using RemoveKey_effect[OF toy_wf toy_remove] by simp

lemma toy_update: "CheckDomainKeysExpiredAndAutoUpdate toy_bao 0 30 toy_state Export =
   (KM_OK, toy_state\<lparr>domainKeyMap := [(0, [(5, 400000000)]), (1, [(0, 299999999)])]\<rparr>, Export)"
  by code_simp

lemma key_name_no_space: "CHR '' '' \<notin> set (key_name d k)"
  using u32_str_char[of "CHR '' ''"] by (auto simp: key_name_def isdigit_c_def)

lemma toy_read: "bao_run toy_bao toy_state (read_cmd toy_state d k) w = ((KM_OK, ''R''), w)"
proof -
  have c: "c_str (read_cmd toy_state d k) = read_cmd toy_state d k"
    using nul_key_name[of d k] by (intro c_str_id) (auto simp: read_cmd_def toy_state_def)
  have r: "read_cmd toy_state d k =
      ''/bao'' @ CHR '' '' # (''read'' @ CHR '' '' # (''-format=json'' @ CHR '' '' # (''transit/keys/'' @ key_name d k)))"
    by (simp add: read_cmd_def toy_state_def)
  have "Split (read_cmd toy_state d k) '' '' = [''/bao'', ''read'', ''-format=json'', ''transit/keys/'' @ key_name d k]"
    unfolding r using key_name_no_space[of d k]
    by (subst Split_char_Cons, simp, subst Split_char_Cons, simp, subst Split_char_Cons, simp, subst Split_char_last) auto
  note sp = this
  have ne: "find_sub ''Error'' ''R'' = None"
    by code_simp+
  have cn: "read_cmd toy_state d k \<noteq> []" and tk: "accessToken toy_state \<noteq> []"
    unfolding r by (simp_all add: toy_state_def)
  show ?thesis
    unfolding bao_run_def RunCommandAndGetResult_def ExecOpenbaoCmd_def c sp
    using ne cn tk by (simp add: toy_bao_def)
qed

lemma toy_times: "GetJsonFieldMaxInt toy_bao ''R'' = 400000000"
  by code_simp



lemma CheckDomainKeysExpired_iff_witness:
  "CheckDomainKeysExpired toy_bao 1 10 toy_state Export = KM_OK"
proof -
  have "be_time toy_bao Export = 300000000"
    by (simp add: toy_bao_def)
  moreover have "inited toy_state" "(1 :: u32) < domainCount toy_state" "(0, 299999999) \<in> set (inner toy_state 1)"
    by (simp_all add: toy_state_def inner_def)
  ultimately show ?thesis
    using CheckDomainKeysExpired_iff[of toy_bao Export 10 1 toy_state] by force
qed

lemma toy_export: "export_key toy_bao toy_state 0 5 NoExport = ([], NoExport)"
    "export_key toy_bao toy_state 0 5 Export = (replicate 31 (CHR 0x00) @ [CHR 0x01], Export)"
  by code_simp+

lemma toy_params: "CheckEncryptAndDecryptParams 0 AES256_GCM toy_state = KM_OK"
  by code_simp

lemma toy_last: "om_last (inner toy_state 0) = 5"
  by code_simp

lemma Bao_Encrypt_deadlock_witness: "fst (Bao_Encrypt toy_bao AES256_GCM 0 ''hi'' toy_state NoExport) = Deadlock"
  using Bao_Encrypt_deadlock[OF toy_params, of "''hi''" toy_bao NoExport] toy_last toy_export(1)
  by (simp add: PLAINTEXT_MAX_LENGTH_def)


definition toy_key :: bytes where "toy_key = replicate 31 (CHR 0x00) @ [CHR 0x01]"

definition toy_native :: bytes where
  "toy_native = replicate 12 CHR ''i'' @ replicate 16 CHR ''a'' @ replicate 16 CHR ''T'' @ ''ih''"

lemma toy_native_encrypt: "NativeCryptor_Encrypt toy_crypto AES256_GCM ''hi'' toy_key CCSEC_UNSPECIFIED =
    ((CRC_OK, toy_native), CCSEC_AES_GCM_256)"
  unfolding NativeCryptor_Encrypt_def toy_stack toy_native_def toy_key_def
  by (simp add: KeyEncrypt_def Engine_Encrypt_def OpensslEncrypt_def rand_fill_def write_at_def
      read_at_def toy_crypto_def EstimatedCipherLen_def layout_defs PLAINTEXT_MAX_LENGTH_def memcpy_s_ok_def
      MULTIPLIER_FACTOR_def)

lemma toy_latest: "GetLatestKey toy_bao 0 0 toy_state Export = ((toy_key, 5), toy_state, Export)"
  by code_simp

lemma toy_encrypted: "Bao_Encrypt toy_bao AES256_GCM 0 ''hi'' toy_state Export =
    (Ret (KM_OK, Base64Encode (Some (ConstructCipherHeader AES256_GCM 0 5 @ toy_native))), toy_state, Export)"
proof -
  have k: "toy_key \<noteq> []" and c: "be_crypto toy_bao = toy_crypto"
    by (simp_all add: toy_key_def toy_bao_def)
  show ?thesis
    unfolding Bao_Encrypt_def Let_def toy_params toy_latest prod.case c toy_native_encrypt
    using k by (simp add: PLAINTEXT_MAX_LENGTH_def)
qed

definition toy_later :: bao_state where
  "toy_later = toy_state\<lparr>domainKeyMap := [(0, [(5, 1000), (6, 400000000)]), (1, [(0, 299999999)])]\<rparr>"

lemma Bao_roundtrip_witness:
  "fst (Bao_Decrypt toy_bao AES256_GCM 0 (Base64Encode (Some (ConstructCipherHeader AES256_GCM 0 5 @ toy_native)))
     toy_later Export) = (KM_OK, ''hi'')"
proof (rule Bao_roundtrip[OF _ toy_wf _ _ toy_encrypted])
  show "crypto_law (be_crypto toy_bao)"
    using toy_crypto_law by (simp add: toy_bao_def)
  show "domainCount toy_state \<le> 1023" "om_last (inner toy_state 0) \<le> 65535"
    unfolding toy_last by (simp_all add: toy_state_def)
  show "CheckEncryptAndDecryptParams 0 AES256_GCM toy_later = KM_OK" by code_simp
  show "key_time toy_later 0 (om_last (inner toy_state 0)) \<noteq> None" by code_simp
  show "fst (export_key toy_bao toy_later 0 (om_last (inner toy_state 0)) Export) =
    fst (export_key toy_bao toy_state 0 (om_last (inner toy_state 0)) Export)" by code_simp
qed

lemma Bao_Decrypt_bound_witness:
  "\<exists>c s' w'. Bao_Encrypt toy_bao AES256_GCM 0 ''hi'' toy_state Export = (Ret (KM_OK, c), s', w') \<and>
     key_time toy_later 0 5 \<noteq> None"
proof -
  have "fst (Bao_Decrypt toy_bao AES256_GCM 0 (Base64Encode (Some (ConstructCipherHeader AES256_GCM 0 5 @ toy_native)))
     toy_later Export) = (KM_OK, ''hi'')"
  proof (rule Bao_roundtrip_core[OF _ toy_wf _ _ toy_encrypted])
    show "crypto_law (be_crypto toy_bao)"
      using toy_crypto_law by (simp add: toy_bao_def)
    show "domainCount toy_state \<le> 1023" "om_last (inner toy_state 0) \<le> 65535"
      unfolding toy_last by (simp_all add: toy_state_def)
    show "CheckEncryptAndDecryptParams 0 AES256_GCM toy_later = KM_OK" by code_simp
    show "key_time toy_later 0 (om_last (inner toy_state 0)) \<noteq> None" by code_simp
    show "fst (export_key toy_bao toy_later 0 (om_last (inner toy_state 0)) Export) =
      fst (export_key toy_bao toy_state 0 (om_last (inner toy_state 0)) Export)" by code_simp
  qed
  note d = this
  have "domainCount toy_state \<le> 1023" "om_last (inner toy_state 0) \<le> 65535"
    unfolding toy_last by (simp_all add: toy_state_def)
  then have "key_time toy_later 0 (om_last (inner toy_state 0)) \<noteq> None"
    using Bao_Decrypt_bound[OF toy_wf _ _ toy_encrypted d] by blast
  then show ?thesis
    using toy_encrypted unfolding toy_last by blast
qed

lemma bao_reachable_inv_witness:
  "domainCount (fst (fold (bao_step toy_bao) [BInit ''/bao'' ''tok'' 4, BCreate 0] (bao_init_state, Export))) \<le> 1023"
  using bao_reachable_inv[of toy_bao "[BInit ''/bao'' ''tok'' 4, BCreate 0]" Export] by blast

lemma toy_login_read:
  "bao_run toy_bao (login_state ''/bao'' ''tok'') (read_cmd (login_state ''/bao'' ''tok'') d k) v = ((KM_OK, ''R''), v)"
proof -
  have "bao_run toy_bao (login_state ''/bao'' ''tok'') (read_cmd (login_state ''/bao'' ''tok'') d k) v =
    bao_run toy_bao toy_state (read_cmd toy_state d k) v"
    by (rule bao_run_cong) (simp_all add: login_state_def toy_state_def bao_init_state_def)
  then show ?thesis
    by (simp add: toy_read)
qed


text \<open>A transit key of another user whose name ends too early after its number, such as
  \<open>key1_a\<close>, does not make \<open>Init\<close> fail: an exception escapes from it.\<close>

lemma short_name_throws_out:
  assumes "length pre = 3" "length rest < 3"
  shows "StrDecodeToDomainIdKeyId (pre @ u32_str d @ CHR ''_'' # rest) d0 k0 = ThrowsOutOfRange"
  using assms by (rule short_name_throws)

lemma short_name_throws_out_witness: "StrDecodeToDomainIdKeyId ''key1_a'' 0 0 = ThrowsOutOfRange"
proof -
  have "u32_str 1 = ''1''"
    by code_simp
  then show ?thesis
    using short_name_throws_out[of "''key''" "''a''" 1 0 0] by simp
qed

end
