(* ===== verification/CdfKmCryptor.thy ===== *)
theory CdfKmCryptor
  imports CdfBaoProof
begin

section \<open>Key managers and their cryptor (\<open>vault_key_manager.cpp\<close>, \<open>key_manager_factory.cpp\<close>, \<open>km_cryptor.cpp\<close>)\<close>

text \<open>
  There are two key manager objects, the OpenBao singleton and the Vault singleton, and Vault works on the
  OpenBao one: it changes its type tag and forwards every call. So both share the state
  \<open>bao_state\<close>; the own fields of Vault (\<open>inited_\<close>, \<open>domainCount_\<close>) are never written. A \<open>KeyManager *\<close> is which of the
  two objects it points to.
\<close>

subsection \<open>The Vault key manager\<close>

definition Vault_UnInit :: "bao_state \<Rightarrow> KeyManagerRC \<times> bao_state" where
  "Vault_UnInit s = (let (ret, s1) = Bao_UnInit s in (ret, s1\<lparr>km_type := OPENBAO\<rparr>))"

definition Vault_Init ::
  "'w bao_env \<Rightarrow> bytes \<Rightarrow> bytes \<Rightarrow> u32 \<Rightarrow> bao_state \<Rightarrow> 'w \<Rightarrow> KeyManagerRC outcome \<times> bao_state \<times> 'w" where
  "Vault_Init E path token count s w = Bao_Init E path token count (s\<lparr>km_type := VAULT\<rparr>) w"

definition Vault_CreateKey ::
  "'w bao_env \<Rightarrow> u32 \<Rightarrow> bao_state \<Rightarrow> 'w \<Rightarrow> (KeyManagerRC \<times> u32) outcome \<times> bao_state \<times> 'w" where
  "Vault_CreateKey E d s w = CreateKey E d s w"

definition Vault_DisplayKey :: "u32 \<Rightarrow> bao_state \<Rightarrow> KeyManagerRC \<times> display_line list" where
  "Vault_DisplayKey d s = DisplayKey d s"

definition Vault_DisplayAllKey :: "bao_state \<Rightarrow> KeyManagerRC \<times> display_line list" where
  "Vault_DisplayAllKey s = DisplayAllKey s"

definition Vault_RemoveKey ::
  "'w bao_env \<Rightarrow> u32 \<Rightarrow> u32 \<Rightarrow> bao_state \<Rightarrow> 'w \<Rightarrow> KeyManagerRC \<times> bao_state \<times> 'w" where
  "Vault_RemoveKey E d k s w = RemoveKey E d k s w"

definition Vault_GetLatestKey where
  "Vault_GetLatestKey E d s w = GetLatestKey E d s w"

definition Vault_DeleteAllKey ::
  "'w bao_env \<Rightarrow> bao_state \<Rightarrow> 'w \<Rightarrow> KeyManagerRC outcome \<times> bao_state \<times> 'w" where
  "Vault_DeleteAllKey E s w = DeleteAllKey E s w"

definition Vault_CheckDomainKeysExpired :: "'w bao_env \<Rightarrow> u32 \<Rightarrow> u32 \<Rightarrow> bao_state \<Rightarrow> 'w \<Rightarrow> KeyManagerRC" where
  "Vault_CheckDomainKeysExpired E d lead s w = CheckDomainKeysExpired E d lead s w"

definition Vault_CheckDomainKeysExpiredAndAutoUpdate ::
  "'w bao_env \<Rightarrow> u32 \<Rightarrow> u32 \<Rightarrow> bao_state \<Rightarrow> 'w \<Rightarrow> KeyManagerRC \<times> bao_state \<times> 'w" where
  "Vault_CheckDomainKeysExpiredAndAutoUpdate E d lead s w = CheckDomainKeysExpiredAndAutoUpdate E d lead s w"

definition Vault_Encrypt ::
  "'w bao_env \<Rightarrow> CryptoSymAlg \<Rightarrow> u32 \<Rightarrow> bytes \<Rightarrow> bao_state \<Rightarrow> 'w
     \<Rightarrow> (KeyManagerRC \<times> bytes) outcome \<times> bao_state \<times> 'w" where
  "Vault_Encrypt E symAlg d plaintext s w = Bao_Encrypt E symAlg d plaintext s w"

definition Vault_Decrypt ::
  "'w bao_env \<Rightarrow> CryptoSymAlg \<Rightarrow> u32 \<Rightarrow> bytes \<Rightarrow> bao_state \<Rightarrow> 'w \<Rightarrow> (KeyManagerRC \<times> bytes) \<times> 'w" where
  "Vault_Decrypt E symAlg d ciphertext s w = Bao_Decrypt E symAlg d ciphertext s w"

subsection \<open>Pointers to key managers\<close>

datatype km_ptr = BaoPtr | VaultPtr

fun Borrow :: "KeyManagerTy \<Rightarrow> km_ptr option" where
  "Borrow OPENBAO = Some BaoPtr"
| "Borrow VAULT = Some VaultPtr"
| "Borrow KMT_UNKNOWN = None"

fun km_Type :: "km_ptr \<Rightarrow> bao_state \<Rightarrow> KeyManagerTy" where
  "km_Type BaoPtr s = km_type s"
| "km_Type VaultPtr s = VAULT"

fun km_CheckInited :: "km_ptr \<Rightarrow> bao_state \<Rightarrow> bool" where
  "km_CheckInited BaoPtr s = inited s"
| "km_CheckInited VaultPtr s = False"

fun km_DomainCount :: "km_ptr \<Rightarrow> bao_state \<Rightarrow> u32" where
  "km_DomainCount BaoPtr s = domainCount s"
| "km_DomainCount VaultPtr s = 2"

subsection \<open>The cryptor\<close>

fun ParseKeyManagerRC :: "KeyManagerRC \<Rightarrow> CryptionRC" where
  "ParseKeyManagerRC KM_OK = CRC_OK"
| "ParseKeyManagerRC KM_INVALID_PARAM = CRC_INVALID_PARAM"
| "ParseKeyManagerRC KM_UNINITED = CRC_UNINITED"
| "ParseKeyManagerRC _ = CRC_ERROR"

definition cryptor_result :: "KeyManagerRC \<times> bytes \<Rightarrow> CryptionRC \<times> bytes" where
  "cryptor_result r = (if fst r = KM_OK then (ParseKeyManagerRC (fst r), snd r) else (ParseKeyManagerRC (fst r), []))"

fun map_outcome :: "('a \<Rightarrow> 'b) \<Rightarrow> 'a outcome \<Rightarrow> 'b outcome" where
  "map_outcome f (Ret x) = Ret (f x)"
| "map_outcome f ThrowsOutOfRange = ThrowsOutOfRange"
| "map_outcome f Deadlock = Deadlock"
| "map_outcome f UndefinedBehaviour = UndefinedBehaviour"

text \<open>The cast to the class the type tag names: a pointer to an object of the other class is undefined behaviour.\<close>

definition KmCryptor_Encrypt ::
  "'w bao_env \<Rightarrow> km_ptr option \<Rightarrow> CryptoSymAlg \<Rightarrow> bytes \<Rightarrow> u32 \<Rightarrow> bao_state \<Rightarrow> 'w
     \<Rightarrow> (CryptionRC \<times> bytes) outcome \<times> bao_state \<times> 'w" where
  "KmCryptor_Encrypt E km alg plaintext d s w =
    (case km of
       None \<Rightarrow> (Ret (CRC_ERROR, []), s, w)
     | Some p \<Rightarrow>
       (case km_Type p s of
          OPENBAO \<Rightarrow>
            if p \<noteq> BaoPtr then (UndefinedBehaviour, s, w)
            else let (r, s1, w1) = Bao_Encrypt E alg d plaintext s w in (map_outcome cryptor_result r, s1, w1)
        | VAULT \<Rightarrow>
            if p \<noteq> VaultPtr then (UndefinedBehaviour, s, w)
            else let (r, s1, w1) = Vault_Encrypt E alg d plaintext s w in (map_outcome cryptor_result r, s1, w1)
        | KMT_UNKNOWN \<Rightarrow> (Ret (CRC_INVALID_PARAM, []), s, w)))"

definition KmCryptor_Decrypt ::
  "'w bao_env \<Rightarrow> km_ptr option \<Rightarrow> CryptoSymAlg \<Rightarrow> bytes \<Rightarrow> u32 \<Rightarrow> bao_state \<Rightarrow> 'w
     \<Rightarrow> (CryptionRC \<times> bytes) outcome \<times> 'w" where
  "KmCryptor_Decrypt E km alg ciphertext d s w =
    (case km of
       None \<Rightarrow> (Ret (CRC_ERROR, []), w)
     | Some p \<Rightarrow>
       (case km_Type p s of
          OPENBAO \<Rightarrow>
            if p \<noteq> BaoPtr then (UndefinedBehaviour, w)
            else let (r, w1) = Bao_Decrypt E alg d ciphertext s w in (Ret (cryptor_result r), w1)
        | VAULT \<Rightarrow>
            if p \<noteq> VaultPtr then (UndefinedBehaviour, w)
            else let (r, w1) = Vault_Decrypt E alg d ciphertext s w in (Ret (cryptor_result r), w1)
        | KMT_UNKNOWN \<Rightarrow> (Ret (CRC_INVALID_PARAM, []), w)))"

subsection \<open>The type tag\<close>

text \<open>No operation of the OpenBao manager changes the tag.\<close>

lemma add_key_type [simp]: "km_type (add_key d k t s) = km_type s"
  by (simp add: add_key_def)

lemma prepare_loop_type: "prepare_loop E ps s w = (rc, s', w') \<Longrightarrow> km_type s' = km_type s"
  by (induction E ps s w arbitrary: rc s' w' rule: prepare_loop.induct)
     (auto simp: Let_def split: prod.splits if_splits)

lemma PrepareMap_type: "PrepareMap E s w = (rc, s', w') \<Longrightarrow> km_type s' = km_type s"
  by (auto simp: PrepareMap_def Let_def split: prod.splits if_splits outcome.splits dest: prepare_loop_type)

lemma Bao_Init_type:
  assumes "Bao_Init E path token count s w = (rc, s', w')"
  shows "km_type s' = km_type s"
proof (cases "CanonicalPath (be_realpath E) path")
  case None
  then show ?thesis
    using assms by (auto simp: Bao_Init_def split: if_splits)
next
  case (Some x)
  obtain r t v where p: "PrepareMap E (s\<lparr>exePath := x, accessToken := token\<rparr>) w = (r, t, v)"
    by (metis prod.exhaust_sel)
  show ?thesis
    using assms PrepareMap_type[OF p]
    by (auto simp: Bao_Init_def Some Let_def p split: if_splits outcome.splits)
qed

lemma CreateKey_type: "CreateKey E d s w = (rc, s', w') \<Longrightarrow> km_type s' = km_type s"
  by (auto simp: CreateKey_def GenerateKeyId_def Let_def split: prod.splits if_splits)

lemma RemoveKey_type: "RemoveKey E d k s w = (rc, s', w') \<Longrightarrow> km_type s' = km_type s"
  by (auto simp: RemoveKey_def drop_key_def Let_def split: prod.splits if_splits option.splits)

lemma DeleteAllKey_type: "DeleteAllKey E s w = (rc, s', w') \<Longrightarrow> km_type s' = km_type s"
  by (auto simp: DeleteAllKey_def split: prod.splits if_splits)

lemma update_loop_type: "update_loop E now d lead m s w = (rc, s', w') \<Longrightarrow> km_type s' = km_type s"
  by (induction E now d lead m s w arbitrary: rc s' w' rule: update_loop.induct)
     (auto simp: Let_def set_time_def split: prod.splits if_splits)

lemma AutoUpdate_type: "CheckDomainKeysExpiredAndAutoUpdate E d lead s w = (rc, s', w') \<Longrightarrow> km_type s' = km_type s"
  by (auto simp: CheckDomainKeysExpiredAndAutoUpdate_def Let_def split: if_splits dest: update_loop_type)

lemma Bao_Encrypt_type: "Bao_Encrypt E a d p s w = (rc, s', w') \<Longrightarrow> km_type s' = km_type s"
  by (auto simp: Bao_Encrypt_def GetLatestKey_def Let_def split: prod.splits if_splits)

lemma bao_step_type: "km_type (fst (bao_step E opn (s, w))) = km_type s"
proof (cases opn)
  case (BInit path token count)
  then show ?thesis
    using Bao_Init_type[of E path token count s w] by (cases "Bao_Init E path token count s w") auto
next
  case (BCreate d)
  then show ?thesis
    using CreateKey_type[of E d s w] by (cases "CreateKey E d s w") auto
next
  case (BRemove d k)
  then show ?thesis
    using RemoveKey_type[of E d k s w] by (cases "RemoveKey E d k s w") auto
next
  case BDeleteAll
  then show ?thesis
    using DeleteAllKey_type[of E s w] by (cases "DeleteAllKey E s w") auto
next
  case (BUpdate d lead)
  then show ?thesis
    using AutoUpdate_type[of E d lead s w] by (cases "CheckDomainKeysExpiredAndAutoUpdate E d lead s w") auto
next
  case (BEncrypt a d p)
  then show ?thesis
    using Bao_Encrypt_type[of E a d p s w] by (cases "Bao_Encrypt E a d p s w") auto
qed (simp_all add: Bao_UnInit_def)

subsection \<open>Both managers as one state machine\<close>

datatype km_op = ViaBao bao_op | ViaVault bao_op

fun vault_step :: "'w bao_env \<Rightarrow> bao_op \<Rightarrow> bao_state \<times> 'w \<Rightarrow> bao_state \<times> 'w" where
  "vault_step E (BInit path token count) (s, w) = snd (Vault_Init E path token count s w)"
| "vault_step E BUnInit (s, w) = (snd (Vault_UnInit s), w)"
| "vault_step E (BCreate d) (s, w) = snd (Vault_CreateKey E d s w)"
| "vault_step E (BRemove d k) (s, w) = snd (Vault_RemoveKey E d k s w)"
| "vault_step E BDeleteAll (s, w) = snd (Vault_DeleteAllKey E s w)"
| "vault_step E (BUpdate d lead) (s, w) = snd (Vault_CheckDomainKeysExpiredAndAutoUpdate E d lead s w)"
| "vault_step E (BEncrypt a d p) (s, w) = snd (Vault_Encrypt E a d p s w)"
| "vault_step E (BDecrypt a d c) (s, w) = (s, snd (Vault_Decrypt E a d c s w))"

fun km_step :: "'w bao_env \<Rightarrow> km_op \<Rightarrow> bao_state \<times> 'w \<Rightarrow> bao_state \<times> 'w" where
  "km_step E (ViaBao opn) x = bao_step E opn x"
| "km_step E (ViaVault opn) x = vault_step E opn x"

text \<open>A call through Vault is the call of OpenBao, with the tag set by \<open>Init\<close> and reset by \<open>UnInit\<close>.\<close>

definition retag :: "KeyManagerTy \<Rightarrow> bao_state \<times> 'w \<Rightarrow> bao_state \<times> 'w" where
  "retag ty x = ((fst x)\<lparr>km_type := ty\<rparr>, snd x)"

lemmas vault_defs = Vault_UnInit_def Vault_Init_def Vault_CreateKey_def Vault_RemoveKey_def Vault_DeleteAllKey_def
  Vault_CheckDomainKeysExpiredAndAutoUpdate_def Vault_Encrypt_def Vault_Decrypt_def Vault_GetLatestKey_def
  Vault_DisplayKey_def Vault_DisplayAllKey_def Vault_CheckDomainKeysExpired_def

lemma vault_step_bao:
  "vault_step E opn x = (case opn of
     BInit path token count \<Rightarrow> bao_step E opn (retag VAULT x)
   | BUnInit \<Rightarrow> retag OPENBAO (bao_step E opn x)
   | _ \<Rightarrow> bao_step E opn x)"
  by (cases x; cases opn) (simp_all add: vault_defs retag_def Bao_UnInit_def)

lemma bao_inv_retag [simp]: "bao_inv (retag ty x) = bao_inv x"
  by (simp add: bao_inv_def retag_def bao_wf_def inner_def)

lemma km_step_inv: "bao_inv x \<Longrightarrow> bao_inv (km_step E opn x)"
  by (cases opn) (simp_all add: vault_step_bao bao_step_inv split: bao_op.splits)

interpretation km: machine "km_step E" "(bao_init_state, w)" "\<lambda>_. True" bao_inv for E :: "'w bao_env" and w
  by unfold_locales (simp_all add: km_step_inv, simp add: bao.inv_init)

text \<open>Whether the last \<open>Init\<close> or \<open>UnInit\<close> of Vault in a history was an \<open>Init\<close>.\<close>

fun vault_active :: "km_op \<Rightarrow> bool \<Rightarrow> bool" where
  "vault_active (ViaVault (BInit path token count)) b = True"
| "vault_active (ViaVault BUnInit) b = False"
| "vault_active _ b = b"

lemma km_step_type:
  "km_type (fst x) = (if b then VAULT else OPENBAO) \<Longrightarrow>
   km_type (fst (km_step E opn x)) = (if vault_active opn b then VAULT else OPENBAO)"
proof (cases opn)
  case (ViaBao b')
  then show "km_type (fst x) = (if b then VAULT else OPENBAO) \<Longrightarrow> ?thesis"
    using bao_step_type[of E b' "fst x" "snd x"] by simp
next
  case (ViaVault v)
  then show "km_type (fst x) = (if b then VAULT else OPENBAO) \<Longrightarrow> ?thesis"
    using bao_step_type[of E v "fst x" "snd x"] bao_step_type[of E v "(fst x)\<lparr>km_type := VAULT\<rparr>" "snd x"]
    by (cases v) (simp_all add: vault_step_bao retag_def)
qed

lemma km_run_type_from:
  "km_type (fst x) = (if b then VAULT else OPENBAO) \<Longrightarrow>
   km_type (fst (fold (km_step E) ops x)) = (if fold vault_active ops b then VAULT else OPENBAO)"
proof (induction ops arbitrary: x b)
  case (Cons opn ops)
  then show ?case
    using km_step_type[OF Cons.prems] by simp
qed simp

lemma km_run_type:
  "km_type (fst (fold (km_step E) ops (bao_init_state, w))) = (if fold vault_active ops False then VAULT else OPENBAO)"
  by (rule km_run_type_from) (simp add: bao_init_state_def)

text \<open>C21: In a state reached by any calls of the two managers, a cryptor made for OpenBao decrypts with the OpenBao
  manager, unless the last \<open>Init\<close> or \<open>UnInit\<close> of Vault was an \<open>Init\<close>: then it casts the OpenBao object to
  the Vault class, which is undefined behaviour. A cryptor made for Vault always uses the manager.\<close>

theorem KmCryptor_cast:
  "fst (KmCryptor_Decrypt E (Borrow OPENBAO) a c d (fst (fold (km_step E) ops (bao_init_state, w))) v) =
     (if fold vault_active ops False then UndefinedBehaviour
      else Ret (cryptor_result (fst (Bao_Decrypt E a d c (fst (fold (km_step E) ops (bao_init_state, w))) v)))) \<and>
   fst (KmCryptor_Decrypt E (Borrow VAULT) a c d (fst (fold (km_step E) ops (bao_init_state, w))) v) =
     Ret (cryptor_result (fst (Bao_Decrypt E a d c (fst (fold (km_step E) ops (bao_init_state, w))) v)))"
  by (simp add: KmCryptor_Decrypt_def km_run_type Vault_Decrypt_def split: prod.splits)

subsection \<open>Round trip through the cryptor\<close>

lemma cryptor_result_OK: "cryptor_result r = (CRC_OK, x) \<longleftrightarrow> r = (KM_OK, x)"
  by (cases r; cases "fst r") (auto simp: cryptor_result_def)

lemma KmCryptor_Encrypt_OK:
  "KmCryptor_Encrypt E km a p d s w = (Ret (CRC_OK, c), s', w') \<Longrightarrow>
    Bao_Encrypt E a d p s w = (Ret (KM_OK, c), s', w')"
proof -
  assume k: "KmCryptor_Encrypt E km a p d s w = (Ret (CRC_OK, c), s', w')"
  obtain r s1 w1 where e: "Bao_Encrypt E a d p s w = (r, s1, w1)"
    by (metis prod.exhaust_sel)
  have m: "map_outcome cryptor_result r = Ret (CRC_OK, c) \<longleftrightarrow> r = Ret (KM_OK, c)"
    by (cases r) (simp_all add: cryptor_result_OK)
  show ?thesis
    using k by (auto simp: KmCryptor_Encrypt_def Vault_Encrypt_def e m split: option.splits KeyManagerTy.splits if_splits)
qed

lemma KmCryptor_roundtrip_core:
  assumes law: "crypto_law (be_crypto E)" and wf: "bao_wf s" "domainCount s \<le> 1023"
    and k: "om_last (inner s d) \<le> 65535"
    and enc: "KmCryptor_Encrypt E km a p d s w = (Ret (CRC_OK, c), s', w')"
    and act: "Borrow (km_Type q t) = Some q"
    and chk: "CheckEncryptAndDecryptParams d a t = KM_OK"
    and key: "key_time t d (om_last (inner s d)) \<noteq> None"
    and stable: "fst (export_key E t d (om_last (inner s d)) v) = fst (export_key E s d (om_last (inner s d)) w)"
  shows "fst (KmCryptor_Decrypt E (Some q) a c d t v) = Ret (CRC_OK, p)"
proof -
  note d = Bao_roundtrip_core[OF law wf k KmCryptor_Encrypt_OK[OF enc] chk key stable]
  obtain r v' where e: "Bao_Decrypt E a d c t v = (r, v')"
    by (metis prod.exhaust_sel)
  then have "cryptor_result r = (CRC_OK, p)"
    using d by (simp add: cryptor_result_OK)
  then show ?thesis
    using act by (cases q; cases "km_type t") (simp_all add: KmCryptor_Decrypt_def Vault_Decrypt_def e)
qed

text \<open>C8: What a cryptor of either manager encrypted in a reachable state, a cryptor of the manager that is active
  then decrypts in any later state that still has the key, also when the manager was
  used in between through the other object.\<close>

theorem KmCryptor_roundtrip:
  assumes law: "crypto_law (be_crypto E)" and reach: "fold (km_step E) ops (bao_init_state, w0) = (s, w)"
    and k: "om_last (inner s d) \<le> 65535"
    and enc: "KmCryptor_Encrypt E (Borrow ty) a p d s w = (Ret (CRC_OK, c), s', w')"
    and act: "Borrow (km_Type q t) = Some q"
    and chk: "CheckEncryptAndDecryptParams d a t = KM_OK"
    and key: "key_time t d (om_last (inner s d)) \<noteq> None"
    and stable: "fst (export_key E t d (om_last (inner s d)) v) = fst (export_key E s d (om_last (inner s d)) w)"
  shows "fst (KmCryptor_Decrypt E (Some q) a c d t v) = Ret (CRC_OK, p)"
proof -
  have "bao_inv (s, w)"
    using km.inv_run[of ops E w0] reach by simp
  then have "bao_wf s" "domainCount s \<le> 1023"
    by (simp_all add: bao_inv_def)
  then show ?thesis
    by (rule KmCryptor_roundtrip_core[OF law _ _ k enc act chk key stable])
qed

subsection \<open>An example: a key manager logged in through Vault\<close>

definition toy_vault :: bao_state where
  "toy_vault = \<lparr>inited = True, domainCount = 4, domainKeyMap = [(0, [(5, 400000000)]), (1, [(0, 400000000)])],
     accessToken = ''tok'', exePath = ''/bao'', km_type = VAULT\<rparr>"

lemma toy_prepare:
  "PrepareMap toy_bao \<lparr>inited = False, domainCount = 2, domainKeyMap = [], accessToken = ''tok'', exePath = ''/bao'', km_type = VAULT\<rparr>
     Export =
   (Ret KM_OK, \<lparr>inited = False, domainCount = 2, domainKeyMap = [(0, [(5, 400000000)]), (1, [(0, 400000000)])],
     accessToken = ''tok'', exePath = ''/bao'', km_type = VAULT\<rparr>, Export)"
  by code_simp

lemma toy_vault_init:
  "fold (km_step toy_bao) [ViaVault (BInit ''/bao'' ''tok'' 4)] (bao_init_state, Export) = (toy_vault, Export)"
proof -
  have "CanonicalPath (be_realpath toy_bao) ''/bao'' = Some ''/bao''" "be_access toy_bao ''/bao''"
    by (simp_all add: CanonicalPath_def toy_bao_def c_str_def)
  then show ?thesis
    by (simp add: Vault_Init_def Bao_Init_def bao_init_state_def toy_prepare memcpy_s_ok_def DOMAINID_MIN_def
        DOMAINID_MAX_def toy_vault_def)
qed

lemma toy_vault_params: "CheckEncryptAndDecryptParams 0 AES256_GCM toy_vault = KM_OK"
  by code_simp

lemma toy_vault_latest: "GetLatestKey toy_bao 0 0 toy_vault Export = ((toy_key, 5), toy_vault, Export)"
  by code_simp

lemma toy_vault_encrypted:
  "KmCryptor_Encrypt toy_bao (Borrow VAULT) AES256_GCM ''hi'' 0 toy_vault Export =
    (Ret (CRC_OK, Base64Encode (Some (ConstructCipherHeader AES256_GCM 0 5 @ toy_native))), toy_vault, Export)"
proof -
  have k: "toy_key \<noteq> []" and c: "be_crypto toy_bao = toy_crypto"
    by (simp_all add: toy_key_def toy_bao_def)
  have "Bao_Encrypt toy_bao AES256_GCM 0 ''hi'' toy_vault Export =
      (Ret (KM_OK, Base64Encode (Some (ConstructCipherHeader AES256_GCM 0 5 @ toy_native))), toy_vault, Export)"
    unfolding Bao_Encrypt_def Let_def toy_vault_params toy_vault_latest prod.case c toy_native_encrypt
    using k by (simp add: PLAINTEXT_MAX_LENGTH_def)
  then show ?thesis
    by (simp add: KmCryptor_Encrypt_def Vault_Encrypt_def cryptor_result_def)
qed

text \<open>Decrypted later with a newer key in the domain, and after Vault was left for OpenBao.\<close>

theorem KmCryptor_roundtrip_witness:
  "fst (KmCryptor_Decrypt toy_bao (Some BaoPtr) AES256_GCM
     (Base64Encode (Some (ConstructCipherHeader AES256_GCM 0 5 @ toy_native))) 0 toy_later Export) = Ret (CRC_OK, ''hi'')"
proof (rule KmCryptor_roundtrip[OF _ toy_vault_init _ toy_vault_encrypted])
  have l: "om_last (inner toy_vault 0) = 5"
    by code_simp
  show "crypto_law (be_crypto toy_bao)"
    using toy_crypto_law by (simp add: toy_bao_def)
  show "om_last (inner toy_vault 0) \<le> 65535"
    unfolding l by simp
  show "Borrow (km_Type BaoPtr toy_later) = Some BaoPtr" by code_simp
  show "CheckEncryptAndDecryptParams 0 AES256_GCM toy_later = KM_OK" by code_simp
  show "key_time toy_later 0 (om_last (inner toy_vault 0)) \<noteq> None" by code_simp
  show "fst (export_key toy_bao toy_later 0 (om_last (inner toy_vault 0)) Export) =
    fst (export_key toy_bao toy_vault 0 (om_last (inner toy_vault 0)) Export)" by code_simp
qed

end
