(* ===== verification/CdfCli.thy ===== *)
theory CdfCli
  imports CdfKmCryptor
begin

section \<open>The command-line tool (\<open>cli/\<close>)\<close>

text \<open>
  The tool encrypts a typed password, re-encrypts a ciphertext, and creates, shows and removes keys. Its state is
  what is left of the standard input, what it has printed, whether the terminal echoes, the key manager and the
  world of its server. The file system, the path of the program and setting an environment variable, which
  changes the world the server's client runs in, are parameters. Log messages are not modelled. A result \<open>Ret\<close>
  is a normal return, the other outcomes are those of the key manager.
\<close>

datatype CryptionToolRc =
    CT_OK | CT_PARAM_INVALID | CT_INTERNAL_ERROR | CT_ENCRYPT_ERROR | CT_ACTIVE_KEY_ERROR | CT_UPDATE_ROOT_KEY_ERROR
  | CT_ENCRYPT_INTERNAL_ERROR

fun tool_rc_int :: "CryptionToolRc \<Rightarrow> int" where
  "tool_rc_int CT_OK = 0" | "tool_rc_int CT_PARAM_INVALID = 1" | "tool_rc_int CT_INTERNAL_ERROR = 2"
| "tool_rc_int CT_ENCRYPT_ERROR = 3" | "tool_rc_int CT_ACTIVE_KEY_ERROR = 4" | "tool_rc_int CT_UPDATE_ROOT_KEY_ERROR = 5"
| "tool_rc_int CT_ENCRYPT_INTERNAL_ERROR = 6"

fun km_rc_int :: "KeyManagerRC \<Rightarrow> int" where
  "km_rc_int KM_OK = 0" | "km_rc_int KM_ERROR = 1" | "km_rc_int KM_INVALID_PARAM = 2" | "km_rc_int KM_KEY_EXPIRED = 3"
| "km_rc_int KM_UNINITED = 4" | "km_rc_int KM_INIT_FAILED = 5" | "km_rc_int KM_DOMAIN_COUNT_INVALID = 6"
| "km_rc_int KM_KEY_ACTIVE_FAILED = 7" | "km_rc_int KM_UNSUPPORTED = 8"

record ThirdKmc =
  kmcPath :: bytes
  kmcAddr :: bytes

record CliConfig =
  cfg_algorithm :: bytes
  cfg_kmcType :: bytes
  thirdKmc :: ThirdKmc

definition CliConfig_new :: CliConfig where
  "CliConfig_new = \<lparr>cfg_algorithm = ''AES256_GCM'', cfg_kmcType = [], thirdKmc = \<lparr>kmcPath = [], kmcAddr = []\<rparr>\<rparr>"

record 'w cli_env =
  ce_bao :: "'w bao_env"
  ce_fs :: file_sys
  ce_exe :: "bytes option"
  ce_setenv :: "bytes \<Rightarrow> bytes \<Rightarrow> 'w \<Rightarrow> 'w"

datatype cli_out = Line bytes | KeyLines "display_line list"

record 'w cli_state =
  cs_in :: bytes
  cs_out :: "cli_out list"
  cs_echo :: bool
  cs_km :: bao_state
  cs_w :: 'w

definition say :: "cli_out \<Rightarrow> 'w cli_state \<Rightarrow> 'w cli_state" where
  "say l st = st\<lparr>cs_out := cs_out st @ [l]\<rparr>"

text \<open>Going on after a normal return, and a call of the key manager.\<close>

fun obind :: "'a outcome \<times> 's \<Rightarrow> ('a \<Rightarrow> 's \<Rightarrow> 'b outcome \<times> 's) \<Rightarrow> 'b outcome \<times> 's" where
  "obind (Ret x, st) f = f x st"
| "obind (ThrowsOutOfRange, st) f = (ThrowsOutOfRange, st)"
| "obind (Deadlock, st) f = (Deadlock, st)"
| "obind (UndefinedBehaviour, st) f = (UndefinedBehaviour, st)"

definition on_km :: "(bao_state \<Rightarrow> 'w \<Rightarrow> 'r \<times> bao_state \<times> 'w) \<Rightarrow> 'w cli_state \<Rightarrow> 'r \<times> 'w cli_state" where
  "on_km f st = (let (r, s, w) = f (cs_km st) (cs_w st) in (r, st\<lparr>cs_km := s, cs_w := w\<rparr>))"

subsection \<open>Reading from the terminal\<close>

text \<open>At the end of the input \<open>get\<close> gives \<open>EOF\<close>, the character 255, again and again.\<close>

definition cin_get :: "'w cli_state \<Rightarrow> char \<times> 'w cli_state" where
  "cin_get st = (case cs_in st of [] \<Rightarrow> (CHR 0xFF, st) | c # cs \<Rightarrow> (c, st\<lparr>cs_in := cs\<rparr>))"

definition ends_line :: "char \<Rightarrow> bool" where
  "ends_line ch \<longleftrightarrow> ch = CHR 0x0A \<or> ch = CHR 0x0D \<or> ch = CHR 0x00"

text \<open>The loop of both readers: \<open>ch\<close> is read, \<open>n\<close> characters fit into the buffer.\<close>

fun input_loop :: "nat \<Rightarrow> char \<Rightarrow> 'w cli_state \<Rightarrow> bytes \<times> 'w cli_state" where
  "input_loop 0 ch st = ([], st)"
| "input_loop (Suc n) ch st =
    (if ends_line ch then ([], st)
     else let (c, st) = cin_get st; (t, st) = input_loop n c st in (ch # t, st))"

definition GetPassFromInput :: "nat \<Rightarrow> bool \<Rightarrow> 'w cli_state \<Rightarrow> CryptionToolRc \<times> bytes \<times> 'w cli_state" where
  "GetPassFromInput plainTextLength firstType st =
    (let st = say (Line (if firstType then ''please input the password to encrypt''
                         else ''please input the password to encrypt again'')) st;
       (ch, st) = cin_get st; (plainText, st) = input_loop (plainTextLength - 1) ch st in
     if plainText = [] then (CT_PARAM_INVALID, plainText, st)
     else if length plainText = plainTextLength - 1 then (CT_PARAM_INVALID, plainText, st)
     else (CT_OK, plainText, st))"

definition GetAccessTokenFromInput :: "nat \<Rightarrow> 'w cli_state \<Rightarrow> CryptionToolRc \<times> bytes \<times> 'w cli_state" where
  "GetAccessTokenFromInput accessTokenLen st =
    (let ttySave = cs_echo st; st = st\<lparr>cs_echo := False\<rparr>;
       st = say (Line ''please type in your openbao/vault access token'') st;
       (ch, st) = cin_get st; (accessToken, st) = input_loop (accessTokenLen - 1) ch st;
       st = st\<lparr>cs_echo := ttySave\<rparr> in
     if accessToken = [] then (CT_PARAM_INVALID, accessToken, st)
     else if length accessToken = accessTokenLen - 1 then (CT_PARAM_INVALID, accessToken, st)
     else (CT_OK, accessToken, st))"

text \<open>The text typed twice, empty when it is refused.\<close>

definition ReadEncryptContent :: "nat \<Rightarrow> 'w cli_state \<Rightarrow> CryptionToolRc \<times> bytes \<times> 'w cli_state" where
  "ReadEncryptContent plainTextLength st =
    (let ttySave = cs_echo st; st = st\<lparr>cs_echo := False\<rparr>;
       (rc, inputPlainText, st) = GetPassFromInput plainTextLength True st in
     if rc \<noteq> CT_OK then (CT_PARAM_INVALID, [], st\<lparr>cs_echo := ttySave\<rparr>)
     else let (rc, inputPlainTextCheck, st) = GetPassFromInput plainTextLength False st; st = st\<lparr>cs_echo := ttySave\<rparr> in
     if rc \<noteq> CT_OK then (CT_PARAM_INVALID, [], st)
     else if inputPlainText \<noteq> inputPlainTextCheck then
       (CT_PARAM_INVALID, [], say (Line ''password not match, please input right password'') st)
     else (CT_OK, inputPlainText, st))"

subsection \<open>Key managers\<close>

definition ConfigParseCryptoAlg :: "CliConfig \<Rightarrow> CryptoSymAlg" where
  "ConfigParseCryptoAlg config =
    (let a = cfg_algorithm config in
     if a = ''AES128_GCM'' then AES128_GCM
     else if a = ''AES256_GCM'' then AES256_GCM
     else if a = ''SM4_CTR'' then SM4_CTR
     else if a = ''AES128_CCM'' then AES128_CCM
     else if a = ''CHACHA20_POLY1305'' then CHACHA20_POLY1305
     else SYM_UNKNOWN)"

definition GetKm :: "CliConfig \<Rightarrow> km_ptr option" where
  "GetKm config =
    (if cfg_kmcType config = ''openbao'' then Borrow OPENBAO
     else if cfg_kmcType config = ''vault'' then Borrow VAULT
     else Borrow KMT_UNKNOWN)"

text \<open>The virtual functions of a key manager.\<close>

fun km_Init :: "km_ptr \<Rightarrow> 'w bao_env \<Rightarrow> bytes \<Rightarrow> bytes \<Rightarrow> u32 \<Rightarrow> bao_state \<Rightarrow> 'w \<Rightarrow> KeyManagerRC outcome \<times> bao_state \<times> 'w" where
  "km_Init BaoPtr = Bao_Init" | "km_Init VaultPtr = Vault_Init"

fun km_UnInit :: "km_ptr \<Rightarrow> bao_state \<Rightarrow> KeyManagerRC \<times> bao_state" where
  "km_UnInit BaoPtr = Bao_UnInit" | "km_UnInit VaultPtr = Vault_UnInit"

fun km_CreateKey :: "km_ptr \<Rightarrow> 'w bao_env \<Rightarrow> u32 \<Rightarrow> bao_state \<Rightarrow> 'w \<Rightarrow> (KeyManagerRC \<times> u32) outcome \<times> bao_state \<times> 'w" where
  "km_CreateKey BaoPtr = CreateKey" | "km_CreateKey VaultPtr = Vault_CreateKey"

fun km_RemoveKey :: "km_ptr \<Rightarrow> 'w bao_env \<Rightarrow> u32 \<Rightarrow> u32 \<Rightarrow> bao_state \<Rightarrow> 'w \<Rightarrow> KeyManagerRC \<times> bao_state \<times> 'w" where
  "km_RemoveKey BaoPtr = RemoveKey" | "km_RemoveKey VaultPtr = Vault_RemoveKey"

fun km_DisplayKey :: "km_ptr \<Rightarrow> u32 \<Rightarrow> bao_state \<Rightarrow> KeyManagerRC \<times> display_line list" where
  "km_DisplayKey BaoPtr = DisplayKey" | "km_DisplayKey VaultPtr = Vault_DisplayKey"

definition cli_UnInit :: "km_ptr \<Rightarrow> 'w cli_state \<Rightarrow> 'w cli_state" where
  "cli_UnInit p st = st\<lparr>cs_km := snd (km_UnInit p (cs_km st))\<rparr>"

definition InitKm ::
  "'w cli_env \<Rightarrow> CliConfig \<Rightarrow> km_ptr option \<Rightarrow> u32 \<Rightarrow> 'w cli_state \<Rightarrow> CryptionToolRc outcome \<times> 'w cli_state" where
  "InitKm C config km count st =
    (case km of
       None \<Rightarrow> (Ret CT_PARAM_INVALID, st)
     | Some p \<Rightarrow>
       let (rc, accessToken, st) = GetAccessTokenFromInput 128 st in
       if rc \<noteq> CT_OK then (Ret rc, st)
       else obind (on_km (km_Init p (ce_bao C) (kmcPath (thirdKmc config)) accessToken count) st) (\<lambda>ret st.
         (Ret (if ret \<noteq> KM_OK then CT_ENCRYPT_ERROR else CT_OK), st)))"

text \<open>The newest key through the class the type tag names, with the cast as in the cryptor.\<close>

definition latest_key :: "'w cli_env \<Rightarrow> km_ptr \<Rightarrow> u32 \<Rightarrow> 'w cli_state \<Rightarrow> bytes option outcome \<times> 'w cli_state" where
  "latest_key C p d st =
    (case km_Type p (cs_km st) of
       OPENBAO \<Rightarrow>
         if p \<noteq> BaoPtr then (UndefinedBehaviour, st)
         else let ((key, k), st) = on_km (GetLatestKey (ce_bao C) d 0) st in (Ret (Some key), st)
     | VAULT \<Rightarrow>
         if p \<noteq> VaultPtr then (UndefinedBehaviour, st)
         else let ((key, k), st) = on_km (Vault_GetLatestKey (ce_bao C) d 0) st in (Ret (Some key), st)
     | KMT_UNKNOWN \<Rightarrow> (Ret None, st))"

definition PrepareKmDomainKey ::
  "'w cli_env \<Rightarrow> km_ptr \<Rightarrow> u32 \<Rightarrow> 'w cli_state \<Rightarrow> CryptionToolRc outcome \<times> 'w cli_state" where
  "PrepareKmDomainKey C p d st =
    obind (latest_key C p d st) (\<lambda>key st.
      case key of
        None \<Rightarrow> (Ret CT_INTERNAL_ERROR, st)
      | Some k \<Rightarrow>
        if k = [] then obind (on_km (km_CreateKey p (ce_bao C) d) st) (\<lambda>r st. (Ret CT_OK, st))
        else (Ret CT_OK, st))"

definition CheckDomainKey ::
  "'w cli_env \<Rightarrow> km_ptr \<Rightarrow> u32 \<Rightarrow> 'w cli_state \<Rightarrow> CryptionToolRc outcome \<times> 'w cli_state" where
  "CheckDomainKey C p d st =
    obind (latest_key C p d st) (\<lambda>key st.
      case key of
        None \<Rightarrow> (Ret CT_INTERNAL_ERROR, st)
      | Some k \<Rightarrow> (Ret (if k = [] then CT_PARAM_INVALID else CT_OK), st))"

subsection \<open>The commands\<close>

definition ParseDomainId :: "bytes \<Rightarrow> u32 \<Rightarrow> u32 \<Rightarrow> CryptionToolRc \<times> u32" where
  "ParseDomainId domainIdParam count domainId =
    (let (ret, v) = StrToU32 domainIdParam 0 in
     if \<not> ret then (CT_PARAM_INVALID, domainId)
     else if count \<le> v then (CT_PARAM_INVALID, domainId)
     else (CT_OK, v))"

definition ParseDomainIdAndDomainCount ::
  "bytes list \<Rightarrow> 'w cli_state \<Rightarrow> CryptionToolRc \<times> u32 \<times> u32 \<times> 'w cli_state" where
  "ParseDomainIdAndDomainCount cmdParams st =
    (let (parseRet, count) = StrToU32 (cmdParams ! 1) 0 in
     if \<not> parseRet then (CT_PARAM_INVALID, 0, count, say (Line ''Domain count parse error.'') st)
     else let (ret, domainId) = ParseDomainId (cmdParams ! 0) count 0 in
     if ret \<noteq> CT_OK then (CT_PARAM_INVALID, domainId, count, say (Line ''Failed to parse domain id.'') st)
     else (CT_OK, domainId, count, st))"

definition EncryptKey_Encrypt ::
  "'w cli_env \<Rightarrow> CliConfig \<Rightarrow> u32 \<Rightarrow> u32 \<Rightarrow> bytes \<Rightarrow> 'w cli_state \<Rightarrow> (CryptionToolRc \<times> bytes) outcome \<times> 'w cli_state" where
  "EncryptKey_Encrypt C config d count inputPlainText st =
    (let km = GetKm config in
     obind (InitKm C config km count st) (\<lambda>rc st.
       if rc \<noteq> CT_OK then (Ret (CT_INTERNAL_ERROR, []), st)
       else case km of
         None \<Rightarrow> (UndefinedBehaviour, st)
       | Some p \<Rightarrow> obind (PrepareKmDomainKey C p d st) (\<lambda>tmpRc st.
         if tmpRc \<noteq> CT_OK then (Ret (tmpRc, []), st)
         else obind (on_km (KmCryptor_Encrypt (ce_bao C) km (ConfigParseCryptoAlg config) (c_str inputPlainText) d) st)
           (\<lambda>(rc, cipherText) st.
             let st = cli_UnInit p st in
             if rc \<noteq> CRC_OK then (Ret (CT_ENCRYPT_ERROR, []), st) else (Ret (CT_OK, cipherText), st)))))"

definition EncryptKeyCmd_HandleCmd ::
  "'w cli_env \<Rightarrow> bytes list \<Rightarrow> CliConfig \<Rightarrow> 'w cli_state \<Rightarrow> CryptionToolRc outcome \<times> 'w cli_state" where
  "EncryptKeyCmd_HandleCmd C cmdParams config st =
    (if length cmdParams \<noteq> 2 then (Ret CT_PARAM_INVALID, say (Line ''Parameter number error.'') st)
     else let (ret, d, count, st) = ParseDomainIdAndDomainCount cmdParams st in
     if ret \<noteq> CT_OK then (Ret CT_PARAM_INVALID, say (Line ''Failed to parse args'') st)
     else let (rc, inputPlainText, st) = ReadEncryptContent 33 st in
     if rc \<noteq> CT_OK then (Ret CT_PARAM_INVALID, say (Line ''Failed to read content.'') st)
     else obind (EncryptKey_Encrypt C config d count inputPlainText st) (\<lambda>(ret, cipherText) st.
       if ret \<noteq> CT_OK then (Ret CT_PARAM_INVALID, say (Line ''Failed to encrypt.'') st)
       else (Ret CT_OK, say (Line (''encrypted: '' @ cipherText)) st)))"

definition ReEncrypt ::
  "'w cli_env \<Rightarrow> CliConfig \<Rightarrow> u32 \<Rightarrow> u32 \<Rightarrow> bytes \<Rightarrow> 'w cli_state \<Rightarrow> (CryptionToolRc \<times> bytes) outcome \<times> 'w cli_state" where
  "ReEncrypt C config d count inputCipherText st =
    (let km = GetKm config; alg = ConfigParseCryptoAlg config in
     obind (InitKm C config km count st) (\<lambda>rc st.
       if rc \<noteq> CT_OK then (Ret (CT_INTERNAL_ERROR, []), st)
       else case km of
         None \<Rightarrow> (UndefinedBehaviour, st)
       | Some p \<Rightarrow> obind (CheckDomainKey C p d st) (\<lambda>tmpRc st.
         if tmpRc \<noteq> CT_OK then (Ret (tmpRc, []), st)
         else obind (on_km (\<lambda>s w. let (r, w) = KmCryptor_Decrypt (ce_bao C) km alg (c_str inputCipherText) d s w in (r, s, w)) st)
           (\<lambda>(rc, plaintext) st.
             if rc \<noteq> CRC_OK then (Ret (CT_ENCRYPT_ERROR, []), cli_UnInit p st)
             else obind (on_km (KmCryptor_Encrypt (ce_bao C) km alg plaintext d) st) (\<lambda>(rc, reCipherText) st.
               if rc \<noteq> CRC_OK then (Ret (CT_ENCRYPT_ERROR, []), cli_UnInit p st)
               else (Ret (CT_OK, reCipherText), cli_UnInit p st))))))"

definition ReEncryptCmd_HandleCmd ::
  "'w cli_env \<Rightarrow> bytes list \<Rightarrow> CliConfig \<Rightarrow> 'w cli_state \<Rightarrow> CryptionToolRc outcome \<times> 'w cli_state" where
  "ReEncryptCmd_HandleCmd C cmdParams config st =
    (if length cmdParams \<noteq> 2 then (Ret CT_PARAM_INVALID, st)
     else let (ret, d, count, st) = ParseDomainIdAndDomainCount cmdParams st in
     if ret \<noteq> CT_OK then (Ret CT_PARAM_INVALID, say (Line ''Failed to parse args'') st)
     else let (rc, inputCipherText, st) = ReadEncryptContent 150 st in
     if rc \<noteq> CT_OK then (Ret CT_PARAM_INVALID, say (Line ''Failed to read encrypt content'') st)
     else obind (ReEncrypt C config d count inputCipherText st) (\<lambda>(ret, reCipherText) st.
       if ret \<noteq> CT_OK then (Ret ret, st)
       else (Ret ret, say (Line (''success to reEncrypt: '' @ reCipherText)) st)))"

definition CreateKeyCmd_HandleCmd ::
  "'w cli_env \<Rightarrow> bytes list \<Rightarrow> CliConfig \<Rightarrow> 'w cli_state \<Rightarrow> CryptionToolRc outcome \<times> 'w cli_state" where
  "CreateKeyCmd_HandleCmd C cmdParams config st =
    (let km = GetKm config in
     if length cmdParams \<noteq> 2 then (Ret CT_PARAM_INVALID, say (Line ''Parameter number error.'') st)
     else let (ret, d, count, st) = ParseDomainIdAndDomainCount cmdParams st in
     if ret \<noteq> CT_OK then (Ret CT_PARAM_INVALID, say (Line ''Failed to parse args'') st)
     else obind (InitKm C config km count st) (\<lambda>rc st.
       if rc \<noteq> CT_OK then (Ret CT_ENCRYPT_INTERNAL_ERROR, say (Line ''Failed to create key'') st)
       else case km of
         None \<Rightarrow> (UndefinedBehaviour, st)
       | Some p \<Rightarrow> obind (on_km (km_CreateKey p (ce_bao C) d) st) (\<lambda>(result, k) st.
           let st = cli_UnInit p st in
           if result \<noteq> KM_OK then
             (Ret CT_ACTIVE_KEY_ERROR, say (Line (''Failed to create key, ret:'' @ int_str (km_rc_int result))) st)
           else (Ret CT_OK, st))))"

definition DisplaykeyCmd_HandleCmd ::
  "'w cli_env \<Rightarrow> bytes list \<Rightarrow> CliConfig \<Rightarrow> 'w cli_state \<Rightarrow> CryptionToolRc outcome \<times> 'w cli_state" where
  "DisplaykeyCmd_HandleCmd C cmdParams config st =
    (let km = GetKm config in
     if length cmdParams \<noteq> 2 then (Ret CT_PARAM_INVALID, say (Line ''Parameter number error.'') st)
     else let (ret, d, count, st) = ParseDomainIdAndDomainCount cmdParams st in
     if ret \<noteq> CT_OK then (Ret CT_PARAM_INVALID, say (Line ''Failed to parse args'') st)
     else obind (InitKm C config km count st) (\<lambda>rc st.
       if rc \<noteq> CT_OK then (Ret CT_ENCRYPT_INTERNAL_ERROR, say (Line ''Failed to display key'') st)
       else case km of
         None \<Rightarrow> (UndefinedBehaviour, st)
       | Some p \<Rightarrow>
         let (result, ls) = km_DisplayKey p d (cs_km st); st = cli_UnInit p (say (KeyLines ls) st) in
         if result \<noteq> KM_OK then (Ret CT_ACTIVE_KEY_ERROR, say (Line ''Failed to display key'') st)
         else (Ret CT_OK, st)))"

definition RemovekeyCmd_HandleCmd ::
  "'w cli_env \<Rightarrow> bytes list \<Rightarrow> CliConfig \<Rightarrow> 'w cli_state \<Rightarrow> CryptionToolRc outcome \<times> 'w cli_state" where
  "RemovekeyCmd_HandleCmd C cmdParams config st =
    (let km = GetKm config in
     if length cmdParams \<noteq> 3 then (Ret CT_PARAM_INVALID, say (Line ''Parameter number error.'') st)
     else let (ret, d, count, st) = ParseDomainIdAndDomainCount cmdParams st in
     if ret \<noteq> CT_OK then (Ret CT_PARAM_INVALID, say (Line ''Failed to parse args'') st)
     else let (parseRet, keyId) = StrToU32 (cmdParams ! 2) 0 in
     if \<not> parseRet then (Ret CT_PARAM_INVALID, say (Line ''keyId parse error.'') st)
     else obind (InitKm C config km count st) (\<lambda>rc st.
       if rc \<noteq> CT_OK then (Ret CT_ENCRYPT_INTERNAL_ERROR, say (Line ''Failed to remove key'') st)
       else case km of
         None \<Rightarrow> (UndefinedBehaviour, st)
       | Some p \<Rightarrow>
         let (result, st) = on_km (km_RemoveKey p (ce_bao C) d keyId) st; st = cli_UnInit p st in
         if result \<noteq> KM_OK then
           (Ret CT_ACTIVE_KEY_ERROR, say (Line (''Failed to remove key, ret:'' @ int_str (km_rc_int result))) st)
         else (Ret CT_OK, st)))"

definition KmcCmd_HandleCmd ::
  "'w cli_env \<Rightarrow> bytes list \<Rightarrow> CliConfig \<Rightarrow> 'w cli_state \<Rightarrow> CryptionToolRc outcome \<times> 'w cli_state" where
  "KmcCmd_HandleCmd C cmdParams config st = (Ret CT_OK, st)"

datatype cmd = KmcCmd | EncryptKeyCmd | ReEncryptCmd | CreateKeyCmd | DisplaykeyCmd | RemovekeyCmd

fun HandleCmd ::
  "'w cli_env \<Rightarrow> cmd \<Rightarrow> bytes list \<Rightarrow> CliConfig \<Rightarrow> 'w cli_state \<Rightarrow> CryptionToolRc outcome \<times> 'w cli_state" where
  "HandleCmd C KmcCmd = KmcCmd_HandleCmd C"
| "HandleCmd C EncryptKeyCmd = EncryptKeyCmd_HandleCmd C"
| "HandleCmd C ReEncryptCmd = ReEncryptCmd_HandleCmd C"
| "HandleCmd C CreateKeyCmd = CreateKeyCmd_HandleCmd C"
| "HandleCmd C DisplaykeyCmd = DisplaykeyCmd_HandleCmd C"
| "HandleCmd C RemovekeyCmd = RemovekeyCmd_HandleCmd C"

definition CmdManager_Initialize :: "CryptionToolRc \<times> (bytes \<times> cmd) list" where
  "CmdManager_Initialize = (CT_OK,
    [(''--removekey'', RemovekeyCmd), (''--displaykey'', DisplaykeyCmd), (''--createkey'', CreateKeyCmd),
     (''--encrypt'', EncryptKeyCmd), (''--reEncrypt'', ReEncryptCmd)])"

definition GetHandler :: "(bytes \<times> cmd) list \<Rightarrow> bytes \<Rightarrow> cmd option" where
  "GetHandler handlers c = map_of handlers c"

end
