(* ===== verification/CdfCliMain.thy ===== *)
theory CdfCliMain
  imports CdfCli
begin

section \<open>The tool's configuration and main function (\<open>cli/config_handler.cpp\<close>, \<open>cli/cryption_tool.cpp\<close>)\<close>

text \<open>
  Finding and reading the configuration file, its checks, choosing a command, and the exit code. The JSON parser is
  that of the key manager's environment. Asking a document that is no object for a member is undefined
  behaviour.
\<close>

subsection \<open>Checks\<close>

definition F_OK :: int where "F_OK = 0"
definition X_OK :: int where "X_OK = 1"
definition CFG_MAX_FILE_SIZE :: int where "CFG_MAX_FILE_SIZE = 10 * 1024 * 1024"

definition Cfg_IsAbsolutePath :: "bytes \<Rightarrow> bool" where
  "Cfg_IsAbsolutePath filePath =
    (if length filePath = 0 then False
     else if filePath ! 0 \<noteq> CHR ''/'' then False
     else if find_sub ''/../'' (c_str filePath) \<noteq> None \<or> find_sub ''/./'' (c_str filePath) \<noteq> None then False
     else True)"

definition CheckFileAccess :: "file_sys \<Rightarrow> bytes \<Rightarrow> int \<Rightarrow> bool" where
  "CheckFileAccess fs path mode = fs_access fs (c_str path) mode"

definition Cfg_CheckFileStat :: "file_sys \<Rightarrow> bytes \<Rightarrow> bool" where
  "Cfg_CheckFileStat fs filePath =
    (case fs_stat fs (c_str filePath) of
       None \<Rightarrow> False
     | Some st \<Rightarrow> if st_mode st AND S_IFMT \<noteq> S_IFREG \<or> CFG_MAX_FILE_SIZE < st_size st then False else True)"

text \<open>The path is replaced by its canonical form.\<close>

definition CDFCheckFilePathAndStat :: "file_sys \<Rightarrow> bytes \<Rightarrow> int \<Rightarrow> CryptionToolRc \<times> bytes" where
  "CDFCheckFilePathAndStat fs filePath mode =
    (if \<not> Cfg_IsAbsolutePath filePath then (CT_INTERNAL_ERROR, filePath)
     else case CanonicalPath (fs_realpath fs) filePath of
       None \<Rightarrow> (CT_INTERNAL_ERROR, filePath)
     | Some p \<Rightarrow>
       if \<not> Cfg_CheckFileStat fs p then (CT_INTERNAL_ERROR, p)
       else if \<not> CheckFileAccess fs p mode then (CT_INTERNAL_ERROR, p)
       else (CT_OK, p))"

definition CDFCheckAlg :: "bytes \<Rightarrow> CryptionToolRc" where
  "CDFCheckAlg algStr =
    (if algStr = [] then CT_OK
     else if algStr \<in> {''AES128_GCM'', ''AES256_GCM'', ''SM4_CTR'', ''AES128_CCM'', ''CHACHA20_POLY1305''} then CT_OK
     else CT_INTERNAL_ERROR)"

definition CDFCheckType :: "bytes \<Rightarrow> CryptionToolRc" where
  "CDFCheckType kmcType =
    (if kmcType = [] then CT_OK
     else if kmcType \<noteq> ''openbao'' \<and> kmcType \<noteq> ''vault'' then CT_INTERNAL_ERROR
     else CT_OK)"

definition CDFCheckPath :: "file_sys \<Rightarrow> bytes \<Rightarrow> CryptionToolRc \<times> bytes" where
  "CDFCheckPath fs path =
    (let (rc, p) = CDFCheckFilePathAndStat fs path (R_OK + X_OK) in
     if rc \<noteq> CT_OK then (CT_INTERNAL_ERROR, p) else (CT_OK, p))"

definition CheckConfig :: "file_sys \<Rightarrow> CliConfig \<Rightarrow> CryptionToolRc \<times> CliConfig" where
  "CheckConfig fs cfg =
    (if CDFCheckAlg (cfg_algorithm cfg) \<noteq> CT_OK then (CT_INTERNAL_ERROR, cfg)
     else if CDFCheckType (cfg_kmcType cfg) \<noteq> CT_OK then (CT_INTERNAL_ERROR, cfg)
     else let (rc, p) = CDFCheckPath fs (kmcPath (thirdKmc cfg));
              cfg = cfg\<lparr>thirdKmc := (thirdKmc cfg)\<lparr>kmcPath := p\<rparr>\<rparr> in
     if rc \<noteq> CT_OK then (CT_INTERNAL_ERROR, cfg) else (CT_OK, cfg))"

subsection \<open>Reading the configuration\<close>

definition CDF_ReadConfig :: "'w cli_env \<Rightarrow> bytes \<Rightarrow> json" where
  "CDF_ReadConfig C filePath =
    (let (rc, p) = CDFCheckFilePathAndStat (ce_fs C) filePath R_OK in
     if rc \<noteq> CT_OK then JNull
     else case fs_content (ce_fs C) (c_str p) of
       None \<Rightarrow> JNull
     | Some text \<Rightarrow> (case be_json (ce_bao C) text of None \<Rightarrow> JNull | Some doc \<Rightarrow> doc))"

text \<open>A string member, or what was there before.\<close>

definition member_or :: "bytes \<Rightarrow> json \<Rightarrow> bytes \<Rightarrow> bytes" where
  "member_or k doc old =
    (case json_member k doc of
       None \<Rightarrow> old
     | Some v \<Rightarrow> (case json_string v of None \<Rightarrow> old | Some s \<Rightarrow> c_str s))"

definition ConfigKMC :: "json \<Rightarrow> CliConfig \<Rightarrow> CryptionToolRc \<times> CliConfig" where
  "ConfigKMC configDoc cfg =
    (if json_member ''algorithm'' configDoc \<noteq> None \<and> json_string (the (json_member ''algorithm'' configDoc)) = None then
       (CT_INTERNAL_ERROR, cfg)
     else let cfg = cfg\<lparr>cfg_algorithm := member_or ''algorithm'' configDoc (cfg_algorithm cfg)\<rparr> in
     if json_member ''keyManagerType'' configDoc = None then (CT_PARAM_INVALID, cfg)
     else let cfg = cfg\<lparr>cfg_kmcType := member_or ''keyManagerType'' configDoc (cfg_kmcType cfg)\<rparr> in
     case json_member ''thirdKeyManager'' configDoc of
       None \<Rightarrow> (CT_OK, cfg)
     | Some third \<Rightarrow>
       if \<not> json_is_object third then (CT_INTERNAL_ERROR, cfg)
       else let k = thirdKmc cfg;
                k = k\<lparr>kmcPath := member_or ''keyManagerPath'' third (kmcPath k)\<rparr>;
                k = k\<lparr>kmcAddr := member_or ''keyManagerAddr'' third (kmcAddr k)\<rparr> in
         (CT_OK, cfg\<lparr>thirdKmc := k\<rparr>))"

definition GetConfig ::
  "'w cli_env \<Rightarrow> bytes \<Rightarrow> CliConfig \<Rightarrow> 'w cli_state \<Rightarrow> (CryptionToolRc \<times> CliConfig) outcome \<times> 'w cli_state" where
  "GetConfig C filePath cfg st =
    (let configDoc = CDF_ReadConfig C filePath in
     if configDoc = JNull then (Ret (CT_INTERNAL_ERROR, cfg), say (Line ''|CDF_GetConfig|END|||get config file failed.'') st)
     else if \<not> json_is_object configDoc then (UndefinedBehaviour, st)
     else (Ret (ConfigKMC configDoc cfg), st))"

text \<open>\<open>dirname\<close> of the C library, for a path without a zero byte.\<close>

definition strip_slashes :: "bytes \<Rightarrow> bytes" where
  "strip_slashes p = rev (dropWhile (\<lambda>c. c = CHR ''/'') (rev p))"

definition dirname_c :: "bytes \<Rightarrow> bytes" where
  "dirname_c p =
    (let q = strip_slashes p in
     if q = [] then (if p = [] then ''.'' else ''/'')
     else case find_last (CHR ''/'') q of
       None \<Rightarrow> ''.''
     | Some i \<Rightarrow> let r = strip_slashes (take i q) in if r = [] then ''/'' else r)"

definition GetBinaryConfigPath :: "'w cli_env \<Rightarrow> CryptionToolRc \<times> bytes" where
  "GetBinaryConfigPath C =
    (case ce_exe C of
       None \<Rightarrow> (CT_INTERNAL_ERROR, [])
     | Some link \<Rightarrow>
       let tmpPath = dirname_c (c_str (take PATH_MAX link)) @ ''/../config/'' in
       if PATH_MAX \<le> length tmpPath then (CT_INTERNAL_ERROR, [])
       else case fs_realpath (ce_fs C) tmpPath of
         None \<Rightarrow> (CT_INTERNAL_ERROR, [])
       | Some folder \<Rightarrow> (CT_OK, folder))"

subsection \<open>Files\<close>

definition IsLinkFileOrDir :: "file_sys \<Rightarrow> bytes \<Rightarrow> bool" where
  "IsLinkFileOrDir fs path =
    (let m = (case fs_lstat fs (c_str path) of None \<Rightarrow> 0 | Some b \<Rightarrow> st_mode b) in
     if m AND S_IFMT = S_IFLNK then True else if S_ISDIR m then True else False)"

definition GetFileLength :: "file_sys \<Rightarrow> bytes \<Rightarrow> 'w cli_state \<Rightarrow> u64 \<times> 'w cli_state" where
  "GetFileLength fs path st =
    (case fs_stat fs (c_str path) of
       None \<Rightarrow> (- 1, say (Line (''Failed to open file, path: '' @ path)) st)
     | Some b \<Rightarrow> (word_of_int (st_size b), st))"

text \<open>The content read, when \<open>content\<close> is a buffer of \<open>contentLength\<close> bytes.\<close>

definition ReadFile :: "file_sys \<Rightarrow> bytes \<Rightarrow> bool \<Rightarrow> nat \<Rightarrow> CryptionToolRc \<times> bytes" where
  "ReadFile fs path content contentLength =
    (if \<not> content then (CT_PARAM_INVALID, [])
     else case CanonicalPath (fs_realpath fs) path of
       None \<Rightarrow> (CT_INTERNAL_ERROR, [])
     | Some realPath \<Rightarrow>
       (case fs_content fs (c_str realPath) of
          None \<Rightarrow> (CT_INTERNAL_ERROR, [])
        | Some text \<Rightarrow>
          let buf = take contentLength text in
          if length buf = contentLength then (CT_PARAM_INVALID, buf) else (CT_OK, buf)))"

text \<open>\<open>can_write\<close> is whether the file system lets the process open a path for writing.\<close>

definition WriteFile :: "(bytes \<Rightarrow> bool) \<Rightarrow> file_sys \<Rightarrow> bytes \<Rightarrow> bytes \<Rightarrow> CryptionToolRc \<times> file_sys" where
  "WriteFile can_write fs path content =
    (case CanonicalPath (fs_realpath fs) path of
       None \<Rightarrow> (CT_INTERNAL_ERROR, fs)
     | Some p \<Rightarrow>
       let q = c_str p in
       if \<not> can_write q then (CT_INTERNAL_ERROR, fs)
       else (CT_OK, fs\<lparr>fs_content := (fs_content fs)(q \<mapsto> content), fs_length := (fs_length fs)(q \<mapsto> length content),
         fs_stat := (fs_stat fs)(q := map_option (\<lambda>b. b\<lparr>st_size := int (length content)\<rparr>) (fs_stat fs q)),
         fs_lstat := (fs_lstat fs)(q := map_option (\<lambda>b. b\<lparr>st_size := int (length content)\<rparr>) (fs_lstat fs q))\<rparr>))"

lemma WriteFile_ReadFile:
  assumes "WriteFile cw fs path content = (CT_OK, fs')" "length content < n"
  shows "ReadFile fs' path True n = (CT_OK, content)"
  using assms by (auto simp: WriteFile_def ReadFile_def Let_def split: option.splits if_splits)

subsection \<open>The program\<close>

definition ParseArgv :: "bytes list \<Rightarrow> CryptionToolRc \<times> bytes \<times> bytes list" where
  "ParseArgv args = (if length args < 2 then (CT_PARAM_INVALID, [], []) else (CT_OK, args ! 1, drop 2 args))"

definition GetEventByCommand :: "bytes \<Rightarrow> bytes" where
  "GetEventByCommand c =
    (if c = ''--encrypt'' then ''Encrypt key ''
     else if c = ''--secureEraseAllKeystore'' then ''Remove keystore ''
     else if c = ''--updateRootKey'' then ''Update root key''
     else if c = ''--removekey'' then ''Remove Key ''
     else if c = ''--displaykey'' then ''Display key ''
     else if c = ''--createkey'' then ''Createkey key ''
     else if c = ''--reEncrypt'' then ''ReEncrypt key ''
     else ''Unknown command '')"

definition SetConfigEnv :: "'w cli_env \<Rightarrow> CliConfig \<Rightarrow> 'w cli_state \<Rightarrow> 'w cli_state" where
  "SetConfigEnv C config st =
    (let addr = c_str (kmcAddr (thirdKmc config));
       st = (if cfg_kmcType config = ''openbao'' then st\<lparr>cs_w := ce_setenv C ''BAO_ADDR'' addr (cs_w st)\<rparr> else st) in
     if cfg_kmcType config = ''vault'' then st\<lparr>cs_w := ce_setenv C ''VAULT_ADDR'' addr (cs_w st)\<rparr> else st)"

definition PARAMETER_ERROR_INFO :: bytes where
  "PARAMETER_ERROR_INFO = ''Parameters error. --encrypt domainId domainCount || --createkey domainId domainCount || --displaykey domainId domainCount || --removekey domainId domainCount keyId || --reEncrypt domainId domainCount''"

definition cli_main :: "'w cli_env \<Rightarrow> bytes list \<Rightarrow> 'w cli_state \<Rightarrow> int outcome \<times> 'w cli_state" where
  "cli_main C args st =
    (let (ret, c, cmdParams) = ParseArgv args in
     if ret \<noteq> CT_OK then (Ret (tool_rc_int ret), say (Line PARAMETER_ERROR_INFO) st)
     else let (ret, folder) = GetBinaryConfigPath C in
     if ret \<noteq> CT_OK then (Ret (tool_rc_int CT_INTERNAL_ERROR), say (Line ''Failed to find config file'') st)
     else let configFolder = folder @ ''/crypto_tool_config.json'' in
     obind (GetConfig C configFolder CliConfig_new st) (\<lambda>(rc, config) st.
       if rc \<noteq> CT_OK then
         (Ret (tool_rc_int CT_INTERNAL_ERROR), say (Line (''Failed to load config file from '' @ configFolder)) st)
       else let st = SetConfigEnv C config (say (Line ''Load config file success'') st);
         (ret, handlers) = CmdManager_Initialize in
       case GetHandler handlers c of
         None \<Rightarrow> (Ret (tool_rc_int CT_PARAM_INVALID), say (Line PARAMETER_ERROR_INFO) st)
       | Some handler \<Rightarrow> obind (HandleCmd C handler cmdParams config st) (\<lambda>ret st.
         if ret \<noteq> CT_OK then
           (Ret (tool_rc_int CT_INTERNAL_ERROR), say (Line (''Failed to handle command.'' @ GetEventByCommand c)) st)
         else (Ret (tool_rc_int CT_OK), say (Line ''success to handle command.'') st))))"

end
