(* ===== verification/CdfCliProof.thy ===== *)
theory CdfCliProof
  imports CdfCliMain
begin

section \<open>Properties of the command-line tool\<close>

text \<open>
  What the readers accept, what each stage of a command leaves of the key manager, and the properties of
  the commands: what they print, what they send to the server, and what they leave behind.
\<close>

subsection \<open>Typed lines\<close>

text \<open>The input \<open>i\<close> starts with the line \<open>t\<close>, which fits into a buffer of \<open>n\<close> bytes, and goes on with \<open>r\<close>.\<close>

definition typed :: "nat \<Rightarrow> bytes \<Rightarrow> bytes \<Rightarrow> bytes \<Rightarrow> bool" where
  "typed n t i r \<longleftrightarrow> (\<exists>e. i = t @ e # r \<and> ends_line e) \<and> t \<noteq> [] \<and> length t < n - 1 \<and> list_all (\<lambda>c. \<not> ends_line c) t"

lemma input_loop_line:
  "input_loop n ch st = (t, st') \<Longrightarrow> length t < n \<Longrightarrow>
    \<exists>e r. ch # cs_in st = t @ e # r \<and> ends_line e \<and> list_all (\<lambda>c. \<not> ends_line c) t \<and> st' = st\<lparr>cs_in := r\<rparr>"
proof (induction n ch st arbitrary: t st' rule: input_loop.induct)
  case (2 n ch st)
  show ?case
  proof (cases "ends_line ch")
    case False
    obtain c s1 where c: "cin_get st = (c, s1)"
      by (metis prod.exhaust_sel)
    obtain t' where t: "input_loop n c s1 = (t', st')" "t = ch # t'"
      using "2.prems"(1) False c by (auto simp: Let_def split: prod.splits)
    obtain e r where IH: "c # cs_in s1 = t' @ e # r" "ends_line e" "list_all (\<lambda>c. \<not> ends_line c) t'" "st' = s1\<lparr>cs_in := r\<rparr>"
      using "2.IH"[OF False c[symmetric] refl t(1)] "2.prems"(2) t(2) by auto
    have "cs_in st = c # cs_in s1 \<and> st\<lparr>cs_in := r\<rparr> = s1\<lparr>cs_in := r\<rparr>"
    proof (cases "cs_in st")
      case Nil
      then have "c = CHR 0xFF" "cs_in s1 = []"
        using c by (auto simp: cin_get_def)
      then show ?thesis
        using IH(1,2) by (cases t') (auto simp: ends_line_def)
    next
      case (Cons x xs)
      then show ?thesis
        using c by (auto simp: cin_get_def)
    qed
    then show ?thesis
      using IH t(2) False by auto
  qed (use "2.prems" in auto)
qed simp

lemma input_loop_reads:
  "ch # cs_in st = t @ e # r \<Longrightarrow> ends_line e \<Longrightarrow> list_all (\<lambda>c. \<not> ends_line c) t \<Longrightarrow> length t < n \<Longrightarrow>
    input_loop n ch st = (t, st\<lparr>cs_in := r\<rparr>)"
proof (induction t arbitrary: n ch st)
  case Nil
  then show ?case
    by (cases n) auto
next
  case (Cons c t)
  obtain m where n: "n = Suc m"
    using Cons.prems by (cases n) auto
  obtain x xs where i: "cs_in st = x # xs" "x # xs = t @ e # r"
    using Cons.prems(1) by (cases t) auto
  have "input_loop m x (st\<lparr>cs_in := xs\<rparr>) = (t, st\<lparr>cs_in := r\<rparr>)"
    using Cons.IH[of x "st\<lparr>cs_in := xs\<rparr>" m] Cons.prems i n by simp
  moreover have "cin_get st = (x, st\<lparr>cs_in := xs\<rparr>)"
    by (simp add: cin_get_def i(1))
  ultimately show ?case
    using Cons.prems(1,3) by (simp add: n)
qed

lemma input_loop_length: "input_loop n ch st = (t, st') \<Longrightarrow> length t \<le> n"
  by (induction n ch st arbitrary: t st' rule: input_loop.induct) (force simp: Let_def split: if_splits prod.splits)+

lemma GetPassFromInput_iff:
  "GetPassFromInput n first st = (CT_OK, t, st') \<longleftrightarrow>
    (\<exists>r. typed n t (cs_in st) r \<and>
      st' = (say (Line (if first then ''please input the password to encrypt''
                         else ''please input the password to encrypt again'')) st)\<lparr>cs_in := r\<rparr>)" (is "?L \<longleftrightarrow> (\<exists>r. ?R r)")
proof -
  let ?l = "Line (if first then ''please input the password to encrypt'' else ''please input the password to encrypt again'')"
  obtain ch s1 where c: "cin_get (say ?l st) = (ch, s1)"
    by (metis prod.exhaust_sel)
  obtain u s2 where u: "input_loop (n - 1) ch s1 = (u, s2)"
    by (metis prod.exhaust_sel)
  have L: "?L \<longleftrightarrow> u \<noteq> [] \<and> length u \<noteq> n - 1 \<and> t = u \<and> st' = s2"
    unfolding GetPassFromInput_def Let_def c prod.case u by auto
  have len: "length u \<le> n - 1"
    using u by (rule input_loop_length)
  show ?thesis
  proof (cases "cs_in st")
    case Nil
    then have s1: "ch = CHR 0xFF" "cs_in s1 = []"
      using c by (auto simp: cin_get_def say_def)
    have "length u < n - 1 \<Longrightarrow> u = []"
      using input_loop_line[OF u] s1 by (cases u) auto
    then show ?thesis
      unfolding L typed_def using Nil len by auto
  next
    case (Cons x xs)
    then have s1: "ch = x" "s1 = (say ?l st)\<lparr>cs_in := xs\<rparr>"
      using c by (auto simp: cin_get_def say_def)
    show ?thesis
    proof
      assume ?L
      then show "\<exists>r. ?R r"
        using input_loop_line[OF u] len unfolding L typed_def s1 Cons by auto
    next
      assume "\<exists>r. ?R r"
      then obtain r e where r: "x # xs = t @ e # r" "ends_line e" "t \<noteq> []" "length t < n - 1" "list_all (\<lambda>c. \<not> ends_line c) t"
          "st' = (say ?l st)\<lparr>cs_in := r\<rparr>"
        unfolding typed_def Cons by blast
      have "input_loop (n - 1) ch s1 = (t, s1\<lparr>cs_in := r\<rparr>)"
        by (rule input_loop_reads) (use r s1 in auto)
      then show ?L
        unfolding L using u r s1 by auto
    qed
  qed
qed

text \<open>A text is accepted exactly when it is typed twice.\<close>

lemma ReadEncryptContent_iff:
  "ReadEncryptContent n st = (CT_OK, t, st') \<longleftrightarrow>
    (\<exists>r1 r2. typed n t (cs_in st) r1 \<and> typed n t r1 r2 \<and>
      st' = st\<lparr>cs_in := r2, cs_out := cs_out st @ [Line ''please input the password to encrypt'',
         Line ''please input the password to encrypt again'']\<rparr>)" (is "?L \<longleftrightarrow> (\<exists>r1 r2. ?R r1 r2)")
proof -
  obtain rc1 u s1 where 1: "GetPassFromInput n True (st\<lparr>cs_echo := False\<rparr>) = (rc1, u, s1)"
    by (metis prod.exhaust_sel)
  obtain rc2 v s2 where 2: "GetPassFromInput n False s1 = (rc2, v, s2)"
    by (metis prod.exhaust_sel)
  have L: "?L \<longleftrightarrow> rc1 = CT_OK \<and> rc2 = CT_OK \<and> u = v \<and> t = u \<and> st' = s2\<lparr>cs_echo := cs_echo st\<rparr>"
    unfolding ReadEncryptContent_def Let_def 1 prod.case 2 by auto
  show ?thesis
  proof
    assume ?L
    then have o: "GetPassFromInput n True (st\<lparr>cs_echo := False\<rparr>) = (CT_OK, t, s1)" "GetPassFromInput n False s1 = (CT_OK, t, s2)"
        "st' = s2\<lparr>cs_echo := cs_echo st\<rparr>"
      using 1 2 L by auto
    then obtain r1 r2 where "typed n t (cs_in st) r1" "typed n t (cs_in s1) r2"
        "s1 = (say (Line ''please input the password to encrypt'') (st\<lparr>cs_echo := False\<rparr>))\<lparr>cs_in := r1\<rparr>"
        "s2 = (say (Line ''please input the password to encrypt again'') s1)\<lparr>cs_in := r2\<rparr>"
      unfolding GetPassFromInput_iff by (auto simp: say_def)
    then have "?R r1 r2"
      using o(3) by (cases st) (simp add: say_def)
    then show "\<exists>r1 r2. ?R r1 r2"
      by blast
  next
    assume "\<exists>r1 r2. ?R r1 r2"
    then obtain r1 r2 where r: "?R r1 r2" by blast
    define m1 where "m1 = (say (Line ''please input the password to encrypt'') (st\<lparr>cs_echo := False\<rparr>))\<lparr>cs_in := r1\<rparr>"
    define m2 where "m2 = (say (Line ''please input the password to encrypt again'') m1)\<lparr>cs_in := r2\<rparr>"
    have "GetPassFromInput n True (st\<lparr>cs_echo := False\<rparr>) = (CT_OK, t, m1)" "GetPassFromInput n False m1 = (CT_OK, t, m2)"
      unfolding GetPassFromInput_iff using r by (auto simp: m1_def m2_def say_def)
    then show ?L
      unfolding L using 1 2 r by (auto simp: m2_def m1_def say_def)
  qed
qed

lemma typed_no_zero: "typed n t i r \<Longrightarrow> c_str t = t"
  by (intro c_str_id) (auto simp: typed_def ends_line_def list_all_iff)

subsection \<open>Stages of a command\<close>

text \<open>Reading leaves the key manager, the server and the terminal as they were; calling the manager does not touch the terminal.\<close>

definition same_km :: "'w cli_state \<Rightarrow> 'w cli_state \<Rightarrow> bool" where
  "same_km st st' \<longleftrightarrow> cs_km st' = cs_km st \<and> cs_w st' = cs_w st \<and> cs_echo st' = cs_echo st"

definition same_io :: "'w cli_state \<Rightarrow> 'w cli_state \<Rightarrow> bool" where
  "same_io st st' \<longleftrightarrow> cs_in st' = cs_in st \<and> cs_out st' = cs_out st \<and> cs_echo st' = cs_echo st"

lemma same_km_simps [simp]:
  "same_km st st" "same_km st (say l st') = same_km st st'" "same_km (say l st) st' = same_km st st'"
  "same_km st (st'\<lparr>cs_in := i\<rparr>) = same_km st st'" "same_km (st\<lparr>cs_in := i\<rparr>) st' = same_km st st'"
  by (simp_all add: same_km_def say_def)

lemma same_km_trans: "same_km a b \<Longrightarrow> same_km b c \<Longrightarrow> same_km a c"
  by (simp add: same_km_def)

lemma same_io_trans: "same_io a b \<Longrightarrow> same_io b c \<Longrightarrow> same_io a c"
  by (simp add: same_io_def)

lemma on_km_io: "on_km f st = (r, st') \<Longrightarrow> same_io st st'"
  by (auto simp: on_km_def same_io_def split: prod.splits)

lemma on_km_km: "on_km f st = (r, st') \<longleftrightarrow> (\<exists>s w. f (cs_km st) (cs_w st) = (r, s, w) \<and> st' = st\<lparr>cs_km := s, cs_w := w\<rparr>)"
  by (auto simp: on_km_def split: prod.splits)

lemma cli_UnInit_simps [simp]:
  "same_io st (cli_UnInit p st') = same_io st st'" "cs_out (cli_UnInit p st) = cs_out st" "cs_echo (cli_UnInit p st) = cs_echo st"
  "cs_w (cli_UnInit p st) = cs_w st" "inited (cs_km (cli_UnInit p st)) = False" "accessToken (cs_km (cli_UnInit p st)) = []"
  by (cases p; simp add: cli_UnInit_def same_io_def Bao_UnInit_def Vault_UnInit_def)+

lemma say_simps [simp]:
  "cs_out (say l st) = cs_out st @ [l]" "cs_in (say l st) = cs_in st" "cs_echo (say l st) = cs_echo st"
  "cs_km (say l st) = cs_km st" "cs_w (say l st) = cs_w st"
  by (simp_all add: say_def)

lemma obind_Ret: "obind m f = (Ret y, s') \<longleftrightarrow> (\<exists>x s. m = (Ret x, s) \<and> f x s = (Ret y, s'))"
  by (cases "(m, f)" rule: obind.cases) auto

lemma obind_state:
  "obind m f = (r, s') \<Longrightarrow> (\<exists>x s. m = (Ret x, s) \<and> f x s = (r, s')) \<or> s' = snd m"
  by (cases "(m, f)" rule: obind.cases) auto

lemma cin_get_state: "cin_get st = (c, s1) \<Longrightarrow> \<exists>i. s1 = st\<lparr>cs_in := i\<rparr>"
  by (rule exI[of _ "cs_in s1"]) (auto simp: cin_get_def split: list.splits)

lemma input_loop_state: "input_loop n ch st = (t, st') \<Longrightarrow> \<exists>i. st' = st\<lparr>cs_in := i\<rparr>"
proof (induction n ch st arbitrary: t st' rule: input_loop.induct)
  case (1 ch st)
  then show ?case
    by (auto intro!: exI[of _ "cs_in st"])
next
  case (2 n ch st)
  obtain c s1 where c: "cin_get st = (c, s1)"
    by (metis prod.exhaust_sel)
  note s1 = cin_get_state[OF this]
  show ?case
  proof (cases "ends_line ch")
    case True
    then show ?thesis
      using "2.prems" by (auto intro!: exI[of _ "cs_in st"])
  next
    case False
    then show ?thesis
      using "2.prems" "2.IH"[OF False c[symmetric] refl] c s1 by (fastforce simp: Let_def split: prod.splits)
  qed
qed

lemma read_line_state:
  assumes "cin_get st = (ch, s1)" "input_loop n ch s1 = (t, s2)"
  shows "\<exists>i. s2 = st\<lparr>cs_in := i\<rparr>"
  using cin_get_state[OF assms(1)] input_loop_state[OF assms(2)] by auto

lemma GetAccessTokenFromInput_state:
  assumes "GetAccessTokenFromInput n st = (rc, t, st')"
  shows "same_km st st'" "rc = CT_OK \<Longrightarrow> t \<noteq> [] \<and> length t < n - 1"
proof -
  let ?s = "say (Line ''please type in your openbao/vault access token'') (st\<lparr>cs_echo := False\<rparr>)"
  obtain ch s1 where c: "cin_get ?s = (ch, s1)"
    by (metis prod.exhaust_sel)
  obtain u s2 where u: "input_loop (n - 1) ch s1 = (u, s2)"
    by (metis prod.exhaust_sel)
  have r: "st' = s2\<lparr>cs_echo := cs_echo st\<rparr>" "rc = CT_OK \<Longrightarrow> t = u \<and> u \<noteq> [] \<and> length u \<noteq> n - 1"
    using assms unfolding GetAccessTokenFromInput_def Let_def c prod.case u by (auto split: if_splits)
  show "same_km st st'"
    using read_line_state[OF c u] r(1) by (auto simp: same_km_def)
  show "rc = CT_OK \<Longrightarrow> t \<noteq> [] \<and> length t < n - 1"
    using r(2) input_loop_length[OF u] by auto
qed

lemma GetPassFromInput_state: "GetPassFromInput n first st = (rc, t, st') \<Longrightarrow> same_km st st'"
proof -
  assume g: "GetPassFromInput n first st = (rc, t, st')"
  let ?s = "say (Line (if first then ''please input the password to encrypt''
                         else ''please input the password to encrypt again'')) st"
  obtain ch s1 where c: "cin_get ?s = (ch, s1)"
    by (metis prod.exhaust_sel)
  obtain u s2 where u: "input_loop (n - 1) ch s1 = (u, s2)"
    by (metis prod.exhaust_sel)
  have "st' = s2"
    using g unfolding GetPassFromInput_def Let_def c prod.case u by (auto split: if_splits)
  then show ?thesis
    using read_line_state[OF c u] by (auto simp: same_km_def)
qed

lemma ReadEncryptContent_state: "ReadEncryptContent n st = (rc, t, st') \<Longrightarrow> same_km st st'"
proof -
  assume g: "ReadEncryptContent n st = (rc, t, st')"
  obtain rc1 u s1 where 1: "GetPassFromInput n True (st\<lparr>cs_echo := False\<rparr>) = (rc1, u, s1)"
    by (metis prod.exhaust_sel)
  obtain rc2 v s2 where 2: "GetPassFromInput n False s1 = (rc2, v, s2)"
    by (metis prod.exhaust_sel)
  show ?thesis
    using g GetPassFromInput_state[OF 1] GetPassFromInput_state[OF 2]
    unfolding ReadEncryptContent_def Let_def 1 prod.case 2 by (auto simp: same_km_def split: if_splits)
qed

lemma ParseDomainIdAndDomainCount_state:
  assumes "ParseDomainIdAndDomainCount ps st = (rc, d, count, st')"
  shows "same_km st st'" "rc = CT_OK \<Longrightarrow> st' = st \<and> d < count \<and> StrToU32 (ps ! 0) 0 = (True, d) \<and> StrToU32 (ps ! 1) 0 = (True, count)"
  using assms by (auto simp: ParseDomainIdAndDomainCount_def ParseDomainId_def not_le Let_def split: prod.splits if_splits)

subsection \<open>Key ids that fit the ciphertext header\<close>

text \<open>A ciphertext has two bytes for the id of its key. The manager creates no larger ids; that the server lists none is a law.\<close>

definition server_ids_fit :: "'w bao_env \<Rightarrow> bool" where
  "server_ids_fit E \<longleftrightarrow> (\<forall>out ps d k. GetJsonFieldIntPairVec E out = Ret (KM_OK, ps) \<longrightarrow> (d, k) \<in> set ps \<longrightarrow> k \<le> 65535)"

definition ids_fit :: "bao_state \<Rightarrow> bool" where
  "ids_fit s \<longleftrightarrow> (\<forall>d k. key_time s d k \<noteq> None \<longrightarrow> k \<le> 65535)"

definition bao_good :: "bao_state \<Rightarrow> bool" where
  "bao_good s \<longleftrightarrow> bao_wf s \<and> domainCount s \<le> 1023 \<and> ids_fit s"

lemma key_time_add_dom:
  "bao_wf s \<Longrightarrow> key_time (add_key d k t s) d' k' \<noteq> None \<Longrightarrow> key_time s d' k' \<noteq> None \<or> (d', k') = (d, k)"
  by (auto simp: key_time_def inner_add map_of_om_insert bao_wf_inner split: if_splits)

lemma key_time_empty [simp]: "key_time (s\<lparr>domainKeyMap := []\<rparr>) d k = None"
  by (simp add: key_time_def inner_def)

lemma prepare_loop_ids:
  "prepare_loop E ps s w = (rc, s', w') \<Longrightarrow> bao_wf s \<Longrightarrow> key_time s' d' k' \<noteq> None \<Longrightarrow>
    key_time s d' k' \<noteq> None \<or> (d', k') \<in> set ps"
proof (induction E ps s w arbitrary: rc s' w' rule: prepare_loop.induct)
  case (2 E d k ps s w)
  obtain rc0 result w0 where r: "bao_run E s (read_cmd s d k) w = ((rc0, result), w0)"
    by (metis prod.exhaust_sel)
  show ?case
    using "2.prems" "2.IH"[OF r[symmetric] refl] r bao_wf_add[of s d k] key_time_add_dom[of s d k]
    by (fastforce simp: Let_def split: if_splits)
qed auto

lemma PrepareMap_ids:
  assumes "PrepareMap E s w = (r, s', w')" "bao_wf s" "ids_fit s" "server_ids_fit E"
  shows "ids_fit s'"
proof -
  obtain rc result w1 where b: "bao_run E s (list_cmd s) w = ((rc, result), w1)"
    by (metis prod.exhaust_sel)
  show ?thesis
  proof (cases "\<exists>ps. GetJsonFieldIntPairVec E result = Ret (KM_OK, ps)")
    case True
    then obtain ps where ps: "GetJsonFieldIntPairVec E result = Ret (KM_OK, ps)" by blast
    obtain r2 s2 w2 where l: "prepare_loop E ps s w1 = (r2, s2, w2)"
      by (metis prod.exhaust_sel)
    have "ids_fit s2"
      using prepare_loop_ids[OF l assms(2)] assms(3,4) ps by (fastforce simp: ids_fit_def server_ids_fit_def)
    then show ?thesis
      using assms(1,3) b ps l by (auto simp: PrepareMap_def split: if_splits)
  next
    case False
    then show ?thesis
      using assms(1,3) b by (auto simp: PrepareMap_def split: if_splits outcome.splits prod.splits)
  qed
qed

lemma ids_fit_cong: "domainKeyMap s' = domainKeyMap s \<Longrightarrow> ids_fit s' = ids_fit s"
  by (simp add: ids_fit_def key_time_def inner_def)

lemma ids_fit_key_time: "key_time s' = key_time s \<Longrightarrow> ids_fit s' = ids_fit s"
  by (simp add: ids_fit_def)

lemma ids_fit_new: "key_time s' = (key_time s)(d := (key_time s d)(k \<mapsto> t)) \<Longrightarrow> k \<le> 65535 \<Longrightarrow> ids_fit s \<Longrightarrow> ids_fit s'"
  by (auto simp: ids_fit_def split: if_splits)

lemma Bao_Init_ids:
  assumes "Bao_Init E path token count s w = (rc, s', w')" "bao_wf s" "ids_fit s" "server_ids_fit E"
  shows "ids_fit s'"
proof (cases "CanonicalPath (be_realpath E) path")
  case None
  then show ?thesis
    using assms by (auto simp: Bao_Init_def split: if_splits)
next
  case (Some x)
  let ?s = "s\<lparr>exePath := x, accessToken := token\<rparr>"
  obtain r t v where p: "PrepareMap E ?s w = (r, t, v)"
    by (metis prod.exhaust_sel)
  have "bao_wf ?s" "ids_fit ?s"
    using assms(2,3) ids_fit_cong[of ?s s] by (simp_all add: bao_wf_def)
  then have "ids_fit t"
    using PrepareMap_ids[OF p] assms(4) by simp
  then show ?thesis
    using assms(1,3) ids_fit_cong[of s' s] ids_fit_cong[of s' t]
    by (auto simp: Bao_Init_def Some Let_def p split: if_splits outcome.splits)
qed

subsection \<open>Starting the key manager\<close>

lemma km_Init_state:
  assumes "km_Init p E path token count s w = (Ret KM_OK, s', w')" "bao_good s" "\<not> inited s" "server_ids_fit E"
  shows "bao_good s' \<and> inited s'"
proof -
  let ?v = "s\<lparr>km_type := VAULT\<rparr>"
  have "bao_good ?v"
    using assms(2) ids_fit_cong[of ?v s] by (simp add: bao_good_def bao_wf_def)
  then show ?thesis
    using assms Init_frame[of E path token count s w "Ret KM_OK" s' w'] Init_frame[of E path token count ?v w "Ret KM_OK" s' w']
      Bao_Init_ids[of E path token count s w "Ret KM_OK" s' w'] Bao_Init_ids[of E path token count ?v w "Ret KM_OK" s' w']
    by (cases p) (auto simp: Vault_Init_def bao_good_def)
qed

lemma Bao_Init_world:
  assumes "Bao_Init E path token count s w = (rc, s', w')" "\<not> inited s" "rc = Ret KM_OK \<or> w' \<noteq> w"
  shows "2 \<le> count \<and> count \<le> 1023 \<and> (\<exists>exe. CanonicalPath (be_realpath E) path = Some exe \<and> be_access E exe)"
  using assms by (auto simp: Bao_Init_def Let_def DOMAINID_MIN_def DOMAINID_MAX_def not_le not_less split: option.splits if_splits)

lemma km_Init_world:
  assumes "km_Init p E path token count s w = (rc, s', w')" "\<not> inited s" "rc = Ret KM_OK \<or> w' \<noteq> w"
  shows "2 \<le> count \<and> count \<le> 1023 \<and> (\<exists>exe. CanonicalPath (be_realpath E) path = Some exe \<and> be_access E exe)"
  using assms Bao_Init_world by (cases p) (fastforce simp: Vault_Init_def)+

lemma InitKm_cases:
  assumes "InitKm C config km count st = (r, st')"
  obtains (Refused) "same_km st st'" "r \<noteq> Ret CT_OK"
  | (Called) p token st0 rc s w where "km = Some p" "same_km st st0" "token \<noteq> []"
      "km_Init p (ce_bao C) (kmcPath (thirdKmc config)) token count (cs_km st) (cs_w st) = (rc, s, w)"
      "st' = st0\<lparr>cs_km := s, cs_w := w\<rparr>" "r = Ret CT_OK \<longleftrightarrow> rc = Ret KM_OK"
proof (cases km)
  case None
  then have "st' = st" "r = Ret CT_PARAM_INVALID"
    using assms by (simp_all add: InitKm_def)
  then show thesis
    by (intro Refused) simp_all
next
  case (Some p)
  obtain rc0 token st0 where t: "GetAccessTokenFromInput 128 st = (rc0, token, st0)"
    by (metis prod.exhaust_sel)
  note k = GetAccessTokenFromInput_state[OF t]
  obtain rc s w where i: "km_Init p (ce_bao C) (kmcPath (thirdKmc config)) token count (cs_km st0) (cs_w st0) = (rc, s, w)"
    by (metis prod.exhaust_sel)
  show thesis
  proof (cases "rc0 = CT_OK")
    case False
    then have "st' = st0" "r = Ret rc0"
      using assms Some t by (simp_all add: InitKm_def)
    then show thesis
      using k(1) False by (intro Refused) simp_all
  next
    case True
    have o: "on_km (km_Init p (ce_bao C) (kmcPath (thirdKmc config)) token count) st0 = (rc, st0\<lparr>cs_km := s, cs_w := w\<rparr>)"
      by (simp add: on_km_def i)
    have e: "obind (rc, st0\<lparr>cs_km := s, cs_w := w\<rparr>) (\<lambda>ret st. (Ret (if ret \<noteq> KM_OK then CT_ENCRYPT_ERROR else CT_OK), st)) = (r, st')"
      using assms True unfolding InitKm_def Some by (simp add: t o)
    show thesis
    proof (rule Called[OF Some k(1), of token rc s w])
      show "st' = st0\<lparr>cs_km := s, cs_w := w\<rparr>"
        using e by (cases rc) simp_all
      show "r = Ret CT_OK \<longleftrightarrow> rc = Ret KM_OK"
        using e by (cases rc) (auto split: if_splits)
      show "token \<noteq> []"
        using k(2)[OF True] by simp
      show "km_Init p (ce_bao C) (kmcPath (thirdKmc config)) token count (cs_km st) (cs_w st) = (rc, s, w)"
        using i k(1) by (simp add: same_km_def)
    qed
  qed
qed

lemma InitKm_OK:
  assumes "InitKm C config km count st = (Ret CT_OK, st')" "bao_good (cs_km st)" "\<not> inited (cs_km st)" "server_ids_fit (ce_bao C)"
  shows "km \<noteq> None \<and> bao_good (cs_km st')"
  using assms(1)
proof (cases rule: InitKm_cases)
  case (Called p token st0 rc s w)
  then show ?thesis
    using km_Init_state[OF _ assms(2-4), of p] by (auto simp: same_km_def)
qed simp

lemma latest_key_state:
  assumes "latest_key C p d st = (Ret r, st')" "bao_good (cs_km st)"
  shows "bao_good (cs_km st')"
proof -
  obtain key k s' w' where g: "GetLatestKey (ce_bao C) d 0 (cs_km st) (cs_w st) = ((key, k), s', w')"
    by (metis prod.exhaust_sel)
  have v: "Vault_GetLatestKey (ce_bao C) d 0 (cs_km st) (cs_w st) = ((key, k), s', w')"
    by (simp add: Vault_GetLatestKey_def g)
  show ?thesis
    using assms GetLatestKey_frame[OF g] ids_fit_key_time[of s' "cs_km st"] unfolding latest_key_def bao_good_def
    by (auto simp: on_km_def g v split: KeyManagerTy.splits if_splits)
qed

lemma km_CreateKey_state:
  assumes "km_CreateKey p E d s w = (r, s', w')" "bao_good s"
  shows "bao_good s'"
proof -
  have c: "CreateKey E d s w = (r, s', w')" and wf: "bao_wf s"
    using assms by (cases p; simp add: Vault_CreateKey_def bao_good_def)+
  note o = CreateKey_core[OF wf c]
  have "ids_fit s'"
  proof (cases r)
    case (Ret x)
    then show ?thesis
      using o assms(2) ids_fit_new[of s' s d] ids_fit_key_time[of s' s]
      by (cases x; cases "fst x") (auto simp: bao_good_def)
  qed (use o assms(2) ids_fit_key_time[of s' s] in \<open>simp_all add: bao_good_def\<close>)
  then show ?thesis
    using o assms(2) by (simp add: bao_good_def)
qed

lemma PrepareKmDomainKey_state:
  assumes "PrepareKmDomainKey C p d st = (Ret r, st')" "bao_good (cs_km st)"
  shows "bao_good (cs_km st')"
proof -
  obtain x s1 where 1: "latest_key C p d st = (Ret x, s1)"
    and 2: "(case x of None \<Rightarrow> (Ret CT_INTERNAL_ERROR, s1)
      | Some k \<Rightarrow> if k = [] then obind (on_km (km_CreateKey p (ce_bao C) d) s1) (\<lambda>r st. (Ret CT_OK, st)) else (Ret CT_OK, s1)) =
      (Ret r, st')"
    using assms(1) unfolding PrepareKmDomainKey_def obind_Ret by blast
  note l = latest_key_state[OF 1 assms(2)]
  have c: "bao_good (cs_km s2)" if "on_km (km_CreateKey p (ce_bao C) d) s1 = (Ret y, s2)" for y s2
    using that km_CreateKey_state[of p "ce_bao C" d "cs_km s1" "cs_w s1"] l by (auto simp: on_km_km)
  show ?thesis
    using 2 l c by (auto simp: obind_Ret split: option.splits if_splits)
qed

lemma CheckDomainKey_state:
  assumes "CheckDomainKey C p d st = (Ret r, st')" "bao_good (cs_km st)"
  shows "bao_good (cs_km st')"
proof -
  obtain x s1 where 1: "latest_key C p d st = (Ret x, s1)" and 2: "s1 = st'"
    using assms(1) unfolding CheckDomainKey_def obind_Ret by (auto split: option.splits)
  show ?thesis
    using latest_key_state[OF 1 assms(2)] 2 by simp
qed

subsection \<open>Encrypting\<close>

text \<open>
  The ciphertext \<open>c\<close> is the plaintext \<open>p\<close> under the newest key of the domain: the manager decrypts it to \<open>p\<close>, and so does
  every later state that still has the key and gets the same value exported for it.
\<close>

definition decryptable :: "'w bao_env \<Rightarrow> km_ptr option \<Rightarrow> CryptoSymAlg \<Rightarrow> u32 \<Rightarrow> bytes \<Rightarrow> bytes \<Rightarrow> bool" where
  "decryptable E km a d c p \<longleftrightarrow> (\<exists>s w k.
     bao_good s \<and> key_time s d k \<noteq> None \<and> (\<forall>k'. key_time s d k' \<noteq> None \<longrightarrow> k' \<le> k) \<and>
     fst (KmCryptor_Decrypt E km a c d s w) = Ret (CRC_OK, p) \<and>
     (\<forall>t v q. CheckEncryptAndDecryptParams d a t = KM_OK \<longrightarrow> key_time t d k \<noteq> None \<longrightarrow>
        fst (export_key E t d k v) = fst (export_key E s d k w) \<longrightarrow> Borrow (km_Type q t) = Some q \<longrightarrow>
        fst (KmCryptor_Decrypt E (Some q) a c d t v) = Ret (CRC_OK, p)))"

lemma KmCryptor_Encrypt_decryptable:
  assumes law: "crypto_law (be_crypto E)" and good: "bao_good s"
    and enc: "KmCryptor_Encrypt E km a p d s w = (Ret (CRC_OK, c), s', w')"
  shows "decryptable E km a d c p"
proof -
  let ?k = "om_last (inner s d)"
  have wf: "bao_wf s" "domainCount s \<le> 1023" "ids_fit s"
    using good by (simp_all add: bao_good_def)
  note o = Bao_Encrypt_OK[OF KmCryptor_Encrypt_OK[OF enc] wf(1)]
  then have k: "key_time s d ?k \<noteq> None"
    by (simp add: key_time_def om_last_in)
  then have "?k \<le> 65535"
    using wf(3) by (simp add: ids_fit_def)
  note D = KmCryptor_roundtrip_core[OF law wf(1,2) this enc]
  have m: "k' \<le> ?k" if "key_time s d k' \<noteq> None" for k'
    using that om_last_max[OF bao_wf_inner[OF wf(1)]] by (auto simp: key_time_def)
  obtain q where q: "km = Some q" "Borrow (km_Type q s) = Some q"
    using enc by (cases km; cases "the km"; cases "km_type s") (auto simp: KmCryptor_Encrypt_def)
  have "CheckEncryptAndDecryptParams d a s = KM_OK"
    unfolding CheckEncryptAndDecryptParams_OK using o by blast
  then have "fst (KmCryptor_Decrypt E km a c d s w) = Ret (CRC_OK, p)"
    unfolding q(1) using D[OF q(2) _ k refl] by simp
  then show ?thesis
    unfolding decryptable_def using good k m D by blast
qed

text \<open>The text of a ciphertext: its length, and that it can be typed.\<close>

lemma KmCryptor_Encrypt_text:
  assumes law: "crypto_law (be_crypto E)" and good: "bao_good s"
    and enc: "KmCryptor_Encrypt E km a p d s w = (Ret (CRC_OK, c), s', w')"
  shows "length c = 4 * ((length p + 52) div 3) \<and> list_all (\<lambda>x. \<not> ends_line x) c"
proof -
  obtain key n x where o: "NativeCryptor_Encrypt (be_crypto E) a p key CCSEC_UNSPECIFIED = ((CRC_OK, n), x)"
    "c = Base64Encode (Some (ConstructCipherHeader a d (om_last (inner s d)) @ n))"
    using Bao_Encrypt_OK[OF KmCryptor_Encrypt_OK[OF enc]] good unfolding bao_good_def by blast
  have ln: "length n = 44 + length p"
    using NativeCryptor_Encrypt_layout[OF law o(1)] by blast
  have "\<not> ends_line x" if "x \<in> set c" for x
    using base64_alphabet[of x] that unfolding o(2) by (auto simp: ends_line_def IsBase64_def isalnum_c_def isalpha_c_def isdigit_c_def)
  then show ?thesis
    unfolding o(2) using ln by (simp add: base64_length list_all_iff)
qed

lemma EncryptKey_Encrypt_OK:
  assumes run: "EncryptKey_Encrypt C config d count t st = (Ret (CT_OK, c), st')"
    and start: "bao_good (cs_km st)" "\<not> inited (cs_km st)" "server_ids_fit (ce_bao C)"
  shows "\<exists>s w s' w'. bao_good s \<and>
    KmCryptor_Encrypt (ce_bao C) (GetKm config) (ConfigParseCryptoAlg config) (c_str t) d s w = (Ret (CRC_OK, c), s', w') \<and>
    \<not> inited (cs_km st') \<and> accessToken (cs_km st') = []"
proof -
  obtain rc s1 where 1: "InitKm C config (GetKm config) count st = (Ret rc, s1)"
    using run unfolding EncryptKey_Encrypt_def Let_def obind_Ret by blast
  then have rc: "rc = CT_OK"
    using run unfolding EncryptKey_Encrypt_def Let_def by (cases "rc = CT_OK") auto
  note i = InitKm_OK[OF 1[unfolded rc] start]
  obtain p where p: "GetKm config = Some p"
    using i by auto
  obtain r2 s2 where 2: "PrepareKmDomainKey C p d s1 = (Ret r2, s2)"
    using run 1 rc unfolding EncryptKey_Encrypt_def Let_def by (auto simp: p obind_Ret)
  then have r2: "r2 = CT_OK"
    using run 1 rc unfolding EncryptKey_Encrypt_def Let_def by (cases "r2 = CT_OK") (auto simp: p)
  note j = PrepareKmDomainKey_state[OF 2]
  obtain r3 c3 s3 where 3: "on_km (KmCryptor_Encrypt (ce_bao C) (Some p) (ConfigParseCryptoAlg config) (c_str t) d) s2 = (Ret (r3, c3), s3)"
    and e: "r3 = CRC_OK" "c3 = c" "st' = cli_UnInit p s3"
    using run 1 2 rc r2 unfolding EncryptKey_Encrypt_def Let_def by (auto simp: p obind_Ret split: if_splits)
  obtain s' w' where "KmCryptor_Encrypt (ce_bao C) (Some p) (ConfigParseCryptoAlg config) (c_str t) d (cs_km s2) (cs_w s2) =
      (Ret (CRC_OK, c), s', w')"
    using 3 e(1,2) unfolding on_km_km by blast
  moreover have "bao_good (cs_km s2)" "\<not> inited (cs_km st')" "accessToken (cs_km st') = []"
    using i j e(3) by simp_all
  ultimately show ?thesis
    unfolding p by blast
qed

lemma ReEncrypt_OK:
  assumes run: "ReEncrypt C config d count t st = (Ret (CT_OK, c), st')"
    and start: "bao_good (cs_km st)" "\<not> inited (cs_km st)" "server_ids_fit (ce_bao C)"
  shows "\<exists>p s w s1 w1 s2 w2. bao_good s \<and>
    KmCryptor_Decrypt (ce_bao C) (GetKm config) (ConfigParseCryptoAlg config) (c_str t) d s w = (Ret (CRC_OK, p), w1) \<and>
    KmCryptor_Encrypt (ce_bao C) (GetKm config) (ConfigParseCryptoAlg config) p d s w1 = (Ret (CRC_OK, c), s2, w2) \<and>
    \<not> inited (cs_km st') \<and> accessToken (cs_km st') = []"
proof -
  obtain rc s1 where 1: "InitKm C config (GetKm config) count st = (Ret rc, s1)"
    using run unfolding ReEncrypt_def Let_def obind_Ret by blast
  then have rc: "rc = CT_OK"
    using run unfolding ReEncrypt_def Let_def by (cases "rc = CT_OK") auto
  note i = InitKm_OK[OF 1[unfolded rc] start]
  obtain p where p: "GetKm config = Some p"
    using i by auto
  obtain r2 s2 where 2: "CheckDomainKey C p d s1 = (Ret r2, s2)"
    using run 1 rc unfolding ReEncrypt_def Let_def by (auto simp: p obind_Ret)
  then have r2: "r2 = CT_OK"
    using run 1 rc unfolding ReEncrypt_def Let_def by (cases "r2 = CT_OK") (auto simp: p)
  note j = CheckDomainKey_state[OF 2]
  obtain r w1 where 3: "KmCryptor_Decrypt (ce_bao C) (Some p) (ConfigParseCryptoAlg config) (c_str t) d (cs_km s2) (cs_w s2) = (r, w1)"
    by (metis prod.exhaust_sel)
  have o: "on_km (\<lambda>s w. let (r, w) = KmCryptor_Decrypt (ce_bao C) (Some p) (ConfigParseCryptoAlg config) (c_str t) d s w in (r, s, w)) s2 =
      (r, s2\<lparr>cs_w := w1\<rparr>)"
    by (simp add: on_km_def 3)
  obtain q where q: "r = Ret (CRC_OK, q)"
    using run 1 2 rc r2 o unfolding ReEncrypt_def Let_def by (cases r) (auto simp: p split: if_splits)
  obtain s4 where 4: "on_km (KmCryptor_Encrypt (ce_bao C) (Some p) (ConfigParseCryptoAlg config) q d) (s2\<lparr>cs_w := w1\<rparr>) = (Ret (CRC_OK, c), s4)"
    and e: "st' = cli_UnInit p s4"
    using run 1 2 rc r2 o q unfolding ReEncrypt_def Let_def by (auto simp: p obind_Ret split: if_splits)
  obtain s' w' where "KmCryptor_Encrypt (ce_bao C) (Some p) (ConfigParseCryptoAlg config) q d (cs_km s2) w1 = (Ret (CRC_OK, c), s', w')"
    using 4 unfolding on_km_km by auto
  moreover have "bao_good (cs_km s2)" "\<not> inited (cs_km st')" "accessToken (cs_km st') = []"
    using i j e by simp_all
  ultimately show ?thesis
    using 3 unfolding p q by blast
qed

subsection \<open>Sizes\<close>

lemma length_dec_ref_tight: "4 * length (dec_ref s) \<le> 3 * length s"
proof (induction s rule: dec_ref.induct)
  case (1 a b c d cs)
  then show ?case by simp
qed (simp_all add: decode_tail_def)

lemma Base64Decode_tight: "4 * length (Base64Decode s) \<le> 3 * length s"
proof -
  have "length (b64_body s) \<le> length s"
    by (simp add: b64_body_def length_takeWhile_le)
  then show ?thesis
    unfolding Base64Decode_ref using length_dec_ref_tight[of "b64_body s"] by linarith
qed

lemma NativeCryptor_Decrypt_length:
  assumes "NativeCryptor_Decrypt E a c k s = ((CRC_OK, p), s')"
  shows "length p \<le> length c - 44"
proof -
  let ?n = "of_nat (length c) :: u32"
  have c: "length c < CIPHERTEXT_MAX_LENGTH"
    using assms by (auto simp: NativeCryptor_Decrypt_def Let_def not_le split: if_splits)
  then have n: "unat ?n = length c"
    by (simp add: CIPHERTEXT_MAX_LENGTH_def unat_of_nat take_bit_nat_eq_self)
  have e: "unat (EstimatedPlainLen ?n) = length c - 44" if "44 < length c"
  proof -
    have "unat (?n - 44) = length c - 44"
      using that n by (subst unat_sub) (simp_all add: word_le_nat_alt)
    then show ?thesis
      using that n by (simp add: EstimatedPlainLen_def layout_defs)
  qed
  obtain ret buf len s2 where d: "KeyDecrypt E k (of_nat (length k)) c ?n (stack_buf E (unat (EstimatedCipherLen ?n)))
      (EstimatedCipherLen ?n) (GetCipherSuite a) = ((ret, buf, len), s2)"
    by (metis prod.exhaust_sel)
  have p: "ret = CCSEC_CRYPT_OK" "p = take (unat len) buf"
    using assms unfolding NativeCryptor_Decrypt_def Let_def d by (auto split: if_splits)
  have "44 < length c \<and> len = EstimatedPlainLen ?n"
    using d p(1) n by (auto simp: KeyDecrypt_def Engine_Decrypt_def OpensslDecrypt_def OpensslCcmDecrypt_def InitCrypto_def Let_def
        layout_defs not_le split: if_splits option.splits)
  then show ?thesis
    using e p(2) by simp
qed

lemma KmCryptor_Decrypt_length:
  assumes "KmCryptor_Decrypt E km a c d s w = (Ret (CRC_OK, p), w')" "length c \<le> 148"
  shows "length p \<le> 61"
proof -
  obtain r w1 where b: "Bao_Decrypt E a d c s w = (r, w1)"
    by (metis prod.exhaust_sel)
  have "cryptor_result r = (CRC_OK, p)"
    using assms(1) b by (auto simp: KmCryptor_Decrypt_def Vault_Decrypt_def split: option.splits KeyManagerTy.splits if_splits)
  then have "Bao_Decrypt E a d c s w = ((KM_OK, p), w1)"
    using b by (simp add: cryptor_result_OK)
  then obtain k where v: "VaultDecrypt E a d k (drop 6 (Base64Decode c)) s w = (p, w1)" "p \<noteq> []"
    unfolding Bao_Decrypt_OK by blast
  obtain key w2 where x: "export_key E s d k w = (key, w2)"
    by (metis prod.exhaust_sel)
  obtain rc q y where n: "NativeCryptor_Decrypt (be_crypto E) a (drop 6 (Base64Decode c)) key CCSEC_UNSPECIFIED = ((rc, q), y)"
    by (metis prod.exhaust_sel)
  have "rc = CRC_OK" "q = p"
    using v x n by (auto simp: VaultDecrypt_def split: if_splits)
  then have "length p \<le> length (Base64Decode c) - 6 - 44"
    using NativeCryptor_Decrypt_length[OF n[unfolded \<open>rc = CRC_OK\<close>]] by simp
  then show ?thesis
    using Base64Decode_tight[of c] assms(2) by linarith
qed

subsection \<open>What the commands print\<close>

lemma fresh_good: "bao_good bao_init_state \<and> \<not> inited bao_init_state"
  by (simp add: bao_init_state_def bao_good_def bao_wf_def om_wf_def ids_fit_def key_time_def inner_def)

lemma EncryptKeyCmd_OK:
  assumes law: "server_ids_fit (ce_bao C)" and start: "cs_km st = bao_init_state"
    and run: "EncryptKeyCmd_HandleCmd C params config st = (Ret CT_OK, st')"
  obtains d count t c r1 r2 s w s' w' where "StrToU32 (params ! 0) 0 = (True, d)" "StrToU32 (params ! 1) 0 = (True, count)" "d < count"
    "typed 33 t (cs_in st) r1" "typed 33 t r1 r2" "last (cs_out st') = Line (''encrypted: '' @ c)" "bao_good s"
    "KmCryptor_Encrypt (ce_bao C) (GetKm config) (ConfigParseCryptoAlg config) t d s w = (Ret (CRC_OK, c), s', w')"
proof -
  obtain rc d count s1 where 1: "ParseDomainIdAndDomainCount params st = (rc, d, count, s1)"
    by (metis prod.exhaust_sel)
  have rc: "rc = CT_OK"
    using run 1 unfolding EncryptKeyCmd_HandleCmd_def Let_def by (auto split: if_splits)
  note P = ParseDomainIdAndDomainCount_state(2)[OF 1 rc]
  obtain rc2 t s2 where 2: "ReadEncryptContent 33 s1 = (rc2, t, s2)"
    by (metis prod.exhaust_sel)
  have rc2: "rc2 = CT_OK"
    using run 1 2 rc unfolding EncryptKeyCmd_HandleCmd_def Let_def by (auto split: if_splits)
  obtain r1 r2 where t: "typed 33 t (cs_in st) r1" "typed 33 t r1 r2"
    using 2 P unfolding rc2 ReadEncryptContent_iff by blast
  obtain c s3 where 3: "EncryptKey_Encrypt C config d count t s2 = (Ret (CT_OK, c), s3)" "st' = say (Line (''encrypted: '' @ c)) s3"
    using run 1 2 rc rc2 unfolding EncryptKeyCmd_HandleCmd_def Let_def by (auto simp: obind_Ret split: if_splits)
  have "cs_km s2 = bao_init_state"
    using ReadEncryptContent_state[OF 2] P start by (simp add: same_km_def)
  then show thesis
    using EncryptKey_Encrypt_OK[OF 3(1) _ _ law] fresh_good typed_no_zero[OF t(1)] P t that 3(2) by auto
qed

lemma ReEncryptCmd_OK:
  assumes law: "server_ids_fit (ce_bao C)" and start: "cs_km st = bao_init_state"
    and run: "ReEncryptCmd_HandleCmd C params config st = (Ret CT_OK, st')"
  obtains d count t c p r1 r2 s w w1 s' w' where "StrToU32 (params ! 0) 0 = (True, d)" "StrToU32 (params ! 1) 0 = (True, count)" "d < count"
    "typed 150 t (cs_in st) r1" "typed 150 t r1 r2" "last (cs_out st') = Line (''success to reEncrypt: '' @ c)" "bao_good s"
    "KmCryptor_Decrypt (ce_bao C) (GetKm config) (ConfigParseCryptoAlg config) t d s w = (Ret (CRC_OK, p), w1)"
    "KmCryptor_Encrypt (ce_bao C) (GetKm config) (ConfigParseCryptoAlg config) p d s w1 = (Ret (CRC_OK, c), s', w')"
proof -
  obtain rc d count s1 where 1: "ParseDomainIdAndDomainCount params st = (rc, d, count, s1)"
    by (metis prod.exhaust_sel)
  have rc: "rc = CT_OK"
    using run 1 unfolding ReEncryptCmd_HandleCmd_def Let_def by (auto split: if_splits)
  note P = ParseDomainIdAndDomainCount_state(2)[OF 1 rc]
  obtain rc2 t s2 where 2: "ReadEncryptContent 150 s1 = (rc2, t, s2)"
    by (metis prod.exhaust_sel)
  have rc2: "rc2 = CT_OK"
    using run 1 2 rc unfolding ReEncryptCmd_HandleCmd_def Let_def by (auto split: if_splits)
  obtain r1 r2 where t: "typed 150 t (cs_in st) r1" "typed 150 t r1 r2"
    using 2 P unfolding rc2 ReadEncryptContent_iff by blast
  obtain c s3 where 3: "ReEncrypt C config d count t s2 = (Ret (CT_OK, c), s3)" "st' = say (Line (''success to reEncrypt: '' @ c)) s3"
    using run 1 2 rc rc2 unfolding ReEncryptCmd_HandleCmd_def Let_def by (auto simp: obind_Ret split: if_splits)
  have "cs_km s2 = bao_init_state"
    using ReadEncryptContent_state[OF 2] P start by (simp add: same_km_def)
  then show thesis
    using ReEncrypt_OK[OF 3(1) _ _ law] fresh_good typed_no_zero[OF t(1)] P t that 3(2) by auto
qed



text \<open>What \<open>--encrypt\<close> and \<open>--reEncrypt\<close> print can be typed into \<open>--reEncrypt\<close>: it fits the buffer, is not empty and has no
  character that ends a line.\<close>

lemma Cli_ciphertext_retypable:
  assumes law: "crypto_law (be_crypto (ce_bao C))" "server_ids_fit (ce_bao C)" and start: "cs_km st = bao_init_state"
    and c: "c = EncryptKeyCmd \<or> c = ReEncryptCmd" and run: "HandleCmd C c params config st = (Ret CT_OK, st')"
  shows "\<exists>text. last (cs_out st') = Line ((if c = EncryptKeyCmd then ''encrypted: '' else ''success to reEncrypt: '') @ text) \<and>
    typed 150 text (text @ CHR 0x0A # r) r"
proof -
  have fits: "typed 150 x (x @ CHR 0x0A # r) r"
    if "KmCryptor_Encrypt (ce_bao C) km a p d s w = (Ret (CRC_OK, x), s', w')" "bao_good s" "length p \<le> 61" for km a p d s w x s' w'
  proof -
    note t = KmCryptor_Encrypt_text[OF law(1) that(2,1)]
    have "4 * ((length p + 52) div 3) \<le> 4 * (113 div 3)"
      using that(3) by (intro mult_le_mono2 div_le_mono) simp
    moreover have "x \<noteq> []"
      using t by auto
    ultimately show ?thesis
      using t by (auto simp: typed_def ends_line_def)
  qed
  show ?thesis
  proof (cases "c = EncryptKeyCmd")
    case True
    show ?thesis
    proof (rule EncryptKeyCmd_OK[OF law(2) start run[unfolded True HandleCmd.simps]])
      fix d t x r1 s w s' w'
      assume o: "typed 33 t (cs_in st) r1" "last (cs_out st') = Line (''encrypted: '' @ x)" "bao_good s"
        "KmCryptor_Encrypt (ce_bao C) (GetKm config) (ConfigParseCryptoAlg config) t d s w = (Ret (CRC_OK, x), s', w')"
      have "length t \<le> 61"
        using o(1) by (simp add: typed_def)
      then show ?thesis
        using fits[OF o(4,3)] o(2) True by auto
    qed
  next
    case False
    then have r: "c = ReEncryptCmd" using c by simp
    show ?thesis
    proof (rule ReEncryptCmd_OK[OF law(2) start run[unfolded r HandleCmd.simps]])
      fix d t x p r1 s w w1 s' w'
      assume o: "typed 150 t (cs_in st) r1" "last (cs_out st') = Line (''success to reEncrypt: '' @ x)" "bao_good s"
        "KmCryptor_Decrypt (ce_bao C) (GetKm config) (ConfigParseCryptoAlg config) t d s w = (Ret (CRC_OK, p), w1)"
        "KmCryptor_Encrypt (ce_bao C) (GetKm config) (ConfigParseCryptoAlg config) p d s w1 = (Ret (CRC_OK, x), s', w')"
      have "length p \<le> 61"
        using KmCryptor_Decrypt_length[OF o(4)] o(1) by (simp add: typed_def)
      then show ?thesis
        using fits[OF o(5,3)] o(2) False by auto
    qed
  qed
qed

subsection \<open>What reaches the server\<close>

definition may_access :: "'w cli_env \<Rightarrow> CliConfig \<Rightarrow> u32 \<Rightarrow> bool" where
  "may_access C config count \<longleftrightarrow> 2 \<le> count \<and> count \<le> 1023 \<and> (cfg_kmcType config = ''openbao'' \<or> cfg_kmcType config = ''vault'') \<and>
     (\<exists>exe. CanonicalPath (be_realpath (ce_bao C)) (kmcPath (thirdKmc config)) = Some exe \<and> be_access (ce_bao C) exe)"

lemma InitKm_access:
  assumes "InitKm C config (GetKm config) count st = (r, st')" "\<not> inited (cs_km st)" "r = Ret CT_OK \<or> cs_w st' \<noteq> cs_w st"
  shows "may_access C config count"
  using assms(1)
proof (cases rule: InitKm_cases)
  case (Called p token st0 rc s w)
  have "cfg_kmcType config = ''openbao'' \<or> cfg_kmcType config = ''vault''"
    using Called(1) by (auto simp: GetKm_def split: if_splits)
  moreover have "rc = Ret KM_OK \<or> w \<noteq> cs_w st"
    using assms(3) Called(5,6) by auto
  ultimately show ?thesis
    using km_Init_world[OF Called(4) assms(2)] by (simp add: may_access_def)
qed (use assms(3) in \<open>auto simp: same_km_def\<close>)

lemma after_InitKm:
  assumes "obind (InitKm C config (GetKm config) count st) f = (r, st')" "\<not> inited (cs_km st)" "cs_w st' \<noteq> cs_w st"
    and fail: "\<And>rc s. rc \<noteq> CT_OK \<Longrightarrow> cs_w (snd (f rc s)) = cs_w s"
  shows "may_access C config count"
proof -
  obtain r1 s1 where i: "InitKm C config (GetKm config) count st = (r1, s1)"
    by (metis prod.exhaust_sel)
  have "r1 = Ret CT_OK \<or> cs_w s1 \<noteq> cs_w st"
    using obind_state[OF assms(1)] fail assms(3) unfolding i by (metis fst_conv prod.inject snd_conv)
  then show ?thesis
    using InitKm_access[OF i assms(2)] by simp
qed

lemma EncryptKey_Encrypt_access:
  assumes "EncryptKey_Encrypt C config d count t st = (r, st')" "\<not> inited (cs_km st)" "cs_w st' \<noteq> cs_w st"
  shows "may_access C config count"
  using assms(1) unfolding EncryptKey_Encrypt_def Let_def by (rule after_InitKm[OF _ assms(2,3)]) simp

lemma ReEncrypt_access:
  assumes "ReEncrypt C config d count t st = (r, st')" "\<not> inited (cs_km st)" "cs_w st' \<noteq> cs_w st"
  shows "may_access C config count"
  using assms(1) unfolding ReEncrypt_def Let_def by (rule after_InitKm[OF _ assms(2,3)]) simp

text \<open>The text a command reads twice before it starts the manager.\<close>

definition confirmed :: "cmd \<Rightarrow> bytes \<Rightarrow> bool" where
  "confirmed c i \<longleftrightarrow> (c = EncryptKeyCmd \<longrightarrow> (\<exists>t r1 r2. typed 33 t i r1 \<and> typed 33 t r1 r2)) \<and>
     (c = ReEncryptCmd \<longrightarrow> (\<exists>t r1 r2. typed 150 t i r1 \<and> typed 150 t r1 r2))"

lemma EncryptKeyCmd_access:
  assumes run: "EncryptKeyCmd_HandleCmd C params config st = (r, st')" and n: "\<not> inited (cs_km st)" and w: "cs_w st' \<noteq> cs_w st"
  shows "\<exists>d count. length params = 2 \<and> StrToU32 (params ! 0) 0 = (True, d) \<and> StrToU32 (params ! 1) 0 = (True, count) \<and> d < count \<and>
    may_access C config count \<and> confirmed EncryptKeyCmd (cs_in st)"
proof -
  obtain rc d count s1 where 1: "ParseDomainIdAndDomainCount params st = (rc, d, count, s1)"
    by (metis prod.exhaust_sel)
  note P1 = ParseDomainIdAndDomainCount_state(1)[OF 1] and P2 = ParseDomainIdAndDomainCount_state(2)[OF 1]
  obtain rc2 t s2 where 2: "ReadEncryptContent 33 s1 = (rc2, t, s2)"
    by (metis prod.exhaust_sel)
  note R = ReadEncryptContent_state[OF 2]
  have len: "length params = 2" and rc: "rc = CT_OK" and rc2: "rc2 = CT_OK"
    using run w P1 R unfolding EncryptKeyCmd_HandleCmd_def Let_def 1 prod.case 2 by (auto simp: same_km_def split: if_splits)
  note P = P2[OF rc]
  have "\<exists>r1 r2. typed 33 t (cs_in st) r1 \<and> typed 33 t r1 r2"
    using 2 P unfolding rc2 ReadEncryptContent_iff by blast
  then have c: "confirmed EncryptKeyCmd (cs_in st)"
    by (auto simp: confirmed_def)
  obtain r3 s3 where 3: "EncryptKey_Encrypt C config d count t s2 = (r3, s3)"
    by (metis prod.exhaust_sel)
  have s2: "cs_km s2 = cs_km st" "cs_w s2 = cs_w st"
    using R P by (simp_all add: same_km_def)
  have "cs_w s3 \<noteq> cs_w s2"
    using run w len rc rc2 s2 unfolding EncryptKeyCmd_HandleCmd_def Let_def 1 prod.case 2 3
    by (cases r3) (auto split: prod.splits if_splits)
  then have "may_access C config count"
    using EncryptKey_Encrypt_access[OF 3] n s2 by simp
  then show ?thesis
    using P len c by blast
qed

lemma ReEncryptCmd_access:
  assumes run: "ReEncryptCmd_HandleCmd C params config st = (r, st')" and n: "\<not> inited (cs_km st)" and w: "cs_w st' \<noteq> cs_w st"
  shows "\<exists>d count. length params = 2 \<and> StrToU32 (params ! 0) 0 = (True, d) \<and> StrToU32 (params ! 1) 0 = (True, count) \<and> d < count \<and>
    may_access C config count \<and> confirmed ReEncryptCmd (cs_in st)"
proof -
  obtain rc d count s1 where 1: "ParseDomainIdAndDomainCount params st = (rc, d, count, s1)"
    by (metis prod.exhaust_sel)
  note P1 = ParseDomainIdAndDomainCount_state(1)[OF 1] and P2 = ParseDomainIdAndDomainCount_state(2)[OF 1]
  obtain rc2 t s2 where 2: "ReadEncryptContent 150 s1 = (rc2, t, s2)"
    by (metis prod.exhaust_sel)
  note R = ReadEncryptContent_state[OF 2]
  have len: "length params = 2" and rc: "rc = CT_OK" and rc2: "rc2 = CT_OK"
    using run w P1 R unfolding ReEncryptCmd_HandleCmd_def Let_def 1 prod.case 2 by (auto simp: same_km_def split: if_splits)
  note P = P2[OF rc]
  have "\<exists>r1 r2. typed 150 t (cs_in st) r1 \<and> typed 150 t r1 r2"
    using 2 P unfolding rc2 ReadEncryptContent_iff by blast
  then have c: "confirmed ReEncryptCmd (cs_in st)"
    by (auto simp: confirmed_def)
  obtain r3 s3 where 3: "ReEncrypt C config d count t s2 = (r3, s3)"
    by (metis prod.exhaust_sel)
  have s2: "cs_km s2 = cs_km st" "cs_w s2 = cs_w st"
    using R P by (simp_all add: same_km_def)
  have "cs_w s3 \<noteq> cs_w s2"
    using run w len rc rc2 s2 unfolding ReEncryptCmd_HandleCmd_def Let_def 1 prod.case 2 3
    by (cases r3) (auto split: prod.splits if_splits)
  then have "may_access C config count"
    using ReEncrypt_access[OF 3] n s2 by simp
  then show ?thesis
    using P len c by blast
qed

lemma CreateKeyCmd_access:
  assumes run: "CreateKeyCmd_HandleCmd C params config st = (r, st')" and n: "\<not> inited (cs_km st)" and w: "cs_w st' \<noteq> cs_w st"
  shows "\<exists>d count. length params = 2 \<and> StrToU32 (params ! 0) 0 = (True, d) \<and> StrToU32 (params ! 1) 0 = (True, count) \<and> d < count \<and>
    may_access C config count"
proof -
  obtain rc d count s1 where 1: "ParseDomainIdAndDomainCount params st = (rc, d, count, s1)"
    by (metis prod.exhaust_sel)
  note P1 = ParseDomainIdAndDomainCount_state(1)[OF 1] and P2 = ParseDomainIdAndDomainCount_state(2)[OF 1]
  have len: "length params = 2" and rc: "rc = CT_OK"
    using run w P1 unfolding CreateKeyCmd_HandleCmd_def Let_def 1 prod.case by (auto simp: same_km_def split: if_splits)
  have "may_access C config count"
    using run len rc P2[OF rc] n w unfolding CreateKeyCmd_HandleCmd_def Let_def 1 prod.case
    by (simp, elim after_InitKm) simp_all
  then show ?thesis
    using P2[OF rc] len by blast
qed

lemma DisplaykeyCmd_access:
  assumes run: "DisplaykeyCmd_HandleCmd C params config st = (r, st')" and n: "\<not> inited (cs_km st)" and w: "cs_w st' \<noteq> cs_w st"
  shows "\<exists>d count. length params = 2 \<and> StrToU32 (params ! 0) 0 = (True, d) \<and> StrToU32 (params ! 1) 0 = (True, count) \<and> d < count \<and>
    may_access C config count"
proof -
  obtain rc d count s1 where 1: "ParseDomainIdAndDomainCount params st = (rc, d, count, s1)"
    by (metis prod.exhaust_sel)
  note P1 = ParseDomainIdAndDomainCount_state(1)[OF 1] and P2 = ParseDomainIdAndDomainCount_state(2)[OF 1]
  have len: "length params = 2" and rc: "rc = CT_OK"
    using run w P1 unfolding DisplaykeyCmd_HandleCmd_def Let_def 1 prod.case by (auto simp: same_km_def split: if_splits)
  have "may_access C config count"
    using run len rc P2[OF rc] n w unfolding DisplaykeyCmd_HandleCmd_def Let_def 1 prod.case
    by (simp, elim after_InitKm) simp_all
  then show ?thesis
    using P2[OF rc] len by blast
qed

lemma RemovekeyCmd_access:
  assumes run: "RemovekeyCmd_HandleCmd C params config st = (r, st')" and n: "\<not> inited (cs_km st)" and w: "cs_w st' \<noteq> cs_w st"
  shows "\<exists>d count. length params = 3 \<and> StrToU32 (params ! 0) 0 = (True, d) \<and> StrToU32 (params ! 1) 0 = (True, count) \<and> d < count \<and>
    may_access C config count"
proof -
  obtain rc d count s1 where 1: "ParseDomainIdAndDomainCount params st = (rc, d, count, s1)"
    by (metis prod.exhaust_sel)
  obtain ok k where 2: "StrToU32 (params ! 2) 0 = (ok, k)"
    by fastforce
  note P1 = ParseDomainIdAndDomainCount_state(1)[OF 1] and P2 = ParseDomainIdAndDomainCount_state(2)[OF 1]
  have len: "length params = 3" and rc: "rc = CT_OK" and ok: "ok"
    using run w P1 unfolding RemovekeyCmd_HandleCmd_def Let_def 1 2 prod.case by (auto simp: same_km_def split: if_splits)
  have "may_access C config count"
    using run len rc ok P2[OF rc] n w unfolding RemovekeyCmd_HandleCmd_def Let_def 1 2 prod.case
    by (simp, elim after_InitKm) simp_all
  then show ?thesis
    using P2[OF rc] len by blast
qed


subsection \<open>What a command leaves behind\<close>

definition echo_is :: "bool \<Rightarrow> 'w cli_state \<Rightarrow> bool" where
  "echo_is e st \<longleftrightarrow> cs_echo st = e"

lemma echo_is_simps [simp]:
  "echo_is e (say l st) = echo_is e st" "echo_is e (cli_UnInit p st) = echo_is e st"
  by (simp_all add: echo_is_def)

lemma echo_same: "echo_is e st \<Longrightarrow> same_km st st' \<Longrightarrow> echo_is e st'" "echo_is e st \<Longrightarrow> same_io st st' \<Longrightarrow> echo_is e st'"
  by (simp_all add: echo_is_def same_km_def same_io_def)

lemma obind_echo:
  "echo_is e (snd m) \<Longrightarrow> (\<And>x s. echo_is e s \<Longrightarrow> echo_is e (snd (f x s))) \<Longrightarrow> echo_is e (snd (obind m f))"
  by (cases "(m, f)" rule: obind.cases) auto

lemma on_km_echo: "echo_is e st \<Longrightarrow> echo_is e (snd (on_km f st))"
  using on_km_io[of f st] echo_same(2) by (cases "on_km f st") auto

lemma InitKm_echo: "echo_is e st \<Longrightarrow> echo_is e (snd (InitKm C config km count st))"
proof -
  assume e: "echo_is e st"
  obtain r st' where i: "InitKm C config km count st = (r, st')"
    by (metis prod.exhaust_sel)
  then have "echo_is e st'"
    using e by (cases rule: InitKm_cases) (auto simp: same_km_def echo_is_def)
  then show ?thesis
    by (simp add: i)
qed

lemma latest_key_echo: "echo_is e st \<Longrightarrow> echo_is e (snd (latest_key C p d st))"
  using on_km_echo[of e st "GetLatestKey (ce_bao C) d 0"] on_km_echo[of e st "Vault_GetLatestKey (ce_bao C) d 0"]
  by (auto simp: latest_key_def split: KeyManagerTy.split prod.splits)

lemma CheckDomainKey_echo: "echo_is e st \<Longrightarrow> echo_is e (snd (CheckDomainKey C p d st))"
  unfolding CheckDomainKey_def by (intro obind_echo latest_key_echo) (auto split: option.split)

lemma PrepareKmDomainKey_echo: "echo_is e st \<Longrightarrow> echo_is e (snd (PrepareKmDomainKey C p d st))"
  unfolding PrepareKmDomainKey_def
  by (intro obind_echo latest_key_echo) (auto split: option.split intro!: obind_echo on_km_echo)

lemma EncryptKey_Encrypt_echo: "echo_is e st \<Longrightarrow> echo_is e (snd (EncryptKey_Encrypt C config d count t st))"
  unfolding EncryptKey_Encrypt_def Let_def
  by (intro obind_echo InitKm_echo) (auto split: option.split intro!: obind_echo PrepareKmDomainKey_echo on_km_echo)

lemma ReEncrypt_echo: "echo_is e st \<Longrightarrow> echo_is e (snd (ReEncrypt C config d count t st))"
  unfolding ReEncrypt_def Let_def
  by (intro obind_echo InitKm_echo) (auto split: option.split intro!: obind_echo CheckDomainKey_echo on_km_echo)

lemma HandleCmd_echo: "echo_is e st \<Longrightarrow> echo_is e (snd (HandleCmd C c params config st))"
proof -
  assume e: "echo_is e st"
  obtain rc d count s1 where 1: "ParseDomainIdAndDomainCount params st = (rc, d, count, s1)"
    by (metis prod.exhaust_sel)
  have e1: "echo_is e s1"
    using ParseDomainIdAndDomainCount_state(1)[OF 1] e echo_same(1) by blast
  have e2: "echo_is e (snd (snd (ReadEncryptContent n s1)))" for n
    using ReadEncryptContent_state[of n s1] e1 echo_same(1) by (metis prod.collapse)
  show ?thesis
  proof (cases c)
    case EncryptKeyCmd
    then show ?thesis
      using e e1 e2[of 33] unfolding EncryptKeyCmd HandleCmd.simps EncryptKeyCmd_HandleCmd_def Let_def 1
      by (auto split: prod.splits intro!: obind_echo EncryptKey_Encrypt_echo)
  next
    case ReEncryptCmd
    then show ?thesis
      using e e1 e2[of 150] unfolding ReEncryptCmd HandleCmd.simps ReEncryptCmd_HandleCmd_def Let_def 1
      by (auto split: prod.splits intro!: obind_echo ReEncrypt_echo)
  next
    case CreateKeyCmd
    then show ?thesis
      using e e1 unfolding CreateKeyCmd HandleCmd.simps CreateKeyCmd_HandleCmd_def Let_def 1
      by (auto split: option.split intro!: obind_echo InitKm_echo on_km_echo)
  next
    case DisplaykeyCmd
    then show ?thesis
      using e e1 unfolding DisplaykeyCmd HandleCmd.simps DisplaykeyCmd_HandleCmd_def Let_def 1
      by (auto split: option.split prod.split intro!: obind_echo InitKm_echo)
  next
    case RemovekeyCmd
    have "echo_is e (snd (on_km f s))" if "echo_is e s" for f :: "bao_state \<Rightarrow> 'a \<Rightarrow> KeyManagerRC \<times> bao_state \<times> 'a" and s
      using that by (rule on_km_echo)
    then show ?thesis
      using e e1 unfolding RemovekeyCmd HandleCmd.simps RemovekeyCmd_HandleCmd_def Let_def 1
      by (auto split: option.split prod.split intro!: obind_echo InitKm_echo) (metis snd_conv)+
  qed (simp add: KmcCmd_HandleCmd_def e)
qed

text \<open>A manager that was closed: no token, no keys.\<close>

definition closed :: "'w cli_state \<Rightarrow> bool" where
  "closed st \<longleftrightarrow> \<not> inited (cs_km st) \<and> accessToken (cs_km st) = [] \<and> domainKeyMap (cs_km st) = []"

lemma closed_simps [simp]: "closed (cli_UnInit p st)" "closed (say l st) = closed st"
  by (cases p; simp add: closed_def cli_UnInit_def Bao_UnInit_def Vault_UnInit_def)+

lemma EncryptKey_Encrypt_closed: "EncryptKey_Encrypt C config d count t st = (Ret (CT_OK, c), st') \<Longrightarrow> closed st'"
  unfolding EncryptKey_Encrypt_def Let_def by (auto simp: obind_Ret split: if_splits option.splits)

lemma ReEncrypt_closed: "ReEncrypt C config d count t st = (Ret (CT_OK, c), st') \<Longrightarrow> closed st'"
  unfolding ReEncrypt_def Let_def by (auto simp: obind_Ret split: if_splits option.splits)

lemma HandleCmd_closed: "HandleCmd C c params config st = (Ret CT_OK, st') \<Longrightarrow> c \<noteq> KmcCmd \<Longrightarrow> closed st'"
  by (cases c) (auto simp: EncryptKeyCmd_HandleCmd_def ReEncryptCmd_HandleCmd_def CreateKeyCmd_HandleCmd_def DisplaykeyCmd_HandleCmd_def
    RemovekeyCmd_HandleCmd_def Let_def obind_Ret split: if_splits prod.splits option.splits
    dest!: EncryptKey_Encrypt_closed ReEncrypt_closed)

text \<open>C25: Whatever happens, the terminal echoes after a command as before. When a command succeeds, the key manager is closed
  and its access token and keys are erased.\<close>

theorem HandleCmd_closes:
  assumes "HandleCmd C c params config st = (r, st')" "cs_km st = bao_init_state"
  shows "cs_echo st' = cs_echo st \<and>
    (if r = Ret CT_OK then \<not> inited (cs_km st') \<and> accessToken (cs_km st') = [] \<and> domainKeyMap (cs_km st') = [] else True)"
proof -
  have "cs_echo st' = cs_echo st"
    using HandleCmd_echo[of "cs_echo st" st C c params config] assms(1) by (simp add: echo_is_def)
  moreover have "closed st'" if "r = Ret CT_OK"
    using HandleCmd_closed[of C c params config st st'] assms that
    by (cases "c = KmcCmd") (auto simp: KmcCmd_HandleCmd_def closed_def bao_init_state_def)
  ultimately show ?thesis
    by (simp add: closed_def)
qed

subsection \<open>An example: the tool with a key manager logged in through Vault\<close>

definition toy_cli :: "toy_world cli_env" where
  "toy_cli = \<lparr>ce_bao = toy_bao, ce_fs = \<lparr>fs_stat = (\<lambda>_. None), fs_lstat = (\<lambda>_. None), fs_realpath = Some, fs_access = (\<lambda>_ _. True),
     fs_getuid = 0, fs_length = (\<lambda>_. None), fs_content = (\<lambda>_. None)\<rparr>, ce_exe = None, ce_setenv = (\<lambda>_ _ w. w)\<rparr>"

definition toy_cli_cfg :: CliConfig where
  "toy_cli_cfg = CliConfig_new\<lparr>cfg_kmcType := ''vault'', thirdKmc := \<lparr>kmcPath = ''/bao'', kmcAddr = []\<rparr>\<rparr>"

definition toy_cli_state :: "bytes \<Rightarrow> toy_world cli_state" where
  "toy_cli_state i = \<lparr>cs_in = i, cs_out = [], cs_echo = True, cs_km = bao_init_state, cs_w = Export\<rparr>"

definition toy_cipher :: bytes where
  "toy_cipher = Base64Encode (Some (ConstructCipherHeader AES256_GCM 0 5 @ toy_native))"

definition type_twice :: "bytes \<Rightarrow> bytes" where
  "type_twice t = t @ CHR 0x0A # t @ CHR 0x0A # ''tok'' @ [CHR 0x0A]"

lemma toy_cli_bao [simp]: "ce_bao toy_cli = toy_bao"
  by (simp add: toy_cli_def)

lemma toy_numbers: "StrToU32 ''0'' 0 = (True, 0)" "StrToU32 ''4'' 0 = (True, 4)"
  by code_simp+

lemma toy_parse: "ParseDomainIdAndDomainCount [''0'', ''4''] st = (CT_OK, 0, 4, st)"
  by (simp add: ParseDomainIdAndDomainCount_def ParseDomainId_def toy_numbers)

lemma toy_config: "GetKm toy_cli_cfg = Some VaultPtr" "ConfigParseCryptoAlg toy_cli_cfg = AES256_GCM" "kmcPath (thirdKmc toy_cli_cfg) = ''/bao''"
  by (simp_all add: toy_cli_cfg_def GetKm_def ConfigParseCryptoAlg_def CliConfig_new_def)

lemma toy_vault_start: "Vault_Init toy_bao ''/bao'' ''tok'' 4 bao_init_state Export = (Ret KM_OK, toy_vault, Export)"
proof -
  have "CanonicalPath (be_realpath toy_bao) ''/bao'' = Some ''/bao''" "be_access toy_bao ''/bao''"
    by (simp_all add: CanonicalPath_def toy_bao_def c_str_def)
  then show ?thesis
    by (simp add: Vault_Init_def Bao_Init_def bao_init_state_def toy_prepare memcpy_s_ok_def DOMAINID_MIN_def
        DOMAINID_MAX_def toy_vault_def)
qed

lemma toy_token: "cs_in st = ''tok'' @ [CHR 0x0A] \<Longrightarrow> GetAccessTokenFromInput 128 st =
    (CT_OK, ''tok'', (say (Line ''please type in your openbao/vault access token'') st)\<lparr>cs_in := []\<rparr>)"
proof -
  assume i: "cs_in st = ''tok'' @ [CHR 0x0A]"
  let ?s = "(say (Line ''please type in your openbao/vault access token'') (st\<lparr>cs_echo := False\<rparr>))\<lparr>cs_in := ''ok'' @ [CHR 0x0A]\<rparr>"
  have "input_loop 127 (CHR ''t'') ?s = (''tok'', ?s\<lparr>cs_in := []\<rparr>)"
    by (rule input_loop_reads[where e = "CHR 0x0A"]) (simp_all add: ends_line_def)
  then show ?thesis
    using i by (cases st) (simp add: GetAccessTokenFromInput_def cin_get_def say_def)
qed

lemma toy_InitKm:
  assumes "cs_in st = ''tok'' @ [CHR 0x0A]" "cs_km st = bao_init_state" "cs_w st = Export"
  shows "InitKm toy_cli toy_cli_cfg (Some VaultPtr) 4 st =
    (Ret CT_OK, (say (Line ''please type in your openbao/vault access token'') st)\<lparr>cs_in := [], cs_km := toy_vault, cs_w := Export\<rparr>)"
  by (simp add: InitKm_def toy_token[OF assms(1)] on_km_def toy_config toy_vault_start assms)

lemma toy_typed: "typed 33 ''hi'' (type_twice ''hi'') (''hi'' @ CHR 0x0A # ''tok'' @ [CHR 0x0A])"
  "typed 33 ''hi'' (''hi'' @ CHR 0x0A # ''tok'' @ [CHR 0x0A]) (''tok'' @ [CHR 0x0A])"
  by (auto simp: typed_def type_twice_def ends_line_def)

lemma toy_encrypt_run:
  "\<exists>st'. HandleCmd toy_cli EncryptKeyCmd [''0'', ''4''] toy_cli_cfg (toy_cli_state (type_twice ''hi'')) = (Ret CT_OK, st') \<and>
     last (cs_out st') = Line (''encrypted: '' @ toy_cipher)"
proof -
  let ?s = "toy_cli_state (type_twice ''hi'')"
  define s2 where "s2 = ?s\<lparr>cs_in := ''tok'' @ [CHR 0x0A], cs_out := cs_out ?s @ [Line ''please input the password to encrypt'',
         Line ''please input the password to encrypt again'']\<rparr>"
  have 2: "ReadEncryptContent 33 ?s = (CT_OK, ''hi'', s2)"
    unfolding ReadEncryptContent_iff s2_def using toy_typed by (auto simp: toy_cli_state_def)
  have s2: "cs_in s2 = ''tok'' @ [CHR 0x0A]" "cs_km s2 = bao_init_state" "cs_w s2 = Export"
    by (simp_all add: s2_def toy_cli_state_def)
  have k: "toy_key \<noteq> []"
    by (simp add: toy_key_def)
  have "\<exists>s3. EncryptKey_Encrypt toy_cli toy_cli_cfg 0 4 ''hi'' s2 = (Ret (CT_OK, toy_cipher), s3)"
    by (simp add: EncryptKey_Encrypt_def toy_config toy_InitKm[OF s2] PrepareKmDomainKey_def latest_key_def Vault_GetLatestKey_def
        on_km_def toy_vault_latest k c_str_def toy_cipher_def toy_vault_encrypted[unfolded Borrow.simps] Let_def)
  then show ?thesis
    by (auto simp: EncryptKeyCmd_HandleCmd_def toy_parse 2)
qed

lemma toy_laws: "crypto_law (be_crypto (ce_bao toy_cli))" "server_ids_fit (ce_bao toy_cli)" "cs_km (toy_cli_state i) = bao_init_state"
proof -
  show "crypto_law (be_crypto (ce_bao toy_cli))"
    using toy_crypto_law by (simp add: toy_bao_def)
  have "k \<le> 65535" if g: "GetJsonFieldIntPairVec toy_bao out = Ret (KM_OK, ps)" "(d, k) \<in> set ps" for out ps d k
  proof (cases "out = ''L''")
    case True
    have "be_json toy_bao ''L'' = Some (JArray (map (\<lambda>(d, k). JString (key_name d k)) [(0, 5), (1, 0)]))"
      by (simp add: toy_bao_def toy_json_def)
    then have "ps = [(0, 5), (1, 0)]"
      using g(1) True GetJsonFieldIntPairVec_key_names[of "[(0, 5), (1, 0)]" toy_bao "''L''"] by simp
    then show ?thesis
      using g(2) by auto
  next
    case False
    then show ?thesis
      using g(1) by (auto simp: GetJsonFieldIntPairVec_def toy_bao_def toy_json_def split: if_splits)
  qed
  then show "server_ids_fit (ce_bao toy_cli)"
    unfolding server_ids_fit_def by auto
qed (simp add: toy_cli_state_def)


lemma Cli_ciphertext_retypable_witness:
  "typed 150 toy_cipher (toy_cipher @ CHR 0x0A # toy_cipher) toy_cipher"
proof -
  obtain st' where s: "HandleCmd toy_cli EncryptKeyCmd [''0'', ''4''] toy_cli_cfg (toy_cli_state (type_twice ''hi'')) = (Ret CT_OK, st')"
     "last (cs_out st') = Line (''encrypted: '' @ toy_cipher)"
    using toy_encrypt_run by blast
  show ?thesis
    using Cli_ciphertext_retypable[OF toy_laws _ s(1), of toy_cipher] s(2) by simp
qed

lemma toy_vault_good: "bao_good toy_vault"
  by (auto simp: bao_good_def bao_wf_def om_wf_def toy_vault_def ids_fit_def key_time_def inner_def split: if_splits)

lemma toy_cipher_typed: "typed 150 toy_cipher (toy_cipher @ CHR 0x0A # r) r"
proof -
  have "length toy_cipher = 72 \<and> list_all (\<lambda>x. \<not> ends_line x) toy_cipher"
    using KmCryptor_Encrypt_text[OF toy_laws(1)[unfolded toy_cli_bao] toy_vault_good toy_vault_encrypted] by (simp add: toy_cipher_def)
  then show ?thesis
    by (auto simp: typed_def ends_line_def)
qed

text \<open>The example's server does not change; so re-encrypting finds it as it was.\<close>

lemma toy_run_world: "snd (bao_run toy_bao s c w) = w"
  by (auto simp: bao_run_def RunCommandAndGetResult_def ExecOpenbaoCmd_def toy_bao_def split: prod.splits if_splits)

lemma toy_export_world: "snd (export_key toy_bao s d k w) = w"
  using toy_run_world[of s "export_cmd s d k" w] by (auto simp: export_key_def Let_def split: prod.splits if_splits)

lemma toy_decrypt_world: "snd (Bao_Decrypt toy_bao a d c s w) = w"
proof -
  have "snd (VaultDecrypt toy_bao a d k x s w) = w" for k x
    using toy_export_world[of s d k w] by (auto simp: VaultDecrypt_def Let_def split: prod.splits if_splits)
  then show ?thesis
    by (auto simp: Bao_Decrypt_def Let_def split: prod.splits if_splits) (metis snd_conv)+
qed

lemma toy_decrypted: "KmCryptor_Decrypt toy_bao (Some VaultPtr) AES256_GCM toy_cipher 0 toy_vault Export = (Ret (CRC_OK, ''hi''), Export)"
proof -
  have l: "om_last (inner toy_vault 0) = 5"
    by code_simp
  have wf: "bao_wf toy_vault" "domainCount toy_vault \<le> 1023"
    using toy_vault_good by (simp_all add: bao_good_def)
  have "fst (KmCryptor_Decrypt toy_bao (Some VaultPtr) AES256_GCM toy_cipher 0 toy_vault Export) = Ret (CRC_OK, ''hi'')"
    unfolding toy_cipher_def
    by (rule KmCryptor_roundtrip_core[OF toy_laws(1)[unfolded toy_cli_bao] wf _ toy_vault_encrypted _ toy_vault_params])
      (auto simp: l, (simp add: key_time_def toy_vault_def inner_def)+)
  moreover have "snd (KmCryptor_Decrypt toy_bao (Some VaultPtr) AES256_GCM toy_cipher 0 toy_vault Export) = Export"
    using toy_decrypt_world[of AES256_GCM 0 toy_cipher toy_vault Export] by (auto simp: KmCryptor_Decrypt_def Vault_Decrypt_def split: prod.splits)
  ultimately show ?thesis
    by (metis prod.collapse)
qed

lemma toy_reencrypt_run:
  "\<exists>st'. HandleCmd toy_cli ReEncryptCmd [''0'', ''4''] toy_cli_cfg (toy_cli_state (type_twice toy_cipher)) = (Ret CT_OK, st') \<and>
     last (cs_out st') = Line (''success to reEncrypt: '' @ toy_cipher)"
proof -
  let ?s = "toy_cli_state (type_twice toy_cipher)"
  define s2 where "s2 = ?s\<lparr>cs_in := ''tok'' @ [CHR 0x0A], cs_out := cs_out ?s @ [Line ''please input the password to encrypt'',
         Line ''please input the password to encrypt again'']\<rparr>"
  have 2: "ReadEncryptContent 150 ?s = (CT_OK, toy_cipher, s2)"
    unfolding ReadEncryptContent_iff s2_def using toy_cipher_typed by (auto simp: toy_cli_state_def type_twice_def)
  have s2: "cs_in s2 = ''tok'' @ [CHR 0x0A]" "cs_km s2 = bao_init_state" "cs_w s2 = Export"
    by (simp_all add: s2_def toy_cli_state_def)
  have k: "toy_key \<noteq> []"
    by (simp add: toy_key_def)
  have "\<exists>s3. ReEncrypt toy_cli toy_cli_cfg 0 4 toy_cipher s2 = (Ret (CT_OK, toy_cipher), s3)"
    by (simp add: ReEncrypt_def toy_config toy_InitKm[OF s2] CheckDomainKey_def latest_key_def Vault_GetLatestKey_def
        on_km_def toy_vault_latest k typed_no_zero[OF toy_cipher_typed] toy_decrypted Let_def
        toy_vault_encrypted[unfolded Borrow.simps toy_cipher_def[symmetric]])
  then show ?thesis
    by (auto simp: ReEncryptCmd_HandleCmd_def toy_parse 2)
qed


theorem HandleCmd_closes_witness:
  "\<exists>st'. HandleCmd toy_cli EncryptKeyCmd [''0'', ''4''] toy_cli_cfg (toy_cli_state (type_twice ''hi'')) = (Ret CT_OK, st') \<and>
     cs_echo st' \<and> accessToken (cs_km st') = []"
proof -
  obtain st' where s: "HandleCmd toy_cli EncryptKeyCmd [''0'', ''4''] toy_cli_cfg (toy_cli_state (type_twice ''hi'')) = (Ret CT_OK, st')"
    using toy_encrypt_run by blast
  from HandleCmd_closes[OF s toy_laws(3)] s show ?thesis
    by (simp add: toy_cli_state_def)
qed

text \<open>A server whose login can be seen.\<close>

definition toy_bao_login :: "toy_world bao_env" where
  "toy_bao_login = toy_bao\<lparr>be_login := (\<lambda>w _ _ _. (ProcEnd True [], Export))\<rparr>"

lemma toy_login_prepare:
  "PrepareMap toy_bao_login \<lparr>inited = False, domainCount = 2, domainKeyMap = [], accessToken = ''tok'', exePath = ''/bao'', km_type = VAULT\<rparr>
     NoExport =
   (Ret KM_OK, \<lparr>inited = False, domainCount = 2, domainKeyMap = [(0, [(5, 400000000)]), (1, [(0, 400000000)])],
     accessToken = ''tok'', exePath = ''/bao'', km_type = VAULT\<rparr>, Export)"
  by code_simp


end
