(* ===== verification/CdfBaoExec.thy ===== *)
theory CdfBaoExec
  imports CdfBaoUtils "HOL-Library.Monad_Syntax"
begin

section \<open>Pipes and child processes of the client (\<open>key_management/openbao/openbao_utils.cpp\<close>)\<close>

text \<open>
  How \<open>ExecOpenbaoCmd\<close> runs the client: three pipes, a login child that reads the token from one pipe and writes to
  another, a command child that writes to the third. The state has what the operating system keeps of
  it: the descriptor table of the process, what is in each pipe, and the children that were not yet waited for, each with
  its own table, copied by \<open>fork\<close>. A new descriptor is the lowest free one, as POSIX requires. A read from an empty
  pipe waits for the children that can write to it and is at the end when no process can; a program that reads its
  standard input needs the end of it. A call that blocks for ever is \<open>None\<close>.

  The programs, and which calls fail, are the parameter \<open>os_env\<close>, with the world they change.
\<close>

datatype fd_end = ExtFile | PipeR nat | PipeW nat

datatype status = WExited nat | WSignaled nat | WOther

type_synonym fd_table = "(int \<times> fd_end) list"
type_synonym PipeTy = "int \<times> int"

text \<open>What a child does: the code behind \<open>fork\<close> with the values it has there, or nothing any more.\<close>

datatype job =
    LoginJob PipeTy PipeTy bytes "bytes option list"
  | CmdJob PipeTy bytes bytes
  | Ended status

record 'w os_env =
  oe_pipe :: "'w \<Rightarrow> nat \<Rightarrow> bool"
  oe_fork :: "'w \<Rightarrow> bool \<times> 'w"
  oe_dup2 :: "'w \<Rightarrow> int \<Rightarrow> bool"
  oe_exec :: "'w \<Rightarrow> bytes \<Rightarrow> bool"
  oe_prog :: "'w \<Rightarrow> bytes \<Rightarrow> bytes list \<Rightarrow> bytes option \<Rightarrow> (status \<times> (bool \<times> bytes) list) \<times> 'w"
  oe_write :: "'w \<Rightarrow> bytes \<Rightarrow> nat option \<times> 'w"
  oe_read :: "'w \<Rightarrow> nat \<Rightarrow> nat option \<times> 'w"
  oe_wait :: "'w \<Rightarrow> bool \<times> 'w"
  oe_strerror :: "'w \<Rightarrow> bytes"

record 'w os_state =
  os_fds :: fd_table
  os_buf :: "nat \<Rightarrow> bytes"
  os_pipes :: nat
  os_kids :: "(int \<times> fd_table \<times> job) list"
  os_pid :: int
  os_w :: 'w

subsection \<open>Calls of the operating system\<close>

definition fd_close :: "int \<Rightarrow> fd_table \<Rightarrow> fd_table" where
  "fd_close fd tbl = filter (\<lambda>(k, _). k \<noteq> fd) tbl"

definition lowest_free :: "fd_table \<Rightarrow> int" where
  "lowest_free tbl = (case find (\<lambda>k. k \<notin> fst ` set tbl) (map int [0..<Suc (length tbl)]) of None \<Rightarrow> 0 | Some k \<Rightarrow> k)"

definition sys_close :: "int \<Rightarrow> 'w os_state \<Rightarrow> 'w os_state" where
  "sys_close fd s = s\<lparr>os_fds := fd_close fd (os_fds s)\<rparr>"

text \<open>The limit on pipes depends on how many descriptors are open.\<close>

definition sys_pipe :: "'w os_env \<Rightarrow> 'w os_state \<Rightarrow> PipeTy option \<times> 'w os_state" where
  "sys_pipe OS s =
    (if \<not> oe_pipe OS (os_w s) (length (os_fds s)) then (None, s)
     else let n = os_pipes s; r = lowest_free (os_fds s); fds = (r, PipeR n) # os_fds s; wr = lowest_free fds in
       (Some (r, wr), s\<lparr>os_fds := (wr, PipeW n) # fds, os_buf := (os_buf s)(n := []), os_pipes := n + 1\<rparr>))"

definition sys_fork :: "'w os_env \<Rightarrow> job \<Rightarrow> 'w os_state \<Rightarrow> int \<times> 'w os_state" where
  "sys_fork OS j s =
    (let (ok, w) = oe_fork OS (os_w s); s = s\<lparr>os_w := w\<rparr> in
     if \<not> ok then (- 1, s)
     else (os_pid s, s\<lparr>os_kids := (os_pid s, os_fds s, j) # os_kids s, os_pid := os_pid s + 1\<rparr>))"

definition fd_dup2 :: "'w os_env \<Rightarrow> 'w \<Rightarrow> int \<Rightarrow> int \<Rightarrow> fd_table \<Rightarrow> fd_table option" where
  "fd_dup2 OS w old new tbl =
    (case map_of tbl old of
       None \<Rightarrow> None
     | Some e \<Rightarrow> if oe_dup2 OS w new then Some ((new, e) # fd_close new tbl) else None)"

text \<open>Output of a child to one of its descriptors; what leaves the process group is not kept.\<close>

definition fd_print :: "fd_table \<Rightarrow> int \<Rightarrow> bytes \<Rightarrow> 'w os_state \<Rightarrow> 'w os_state" where
  "fd_print tbl fd out s =
    (case map_of tbl fd of
       Some (PipeW n) \<Rightarrow> s\<lparr>os_buf := (os_buf s)(n := os_buf s n @ out)\<rparr>
     | _ \<Rightarrow> s)"

definition can_write :: "nat \<Rightarrow> fd_table \<Rightarrow> bool" where
  "can_write n tbl \<longleftrightarrow> PipeW n \<in> snd ` set tbl"

text \<open>
  \<open>execv\<close> in the child \<open>pid\<close>. A program whose standard input is a pipe gets all of it, at the end, and waits for ever
  while this process, another child, or it itself can still write to the pipe.
\<close>

definition argv :: "bytes option list \<Rightarrow> bytes list" where
  "argv args = map (\<lambda>a. c_str (the a)) (takeWhile (\<lambda>a. a \<noteq> None) args)"

definition sys_execv ::
  "'w os_env \<Rightarrow> int \<Rightarrow> fd_table \<Rightarrow> bytes \<Rightarrow> bytes option list \<Rightarrow> 'w os_state \<Rightarrow> (status option \<times> 'w os_state) option" where
  "sys_execv OS pid tbl exe args s =
    (if \<not> oe_exec OS (os_w s) (c_str exe) then Some (None, s)
     else let run = (\<lambda>input s. let ((st, out), w) = oe_prog OS (os_w s) (c_str exe) (argv args) input in
            Some (Some st, fold (\<lambda>(err, x). fd_print tbl (if err then 2 else 1) x) out (s\<lparr>os_w := w\<rparr>))) in
       case map_of tbl 0 of
         Some (PipeR n) \<Rightarrow>
           if can_write n tbl \<or> can_write n (os_fds s) \<or> list_ex (\<lambda>(p, t, _). p \<noteq> pid \<and> can_write n t) (os_kids s) then None
           else run (Some (os_buf s n)) (s\<lparr>os_buf := (os_buf s)(n := [])\<rparr>)
       | _ \<Rightarrow> run None s)"

subsection \<open>The children\<close>

definition ExtractStrPtr :: "bytes list \<Rightarrow> bytes option list" where
  "ExtractStrPtr strs = map Some strs @ [None]"

definition login_child ::
  "'w os_env \<Rightarrow> int \<Rightarrow> PipeTy \<Rightarrow> PipeTy \<Rightarrow> bytes \<Rightarrow> bytes option list \<Rightarrow> fd_table \<Rightarrow> 'w os_state \<Rightarrow> (status \<times> 'w os_state) option" where
  "login_child OS pid pipefdIn pipefdOut exePath args tbl s =
    (let tbl = fd_close (fst pipefdOut) tbl; tbl = fd_close (snd pipefdIn) tbl; err = oe_strerror OS (os_w s) @ [NL] in
     case fd_dup2 OS (os_w s) (snd pipefdOut) 1 tbl of
       None \<Rightarrow> Some (WExited 1, fd_print tbl 2 (''Failed to dup2 stdout to pipe: '' @ int_str (snd pipefdOut) @ '', errno: '' @ err) s)
     | Some tbl \<Rightarrow> (case fd_dup2 OS (os_w s) (snd pipefdOut) 2 tbl of
         None \<Rightarrow> Some (WExited 1, fd_print tbl 2 (''Failed to dup2 pipe stderr: '' @ err) s)
       | Some tbl \<Rightarrow> (case fd_dup2 OS (os_w s) (fst pipefdIn) 0 tbl of
           None \<Rightarrow> Some (WExited 1, fd_print tbl 2 (''Failed to dup2 pipe stdin: '' @ err) s)
         | Some tbl \<Rightarrow> (case sys_execv OS pid tbl exePath args s of
             None \<Rightarrow> None
           | Some (None, s) \<Rightarrow> Some (WExited 1, fd_print tbl 2 (''Failed to execvp command: '' @ err) s)
           | Some (Some st, s) \<Rightarrow> Some (st, s)))))"

definition cmd_child ::
  "'w os_env \<Rightarrow> int \<Rightarrow> PipeTy \<Rightarrow> bytes \<Rightarrow> bytes \<Rightarrow> fd_table \<Rightarrow> 'w os_state \<Rightarrow> (status \<times> 'w os_state) option" where
  "cmd_child OS pid pipefdOut exePath cmdArgs tbl s =
    (let tbl = fd_close (fst pipefdOut) tbl; err = oe_strerror OS (os_w s) @ [NL] in
     case fd_dup2 OS (os_w s) (snd pipefdOut) 1 tbl of
       None \<Rightarrow> Some (WExited 1, fd_print tbl 2 (''Failed to dup2 pipe stdout: '' @ err) s)
     | Some tbl \<Rightarrow> (case fd_dup2 OS (os_w s) (snd pipefdOut) 2 tbl of
         None \<Rightarrow> Some (WExited 1, fd_print tbl 2 (''Failed to dup2 pipe stderr: '' @ err) s)
       | Some tbl \<Rightarrow> (case sys_execv OS pid tbl exePath (ExtractStrPtr (Split cmdArgs '' '')) s of
           None \<Rightarrow> None
         | Some (None, s) \<Rightarrow> Some (WExited 1, fd_print tbl 2 (''Failed to execvp command: '' @ err) s)
         | Some (Some st, s) \<Rightarrow> Some (st, s))))"

fun run_job :: "'w os_env \<Rightarrow> int \<Rightarrow> fd_table \<Rightarrow> job \<Rightarrow> 'w os_state \<Rightarrow> (status \<times> 'w os_state) option" where
  "run_job OS pid tbl (LoginJob pin pout exe args) s = login_child OS pid pin pout exe args tbl s"
| "run_job OS pid tbl (CmdJob pout exe args) s = cmd_child OS pid pout exe args tbl s"
| "run_job OS pid tbl (Ended st) s = Some (st, s)"

text \<open>A child runs to its end, when all its descriptors are closed.\<close>

definition run_kid :: "'w os_env \<Rightarrow> int \<Rightarrow> 'w os_state \<Rightarrow> (status \<times> 'w os_state) option" where
  "run_kid OS pid s =
    (case map_of (os_kids s) pid of
       None \<Rightarrow> None
     | Some (tbl, j) \<Rightarrow> (case run_job OS pid tbl j s of
         None \<Rightarrow> None
       | Some (st, s) \<Rightarrow> Some (st, s\<lparr>os_kids := map (\<lambda>(p, k). if p = pid then (p, [], Ended st) else (p, k)) (os_kids s)\<rparr>)))"

fun run_kids :: "'w os_env \<Rightarrow> int list \<Rightarrow> 'w os_state \<Rightarrow> 'w os_state option" where
  "run_kids OS [] s = Some s"
| "run_kids OS (p # ps) s = (case run_kid OS p s of None \<Rightarrow> None | Some (st, s) \<Rightarrow> run_kids OS ps s)"

subsection \<open>Reading, writing and waiting\<close>

text \<open>\<open>Some []\<close> is the end, \<open>None\<close> inside the pair an error.\<close>

definition sys_read :: "'w os_env \<Rightarrow> int \<Rightarrow> nat \<Rightarrow> 'w os_state \<Rightarrow> (bytes option \<times> 'w os_state) option" where
  "sys_read OS fd len s =
    (case map_of (os_fds s) fd of
       Some (PipeR n) \<Rightarrow> do {
         s \<leftarrow> (if os_buf s n \<noteq> [] then Some s
               else run_kids OS (map fst (filter (\<lambda>(p, t, _). can_write n t) (os_kids s))) s);
         (let (k, w) = oe_read OS (os_w s) len; s = s\<lparr>os_w := w\<rparr> in
          case k of
            None \<Rightarrow> Some (None, s)
          | Some k \<Rightarrow>
            if os_buf s n = [] then
              (if can_write n (os_fds s) then None else Some (Some [], s))
            else let m = max 1 (min k len) in
              Some (Some (take m (os_buf s n)), s\<lparr>os_buf := (os_buf s)(n := drop m (os_buf s n))\<rparr>)) }
     | _ \<Rightarrow> Some (None, s))"

definition sys_write :: "'w os_env \<Rightarrow> int \<Rightarrow> bytes \<Rightarrow> 'w os_state \<Rightarrow> int \<times> 'w os_state" where
  "sys_write OS fd data s =
    (case map_of (os_fds s) fd of
       Some (PipeW n) \<Rightarrow>
         let (k, w) = oe_write OS (os_w s) data; s = s\<lparr>os_w := w\<rparr> in
         (case k of
            None \<Rightarrow> (- 1, s)
          | Some k \<Rightarrow> let x = take k data in (int (length x), s\<lparr>os_buf := (os_buf s)(n := os_buf s n @ x)\<rparr>))
     | _ \<Rightarrow> (- 1, s))"

text \<open>\<open>None\<close> inside the pair is the result -1 of \<open>waitpid\<close>; then the child is not collected.\<close>

definition sys_waitpid :: "'w os_env \<Rightarrow> int \<Rightarrow> 'w os_state \<Rightarrow> (status option \<times> 'w os_state) option" where
  "sys_waitpid OS pid s =
    (if map_of (os_kids s) pid = None then Some (None, s)
     else do {
       (st, s) \<leftarrow> run_kid OS pid s;
       (let (ok, w) = oe_wait OS (os_w s); s = s\<lparr>os_w := w\<rparr> in
        if ok then Some (Some st, s\<lparr>os_kids := filter (\<lambda>(p, _). p \<noteq> pid) (os_kids s)\<rparr>) else Some (None, s)) })"

subsection \<open>The code\<close>

definition ClosePipes :: "PipeTy list \<Rightarrow> 'w os_state \<Rightarrow> 'w os_state" where
  "ClosePipes allPipes s = fold (\<lambda>p s. sys_close (snd p) (sys_close (fst p) s)) allPipes s"

definition CreatePipes ::
  "'w os_env \<Rightarrow> PipeTy \<Rightarrow> PipeTy \<Rightarrow> PipeTy \<Rightarrow> 'w os_state \<Rightarrow> (bool \<times> PipeTy \<times> PipeTy \<times> PipeTy) \<times> 'w os_state" where
  "CreatePipes OS p1 p2 p3 s =
    (case sys_pipe OS s of
       (None, s) \<Rightarrow> ((False, p1, p2, p3), ClosePipes [p1, p2, p3] s)
     | (Some p1, s) \<Rightarrow> (case sys_pipe OS s of
         (None, s) \<Rightarrow> ((False, p1, p2, p3), ClosePipes [p1, p2, p3] s)
       | (Some p2, s) \<Rightarrow> (case sys_pipe OS s of
           (None, s) \<Rightarrow> ((False, p1, p2, p3), ClosePipes [p1, p2, p3] s)
         | (Some p3, s) \<Rightarrow> ((True, p1, p2, p3), s))))"

definition ForkAndRunLogin ::
  "'w os_env \<Rightarrow> bytes \<Rightarrow> PipeTy \<Rightarrow> PipeTy \<Rightarrow> bytes option list \<Rightarrow> 'w os_state \<Rightarrow> int \<times> 'w os_state" where
  "ForkAndRunLogin OS exePath pipefdIn pipefdOut args s =
    (let (pid, s) = sys_fork OS (LoginJob pipefdIn pipefdOut exePath args) s in
     if pid = - 1 then (- 1, ClosePipes [pipefdIn, pipefdOut] s) else (pid, s))"

definition ForkAndRunCommand :: "'w os_env \<Rightarrow> bytes \<Rightarrow> PipeTy \<Rightarrow> bytes \<Rightarrow> 'w os_state \<Rightarrow> int \<times> 'w os_state" where
  "ForkAndRunCommand OS exePath pipefdOut cmdArgs s = sys_fork OS (CmdJob pipefdOut exePath cmdArgs) s"

partial_function (option) ReadFromPipe ::
  "'w os_env \<Rightarrow> int \<Rightarrow> bytes \<Rightarrow> 'w os_state \<Rightarrow> ((bool \<times> bytes) \<times> 'w os_state) option" where
  "ReadFromPipe OS pipefd vec s =
    (case sys_read OS pipefd 1024 s of
       None \<Rightarrow> None
     | Some (r, s) \<Rightarrow> (case r of
         None \<Rightarrow> Some ((False, vec), sys_close pipefd s)
       | Some x \<Rightarrow> if x = [] then Some ((True, vec), s) else ReadFromPipe OS pipefd (vec @ x) s))"

definition WaitForChildProcess :: "'w os_env \<Rightarrow> int \<Rightarrow> 'w os_state \<Rightarrow> (bool \<times> 'w os_state) option" where
  "WaitForChildProcess OS pid s = do {
     (r, s) \<leftarrow> sys_waitpid OS pid s;
     (case r of None \<Rightarrow> Some (False, s) | Some (WExited c) \<Rightarrow> Some (c = 0, s) | Some _ \<Rightarrow> Some (False, s)) }"

text \<open>
  The result as \<open>std::pair<int, std::string>\<close>: a pair of a \<open>bool\<close> becomes one of 0 or 1. Step 3, the command, and
  what comes behind the pipes are definitions of their own.
\<close>

definition OS_ExecCommand ::
  "'w os_env \<Rightarrow> bytes \<Rightarrow> bytes \<Rightarrow> PipeTy \<Rightarrow> PipeTy \<Rightarrow> PipeTy \<Rightarrow> 'w os_state \<Rightarrow> ((int \<times> bytes) \<times> 'w os_state) option" where
  "OS_ExecCommand OS exePath cmdArgs pin pout pcmd s =
    (let (cmdPid, s) = ForkAndRunCommand OS exePath pcmd cmdArgs s in
     if cmdPid = - 1 then Some ((1, []), ClosePipes [pin, pout, pcmd] s)
     else do {
       ((ok, out), s) \<leftarrow> ReadFromPipe OS (fst pcmd) [] (sys_close (snd pcmd) s);
       if \<not> ok then Some ((1, []), ClosePipes [pin, pout, pcmd] s)
       else do {
         (ended, s) \<leftarrow> WaitForChildProcess OS cmdPid s;
         if \<not> ended \<and> \<not> list_empty_case out then Some ((of_bool ok, out), ClosePipes [pin, pout, pcmd] s)
         else Some ((0, out), ClosePipes [pin, pout, pcmd] s) } })"

definition OS_ExecPiped ::
  "'w os_env \<Rightarrow> bytes \<Rightarrow> bytes \<Rightarrow> bytes \<Rightarrow> PipeTy \<Rightarrow> PipeTy \<Rightarrow> PipeTy \<Rightarrow> 'w os_state \<Rightarrow> ((int \<times> bytes) \<times> 'w os_state) option" where
  "OS_ExecPiped OS exePath accessToken cmdArgs pin pout pcmd s =
    (let (loginPid, s) = ForkAndRunLogin OS exePath pin pout (ExtractStrPtr (MakeLoginVec exePath)) s in
     if loginPid = - 1 then Some ((1, []), ClosePipes [pin, pout, pcmd] s)
     else let (n, s) = sys_write OS (snd pin) accessToken s in
     if n \<noteq> int (length accessToken) then Some ((1, []), ClosePipes [pin, pout, pcmd] s)
     else do {
       ((ok, out), s) \<leftarrow> ReadFromPipe OS (fst pout) [] (sys_close (snd pout) (ClosePipes [pin] s));
       if \<not> ok then Some ((1, []), ClosePipes [pin, pout, pcmd] s)
       else do {
         (ended, s) \<leftarrow> WaitForChildProcess OS loginPid s;
         if \<not> ended then Some ((of_bool ok, out), ClosePipes [pin, pout, pcmd] s)
         else OS_ExecCommand OS exePath cmdArgs pin pout pcmd s } })"

definition OS_ExecOpenbaoCmd ::
  "'w os_env \<Rightarrow> bytes \<Rightarrow> bytes \<Rightarrow> bytes \<Rightarrow> 'w os_state \<Rightarrow> ((int \<times> bytes) \<times> 'w os_state) option" where
  "OS_ExecOpenbaoCmd OS exePath accessToken cmdArgs s =
    (let ((ok, pin, pout, pcmd), s) = CreatePipes OS (0, 0) (0, 0) (0, 0) s in
     if \<not> ok then Some ((1, []), s) else OS_ExecPiped OS exePath accessToken cmdArgs pin pout pcmd s)"

end
