(* ===== verification/CdfBaoExecProof.thy ===== *)
theory CdfBaoExecProof
  imports CdfBaoExec
begin

section \<open>The client processes do what the key managers assume\<close>

text \<open>
  The parameters \<open>be_pipes\<close>, \<open>be_login\<close> and \<open>be_run\<close> of the key managers as functions of the calls of the operating system,
  and that \<open>OS_ExecOpenbaoCmd\<close> refines \<open>ExecOpenbaoCmd\<close> over them: tables and descriptors, one child from its
  start to its end, reading a pipe to its end, the command, the login, the whole call.
\<close>

subsection \<open>The client as the key managers see it\<close>

text \<open>
  The parameters \<open>be_pipes\<close>, \<open>be_login\<close> and \<open>be_run\<close> of the key managers, when the calls go well or fail as \<open>os_env\<close> says
  and \<open>n\<close> descriptors are open. Descriptors, pipes and processes do not occur.
\<close>

definition client_child :: "'w os_env \<Rightarrow> bytes \<Rightarrow> bytes list \<Rightarrow> bytes option \<Rightarrow> 'w \<Rightarrow> (status \<times> bytes) \<times> 'w" where
  "client_child OS exe args input w =
    (let err = oe_strerror OS w @ [NL] in
     if \<not> oe_dup2 OS w 1 \<or> \<not> oe_dup2 OS w 2 then ((WExited 1, []), w)
     else if input \<noteq> None \<and> \<not> oe_dup2 OS w 0 then ((WExited 1, ''Failed to dup2 pipe stdin: '' @ err), w)
     else if \<not> oe_exec OS w (c_str exe) then ((WExited 1, ''Failed to execvp command: '' @ err), w)
     else let ((st, out), w) = oe_prog OS w (c_str exe) (map c_str args) input in ((st, concat (map snd out)), w))"

function client_read :: "'w os_env \<Rightarrow> nat \<Rightarrow> 'w \<Rightarrow> bool \<times> 'w" where
  "client_read OS n w =
    (case oe_read OS w 1024 of
       (None, w) \<Rightarrow> (False, w)
     | (Some k, w) \<Rightarrow> if n = 0 then (True, w) else client_read OS (n - max 1 (min k 1024)) w)"
  by pat_completeness auto

termination client_read
  by (relation "measure (\<lambda>(_, n, _). n)") auto

declare client_read.simps [simp del]

definition client_end :: "'w os_env \<Rightarrow> (status \<times> bytes) \<times> 'w \<Rightarrow> proc \<times> 'w" where
  "client_end OS r =
    (let ((st, out), w) = r; (ok, w) = client_read OS (length out) w in
     if \<not> ok then (ProcFail, w)
     else let (ok, w) = oe_wait OS w in (ProcEnd (ok \<and> st = WExited 0) out, w))"

definition client_login :: "'w os_env \<Rightarrow> 'w \<Rightarrow> bytes \<Rightarrow> bytes list \<Rightarrow> bytes \<Rightarrow> proc \<times> 'w" where
  "client_login OS w exe args token =
    (let (ok, w) = oe_fork OS w in
     if \<not> ok then (ProcFail, w)
     else let (k, w) = oe_write OS w token in
     case k of
       None \<Rightarrow> (ProcFail, w)
     | Some k \<Rightarrow> if k < length token then (ProcFail, w) else client_end OS (client_child OS exe args (Some token) w))"

definition client_run :: "'w os_env \<Rightarrow> 'w \<Rightarrow> bytes \<Rightarrow> bytes list \<Rightarrow> proc \<times> 'w" where
  "client_run OS w exe args =
    (let (ok, w) = oe_fork OS w in
     if \<not> ok then (ProcFail, w) else client_end OS (client_child OS exe args None w))"

definition client_env :: "'w os_env \<Rightarrow> nat \<Rightarrow> 'w bao_env \<Rightarrow> 'w bao_env" where
  "client_env OS n E = E\<lparr>be_pipes := (\<lambda>w. oe_pipe OS w n \<and> oe_pipe OS w (n + 2) \<and> oe_pipe OS w (n + 4)),
     be_login := client_login OS, be_run := client_run OS\<rparr>"

text \<open>
  The states a command may start in: standard output and error are open, no descriptor is a pipe, and children that
  were not waited for are numbered below \<open>os_pid\<close> and know older pipes only.
\<close>

definition old_pipes :: "nat \<Rightarrow> fd_table \<Rightarrow> bool" where
  "old_pipes n tbl \<longleftrightarrow> (\<forall>k m. (k, PipeR m) \<in> set tbl \<or> (k, PipeW m) \<in> set tbl \<longrightarrow> m < n)"

definition os_ready :: "'w os_state \<Rightarrow> bool" where
  "os_ready s \<longleftrightarrow> (\<forall>(k, e) \<in> set (os_fds s). 0 \<le> k \<and> e = ExtFile) \<and> 1 \<in> fst ` set (os_fds s) \<and> 2 \<in> fst ` set (os_fds s) \<and>
     0 < os_pid s \<and> (\<forall>(p, t, j) \<in> set (os_kids s). p < os_pid s \<and> old_pipes (os_pipes s) t)"

subsection \<open>Descriptors\<close>

lemma lowest_free_fresh: "lowest_free tbl \<notin> fst ` set tbl" and lowest_free_nonneg: "0 \<le> lowest_free tbl"
proof -
  let ?c = "map int [0..<Suc (length tbl)]"
  have "\<not> set ?c \<subseteq> fst ` set tbl"
  proof
    assume "set ?c \<subseteq> fst ` set tbl"
    then have "card (set ?c) \<le> card (fst ` set tbl)"
      by (intro card_mono) auto
    also have "\<dots> \<le> length tbl"
      by (metis card_image_le finite_set card_length le_trans)
    finally show False
      by (subst (asm) distinct_card) (auto simp: distinct_map)
  qed
  then obtain k where k: "find (\<lambda>k. k \<notin> fst ` set tbl) ?c = Some k"
    by (cases "find (\<lambda>k. k \<notin> fst ` set tbl) ?c") (auto simp: find_None_iff simp del: upt_Suc)
  then have "k \<in> set ?c" "k \<notin> fst ` set tbl"
    by (auto simp: find_Some_iff simp del: upt_Suc)
  moreover have "lowest_free tbl = k"
    by (simp add: lowest_free_def k del: upt_Suc)
  ultimately show "lowest_free tbl \<notin> fst ` set tbl" "0 \<le> lowest_free tbl"
    by auto
qed

lemma fd_close_simps [simp]:
  "fd_close fd [] = []" "fd_close fd ((k, e) # t) = (if k = fd then fd_close fd t else (k, e) # fd_close fd t)"
  by (simp_all add: fd_close_def)

lemma fd_close_notin: "fd \<notin> fst ` set t \<Longrightarrow> fd_close fd t = t"
  unfolding fd_close_def by (rule filter_True) (auto simp: image_iff)

lemma map_of_fd_close [simp]: "map_of (fd_close fd t) k = (if k = fd then None else map_of t k)"
  by (induction t) auto

lemma fd_close_idem [simp]: "fd_close fd (fd_close fd t) = fd_close fd t"
  by (simp add: fd_close_def)

lemma set_fd_close: "set (fd_close fd t) = {x \<in> set t. fst x \<noteq> fd}"
  by (auto simp: fd_close_def)

lemma can_write_simps [simp]:
  "can_write n [] = False" "can_write n ((k, e) # t) = (PipeW n = e \<or> can_write n t)"
  by (auto simp: can_write_def)

lemma can_write_close: "\<not> can_write n t \<Longrightarrow> \<not> can_write n (fd_close fd t)"
  by (auto simp: can_write_def set_fd_close)

lemma old_no_write: "old_pipes n t \<Longrightarrow> n \<le> m \<Longrightarrow> \<not> can_write m t"
  by (fastforce simp: old_pipes_def can_write_def)

lemma old_pipes_mono: "old_pipes n t \<Longrightarrow> n \<le> m \<Longrightarrow> old_pipes m t"
  unfolding old_pipes_def by (meson order_less_le_trans)

lemma ext_no_write: "\<forall>(k, e) \<in> set t. e = ExtFile \<Longrightarrow> \<not> can_write n t"
  by (auto simp: can_write_def)

lemma fold_print:
  assumes "map_of tbl 1 = Some (PipeW m)" "map_of tbl 2 = Some (PipeW m)"
  shows "fold (\<lambda>(err, x). fd_print tbl (if err then 2 else 1) x) out s = s\<lparr>os_buf := (os_buf s)(m := os_buf s m @ concat (map snd out))\<rparr>"
  by (induction out arbitrary: s) (auto simp: fd_print_def assms)

lemma argv_ExtractStrPtr [simp]: "argv (ExtractStrPtr l) = map c_str l"
  by (induction l) (auto simp: argv_def ExtractStrPtr_def)

subsection \<open>A child from its start to its end\<close>

lemma fd_print_ext: "map_of tbl fd = Some ExtFile \<Longrightarrow> fd_print tbl fd out s = s"
  by (simp add: fd_print_def)

lemma fd_print_pipe: "map_of tbl fd = Some (PipeW m) \<Longrightarrow> fd_print tbl fd out s = s\<lparr>os_buf := (os_buf s)(m := os_buf s m @ out)\<rparr>"
  by (simp add: fd_print_def)

lemma fd_dup2_Some: "map_of tbl old = Some e \<Longrightarrow> fd_dup2 OS w old new tbl = (if oe_dup2 OS w new then Some ((new, e) # fd_close new tbl) else None)"
  by (simp add: fd_dup2_def)

text \<open>The child ended with status \<open>st\<close> and world \<open>w\<close>, and \<open>out\<close> is behind what was in the pipe \<open>m\<close>.\<close>

definition runs_to :: "(status \<times> 'w os_state) option \<Rightarrow> status \<Rightarrow> 'w os_state \<Rightarrow> nat \<Rightarrow> bytes \<Rightarrow> 'w \<Rightarrow> bool" where
  "runs_to r st s m out w \<longleftrightarrow> (\<exists>B. r = Some (st, s\<lparr>os_buf := B, os_w := w\<rparr>) \<and> B m = os_buf s m @ out \<and> (\<forall>p. p \<noteq> m \<longrightarrow> os_buf s p = [] \<longrightarrow> B p = []))"

lemma runs_to_simps [simp]:
  "runs_to (Some (st, s)) st s m [] (os_w s)"
  "runs_to (Some (st, s\<lparr>os_buf := (os_buf s)(m := os_buf s m @ out)\<rparr>)) st s m out (os_w s)"
  "runs_to (Some (st, s\<lparr>os_w := w, os_buf := (os_buf s)(m := os_buf s m @ out)\<rparr>)) st s m out w"
  "runs_to (Some (st, s\<lparr>os_w := w, os_buf := (os_buf s)(n := [], m := os_buf s m @ out)\<rparr>)) st s m out w"
  unfolding runs_to_def
  by (rule exI[of _ "os_buf s"] exI[of _ "(os_buf s)(m := os_buf s m @ out)"] exI[of _ "(os_buf s)(n := [], m := os_buf s m @ out)"]; simp)+

lemma sys_execv_piped:
  assumes "map_of tbl 0 = Some (PipeR n)" "map_of tbl 1 = Some (PipeW m)" "map_of tbl 2 = Some (PipeW m)" "n \<noteq> m"
    "\<not> can_write n tbl" "\<not> can_write n (os_fds s)" "\<not> list_ex (\<lambda>(p, t, _). p \<noteq> pid \<and> can_write n t) (os_kids s)"
  shows "sys_execv OS pid tbl exe args s =
      (if \<not> oe_exec OS (os_w s) (c_str exe) then Some (None, s)
       else case oe_prog OS (os_w s) (c_str exe) (argv args) (Some (os_buf s n)) of ((st, out), w) \<Rightarrow>
         Some (Some st, s\<lparr>os_w := w, os_buf := (os_buf s)(n := [], m := os_buf s m @ concat (map snd out))\<rparr>))"
proof -
  obtain st out w where "oe_prog OS (os_w s) (c_str exe) (argv args) (Some (os_buf s n)) = ((st, out), w)"
    by (metis prod.exhaust_sel)
  then show ?thesis
    using assms(4-7) unfolding sys_execv_def Let_def assms(1) by (simp add: fold_print[OF assms(2,3)])
qed

lemma sys_execv_plain:
  assumes "\<And>n. map_of tbl 0 \<noteq> Some (PipeR n)" "map_of tbl 1 = Some (PipeW m)" "map_of tbl 2 = Some (PipeW m)"
  shows "sys_execv OS pid tbl exe args s =
      (if \<not> oe_exec OS (os_w s) (c_str exe) then Some (None, s)
       else case oe_prog OS (os_w s) (c_str exe) (argv args) None of ((st, out), w) \<Rightarrow>
         Some (Some st, s\<lparr>os_w := w, os_buf := (os_buf s)(m := os_buf s m @ concat (map snd out))\<rparr>))"
proof -
  obtain st out w where p: "oe_prog OS (os_w s) (c_str exe) (argv args) None = ((st, out), w)"
    by (metis prod.exhaust_sel)
  note f = fold_print[OF assms(2,3)]
  show ?thesis
  proof (cases "map_of tbl 0")
    case None
    then show ?thesis
      unfolding sys_execv_def Let_def None by (simp add: f p)
  next
    case (Some e)
    have "e \<noteq> PipeR (case e of PipeR n \<Rightarrow> n | _ \<Rightarrow> 0)"
      using assms(1) Some by metis
    then show ?thesis
      unfolding sys_execv_def Let_def Some by (cases e) (simp_all add: f p)
  qed
qed

lemma login_child_runs:
  fixes s :: "'w os_state"
  assumes T: "map_of T (fst pin) = Some (PipeR n)" "map_of T (snd pout) = Some (PipeW m)" "map_of T 2 = Some ExtFile"
      "\<forall>k. (k, PipeW n) \<in> set T \<longrightarrow> k = snd pin"
    and d: "fst pin \<notin> {1, 2, fst pout, snd pin}" "snd pout \<notin> {1, 2, fst pout, snd pin}" "2 \<noteq> fst pout" "2 \<noteq> snd pin" "n \<noteq> m"
    and w: "\<not> can_write n (os_fds s)" "\<not> list_ex (\<lambda>(p, t, _). p \<noteq> pid \<and> can_write n t) (os_kids s)"
    and r: "client_child OS exe args (Some (os_buf s n)) (os_w s) = ((st, out), w')"
  shows "runs_to (login_child OS pid pin pout exe (ExtractStrPtr args) T s) st s m out w'"
proof -
  define T0 where "T0 = fd_close (snd pin) (fd_close (fst pout) T)"
  define T1 where "T1 = (1, PipeW m) # fd_close 1 T0"
  define T2 where "T2 = (2, PipeW m) # fd_close 2 T1"
  define T3 where "T3 = (0, PipeR n) # fd_close 0 T2"
  have m0: "map_of T0 (snd pout) = Some (PipeW m)" "map_of T0 2 = Some ExtFile" "map_of T0 (fst pin) = Some (PipeR n)"
    using T d by (simp_all add: T0_def)
  have m1: "map_of T1 (snd pout) = Some (PipeW m)" "map_of T1 2 = Some ExtFile" "map_of T1 (fst pin) = Some (PipeR n)"
    using m0 d by (simp_all add: T1_def)
  have m2: "map_of T2 2 = Some (PipeW m)" "map_of T2 1 = Some (PipeW m)" "map_of T2 (fst pin) = Some (PipeR n)"
    using m1 d by (simp_all add: T2_def T1_def)
  have m3: "map_of T3 2 = Some (PipeW m)" "map_of T3 1 = Some (PipeW m)" "map_of T3 0 = Some (PipeR n)"
    using m2 by (simp_all add: T3_def)
  have cw: "\<not> can_write n T3"
    using T(4) d(5) by (auto simp: can_write_def set_fd_close T0_def T1_def T2_def T3_def)
  note x = sys_execv_piped[OF m3(3,2,1) d(5) cw w]
  note D = fd_dup2_Some[OF m0(1), of OS "os_w s" 1, folded T1_def] fd_dup2_Some[OF m1(1), of OS "os_w s" 2, folded T2_def]
    fd_dup2_Some[OF m2(3), of OS "os_w s" 0, folded T3_def]
  obtain st1 o1 w1 where g: "oe_prog OS (os_w s) (c_str exe) (map c_str args) (Some (os_buf s n)) = ((st1, o1), w1)"
    by (metis prod.exhaust_sel)
  note c = r[unfolded client_child_def Let_def] and child = login_child_def Let_def T0_def[symmetric]
  show ?thesis
  proof (cases "oe_dup2 OS (os_w s) 1 \<and> oe_dup2 OS (os_w s) 2")
    case False
    then have "login_child OS pid pin pout exe (ExtractStrPtr args) T s = Some (WExited 1, s)"
      unfolding child D(1) by (cases "oe_dup2 OS (os_w s) 1") (simp_all only: if_True if_False option.case D fd_print_ext[OF m0(2)] fd_print_ext[OF m1(2)], simp_all)
    moreover have "st = WExited 1" "out = []" "w' = os_w s"
      using c False by auto
    ultimately show ?thesis by simp
  next
    case True
    then have o: "oe_dup2 OS (os_w s) 1" "oe_dup2 OS (os_w s) 2" by simp_all
    show ?thesis
    proof (cases "oe_dup2 OS (os_w s) 0 \<and> oe_exec OS (os_w s) (c_str exe)")
      case True
      then show ?thesis
        using c unfolding child D(1) by (simp only: D o x if_True if_False option.case) (simp add: o g)
    next
      case False
      then show ?thesis
        using c unfolding child D(1)
        by (cases "oe_dup2 OS (os_w s) 0")
          (simp_all only: D o x if_True if_False option.case fd_print_pipe[OF m2(1)] fd_print_pipe[OF m3(1)], simp_all add: o, auto)
    qed
  qed
qed

lemma cmd_child_runs:
  fixes s :: "'w os_state"
  assumes T: "map_of T (snd pout) = Some (PipeW m)" "map_of T 2 = Some ExtFile" "\<And>n. map_of T 0 \<noteq> Some (PipeR n)"
    and d: "snd pout \<notin> {1, 2, fst pout}" "2 \<noteq> fst pout"
    and r: "client_child OS exe (Split cmdArgs '' '') None (os_w s) = ((st, out), w')"
  shows "runs_to (cmd_child OS pid pout exe cmdArgs T s) st s m out w'"
proof -
  define T0 where "T0 = fd_close (fst pout) T"
  define T1 where "T1 = (1, PipeW m) # fd_close 1 T0"
  define T2 where "T2 = (2, PipeW m) # fd_close 2 T1"
  have m0: "map_of T0 (snd pout) = Some (PipeW m)" "map_of T0 2 = Some ExtFile"
    using T d by (simp_all add: T0_def)
  have m1: "map_of T1 (snd pout) = Some (PipeW m)" "map_of T1 2 = Some ExtFile"
    using m0 d by (simp_all add: T1_def)
  have m2: "map_of T2 2 = Some (PipeW m)" "map_of T2 1 = Some (PipeW m)" "map_of T2 0 \<noteq> Some (PipeR n)" for n
    using T(3) by (simp_all add: T2_def T1_def T0_def)
  note x = sys_execv_plain[OF m2(3,2,1)]
  note D = fd_dup2_Some[OF m0(1), of OS "os_w s" 1, folded T1_def] fd_dup2_Some[OF m1(1), of OS "os_w s" 2, folded T2_def]
  obtain st1 o1 w1 where g: "oe_prog OS (os_w s) (c_str exe) (map c_str (Split cmdArgs '' '')) None = ((st1, o1), w1)"
    by (metis prod.exhaust_sel)
  note c = r[unfolded client_child_def Let_def] and child = cmd_child_def Let_def T0_def[symmetric]
  show ?thesis
  proof (cases "oe_dup2 OS (os_w s) 1 \<and> oe_dup2 OS (os_w s) 2")
    case False
    then have "cmd_child OS pid pout exe cmdArgs T s = Some (WExited 1, s)"
      unfolding child D(1) by (cases "oe_dup2 OS (os_w s) 1") (simp_all only: if_True if_False option.case D fd_print_ext[OF m0(2)] fd_print_ext[OF m1(2)], simp_all)
    moreover have "st = WExited 1" "out = []" "w' = os_w s"
      using c False by auto
    ultimately show ?thesis by simp
  next
    case True
    then have o: "oe_dup2 OS (os_w s) 1" "oe_dup2 OS (os_w s) 2" by simp_all
    show ?thesis
    proof (cases "oe_exec OS (os_w s) (c_str exe)")
      case True
      then show ?thesis
        using c unfolding child D(1) by (simp only: D o x if_True if_False option.case) (simp add: o g)
    next
      case False
      then show ?thesis
        using c unfolding child D(1)
        by (simp_all only: D o x if_True if_False option.case fd_print_pipe[OF m2(1)], simp_all add: o, auto)
    qed
  qed
qed

subsection \<open>Reading to the end, and waiting\<close>

lemma kid_map_others: "\<forall>(p, k) \<in> set K. p \<noteq> pid \<Longrightarrow> map (\<lambda>(p, k). if p = pid then f p else (p, k)) K = K"
  by (induction K) auto

lemma no_kid_writes:
  "\<forall>(p, t, j) \<in> set K. \<not> can_write m t \<Longrightarrow> filter (\<lambda>(p, t, _). can_write m t) K = []"
  by (induction K) auto

lemma sys_read_no_kid:
  assumes "map_of (os_fds s) fd = Some (PipeR m)" "\<forall>(p, t, j) \<in> set (os_kids s). \<not> can_write m t" "\<not> can_write m (os_fds s)"
  shows "sys_read OS fd len s =
    (let (k, w) = oe_read OS (os_w s) len; s = s\<lparr>os_w := w\<rparr> in
     case k of None \<Rightarrow> Some (None, s)
     | Some k \<Rightarrow> if os_buf s m = [] then Some (Some [], s)
         else let q = max 1 (min k len) in Some (Some (take q (os_buf s m)), s\<lparr>os_buf := (os_buf s)(m := drop q (os_buf s m))\<rparr>))"
  using assms no_kid_writes[OF assms(2)] by (simp add: sys_read_def Let_def split: prod.split option.split)

lemma ReadFromPipe_all:
  assumes "map_of (os_fds s) fd = Some (PipeR m)" "\<forall>(p, t, j) \<in> set (os_kids s). \<not> can_write m t" "\<not> can_write m (os_fds s)"
    and "client_read OS (length (os_buf s m)) (os_w s) = (ok, w)"
  shows "\<exists>B v. ReadFromPipe OS fd vec s = Some ((ok, v), (if ok then id else sys_close fd) (s\<lparr>os_buf := B, os_w := w\<rparr>)) \<and>
    (ok \<longrightarrow> v = vec @ os_buf s m) \<and> (\<forall>p. os_buf s p = [] \<longrightarrow> B p = [])"
  using assms
proof (induction "length (os_buf s m)" arbitrary: s vec rule: less_induct)
  case less
  obtain k w1 where k: "oe_read OS (os_w s) 1024 = (k, w1)"
    by fastforce
  note R = sys_read_no_kid[OF less.prems(1-3), of OS 1024, unfolded k]
  have c: "client_read OS (length (os_buf s m)) (os_w s) = (ok, w)"
    by (rule less.prems(4))
  show ?case
  proof (cases k)
    case None
    then show ?thesis
      using c by (subst ReadFromPipe.simps, subst (asm) client_read.simps) (auto simp: R k Let_def intro!: exI[of _ "os_buf s"])
  next
    case (Some q)
    let ?q = "max 1 (min q 1024)"
    show ?thesis
    proof (cases "os_buf s m = []")
      case True
      then show ?thesis
        using c Some by (subst ReadFromPipe.simps, subst (asm) client_read.simps) (auto simp: R k Let_def intro!: exI[of _ "os_buf s"])
    next
      case False
      let ?s = "s\<lparr>os_w := w1, os_buf := (os_buf s)(m := drop ?q (os_buf s m))\<rparr>"
      have rd: "sys_read OS fd 1024 s = Some (Some (take ?q (os_buf s m)), ?s)"
        using False Some by (simp add: R Let_def)
      have "client_read OS (length (os_buf s m) - ?q) w1 = (ok, w)"
        using c False Some by (subst (asm) client_read.simps) (simp add: k)
      moreover have "length (drop ?q (os_buf s m)) < length (os_buf s m)"
        using False by simp
      ultimately have "\<exists>B v. ReadFromPipe OS fd (vec @ take ?q (os_buf s m)) ?s =
          Some ((ok, v), (if ok then id else sys_close fd) (?s\<lparr>os_buf := B, os_w := w\<rparr>)) \<and>
          (ok \<longrightarrow> v = (vec @ take ?q (os_buf s m)) @ drop ?q (os_buf s m)) \<and> (\<forall>p. os_buf ?s p = [] \<longrightarrow> B p = [])"
        using less.hyps[of ?s "vec @ take ?q (os_buf s m)"] less.prems(1-3) by simp
      then obtain B v where B: "ReadFromPipe OS fd (vec @ take ?q (os_buf s m)) ?s =
          Some ((ok, v), (if ok then id else sys_close fd) (?s\<lparr>os_buf := B, os_w := w\<rparr>))" "ok \<longrightarrow> v = vec @ os_buf s m"
          "\<forall>p. os_buf ?s p = [] \<longrightarrow> B p = []"
        by auto
      have "take ?q (os_buf s m) \<noteq> []"
        using False by simp
      then have "ReadFromPipe OS fd vec s = Some ((ok, v), (if ok then id else sys_close fd) (s\<lparr>os_buf := B, os_w := w\<rparr>))"
        using B(1) by (subst ReadFromPipe.simps) (simp add: rd)
      moreover have "\<forall>p. os_buf s p = [] \<longrightarrow> B p = []"
      proof (intro allI impI)
        fix p assume "os_buf s p = []"
        then have "os_buf ?s p = []" by auto
        then show "B p = []" using B(3) by blast
      qed
      ultimately show ?thesis
        using B(2) by blast
    qed
  qed
qed

text \<open>A child that is first read from and then waited for.\<close>

lemma child_read:
  assumes k: "os_kids s = (pid, T, j) # K" "\<forall>(p, t, j) \<in> set K. p \<noteq> pid \<and> \<not> can_write m t" "can_write m T"
    and fd: "map_of (os_fds s) fd = Some (PipeR m)" "\<not> can_write m (os_fds s)" "os_buf s m = []"
    and run: "runs_to (run_job OS pid T j s) st s m out w1" and rd: "client_read OS (length out) w1 = (ok, w2)"
  shows "\<exists>B v. ReadFromPipe OS fd [] s =
      Some ((ok, v), (if ok then id else sys_close fd) (s\<lparr>os_kids := (pid, [], Ended st) # K, os_buf := B, os_w := w2\<rparr>)) \<and> (ok \<longrightarrow> v = out) \<and>
    (\<forall>p. p \<noteq> m \<longrightarrow> os_buf s p = [] \<longrightarrow> B p = [])"
proof -
  obtain B where B: "run_job OS pid T j s = Some (st, s\<lparr>os_buf := B, os_w := w1\<rparr>)" "B m = out" "\<forall>p. p \<noteq> m \<longrightarrow> os_buf s p = [] \<longrightarrow> B p = []"
    using run fd(3) by (auto simp: runs_to_def)
  let ?s = "s\<lparr>os_buf := B, os_w := w1, os_kids := (pid, [], Ended st) # K\<rparr>"
  have K: "map (\<lambda>(p, k). if p = pid then (p, [], Ended st) else (p, k)) K = K"
    using k(2) by (intro kid_map_others) auto
  have "run_kid OS pid s = Some (st, ?s)"
    by (simp add: run_kid_def k(1) B(1) K)
  moreover have "filter (\<lambda>(p, t, _). can_write m t) K = []"
    using k(2) by (intro no_kid_writes) auto
  ultimately have "run_kids OS (map fst (filter (\<lambda>(p, t, _). can_write m t) (os_kids s))) s = Some ?s"
    using k(1,3) by simp
  moreover have n: "\<forall>(p, t, j) \<in> set (os_kids ?s). \<not> can_write m t"
    using k(2) by auto
  ultimately have "sys_read OS fd 1024 s = sys_read OS fd 1024 ?s"
    using fd no_kid_writes[OF n] unfolding sys_read_def by simp
  then have "ReadFromPipe OS fd [] s = ReadFromPipe OS fd [] ?s"
    by (simp add: ReadFromPipe.simps[of OS fd "[]" s] ReadFromPipe.simps[of OS fd "[]" ?s])
  moreover have "\<exists>B' v. ReadFromPipe OS fd [] ?s = Some ((ok, v), (if ok then id else sys_close fd) (?s\<lparr>os_buf := B', os_w := w2\<rparr>)) \<and>
      (ok \<longrightarrow> v = [] @ os_buf ?s m) \<and> (\<forall>p. os_buf ?s p = [] \<longrightarrow> B' p = [])"
    by (rule ReadFromPipe_all[OF _ n]) (use fd(1,2) rd B(2) in simp_all)
  then obtain B' v where "ReadFromPipe OS fd [] ?s = Some ((ok, v), (if ok then id else sys_close fd) (?s\<lparr>os_buf := B', os_w := w2\<rparr>))"
      "ok \<longrightarrow> v = out" "\<forall>p. B p = [] \<longrightarrow> B' p = []"
    using B(2) by auto
  ultimately show ?thesis
    using B(3) by (intro exI[of _ B'] exI[of _ v]) simp
qed

lemma child_wait:
  assumes "os_kids s = (pid, [], Ended st) # K" "\<forall>(p, t, j) \<in> set K. p \<noteq> pid" "oe_wait OS (os_w s) = (ok, w)"
  shows "WaitForChildProcess OS pid s = Some (ok \<and> st = WExited 0, s\<lparr>os_w := w, os_kids := if ok then K else os_kids s\<rparr>)"
proof -
  have K: "map (\<lambda>(p, k). if p = pid then (p, [], Ended st) else (p, k)) K = K"
    using assms(2) by (intro kid_map_others) auto
  have F: "filter (\<lambda>(p, _). p \<noteq> pid) K = K"
    using assms(2) by (intro filter_True) auto
  have "run_kid OS pid s = Some (st, s)"
    by (simp add: run_kid_def assms(1) K)
  then have "sys_waitpid OS pid s = Some ((if ok then Some st else None), s\<lparr>os_w := w, os_kids := if ok then K else os_kids s\<rparr>)"
    using assms F by (simp add: sys_waitpid_def)
  then show ?thesis
    by (cases st) (auto simp: WaitForChildProcess_def)
qed

subsection \<open>The command\<close>

definition cmd_result :: "proc \<times> 'w \<Rightarrow> (int \<times> bytes) \<times> 'w" where
  "cmd_result r =
    (case r of (ProcFail, w) \<Rightarrow> ((1, []), w)
     | (ProcEnd ok out, w) \<Rightarrow> if \<not> ok \<and> \<not> list_empty_case out then ((1, out), w) else ((0, out), w))"

text \<open>What is left after a command: the descriptors \<open>F\<close>, and at most one more child.\<close>

definition leaves :: "fd_table \<Rightarrow> (int \<times> fd_table \<times> job) list \<Rightarrow> int \<Rightarrow> nat \<Rightarrow> 'w os_state \<Rightarrow> bool" where
  "leaves F K pid n s \<longleftrightarrow> os_fds s = F \<and> pid \<le> os_pid s \<and> n \<le> os_pipes s \<and>
     (\<exists>l. os_kids s = l @ K \<and> length l \<le> 1 \<and> (\<forall>(p, t, j) \<in> set l. p < os_pid s \<and> old_pipes (os_pipes s) t))"

lemma leavesI:
  "os_fds s = F \<Longrightarrow> pid \<le> os_pid s \<Longrightarrow> n \<le> os_pipes s \<Longrightarrow> os_kids s = K \<Longrightarrow> leaves F K pid n s"
  "os_fds s = F \<Longrightarrow> pid \<le> os_pid s \<Longrightarrow> n \<le> os_pipes s \<Longrightarrow> os_kids s = (p, t, j) # K \<Longrightarrow> p < os_pid s \<Longrightarrow> old_pipes (os_pipes s) t \<Longrightarrow> leaves F K pid n s"
  by (simp_all add: leaves_def exI[of _ "[(p, t, j)]"])

lemma old_pipes_nil [simp]: "old_pipes n []"
  by (simp add: old_pipes_def)

lemma ClosePipes_simps [simp]:
  "ClosePipes [] s = s" "ClosePipes (p # ps) s = ClosePipes ps (sys_close (snd p) (sys_close (fst p) s))"
  by (simp_all add: ClosePipes_def)

lemma sys_close_simps [simp]:
  "os_fds (sys_close fd s) = fd_close fd (os_fds s)" "os_buf (sys_close fd s) = os_buf s" "os_pipes (sys_close fd s) = os_pipes s"
  "os_kids (sys_close fd s) = os_kids s" "os_pid (sys_close fd s) = os_pid s" "os_w (sys_close fd s) = os_w s"
  by (simp_all add: sys_close_def)

lemma ext_map_of: "\<forall>(k, e) \<in> set F. e = ExtFile \<Longrightarrow> map_of F k = (if k \<in> fst ` set F then Some ExtFile else None)"
  by (induction F) auto

lemma client_end_cases:
  assumes "client_read OS (length out) w = (okr, w1)" "oe_wait OS w1 = (okw, w2)"
  shows "client_end OS ((st, out), w) = (if \<not> okr then (ProcFail, w1) else (ProcEnd (okw \<and> st = WExited 0) out, w2))"
  by (simp add: client_end_def assms)

lemma OS_ExecCommand_runs:
  assumes fds: "os_fds s = (f, PipeW m) # (e, PipeR m) # (c, PipeR q) # F" "os_buf s m = []"
    and fresh: "distinct [a, b, c, d, e, f]" "set [a, b, c, d, e, f] \<inter> fst ` set F = {}" "0 \<in> insert a (fst ` set F)"
    and F: "\<forall>(k, e) \<in> set F. e = ExtFile" "1 \<in> fst ` set F" "2 \<in> fst ` set F"
    and kids: "0 < os_pid s" "\<forall>(p, t, j) \<in> set (os_kids s). p < os_pid s \<and> \<not> can_write m t"
  shows "\<exists>r s'. OS_ExecCommand OS exe cmdArgs (a, b) (c, d) (e, f) s = Some (r, s') \<and>
    cmd_result (client_run OS (os_w s) exe (Split cmdArgs '' '')) = (r, os_w s') \<and> leaves F (os_kids s) (os_pid s) (os_pipes s) s'"
proof -
  obtain okf w1 where f: "oe_fork OS (os_w s) = (okf, w1)"
    by fastforce
  have n: "a \<notin> fst ` set F" "b \<notin> fst ` set F" "c \<notin> fst ` set F" "d \<notin> fst ` set F" "e \<notin> fst ` set F" "f \<notin> fst ` set F"
    using fresh(2) by (simp_all add: disjoint_iff)
  note cl = n[THEN fd_close_notin]
  have ne: "e \<noteq> 0" "c \<noteq> 0" "f \<noteq> 1" "f \<noteq> 2" "e \<noteq> 2" "c \<noteq> 2"
    using n fresh(1,3) F(2,3) by (metis insertE distinct_length_2_or_more)+
  show ?thesis
  proof (cases okf)
    case False
    have "OS_ExecCommand OS exe cmdArgs (a, b) (c, d) (e, f) s = Some ((1, []), ClosePipes [(a, b), (c, d), (e, f)] (s\<lparr>os_w := w1\<rparr>))"
      using False f by (simp add: OS_ExecCommand_def ForkAndRunCommand_def sys_fork_def)
    moreover have "cmd_result (client_run OS (os_w s) exe (Split cmdArgs '' '')) = ((1, []), w1)"
      using False f by (simp add: client_run_def cmd_result_def)
    moreover have "leaves F (os_kids s) (os_pid s) (os_pipes s) (ClosePipes [(a, b), (c, d), (e, f)] (s\<lparr>os_w := w1\<rparr>))"
      using fresh(1) by (intro leavesI(1)) (simp_all add: fds cl)
    ultimately show ?thesis
      by simp
  next
    case True
    let ?pid = "os_pid s" and ?T = "os_fds s"
    let ?s = "sys_close f (s\<lparr>os_w := w1, os_kids := (?pid, ?T, CmdJob (e, f) exe cmdArgs) # os_kids s, os_pid := ?pid + 1\<rparr>)"
    have fork: "ForkAndRunCommand OS exe (e, f) cmdArgs s =
        (?pid, s\<lparr>os_w := w1, os_kids := (?pid, ?T, CmdJob (e, f) exe cmdArgs) # os_kids s, os_pid := ?pid + 1\<rparr>)"
      using True f by (simp add: ForkAndRunCommand_def sys_fork_def)
    obtain st out w2 where ch: "client_child OS exe (Split cmdArgs '' '') None w1 = ((st, out), w2)"
      by (metis prod.exhaust_sel)
    obtain okr w3 where rd: "client_read OS (length out) w2 = (okr, w3)"
      by fastforce
    obtain okw w4 where wt: "oe_wait OS w3 = (okw, w4)"
      by fastforce
    have run: "runs_to (run_job OS ?pid ?T (CmdJob (e, f) exe cmdArgs) ?s) st ?s m out w2"
      unfolding run_job.simps
    proof (rule cmd_child_runs)
      show "map_of ?T 0 \<noteq> Some (PipeR k)" for k
        using ne fresh(1) by (auto simp: fds ext_map_of[OF F(1)])
    qed (use ne fresh(1) ch F(3) in \<open>auto simp: fds ext_map_of[OF F(1)]\<close>)
    have k': "\<forall>(p, t, j) \<in> set (os_kids s). p \<noteq> ?pid \<and> \<not> can_write m t"
      using kids(2) by auto
    have k2: "\<forall>(p, t, j) \<in> set (os_kids s). p \<noteq> ?pid"
      using kids(2) by auto
    have "\<exists>B v. ReadFromPipe OS e [] ?s =
        Some ((okr, v), (if okr then id else sys_close e) (?s\<lparr>os_kids := (?pid, [], Ended st) # os_kids s, os_buf := B, os_w := w3\<rparr>)) \<and>
        (okr \<longrightarrow> v = out) \<and> (\<forall>p. p \<noteq> m \<longrightarrow> os_buf ?s p = [] \<longrightarrow> B p = [])"
      by (rule child_read[OF _ k' _ _ _ _ run rd]) (use fresh(1) ext_no_write[OF F(1)] fds(2) in \<open>simp_all add: fds cl\<close>)
    then obtain B v where R: "ReadFromPipe OS e [] ?s =
        Some ((okr, v), (if okr then id else sys_close e) (?s\<lparr>os_kids := (?pid, [], Ended st) # os_kids s, os_buf := B, os_w := w3\<rparr>))"
        "okr \<longrightarrow> v = out"
      by blast
    let ?r = "?s\<lparr>os_kids := (?pid, [], Ended st) # os_kids s, os_buf := B, os_w := w3\<rparr>"
    have A: "client_run OS (os_w s) exe (Split cmdArgs '' '') =
        (if \<not> okr then (ProcFail, w3) else (ProcEnd (okw \<and> st = WExited 0) out, w4))"
      using client_end_cases[OF rd wt] True by (simp add: client_run_def f ch)
    let ?C = "\<lambda>s. ClosePipes [(a, b), (c, d), (e, f)] s"
    show ?thesis
    proof (cases okr)
      case False
      have "OS_ExecCommand OS exe cmdArgs (a, b) (c, d) (e, f) s = Some ((1, []), ?C (sys_close e ?r))"
        unfolding OS_ExecCommand_def Let_def fork using False kids(1) R by simp
      moreover have "leaves F (os_kids s) (os_pid s) (os_pipes s) (?C (sys_close e ?r))"
        using fresh(1) by (intro leavesI(2)[of _ _ _ _ ?pid "[]"]) (simp_all add: fds cl)
      ultimately show ?thesis
        using A False by (simp add: cmd_result_def)
    next
      case okr: True
      let ?t = "?r\<lparr>os_w := w4, os_kids := if okw then os_kids s else (?pid, [], Ended st) # os_kids s\<rparr>"
      have W: "WaitForChildProcess OS ?pid ?r = Some (okw \<and> st = WExited 0, ?t)"
        using child_wait[of ?r ?pid st "os_kids s" OS okw w4] k2 wt by simp
      let ?x = "(if \<not> (okw \<and> st = WExited 0) \<and> \<not> list_empty_case out then 1 else 0, out)"
      have "OS_ExecCommand OS exe cmdArgs (a, b) (c, d) (e, f) s = Some (?x, ?C ?t)"
        unfolding OS_ExecCommand_def Let_def fork using okr kids(1) R W by simp
      moreover have "leaves F (os_kids s) (os_pid s) (os_pipes s) (?C ?t)"
      proof (cases okw)
        case True
        then show ?thesis
          using fresh(1) by (intro leavesI(1)) (simp_all add: fds cl)
      next
        case False
        then show ?thesis
          using fresh(1) by (intro leavesI(2)[of _ _ _ _ ?pid "[]"]) (simp_all add: fds cl)
      qed
      ultimately show ?thesis
        using A okr by (simp add: cmd_result_def)
    qed
  qed
qed

subsection \<open>The pipes\<close>

lemma lowest_free_zero: "0 \<in> insert (lowest_free tbl) (fst ` set tbl)"
proof (cases "0 \<in> fst ` set tbl")
  case False
  then have "find (\<lambda>k. k \<notin> fst ` set tbl) (map int [0..<Suc (length tbl)]) = Some 0"
    by (simp add: upt_conv_Cons del: upt_Suc)
  then show ?thesis
    by (simp add: lowest_free_def del: upt_Suc)
qed simp

lemma sys_pipe_ok:
  assumes "oe_pipe OS (os_w s) (length (os_fds s))"
  obtains r w where "sys_pipe OS s = (Some (r, w), s\<lparr>os_fds := (w, PipeW (os_pipes s)) # (r, PipeR (os_pipes s)) # os_fds s,
      os_buf := (os_buf s)(os_pipes s := []), os_pipes := os_pipes s + 1\<rparr>)"
    "r \<notin> fst ` set (os_fds s)" "w \<notin> fst ` set (os_fds s)" "w \<noteq> r" "0 \<in> insert r (fst ` set (os_fds s))"
proof -
  let ?r = "lowest_free (os_fds s)"
  let ?w = "lowest_free ((?r, PipeR (os_pipes s)) # os_fds s)"
  have "?w \<notin> insert ?r (fst ` set (os_fds s))"
    using lowest_free_fresh[of "(?r, PipeR (os_pipes s)) # os_fds s"] by simp
  then show thesis
    using assms by (intro that[of ?r ?w] lowest_free_fresh lowest_free_zero) (simp_all add: sys_pipe_def Let_def)
qed

lemma sys_pipe_fail: "\<not> oe_pipe OS (os_w s) (length (os_fds s)) \<Longrightarrow> sys_pipe OS s = (None, s)"
  by (simp add: sys_pipe_def)

text \<open>The table after the pipes were made; when one cannot be made, the zeroed pairs make descriptor 0 close.\<close>

definition pipes_made :: "PipeTy \<Rightarrow> PipeTy \<Rightarrow> PipeTy \<Rightarrow> nat \<Rightarrow> fd_table \<Rightarrow> fd_table" where
  "pipes_made p1 p2 p3 n F = (snd p3, PipeW (n + 2)) # (fst p3, PipeR (n + 2)) # (snd p2, PipeW (n + 1)) # (fst p2, PipeR (n + 1)) #
     (snd p1, PipeW n) # (fst p1, PipeR n) # F"

lemma CreatePipes_cases:
  fixes s :: "'w os_state"
  assumes "CreatePipes OS (0, 0) (0, 0) (0, 0) s = ((ok, p1, p2, p3), s')"
  obtains (Made) B where "ok" "oe_pipe OS (os_w s) (length (os_fds s)) \<and> oe_pipe OS (os_w s) (length (os_fds s) + 2) \<and>
        oe_pipe OS (os_w s) (length (os_fds s) + 4)"
      "s' = s\<lparr>os_fds := pipes_made p1 p2 p3 (os_pipes s) (os_fds s), os_buf := B, os_pipes := os_pipes s + 3\<rparr>"
      "B (os_pipes s) = []" "B (os_pipes s + 1) = []" "B (os_pipes s + 2) = []"
      "distinct [fst p1, snd p1, fst p2, snd p2, fst p3, snd p3]"
      "set [fst p1, snd p1, fst p2, snd p2, fst p3, snd p3] \<inter> fst ` set (os_fds s) = {}" "0 \<in> insert (fst p1) (fst ` set (os_fds s))"
  | (Failed) B n where "\<not> ok" "\<not> (oe_pipe OS (os_w s) (length (os_fds s)) \<and> oe_pipe OS (os_w s) (length (os_fds s) + 2) \<and>
        oe_pipe OS (os_w s) (length (os_fds s) + 4))"
      "s' = s\<lparr>os_fds := fd_close 0 (os_fds s), os_buf := B, os_pipes := os_pipes s + n\<rparr>"
proof (cases "oe_pipe OS (os_w s) (length (os_fds s))")
  case False
  then have "CreatePipes OS (0, 0) (0, 0) (0, 0) s = ((False, (0, 0), (0, 0), (0, 0)), ClosePipes [(0, 0), (0, 0), (0, 0)] s)"
    by (simp add: CreatePipes_def sys_pipe_fail)
  then show thesis
    using assms False by (intro Failed[where B = "os_buf s" and n = 0]) (auto simp: sys_close_def fd_close_idem)
next
  case ok1: True
  let ?F = "os_fds s" and ?n = "os_pipes s"
  obtain a b where 1: "sys_pipe OS s = (Some (a, b), s\<lparr>os_fds := (b, PipeW ?n) # (a, PipeR ?n) # ?F, os_buf := (os_buf s)(?n := []), os_pipes := ?n + 1\<rparr>)"
    and f1: "a \<notin> fst ` set ?F" "b \<notin> fst ` set ?F" "b \<noteq> a" "0 \<in> insert a (fst ` set ?F)"
    by (rule sys_pipe_ok[OF ok1])
  note cl = f1(1,2)[THEN fd_close_notin]
  define s1 where "s1 = s\<lparr>os_fds := (b, PipeW ?n) # (a, PipeR ?n) # ?F, os_buf := (os_buf s)(?n := []), os_pipes := ?n + 1\<rparr>"
  show thesis
  proof (cases "oe_pipe OS (os_w s1) (length (os_fds s1))")
    case False
    then have "CreatePipes OS (0, 0) (0, 0) (0, 0) s = ((False, (a, b), (0, 0), (0, 0)), ClosePipes [(a, b), (0, 0), (0, 0)] s1)"
      by (simp add: CreatePipes_def 1[folded s1_def] sys_pipe_fail)
    then show thesis
      using assms False f1(3) cl by (intro Failed[where B = "os_buf s1" and n = 1]) (auto simp: sys_close_def s1_def)
  next
    case ok2: True
    obtain c d where 2: "sys_pipe OS s1 = (Some (c, d), s1\<lparr>os_fds := (d, PipeW (os_pipes s1)) # (c, PipeR (os_pipes s1)) # os_fds s1,
          os_buf := (os_buf s1)(os_pipes s1 := []), os_pipes := os_pipes s1 + 1\<rparr>)"
      and f2: "c \<notin> fst ` set (os_fds s1)" "d \<notin> fst ` set (os_fds s1)" "d \<noteq> c"
        "0 \<in> insert c (fst ` set (os_fds s1))"
      by (rule sys_pipe_ok[OF ok2])
    have n2: "c \<noteq> a" "c \<noteq> b" "d \<noteq> a" "d \<noteq> b" "d \<noteq> c" "c \<notin> fst ` set (os_fds s)" "d \<notin> fst ` set (os_fds s)"
      using f2 by (simp_all add: s1_def)
    note n1 = f1(3) and cl = cl n2(6,7)[THEN fd_close_notin]
    define s2 where "s2 = s1\<lparr>os_fds := (d, PipeW (os_pipes s1)) # (c, PipeR (os_pipes s1)) # os_fds s1,
        os_buf := (os_buf s1)(os_pipes s1 := []), os_pipes := os_pipes s1 + 1\<rparr>"
    show thesis
    proof (cases "oe_pipe OS (os_w s2) (length (os_fds s2))")
      case False
      then have "CreatePipes OS (0, 0) (0, 0) (0, 0) s = ((False, (a, b), (c, d), (0, 0)), ClosePipes [(a, b), (c, d), (0, 0)] s2)"
        by (simp add: CreatePipes_def 1[folded s1_def] 2[folded s2_def] sys_pipe_fail)
      then show thesis
        using assms False n1 n2 cl by (intro Failed[where B = "os_buf s2" and n = 2]) (auto simp: sys_close_def s1_def s2_def eval_nat_numeral)
    next
      case ok3: True
      obtain e f where 3: "sys_pipe OS s2 = (Some (e, f), s2\<lparr>os_fds := (f, PipeW (os_pipes s2)) # (e, PipeR (os_pipes s2)) # os_fds s2,
            os_buf := (os_buf s2)(os_pipes s2 := []), os_pipes := os_pipes s2 + 1\<rparr>)"
        and f3: "e \<notin> fst ` set (os_fds s2)" "f \<notin> fst ` set (os_fds s2)" "f \<noteq> e"
          "0 \<in> insert e (fst ` set (os_fds s2))"
        by (rule sys_pipe_ok[OF ok3])
      define s3 where "s3 = s2\<lparr>os_fds := (f, PipeW (os_pipes s2)) # (e, PipeR (os_pipes s2)) # os_fds s2,
          os_buf := (os_buf s2)(os_pipes s2 := []), os_pipes := os_pipes s2 + 1\<rparr>"
      have r: "CreatePipes OS (0, 0) (0, 0) (0, 0) s = ((True, (a, b), (c, d), (e, f)), s3)"
        by (simp add: CreatePipes_def 1[folded s1_def] 2[folded s2_def] 3[folded s3_def])
      have x: "ok" "p1 = (a, b)" "p2 = (c, d)" "p3 = (e, f)" "s' = s3"
        using assms r by auto
      show thesis
      proof (rule Made[OF x(1), of "os_buf s3"])
        show "distinct [fst p1, snd p1, fst p2, snd p2, fst p3, snd p3]"
          "set [fst p1, snd p1, fst p2, snd p2, fst p3, snd p3] \<inter> fst ` set (os_fds s) = {}" "0 \<in> insert (fst p1) (fst ` set (os_fds s))"
          using f1 f2 f3 by (auto simp: x s1_def s2_def)
      qed (use ok1 ok2 ok3 in \<open>simp_all add: x pipes_made_def s1_def s2_def s3_def eval_nat_numeral\<close>)
    qed
  qed
qed

subsection \<open>The whole call\<close>

lemma OS_ExecPiped_runs:
  fixes s :: "'w os_state"
  assumes fds: "os_fds s = pipes_made (a, b) (c, d) (e, f) n F" "os_buf s n = []" "os_buf s (n + 1) = []" "os_buf s (n + 2) = []" "os_pipes s = n + 3"
    and fresh: "distinct [a, b, c, d, e, f]" "set [a, b, c, d, e, f] \<inter> fst ` set F = {}" "0 \<in> insert a (fst ` set F)"
    and F: "\<forall>(k, e) \<in> set F. e = ExtFile" "1 \<in> fst ` set F" "2 \<in> fst ` set F"
    and kids: "0 < os_pid s" "\<forall>(p, t, j) \<in> set (os_kids s). p < os_pid s \<and> old_pipes n t"
  shows "\<exists>r s'. OS_ExecPiped OS exe token cmdArgs (a, b) (c, d) (e, f) s = Some (r, s') \<and>
    (case client_login OS (os_w s) exe (MakeLoginVec exe) token of
       (ProcFail, w) \<Rightarrow> ((1, []), w)
     | (ProcEnd ok out, w) \<Rightarrow> if \<not> ok then ((1, out), w) else cmd_result (client_run OS w exe (Split cmdArgs '' ''))) = (r, os_w s') \<and>
    leaves F (os_kids s) (os_pid s) (os_pipes s) s'"
proof -
  obtain okf w1 where f: "oe_fork OS (os_w s) = (okf, w1)"
    by fastforce
  obtain kw w2 where wr: "oe_write OS w1 token = (kw, w2)"
    by fastforce
  have n: "a \<notin> fst ` set F" "b \<notin> fst ` set F" "c \<notin> fst ` set F" "d \<notin> fst ` set F" "e \<notin> fst ` set F" "f \<notin> fst ` set F"
    using fresh(2) by (simp_all add: disjoint_iff)
  have "a \<noteq> b" "a \<noteq> c" "a \<noteq> d" "a \<noteq> e" "a \<noteq> f" "b \<noteq> c" "b \<noteq> d" "b \<noteq> e" "b \<noteq> f" "c \<noteq> d" "c \<noteq> e" "c \<noteq> f" "d \<noteq> e" "d \<noteq> f" "e \<noteq> f"
    using fresh(1) by simp_all
  note ne = this this[symmetric]
  note cl = n[THEN fd_close_notin] and pm = pipes_made_def
  let ?C = "\<lambda>s. ClosePipes [(a, b), (c, d), (e, f)] s"
  let ?pid = "os_pid s" and ?T = "os_fds s" and ?j = "LoginJob (a, b) (c, d) exe (ExtractStrPtr (MakeLoginVec exe))"
  let ?s1 = "s\<lparr>os_w := w1, os_kids := (?pid, ?T, ?j) # os_kids s, os_pid := ?pid + 1\<rparr>"
  have old: "old_pipes (n + 3) ?T"
    using F(1) by (auto simp: fds pm old_pipes_def)
  show ?thesis
  proof (cases okf)
    case False
    have "OS_ExecPiped OS exe token cmdArgs (a, b) (c, d) (e, f) s = Some ((1, []), ?C (ClosePipes [(a, b), (c, d)] (s\<lparr>os_w := w1\<rparr>)))"
      using False f by (simp add: OS_ExecPiped_def ForkAndRunLogin_def sys_fork_def)
    moreover have "leaves F (os_kids s) (os_pid s) (os_pipes s) (?C (ClosePipes [(a, b), (c, d)] (s\<lparr>os_w := w1\<rparr>)))"
      using fresh(1) by (intro leavesI(1)) (simp_all add: fds pm cl)
    ultimately show ?thesis
      using False f by (simp add: client_login_def)
  next
    case okf: True
    have fork: "ForkAndRunLogin OS exe (a, b) (c, d) (ExtractStrPtr (MakeLoginVec exe)) s = (?pid, ?s1)"
      using okf f kids(1) by (simp add: ForkAndRunLogin_def sys_fork_def)
    have w: "map_of (os_fds ?s1) b = Some (PipeW n)"
      using fresh(1) by (simp add: fds pm)
    have l1: "leaves F (os_kids s) (os_pid s) (os_pipes s) (?C (?s1\<lparr>os_w := w', os_buf := B\<rparr>))" for w' B
      using fresh(1) old by (intro leavesI(2)[of _ _ _ _ ?pid ?T ?j]) (simp_all add: fds pm cl)
    show ?thesis
    proof (cases "kw \<noteq> None \<and> length token \<le> the kw")
      case False
      have "\<exists>m B. sys_write OS b token ?s1 = (m, ?s1\<lparr>os_w := w2, os_buf := B\<rparr>) \<and> m \<noteq> int (length token)"
      proof (cases kw)
        case None
        then show ?thesis
          using w wr by (intro exI[of _ "- 1"] exI[of _ "os_buf s"]) (simp add: sys_write_def)
      next
        case (Some k)
        then show ?thesis
          using False w wr by (auto simp: sys_write_def Let_def)
      qed
      then obtain m B where "sys_write OS b token ?s1 = (m, ?s1\<lparr>os_w := w2, os_buf := B\<rparr>)" "m \<noteq> int (length token)"
        by blast
      then have "OS_ExecPiped OS exe token cmdArgs (a, b) (c, d) (e, f) s = Some ((1, []), ?C (?s1\<lparr>os_w := w2, os_buf := B\<rparr>))"
        unfolding OS_ExecPiped_def Let_def fork using kids(1) by simp
      moreover have "client_login OS (os_w s) exe (MakeLoginVec exe) token = (ProcFail, w2)"
        using False okf f wr by (cases kw) (auto simp: client_login_def)
      ultimately show ?thesis
        using l1[of B w2] by simp
    next
      case True
      then obtain k where k: "kw = Some k" "length token \<le> k"
        by auto
      let ?B = "(os_buf s)(n := token)"
      let ?s3 = "sys_close d (ClosePipes [(a, b)] (?s1\<lparr>os_w := w2, os_buf := ?B\<rparr>))"
      have wrt: "sys_write OS b token ?s1 = (int (length token), ?s1\<lparr>os_w := w2, os_buf := ?B\<rparr>)"
        using w wr k by (simp add: sys_write_def fds(2))
      have fds3: "os_fds ?s3 = (f, PipeW (n + 2)) # (e, PipeR (n + 2)) # (c, PipeR (n + 1)) # F"
        by (simp add: fds(1) pm cl ne)
      obtain st out w3 where ch: "client_child OS exe (MakeLoginVec exe) (Some token) w2 = ((st, out), w3)"
        by (metis prod.exhaust_sel)
      obtain okr w4 where rd: "client_read OS (length out) w3 = (okr, w4)"
        by fastforce
      obtain okw w5 where wt: "oe_wait OS w4 = (okw, w5)"
        by fastforce
      have nw: "\<not> can_write m t" if "(p, t, j) \<in> set (os_kids s)" "n \<le> m" for p t j m
        using kids(2) that old_no_write[of n t m] by fastforce
      have k2: "\<forall>(p, t, j) \<in> set (os_kids s). p \<noteq> ?pid" and k3: "\<forall>(p, t, j) \<in> set (os_kids s). p \<noteq> ?pid \<and> \<not> can_write (n + 1) t"
        and k4: "\<not> list_ex (\<lambda>(p, t, _). p \<noteq> ?pid \<and> can_write n t) (os_kids ?s3)"
        using kids(2) nw by (fastforce simp: list_ex_iff)+
      have run: "runs_to (run_job OS ?pid ?T ?j ?s3) st ?s3 (n + 1) out w3"
        unfolding run_job.simps
      proof (rule login_child_runs[where n = n])
        show "\<not> can_write n (os_fds ?s3)"
          unfolding fds3 using ext_no_write[OF F(1)] by simp
        show "\<forall>k. (k, PipeW n) \<in> set ?T \<longrightarrow> k = snd (a, b)"
          using F(1) by (auto simp: fds pm)
      qed (use n fresh(1) F(2,3) k4 ch in \<open>auto simp: fds pm ext_map_of[OF F(1)]\<close>)
      have "\<exists>B v. ReadFromPipe OS c [] ?s3 =
          Some ((okr, v), (if okr then id else sys_close c) (?s3\<lparr>os_kids := (?pid, [], Ended st) # os_kids s, os_buf := B, os_w := w4\<rparr>)) \<and>
          (okr \<longrightarrow> v = out) \<and> (\<forall>p. p \<noteq> n + 1 \<longrightarrow> os_buf ?s3 p = [] \<longrightarrow> B p = [])"
      proof (rule child_read[OF _ k3 _ _ _ _ run rd])
        show "map_of (os_fds ?s3) c = Some (PipeR (n + 1))"
          unfolding fds3 using fresh(1) by simp
        show "\<not> can_write (n + 1) (os_fds ?s3)"
          unfolding fds3 using ext_no_write[OF F(1)] by simp
      qed (use fds(3) in \<open>simp_all add: fds pm\<close>)
      then obtain B v where R: "ReadFromPipe OS c [] ?s3 =
          Some ((okr, v), (if okr then id else sys_close c) (?s3\<lparr>os_kids := (?pid, [], Ended st) # os_kids s, os_buf := B, os_w := w4\<rparr>))"
          "okr \<longrightarrow> v = out" "B (n + 2) = []"
        using fds(4) by auto
      let ?r = "?s3\<lparr>os_kids := (?pid, [], Ended st) # os_kids s, os_buf := B, os_w := w4\<rparr>"
      have A: "client_login OS (os_w s) exe (MakeLoginVec exe) token =
          (if \<not> okr then (ProcFail, w4) else (ProcEnd (okw \<and> st = WExited 0) out, w5))"
        using client_end_cases[OF rd wt] okf k by (simp add: client_login_def f wr ch)
      have l2: "leaves F (os_kids s) (os_pid s) (os_pipes s) (?C t)"
        if "os_fds t = (f, PipeW (n + 2)) # (e, PipeR (n + 2)) # (c, PipeR (n + 1)) # F \<or> os_fds t = (f, PipeW (n + 2)) # (e, PipeR (n + 2)) # F"
          "os_kids t = os_kids s \<or> os_kids t = (?pid, [], Ended st) # os_kids s" "os_pid t = ?pid + 1" "os_pipes t = os_pipes s" for t :: "'w os_state"
        using that(2)
      proof
        assume "os_kids t = os_kids s"
        then show ?thesis
          using that(1,3,4) by (intro leavesI(1)) (auto simp: cl ne)
      next
        assume "os_kids t = (?pid, [], Ended st) # os_kids s"
        then show ?thesis
          using that(1,3,4) by (intro leavesI(2)[of _ _ _ _ ?pid "[]"]) (auto simp: cl ne)
      qed
      show ?thesis
      proof (cases okr)
        case False
        have "OS_ExecPiped OS exe token cmdArgs (a, b) (c, d) (e, f) s = Some ((1, []), ?C (sys_close c ?r))"
          unfolding OS_ExecPiped_def Let_def fork using False kids(1) R(1) by (simp add: wrt)
        moreover have "leaves F (os_kids s) (os_pid s) (os_pipes s) (?C (sys_close c ?r))"
          by (rule l2) (simp_all add: fds(1) pm cl ne)
        ultimately show ?thesis
          using A False by simp
      next
        case okr: True
        let ?t = "?r\<lparr>os_w := w5, os_kids := if okw then os_kids s else (?pid, [], Ended st) # os_kids s\<rparr>"
        have W: "WaitForChildProcess OS ?pid ?r = Some (okw \<and> st = WExited 0, ?t)"
          using child_wait[of ?r ?pid st "os_kids s" OS okw w5] k2 wt by simp
        have tf: "os_fds ?t = (f, PipeW (n + 2)) # (e, PipeR (n + 2)) # (c, PipeR (n + 1)) # F"
          using fds3 by simp
        show ?thesis
        proof (cases "okw \<and> st = WExited 0")
          case False
          have "OS_ExecPiped OS exe token cmdArgs (a, b) (c, d) (e, f) s = Some ((1, out), ?C ?t)"
            unfolding OS_ExecPiped_def Let_def fork using False okr kids(1) R(1,2) W by (simp add: wrt)
          moreover have "leaves F (os_kids s) (os_pid s) (os_pipes s) (?C ?t)"
            by (rule l2) (use tf in simp_all)
          ultimately show ?thesis
            using A okr False by auto
        next
          case True
          then have ok: "okw" "st = WExited 0" by simp_all
          have e: "OS_ExecPiped OS exe token cmdArgs (a, b) (c, d) (e, f) s = OS_ExecCommand OS exe cmdArgs (a, b) (c, d) (e, f) ?t"
            unfolding OS_ExecPiped_def Let_def fork using ok okr kids(1) R(1,2) W by (simp add: wrt)
          have kt: "os_kids ?t = os_kids s" "os_pid ?t = ?pid + 1" "os_pipes ?t = os_pipes s" "os_w ?t = w5" "os_buf ?t = B"
            using ok by simp_all
          have "\<exists>r s'. OS_ExecCommand OS exe cmdArgs (a, b) (c, d) (e, f) ?t = Some (r, s') \<and>
              cmd_result (client_run OS (os_w ?t) exe (Split cmdArgs '' '')) = (r, os_w s') \<and>
              leaves F (os_kids ?t) (os_pid ?t) (os_pipes ?t) s'"
          proof (rule OS_ExecCommand_runs[OF tf _ fresh F])
            show "\<forall>(p, t, j) \<in> set (os_kids ?t). p < os_pid ?t \<and> \<not> can_write (n + 2) t"
              unfolding kt using kids(2) nw by fastforce
          qed (use R(3) kids(1) in \<open>simp_all add: kt\<close>)
          moreover have "leaves F K (p + 1) m x \<Longrightarrow> leaves F K p m x" for K p m and x :: "'w os_state"
            by (auto simp: leaves_def)
          ultimately show ?thesis
            unfolding e kt using A okr ok by auto
        qed
      qed
    qed
  qed
qed

lemma ExecOpenbaoCmd_client:
  assumes "oe_pipe OS w n \<and> oe_pipe OS w (n + 2) \<and> oe_pipe OS w (n + 4)"
  shows "ExecOpenbaoCmd (client_env OS n E) exe token cmdArgs w =
    (case client_login OS w exe (MakeLoginVec exe) token of
       (ProcFail, w) \<Rightarrow> ((1, []), w)
     | (ProcEnd ok out, w) \<Rightarrow> if \<not> ok then ((1, out), w) else cmd_result (client_run OS w exe (Split cmdArgs '' '')))"
proof -
  obtain r w1 where l: "client_login OS w exe (MakeLoginVec exe) token = (r, w1)"
    by fastforce
  show ?thesis
    using assms by (cases r) (simp_all add: ExecOpenbaoCmd_def client_env_def cmd_result_def l)
qed

lemma leaves_ready:
  assumes "os_ready s" "leaves (os_fds s) (os_kids s) (os_pid s) (os_pipes s) s'"
  shows "os_ready s'"
proof -
  have "p < os_pid s' \<and> old_pipes (os_pipes s') t" if "(p, t, j) \<in> set (os_kids s)" for p t j
    using that assms old_pipes_mono[of "os_pipes s" t "os_pipes s'"] by (fastforce simp: os_ready_def leaves_def)
  then show ?thesis
    using assms by (fastforce simp: os_ready_def leaves_def)
qed

lemma os_ready_less:
  assumes "os_ready s"
  shows "os_ready (s\<lparr>os_fds := fd_close 0 (os_fds s), os_buf := B, os_pipes := os_pipes s + n\<rparr>)"
proof -
  have R: "1 \<in> fst ` set (os_fds s)" "2 \<in> fst ` set (os_fds s)" "0 < os_pid s"
      "\<forall>(p, t, j) \<in> set (os_kids s). p < os_pid s \<and> old_pipes (os_pipes s) t"
    using assms by (auto simp: os_ready_def)
  have "1 \<in> fst ` set (fd_close 0 (os_fds s))" "2 \<in> fst ` set (fd_close 0 (os_fds s))"
    using R(1,2) by (force simp: set_fd_close)+
  moreover have "\<forall>(p, t, j) \<in> set (os_kids s). p < os_pid s \<and> old_pipes (os_pipes s + n) t"
    using R(4) old_pipes_mono[of "os_pipes s" _ "os_pipes s + n"] by fastforce
  moreover have "\<forall>(k, e) \<in> set (fd_close 0 (os_fds s)). 0 \<le> k \<and> e = ExtFile"
    using assms by (auto simp: os_ready_def set_fd_close)
  ultimately show ?thesis
    using R(3) by (simp add: os_ready_def)
qed

text \<open>C13: Running the client over pipes and child processes gives what the key managers assume of it: the call returns, with the result and the
  effect of a login on the token followed by the command, whatever call fails and in whatever pieces the output arrives. Every
  descriptor it opened is closed and no other, except that standard input is closed when a pipe cannot be made; at most one child
  is left behind, and the next command can start.\<close>

theorem OS_ExecOpenbaoCmd_refines:
  assumes "os_ready s"
  shows "\<exists>r s'. OS_ExecOpenbaoCmd OS exe token cmdArgs s = Some (r, s') \<and>
    ExecOpenbaoCmd (client_env OS (length (os_fds s)) E) exe token cmdArgs (os_w s) = (r, os_w s') \<and>
    os_fds s' = (if be_pipes (client_env OS (length (os_fds s)) E) (os_w s) then os_fds s else fd_close 0 (os_fds s)) \<and>
    (\<exists>l. os_kids s' = l @ os_kids s \<and> length l \<le> 1) \<and> os_ready s'"
proof -
  let ?E = "client_env OS (length (os_fds s)) E"
  have R: "\<forall>(k, e) \<in> set (os_fds s). e = ExtFile" "1 \<in> fst ` set (os_fds s)" "2 \<in> fst ` set (os_fds s)" "0 < os_pid s"
      "\<forall>(p, t, j) \<in> set (os_kids s). p < os_pid s \<and> old_pipes (os_pipes s) t"
    using assms by (auto simp: os_ready_def)
  obtain ok p1 p2 p3 s1 where c: "CreatePipes OS (0, 0) (0, 0) (0, 0) s = ((ok, p1, p2, p3), s1)"
    by (metis prod.exhaust_sel)
  from c show ?thesis
  proof (cases rule: CreatePipes_cases)
    case (Made B)
    obtain a b c' d e f where p: "p1 = (a, b)" "p2 = (c', d)" "p3 = (e, f)"
      by (metis prod.exhaust_sel)
    have "\<exists>r s'. OS_ExecPiped OS exe token cmdArgs (a, b) (c', d) (e, f) s1 = Some (r, s') \<and>
        (case client_login OS (os_w s1) exe (MakeLoginVec exe) token of
           (ProcFail, w) \<Rightarrow> ((1, []), w)
         | (ProcEnd ok out, w) \<Rightarrow> if \<not> ok then ((1, out), w) else cmd_result (client_run OS w exe (Split cmdArgs '' ''))) = (r, os_w s') \<and>
        leaves (os_fds s) (os_kids s1) (os_pid s1) (os_pipes s1) s'"
      by (rule OS_ExecPiped_runs[where n = "os_pipes s"]) (use Made R in \<open>simp_all add: p\<close>)
    then obtain r s' where o: "OS_ExecPiped OS exe token cmdArgs p1 p2 p3 s1 = Some (r, s')"
        "ExecOpenbaoCmd ?E exe token cmdArgs (os_w s) = (r, os_w s')" "leaves (os_fds s) (os_kids s) (os_pid s) (os_pipes s) s'"
      using Made(2,3) ExecOpenbaoCmd_client[of OS "os_w s" "length (os_fds s)"] by (auto simp: p leaves_def)
    moreover have "os_ready s'"
      using leaves_ready[OF assms o(3)] .
    moreover have "OS_ExecOpenbaoCmd OS exe token cmdArgs s = Some (r, s')"
      using c o(1) Made(1) by (simp add: OS_ExecOpenbaoCmd_def)
    moreover have "be_pipes ?E (os_w s)"
      using Made(2) by (simp add: client_env_def)
    ultimately show ?thesis
      by (auto simp: leaves_def)
  next
    case (Failed B n)
    have "OS_ExecOpenbaoCmd OS exe token cmdArgs s = Some ((1, []), s1)"
      using c Failed(1) by (simp add: OS_ExecOpenbaoCmd_def)
    moreover have "\<not> be_pipes ?E (os_w s)"
      using Failed(2) by (simp add: client_env_def)
    moreover have "ExecOpenbaoCmd ?E exe token cmdArgs (os_w s) = ((1, []), os_w s1)"
      using \<open>\<not> be_pipes ?E (os_w s)\<close> Failed(3) by (simp add: ExecOpenbaoCmd_def)
    ultimately show ?thesis
      using Failed(3) os_ready_less[OF assms] by simp
  qed
qed

subsection \<open>An example\<close>

text \<open>A client that lets \<open>tok\<close> log in and answers every command; the process has three open files, one limit on descriptors.\<close>

definition toy_os :: "nat os_env" where
  "toy_os = \<lparr>oe_pipe = (\<lambda>w n. n + 2 \<le> w), oe_fork = (\<lambda>w. (True, w)), oe_dup2 = (\<lambda>w fd. True), oe_exec = (\<lambda>w exe. exe = ''/bao''),
     oe_prog = (\<lambda>w exe args input. ((if input = Some ''tok'' \<or> input = None then WExited 0 else WExited 2, [(False, ''ke''), (True, ''ys'')]), w)),
     oe_write = (\<lambda>w data. (Some (length data), w)), oe_read = (\<lambda>w n. (Some 3, w)), oe_wait = (\<lambda>w. (True, w)), oe_strerror = (\<lambda>w. ''E'')\<rparr>"

definition toy_os_state :: "nat \<Rightarrow> nat os_state" where
  "toy_os_state limit = \<lparr>os_fds = [(0, ExtFile), (1, ExtFile), (2, ExtFile)], os_buf = (\<lambda>_. []), os_pipes = 0, os_kids = [], os_pid = 100, os_w = limit\<rparr>"

lemma toy_os_ready: "os_ready (toy_os_state limit)"
  by (simp add: os_ready_def toy_os_state_def)

lemma toy_exec:
  "ExecOpenbaoCmd (client_env toy_os 3 (E :: nat bao_env)) ''/bao'' ''tok'' ''/bao list'' 9 = ((0, ''keys''), 9)"
  "ExecOpenbaoCmd (client_env toy_os 3 (E :: nat bao_env)) ''/bao'' ''tok'' ''/bao list'' 6 = ((1, []), 6)"
proof -
  have r: "client_login toy_os 9 ''/bao'' (MakeLoginVec ''/bao'') ''tok'' = (ProcEnd True ''keys'', 9)"
    "client_run toy_os 9 ''/bao'' (Split ''/bao list'' '' '') = (ProcEnd True ''keys'', 9)"
    by code_simp+
  have p: "be_pipes (client_env toy_os 3 E) 9"
    by (simp add: client_env_def toy_os_def)
  show "ExecOpenbaoCmd (client_env toy_os 3 E) ''/bao'' ''tok'' ''/bao list'' 9 = ((0, ''keys''), 9)"
    using p by (simp add: ExecOpenbaoCmd_def client_env_def r)
  show "ExecOpenbaoCmd (client_env toy_os 3 E) ''/bao'' ''tok'' ''/bao list'' 6 = ((1, []), 6)"
    by (simp add: ExecOpenbaoCmd_def client_env_def toy_os_def)
qed

theorem OS_ExecOpenbaoCmd_refines_witness:
  "(\<exists>s'. OS_ExecOpenbaoCmd toy_os ''/bao'' ''tok'' ''/bao list'' (toy_os_state 9) = Some ((0, ''keys''), s') \<and>
     os_fds s' = os_fds (toy_os_state 9)) \<and>
   (\<exists>s'. OS_ExecOpenbaoCmd toy_os ''/bao'' ''tok'' ''/bao list'' (toy_os_state 6) = Some ((1, []), s') \<and>
     os_fds s' = [(1, ExtFile), (2, ExtFile)])"
proof -
  have n: "length (os_fds (toy_os_state w)) = 3" "os_w (toy_os_state w) = w" for w
    by (simp_all add: toy_os_state_def)
  show ?thesis
    using OS_ExecOpenbaoCmd_refines[OF toy_os_ready, of toy_os "''/bao''" "''tok''" "''/bao list''" 9 undefined, unfolded n toy_exec]
      OS_ExecOpenbaoCmd_refines[OF toy_os_ready, of toy_os "''/bao''" "''tok''" "''/bao list''" 6 undefined, unfolded n toy_exec]
    by (auto simp: client_env_def) (auto simp: toy_os_def toy_os_state_def)
qed

end
