(* ===== verification/CdfRand.thy ===== *)
theory CdfRand
  imports CdfDefs CdfEngine "HOL-Library.Multiset"
begin

section \<open>Random numbers and passwords (\<open>modules/rand/rand.cpp\<close>)\<close>

text \<open>
  The random module owns seven OpenSSL objects: the generator and its parent, with their contexts,
  and up to three providers. They are global pointers. In the model a pointer is the number of the
  object it points to, \<open>live\<close> lists the objects that exist, and freeing an object that does not
  exist sets \<open>double_free\<close>. OpenSSL is a parameter with a state of its own, the world \<open>'w\<close>: each call is
  a function of the world and its arguments. An operation runs under the module's mutexes, so the
  operations of several threads are a sequence.
\<close>

record RandConfig =
  drbgType :: bytes
  seedSource :: bytes
  fipsMode :: bool
  customSeedProvider :: bytes
  securityStrength :: u32
  predictionResistance :: bool
  cfg_healthCheckInterval :: u32

definition default_config :: RandConfig where
  "default_config = \<lparr>drbgType = ''CTR-DRBG'', seedSource = ''SEED-SRC'', fipsMode = False, customSeedProvider = [],
     securityStrength = 256, predictionResistance = False, cfg_healthCheckInterval = 0\<rparr>"

record 'w rand_env =
  ro_fetch :: "'w \<Rightarrow> bytes \<Rightarrow> bytes \<Rightarrow> bool \<times> 'w"
  ro_ctx_new :: "'w \<Rightarrow> bool \<times> 'w"
  ro_instantiate :: "'w \<Rightarrow> u32 \<Rightarrow> bool \<Rightarrow> (bytes \<times> bytes) list \<Rightarrow> bool \<times> 'w"
  ro_load :: "'w \<Rightarrow> bytes \<Rightarrow> bool \<times> 'w"
  ro_poll :: "'w \<Rightarrow> bool \<times> 'w"
  ro_ready :: "'w \<Rightarrow> bool \<times> 'w"
  ro_status :: "'w \<Rightarrow> bool \<times> 'w"
  ro_generate :: "'w \<Rightarrow> nat \<Rightarrow> u32 \<Rightarrow> bool \<Rightarrow> bytes option \<times> 'w"
  ro_now :: "'w \<Rightarrow> int"

record 'w rand_state =
  g_initialized :: bool
  g_errorCount :: u32
  g_healthCheckInterval :: u32
  g_lastHealthCheckMs :: int
  g_activeConfig :: RandConfig
  g_pRandCtx :: "nat option"
  g_pParentCtx :: "nat option"
  g_pDrbg :: "nat option"
  g_pParent :: "nat option"
  g_customProvider :: "nat option"
  g_fipsProvider :: "nat option"
  g_defaultProvider :: "nat option"
  live :: "nat list"
  next_id :: nat
  double_free :: bool
  rw :: 'w

definition rand_start :: "'w \<Rightarrow> 'w rand_state" where
  "rand_start w = \<lparr>g_initialized = False, g_errorCount = 0, g_healthCheckInterval = 0, g_lastHealthCheckMs = 0,
     g_activeConfig = default_config, g_pRandCtx = None, g_pParentCtx = None, g_pDrbg = None, g_pParent = None,
     g_customProvider = None, g_fipsProvider = None, g_defaultProvider = None, live = [], next_id = 0,
     double_free = False, rw = w\<rparr>"

definition RecordError :: "'w rand_state \<Rightarrow> 'w rand_state" where
  "RecordError s = s\<lparr>g_errorCount := g_errorCount s + 1\<rparr>"

text \<open>A call of OpenSSL: its answer and the state with the new world.\<close>

definition call :: "('w \<Rightarrow> 'a \<times> 'w) \<Rightarrow> 'w rand_state \<Rightarrow> 'a \<times> 'w rand_state" where
  "call f s = (let (x, w') = f (rw s) in (x, s\<lparr>rw := w'\<rparr>))"

text \<open>A call that creates an object, and one that frees it; freeing a null pointer does nothing.\<close>

definition create :: "('w \<Rightarrow> bool \<times> 'w) \<Rightarrow> 'w rand_state \<Rightarrow> nat option \<times> 'w rand_state" where
  "create f s =
    (let (ok, s') = call f s in
     if ok then (Some (next_id s'), s'\<lparr>live := next_id s' # live s', next_id := next_id s' + 1\<rparr>)
     else (None, s'))"

definition destroy :: "nat option \<Rightarrow> 'w rand_state \<Rightarrow> 'w rand_state" where
  "destroy p s =
    (case p of
       None \<Rightarrow> s
     | Some i \<Rightarrow> if i \<in> set (live s) then s\<lparr>live := remove1 i (live s)\<rparr> else s\<lparr>double_free := True\<rparr>)"

subsection \<open>Configuration\<close>

definition ValidateConfig :: "RandConfig \<Rightarrow> bool" where
  "ValidateConfig config \<longleftrightarrow>
    (drbgType config = ''CTR-DRBG'' \<or> drbgType config = ''HASH-DRBG'' \<or> drbgType config = ''HMAC-DRBG'') \<and>
    (seedSource config = ''SEED-SRC'' \<or> seedSource config = ''OS'' \<or> seedSource config = ''HARDWARE'' \<or>
     seedSource config = ''CUSTOM'') \<and>
    112 \<le> securityStrength config \<and> securityStrength config \<le> 256 \<and>
    (drbgType config = ''CTR-DRBG'' \<longrightarrow>
       securityStrength config = 128 \<or> securityStrength config = 192 \<or> securityStrength config = 256)"

record RandFetchSpec =
  parentName :: bytes
  parentPropq :: bytes
  drbgPropq :: bytes

definition BuildFetchSpec :: "RandConfig \<Rightarrow> RandFetchSpec" where
  "BuildFetchSpec config =
    (let dq = (if fipsMode config then ''fips=yes'' else []) in
     if seedSource config = ''CUSTOM'' then
       \<lparr>parentName = ''SEED-SRC'', parentPropq = ''provider='' @ customSeedProvider config, drbgPropq = dq\<rparr>
     else if seedSource config = ''HARDWARE'' \<or> fipsMode config then
       \<lparr>parentName = ''JITTER'', parentPropq = (if fipsMode config then ''fips=yes'' else []), drbgPropq = dq\<rparr>
     else \<lparr>parentName = ''SEED-SRC'', parentPropq = [], drbgPropq = dq\<rparr>)"

text \<open>The parameters of the generator, as name and value.\<close>

definition BuildDrbgParams :: "RandConfig \<Rightarrow> bytes \<Rightarrow> (bytes \<times> bytes) list" where
  "BuildDrbgParams config propq =
    (let n = securityStrength config in
     (if drbgType config = ''CTR-DRBG'' then
        [(''cipher'', if n \<le> 128 then ''AES-128-CTR'' else if n \<le> 192 then ''AES-192-CTR'' else ''AES-256-CTR'')]
      else
        (''digest'', if n \<le> 112 then ''SHA-224'' else if n \<le> 128 then ''SHA-256''
           else if n \<le> 192 then ''SHA-384'' else ''SHA-512'') #
        (if drbgType config = ''HMAC-DRBG'' then [(''mac'', ''HMAC'')] else [])) @
     (if propq \<noteq> [] then [(''properties'', propq)] else []))"

subsection \<open>Providers\<close>

definition LoadDefaultProvider :: "'w rand_env \<Rightarrow> 'w rand_state \<Rightarrow> bool \<times> 'w rand_state" where
  "LoadDefaultProvider E s =
    (if g_defaultProvider s \<noteq> None then (True, s)
     else let (p, s1) = create (\<lambda>w. ro_load E w ''default'') s; s2 = s1\<lparr>g_defaultProvider := p\<rparr> in
       if p = None then (False, RecordError s2) else (True, s2))"

definition LoadFipsProvider :: "'w rand_env \<Rightarrow> 'w rand_state \<Rightarrow> bool \<times> 'w rand_state" where
  "LoadFipsProvider E s =
    (let (ok, s1) = LoadDefaultProvider E s in
     if \<not> ok then (False, s1)
     else if g_fipsProvider s1 \<noteq> None then (True, s1)
     else let (p, s2) = create (\<lambda>w. ro_load E w ''fips'') s1; s3 = s2\<lparr>g_fipsProvider := p\<rparr> in
       if p = None then (False, RecordError s3) else (True, s3))"

definition PrepareProviders :: "'w rand_env \<Rightarrow> RandConfig \<Rightarrow> 'w rand_state \<Rightarrow> bool \<times> 'w rand_state" where
  "PrepareProviders E config s =
    (let (ok, s1) = (if fipsMode config then LoadFipsProvider E s else (True, s)) in
     if \<not> ok then (False, s1)
     else if seedSource config \<noteq> ''CUSTOM'' then LoadDefaultProvider E s1
     else if customSeedProvider config = [] then (False, RecordError s1)
     else let (p, s2) = create (\<lambda>w. ro_load E w (customSeedProvider config)) s1 in
       if p = None then (False, RecordError s2) else (True, s2\<lparr>g_customProvider := p\<rparr>))"

definition FetchRandAvailable :: "'w rand_env \<Rightarrow> bytes \<Rightarrow> bytes \<Rightarrow> 'w rand_state \<Rightarrow> bool \<times> 'w rand_state" where
  "FetchRandAvailable E name propq s =
    (let (p, s1) = create (\<lambda>w. ro_fetch E w name propq) s in
     if p = None then (False, s1) else (True, destroy p s1))"

definition ValidateParentRandAvailable :: "'w rand_env \<Rightarrow> RandConfig \<Rightarrow> 'w rand_state \<Rightarrow> bool \<times> 'w rand_state" where
  "ValidateParentRandAvailable E config s =
    (let f = BuildFetchSpec config; (ok, s1) = FetchRandAvailable E (parentName f) (parentPropq f) s in
     if ok then (True, s1) else (False, RecordError s1))"

definition CleanupProviders :: "'w rand_state \<Rightarrow> 'w rand_state" where
  "CleanupProviders s =
    (let s1 = (destroy (g_customProvider s) s)\<lparr>g_customProvider := None\<rparr>;
         s2 = (destroy (g_fipsProvider s1) s1)\<lparr>g_fipsProvider := None\<rparr> in
     (destroy (g_defaultProvider s2) s2)\<lparr>g_defaultProvider := None\<rparr>)"

subsection \<open>The generator\<close>

definition free_ctx :: "'w rand_state \<Rightarrow> 'w rand_state" where
  "free_ctx s = (destroy (g_pRandCtx s) s)\<lparr>g_pRandCtx := None\<rparr>"

definition free_parent_ctx :: "'w rand_state \<Rightarrow> 'w rand_state" where
  "free_parent_ctx s = (destroy (g_pParentCtx s) s)\<lparr>g_pParentCtx := None\<rparr>"

definition free_drbg :: "'w rand_state \<Rightarrow> 'w rand_state" where
  "free_drbg s = (destroy (g_pDrbg s) s)\<lparr>g_pDrbg := None\<rparr>"

definition free_parent :: "'w rand_state \<Rightarrow> 'w rand_state" where
  "free_parent s = (destroy (g_pParent s) s)\<lparr>g_pParent := None\<rparr>"

definition BuildRandChain :: "'w rand_env \<Rightarrow> RandConfig \<Rightarrow> 'w rand_state \<Rightarrow> bool \<times> 'w rand_state" where
  "BuildRandChain E config s =
    (let f = BuildFetchSpec config; strength = securityStrength config;
         (p1, s) = create (\<lambda>w. ro_fetch E w (parentName f) (parentPropq f)) s; s = s\<lparr>g_pParent := p1\<rparr> in
     if p1 = None then (False, RecordError s)
     else let (p2, s) = create (ro_ctx_new E) s; s = s\<lparr>g_pParentCtx := p2\<rparr> in
     if p2 = None then (False, free_parent (RecordError s))
     else let (ok, s) = call (\<lambda>w. ro_instantiate E w strength False []) s in
     if \<not> ok then (False, free_parent (free_parent_ctx (RecordError s)))
     else let params = BuildDrbgParams config (drbgPropq f);
         (p3, s) = create (\<lambda>w. ro_fetch E w (drbgType config) (drbgPropq f)) s; s = s\<lparr>g_pDrbg := p3\<rparr> in
     if p3 = None then (False, free_parent (free_parent_ctx (RecordError s)))
     else let (p4, s) = create (ro_ctx_new E) s; s = s\<lparr>g_pRandCtx := p4\<rparr> in
     if p4 = None then (False, free_parent (free_drbg (free_parent_ctx (RecordError s))))
     else let s = (if seedSource config = ''OS'' then
             (let (ok, s) = call (ro_poll E) s in if ok then s else RecordError s) else s);
         (ok, s) = call (\<lambda>w. ro_instantiate E w strength (predictionResistance config) params) s in
     if \<not> ok then (False, free_parent (free_drbg (free_parent_ctx (free_ctx (RecordError s)))))
     else (True, s))"

definition CleanupRandResources :: "'w rand_state \<Rightarrow> 'w rand_state" where
  "CleanupRandResources s = free_parent (free_drbg (free_parent_ctx (free_ctx s)))"

subsection \<open>Operations\<close>

definition RandInit :: "'w rand_env \<Rightarrow> RandConfig \<Rightarrow> 'w rand_state \<Rightarrow> CcsecCryptErrorCode \<times> 'w rand_state" where
  "RandInit E config s =
    (if g_initialized s then (CCSEC_CRYPT_OK, s)
     else if \<not> ValidateConfig config then (CCSEC_CRYPT_PARAM_INVALID, RecordError s)
     else let (ok, s1) = PrepareProviders E config s in
     if \<not> ok then (CCSEC_CRYPT_ERROR, CleanupProviders s1)
     else let (ok, s2) = ValidateParentRandAvailable E config s1 in
     if \<not> ok then (CCSEC_CRYPT_ERROR, CleanupProviders s2)
     else let (ok, s3) = BuildRandChain E config s2 in
     if \<not> ok then (CCSEC_CRYPT_ERROR, CleanupRandResources (CleanupProviders s3))
     else (CCSEC_CRYPT_OK, s3\<lparr>g_errorCount := 0, g_healthCheckInterval := cfg_healthCheckInterval config,
             g_lastHealthCheckMs := ro_now E (rw s3), g_activeConfig := config, g_initialized := True\<rparr>))"

definition EnsureRandReady :: "'w rand_env \<Rightarrow> 'w rand_state \<Rightarrow> CcsecCryptErrorCode \<times> 'w rand_state" where
  "EnsureRandReady E s =
    (if g_initialized s then (CCSEC_CRYPT_OK, s)
     else let (rc, s') = RandInit E default_config s in
       (if rc \<noteq> CCSEC_CRYPT_OK then CCSEC_CRYPT_ERROR else CCSEC_CRYPT_OK, s'))"

text \<open>The periodic check: whether the generator may be used, and the state after it.\<close>

definition health_check :: "'w rand_env \<Rightarrow> 'w rand_state \<Rightarrow> bool \<times> 'w rand_state" where
  "health_check E s =
    (if 0 < g_healthCheckInterval s \<and>
        uint (g_healthCheckInterval s) \<le> ro_now E (rw s) - g_lastHealthCheckMs s then
       (let nowMs = ro_now E (rw s); (ready, s') = call (ro_ready E) s in
        if \<not> ready then (False, RecordError s') else (True, s'\<lparr>g_lastHealthCheckMs := nowMs\<rparr>))
     else (True, s))"

text \<open>The attempts left are the argument of the recursion; the result has the bytes of the buffer.\<close>

fun rand_loop :: "'w rand_env \<Rightarrow> nat \<Rightarrow> nat \<Rightarrow> 'w rand_state \<Rightarrow> (CcsecCryptErrorCode \<times> bytes option) \<times> 'w rand_state" where
  "rand_loop E n 0 s = ((CCSEC_CRYPT_ERROR, None), s)"
| "rand_loop E n (Suc attempts) s =
    (let (rc, s1) = EnsureRandReady E s in
     if rc \<noteq> CCSEC_CRYPT_OK then rand_loop E n attempts s1
     else if \<not> g_initialized s1 \<or> g_pRandCtx s1 = None then rand_loop E n attempts s1
     else let (healthy, s2) = health_check E s1 in
     if \<not> healthy then ((CCSEC_CRYPT_ERROR, None), s2)
     else let c = g_activeConfig s2;
         (out, s3) = call (\<lambda>w. ro_generate E w n (securityStrength c) (predictionResistance c)) s2 in
     (case out of
        None \<Rightarrow> ((CCSEC_CRYPT_ERROR, None), RecordError s3)
      | Some b \<Rightarrow> ((CCSEC_CRYPT_OK, Some b), s3)))"

definition MIN_RAND_LEN :: nat where "MIN_RAND_LEN = 1"
definition MAX_RAND_LEN :: nat where "MAX_RAND_LEN = 65536"
definition MAX_GET_RAND_ATTEMPTS :: nat where "MAX_GET_RAND_ATTEMPTS = 1000"

text \<open>\<open>GetRand\<close> on a buffer of the given length; \<open>None\<close> leaves it as it was.\<close>

definition GetRand :: "'w rand_env \<Rightarrow> nat \<Rightarrow> 'w rand_state \<Rightarrow> (CcsecCryptErrorCode \<times> bytes option) \<times> 'w rand_state" where
  "GetRand E n s =
    (if n < MIN_RAND_LEN \<or> MAX_RAND_LEN < n then ((CCSEC_CRYPT_PARAM_INVALID, None), s)
     else rand_loop E n MAX_GET_RAND_ATTEMPTS s)"

record RandHealthStatus =
  isHealthy :: bool
  entropySufficient :: bool
  errorCount :: u32

definition GetRandHealthStatus :: "'w rand_env \<Rightarrow> 'w rand_state \<Rightarrow> RandHealthStatus \<times> 'w rand_state" where
  "GetRandHealthStatus E s =
    (if \<not> g_initialized s \<or> g_pRandCtx s = None then
       (\<lparr>isHealthy = False, entropySufficient = False, errorCount = g_errorCount s\<rparr>, s)
     else let (ready, s1) = call (ro_ready E) s; (st, s2) = call (ro_status E) s1 in
       (\<lparr>isHealthy = ready, entropySufficient = st, errorCount = g_errorCount s2\<rparr>, s2))"

definition RandDeinit :: "'w rand_state \<Rightarrow> 'w rand_state" where
  "RandDeinit s =
    (CleanupProviders (CleanupRandResources s))\<lparr>g_initialized := False, g_errorCount := 0,
       g_healthCheckInterval := 0, g_lastHealthCheckMs := 0, g_activeConfig := default_config\<rparr>"

subsection \<open>Passwords\<close>

definition PWD_ALL_CHARS :: bytes where
  "PWD_ALL_CHARS = ''0123456789abcdefghijklmnopqrstuvwxyzABCDEFGHIJKLMNOPQRSTUVWXYZ'' @
     map char_of [96, 126, 33, 64, 35, 36, 37, 94, 38, 42, 40, 41, 45, 95, 61, 43, 92, 124, 91, 93, 123, 125, 59, 58,
       39, 34, 32, 44, 60, 46, 62, 47, 63 :: nat]"

definition islower_c :: "char \<Rightarrow> bool" where "islower_c c \<longleftrightarrow> (of_char c :: nat) \<in> {97..122}"
definition isupper_c :: "char \<Rightarrow> bool" where "isupper_c c \<longleftrightarrow> (of_char c :: nat) \<in> {65..90}"

definition type_bit :: "char \<Rightarrow> u8" where
  "type_bit c = (if isdigit_c c then push_bit 0 1 else if islower_c c then push_bit 1 1
     else if isupper_c c then push_bit 2 1 else push_bit 3 1)"

definition HasMultipleCharTypes :: "bytes \<Rightarrow> bool" where
  "HasMultipleCharTypes pwd =
    (let types = fold (\<lambda>c types. types OR type_bit c) pwd 0 in types AND (types - 1) \<noteq> 0)"

text \<open>One character from eight bytes: a big-endian 64-bit number modulo the size of the alphabet.\<close>

definition rand_value :: "bytes \<Rightarrow> u64" where
  "rand_value bs = fold (\<lambda>b v. push_bit 8 v OR ucast (u8_of b)) bs 0"

definition pwd_char :: "bytes \<Rightarrow> char" where
  "pwd_char bs = PWD_ALL_CHARS ! unat (rand_value bs mod of_nat (length PWD_ALL_CHARS))"

definition pwd_of_rand :: "nat \<Rightarrow> bytes \<Rightarrow> bytes" where
  "pwd_of_rand pwdLength r = map (\<lambda>i. pwd_char (take 8 (drop (i * 8) r))) [0..<pwdLength]"

text \<open>The retries left are the argument of the recursion; the buffer is wiped when they are used up.\<close>

fun pwd_loop :: "'w rand_env \<Rightarrow> nat \<Rightarrow> nat \<Rightarrow> 'w rand_state \<Rightarrow> (CcsecCryptErrorCode \<times> bytes) \<times> 'w rand_state" where
  "pwd_loop E pwdLength 0 s = ((CCSEC_CRYPT_ERROR, replicate pwdLength (CHR 0x00)), s)"
| "pwd_loop E pwdLength (Suc retries) s =
    (let ((rc, out), s1) = GetRand E (pwdLength * 8) s in
     if rc \<noteq> CCSEC_CRYPT_OK then pwd_loop E pwdLength retries s1
     else let pwd = pwd_of_rand pwdLength (the out) in
       if HasMultipleCharTypes pwd then ((CCSEC_CRYPT_OK, pwd), s1) else pwd_loop E pwdLength retries s1)"

definition MIN_SECURE_PWD_LEN :: nat where "MIN_SECURE_PWD_LEN = 8"
definition MAX_SECURE_PWD_LEN :: nat where "MAX_SECURE_PWD_LEN = 32"

definition GetSecurePwd ::
  "'w rand_env \<Rightarrow> bytes \<Rightarrow> u32 \<Rightarrow> 'w rand_state \<Rightarrow> (CcsecCryptErrorCode \<times> bytes) \<times> 'w rand_state" where
  "GetSecurePwd E pwdBuff retryTimes s =
    (if length pwdBuff < MIN_SECURE_PWD_LEN \<or> MAX_SECURE_PWD_LEN < length pwdBuff
     then ((CCSEC_CRYPT_PARAM_INVALID, pwdBuff), s)
     else if retryTimes = 0 then ((CCSEC_CRYPT_PARAM_INVALID, pwdBuff), s)
     else pwd_loop E (length pwdBuff) (unat retryTimes) s)"

end
