(* ===== verification/CdfRandProof.thy ===== *)
theory CdfRandProof
  imports CdfRand
begin

section \<open>Properties of the random module\<close>

text \<open>
  Ownership of the OpenSSL objects: the global pointers own exactly the objects that exist, on every
  path of the initialisation, and the invariant of the module as a state machine; the bit trick of
  the password check; what a password satisfies.
\<close>

subsection \<open>The pointers own exactly the live objects\<close>

fun om_of :: "nat option \<Rightarrow> nat multiset" where
  "om_of None = {#}"
| "om_of (Some i) = {#i#}"

definition chain_objs :: "'w rand_state \<Rightarrow> nat multiset" where
  "chain_objs s = om_of (g_pRandCtx s) + om_of (g_pParentCtx s) + om_of (g_pDrbg s) + om_of (g_pParent s)"

definition provider_objs :: "'w rand_state \<Rightarrow> nat multiset" where
  "provider_objs s = om_of (g_customProvider s) + om_of (g_fipsProvider s) + om_of (g_defaultProvider s)"

definition owns :: "'w rand_state \<Rightarrow> bool" where
  "owns s \<longleftrightarrow> \<not> double_free s \<and> mset (live s) = chain_objs s + provider_objs s"

lemmas own_defs = owns_def chain_objs_def provider_objs_def

lemma owns_RecordError [simp]: "owns (RecordError s) = owns s"
  by (simp add: own_defs RecordError_def)

lemma owns_rw [simp]: "owns (s\<lparr>rw := w\<rparr>) = owns s"
  by (simp add: own_defs)

lemma call_state: "call f s = (x, s') \<Longrightarrow> \<exists>w. s' = s\<lparr>rw := w\<rparr>"
  by (cases "f (rw s)") (auto simp: call_def)

lemma create_cases:
  assumes "create f s = (p, s')"
  obtains (None) w where "p = None" "s' = s\<lparr>rw := w\<rparr>"
  | (Some) i w n where "p = Some i" "s' = s\<lparr>rw := w, live := i # live s, next_id := n\<rparr>"
proof (cases "f (rw s)")
  case (Pair ok w)
  then have "create f s = (if ok then (Some (next_id s), s\<lparr>rw := w, live := next_id s # live s, next_id := next_id s + 1\<rparr>)
      else (None, s\<lparr>rw := w\<rparr>))"
    by (simp add: create_def call_def)
  note c = this
  show thesis
  proof (cases ok)
    case True
    show thesis
      by (rule that(2)[where i = "next_id s" and w = w and n = "next_id s + 1"]) (use c assms True in simp_all)
  next
    case False
    show thesis
      by (rule that(1)[of w]) (use c assms False in simp_all)
  qed
qed

lemma destroy_rest:
  "mset (live s) = om_of p + M \<Longrightarrow> \<exists>l. destroy p s = s\<lparr>live := l\<rparr> \<and> mset l = M"
proof (cases p)
  case None
  assume "mset (live s) = om_of p + M"
  then show ?thesis
    using None by (intro exI[of _ "live s"]) (simp add: destroy_def)
next
  case (Some i)
  assume l: "mset (live s) = om_of p + M"
  then have "i \<in># mset (live s)"
    by (simp add: Some)
  then have "i \<in> set (live s)"
    by simp
  then show ?thesis
    using Some l by (intro exI[of _ "remove1 i (live s)"]) (simp add: destroy_def)
qed

lemma owns_free [simp]:
  assumes o: "owns s"
  shows "owns (free_ctx s)" "owns (free_parent_ctx s)" "owns (free_drbg s)" "owns (free_parent s)"
proof -
  note O = o[unfolded own_defs]
  have "mset (live s) = om_of (g_pRandCtx s) + (om_of (g_pParentCtx s) + om_of (g_pDrbg s) + om_of (g_pParent s) + provider_objs s)"
    using O by (simp add: own_defs ac_simps)
  from destroy_rest[OF this] show "owns (free_ctx s)"
    using O by (auto simp: free_ctx_def own_defs)
  have "mset (live s) = om_of (g_pParentCtx s) + (om_of (g_pRandCtx s) + om_of (g_pDrbg s) + om_of (g_pParent s) + provider_objs s)"
    using O by (simp add: own_defs ac_simps)
  from destroy_rest[OF this] show "owns (free_parent_ctx s)"
    using O by (auto simp: free_parent_ctx_def own_defs)
  have "mset (live s) = om_of (g_pDrbg s) + (om_of (g_pRandCtx s) + om_of (g_pParentCtx s) + om_of (g_pParent s) + provider_objs s)"
    using O by (simp add: own_defs ac_simps)
  from destroy_rest[OF this] show "owns (free_drbg s)"
    using O by (auto simp: free_drbg_def own_defs)
  have "mset (live s) = om_of (g_pParent s) + (om_of (g_pRandCtx s) + om_of (g_pParentCtx s) + om_of (g_pDrbg s) + provider_objs s)"
    using O by (simp add: own_defs ac_simps)
  from destroy_rest[OF this] show "owns (free_parent s)"
    using O by (auto simp: free_parent_def own_defs)
qed

lemma destroy_fields [simp]:
  "g_pRandCtx (destroy p s) = g_pRandCtx s" "g_pParentCtx (destroy p s) = g_pParentCtx s"
  "g_pDrbg (destroy p s) = g_pDrbg s" "g_pParent (destroy p s) = g_pParent s"
  "g_customProvider (destroy p s) = g_customProvider s" "g_fipsProvider (destroy p s) = g_fipsProvider s"
  "g_defaultProvider (destroy p s) = g_defaultProvider s" "g_initialized (destroy p s) = g_initialized s"
  by (auto simp: destroy_def split: option.splits)

lemma RecordError_fields [simp]:
  "g_pRandCtx (RecordError s) = g_pRandCtx s" "g_pParentCtx (RecordError s) = g_pParentCtx s"
  "g_pDrbg (RecordError s) = g_pDrbg s" "g_pParent (RecordError s) = g_pParent s"
  "g_customProvider (RecordError s) = g_customProvider s" "g_fipsProvider (RecordError s) = g_fipsProvider s"
  "g_defaultProvider (RecordError s) = g_defaultProvider s" "g_initialized (RecordError s) = g_initialized s"
  by (simp_all add: RecordError_def)

lemma free_fields [simp]:
  "g_pRandCtx (free_ctx s) = None" "g_pParentCtx (free_ctx s) = g_pParentCtx s"
  "g_pDrbg (free_ctx s) = g_pDrbg s" "g_pParent (free_ctx s) = g_pParent s"
  "g_pRandCtx (free_parent_ctx s) = g_pRandCtx s" "g_pParentCtx (free_parent_ctx s) = None"
  "g_pDrbg (free_parent_ctx s) = g_pDrbg s" "g_pParent (free_parent_ctx s) = g_pParent s"
  "g_pRandCtx (free_drbg s) = g_pRandCtx s" "g_pParentCtx (free_drbg s) = g_pParentCtx s"
  "g_pDrbg (free_drbg s) = None" "g_pParent (free_drbg s) = g_pParent s"
  "g_pRandCtx (free_parent s) = g_pRandCtx s" "g_pParentCtx (free_parent s) = g_pParentCtx s"
  "g_pDrbg (free_parent s) = g_pDrbg s" "g_pParent (free_parent s) = None"
  "g_initialized (free_ctx s) = g_initialized s" "g_initialized (free_parent_ctx s) = g_initialized s"
  "g_initialized (free_drbg s) = g_initialized s" "g_initialized (free_parent s) = g_initialized s"
  by (simp_all add: free_ctx_def free_parent_ctx_def free_drbg_def free_parent_def)

definition no_chain :: "'w rand_state \<Rightarrow> bool" where
  "no_chain s \<longleftrightarrow> g_pRandCtx s = None \<and> g_pParentCtx s = None \<and> g_pDrbg s = None \<and> g_pParent s = None"

definition full_chain :: "'w rand_state \<Rightarrow> bool" where
  "full_chain s \<longleftrightarrow> g_pRandCtx s \<noteq> None \<and> g_pParentCtx s \<noteq> None \<and> g_pDrbg s \<noteq> None \<and> g_pParent s \<noteq> None"

definition no_providers :: "'w rand_state \<Rightarrow> bool" where
  "no_providers s \<longleftrightarrow> g_customProvider s = None \<and> g_fipsProvider s = None \<and> g_defaultProvider s = None"

lemmas shape_defs = no_chain_def full_chain_def no_providers_def

lemma CleanupRandResources_owns:
  "owns s \<Longrightarrow> owns (CleanupRandResources s) \<and> no_chain (CleanupRandResources s)"
  by (simp add: CleanupRandResources_def no_chain_def)

lemma CleanupProviders_owns:
  assumes o: "owns s"
  shows "owns (CleanupProviders s) \<and> no_providers (CleanupProviders s) \<and>
    (no_chain s \<longrightarrow> no_chain (CleanupProviders s))"
proof -
  let ?s1 = "(destroy (g_customProvider s) s)\<lparr>g_customProvider := None\<rparr>"
  let ?s2 = "(destroy (g_fipsProvider ?s1) ?s1)\<lparr>g_fipsProvider := None\<rparr>"
  have "mset (live s) = om_of (g_customProvider s) + (om_of (g_fipsProvider s) + om_of (g_defaultProvider s) + chain_objs s)"
    using o by (simp add: own_defs ac_simps)
  from destroy_rest[OF this] have 1: "owns ?s1"
    using o by (auto simp: own_defs)
  then have "mset (live ?s1) = om_of (g_fipsProvider ?s1) + (om_of (g_defaultProvider ?s1) + chain_objs ?s1)"
    by (simp add: own_defs ac_simps)
  from destroy_rest[OF this] have 2: "owns ?s2"
    using 1 by (auto simp: own_defs)
  then have "mset (live ?s2) = om_of (g_defaultProvider ?s2) + chain_objs ?s2"
    by (simp add: own_defs ac_simps)
  from destroy_rest[OF this] have "owns (CleanupProviders s)"
    using 2 unfolding CleanupProviders_def Let_def by (auto simp: own_defs)
  then show ?thesis
    by (auto simp: CleanupProviders_def Let_def shape_defs)
qed


subsection \<open>Building the chain\<close>

lemma create_parent:
  "create f s = (p, s') \<Longrightarrow> owns s \<Longrightarrow> g_pParent s = None \<Longrightarrow> owns (s'\<lparr>g_pParent := p\<rparr>)"
  by (erule create_cases) (simp_all add: own_defs)

lemma create_parent_ctx:
  "create f s = (p, s') \<Longrightarrow> owns s \<Longrightarrow> g_pParentCtx s = None \<Longrightarrow> owns (s'\<lparr>g_pParentCtx := p\<rparr>)"
  by (erule create_cases) (simp_all add: own_defs)

lemma create_drbg:
  "create f s = (p, s') \<Longrightarrow> owns s \<Longrightarrow> g_pDrbg s = None \<Longrightarrow> owns (s'\<lparr>g_pDrbg := p\<rparr>)"
  by (erule create_cases) (simp_all add: own_defs)

lemma create_ctx:
  "create f s = (p, s') \<Longrightarrow> owns s \<Longrightarrow> g_pRandCtx s = None \<Longrightarrow> owns (s'\<lparr>g_pRandCtx := p\<rparr>)"
  by (erule create_cases) (simp_all add: own_defs)

lemma create_default:
  "create f s = (p, s') \<Longrightarrow> owns s \<Longrightarrow> g_defaultProvider s = None \<Longrightarrow> owns (s'\<lparr>g_defaultProvider := p\<rparr>)"
  by (erule create_cases) (simp_all add: own_defs)

lemma create_fips:
  "create f s = (p, s') \<Longrightarrow> owns s \<Longrightarrow> g_fipsProvider s = None \<Longrightarrow> owns (s'\<lparr>g_fipsProvider := p\<rparr>)"
  by (erule create_cases) (simp_all add: own_defs)

lemma create_custom:
  "create f s = (p, s') \<Longrightarrow> owns s \<Longrightarrow> g_customProvider s = None \<Longrightarrow> owns (s'\<lparr>g_customProvider := p\<rparr>)"
  by (erule create_cases) (simp_all add: own_defs)

text \<open>A call or a creation changes none of the pointers.\<close>

definition pointers :: "'w rand_state \<Rightarrow> bool \<times> nat option list" where
  "pointers s = (g_initialized s, [g_pRandCtx s, g_pParentCtx s, g_pDrbg s, g_pParent s,
     g_customProvider s, g_fipsProvider s, g_defaultProvider s])"

lemma create_pointers: "create f s = (p, s') \<Longrightarrow> pointers s' = pointers s"
  by (erule create_cases) (simp_all add: pointers_def)

lemma call_pointers: "call f s = (x, s') \<Longrightarrow> pointers s' = pointers s \<and> owns s' = owns s"
  by (auto simp: pointers_def own_defs dest!: call_state)

lemma BuildRandChain_owns:
  assumes b: "BuildRandChain E config s = (ok, s')" and o: "owns s" and n: "no_chain s"
  shows "owns s' \<and> (if ok then full_chain s' else no_chain s') \<and> g_initialized s' = g_initialized s"
proof -
  let ?f = "BuildFetchSpec config"
  note N = n[unfolded no_chain_def]
  obtain p1 t1 where c1: "create (\<lambda>w. ro_fetch E w (parentName ?f) (parentPropq ?f)) s = (p1, t1)"
    by (metis prod.exhaust_sel)
  define s1 where "s1 = t1\<lparr>g_pParent := p1\<rparr>"
  have o1: "owns s1" and q1: "pointers t1 = pointers s"
    using create_parent[OF c1 o] create_pointers[OF c1] N by (simp_all add: s1_def)
  obtain p2 t2 where c2: "create (ro_ctx_new E) s1 = (p2, t2)"
    by (metis prod.exhaust_sel)
  define s2 where "s2 = t2\<lparr>g_pParentCtx := p2\<rparr>"
  have "g_pParentCtx s1 = None"
    using q1 N by (simp add: s1_def pointers_def)
  then have o2: "owns s2" and q2: "pointers t2 = pointers s1"
    using create_parent_ctx[OF c2 o1] create_pointers[OF c2] by (simp_all add: s2_def)
  obtain ok3 s3 where c3: "call (\<lambda>w. ro_instantiate E w (securityStrength config) False []) s2 = (ok3, s3)"
    by (metis prod.exhaust_sel)
  have o3: "owns s3" and q3: "pointers s3 = pointers s2"
    using call_pointers[OF c3] o2 by simp_all
  obtain p4 t4 where c4: "create (\<lambda>w. ro_fetch E w (drbgType config) (drbgPropq ?f)) s3 = (p4, t4)"
    by (metis prod.exhaust_sel)
  define s4 where "s4 = t4\<lparr>g_pDrbg := p4\<rparr>"
  have "g_pDrbg s3 = None"
    using q1 q2 q3 N by (simp add: s1_def s2_def pointers_def)
  then have o4: "owns s4" and q4: "pointers t4 = pointers s3"
    using create_drbg[OF c4 o3] create_pointers[OF c4] by (simp_all add: s4_def)
  obtain p5 t5 where c5: "create (ro_ctx_new E) s4 = (p5, t5)"
    by (metis prod.exhaust_sel)
  define s5 where "s5 = t5\<lparr>g_pRandCtx := p5\<rparr>"
  have "g_pRandCtx s4 = None"
    using q1 q2 q3 q4 N by (simp add: s1_def s2_def s4_def pointers_def)
  then have o5: "owns s5" and q5: "pointers t5 = pointers s4"
    using create_ctx[OF c5 o4] create_pointers[OF c5] by (simp_all add: s5_def)
  define s6 where "s6 = (if seedSource config = ''OS'' then
      (let (ok, s) = call (ro_poll E) s5 in if ok then s else RecordError s) else s5)"
  have o6: "owns s6" and q6: "pointers s6 = pointers s5"
    using o5 unfolding s6_def
    by (cases "call (ro_poll E) s5"; use call_pointers in \<open>force simp: pointers_def\<close>)+
  obtain ok7 s7 where c7: "call (\<lambda>w. ro_instantiate E w (securityStrength config) (predictionResistance config)
      (BuildDrbgParams config (drbgPropq ?f))) s6 = (ok7, s7)"
    by (metis prod.exhaust_sel)
  have o7: "owns s7" and q7: "pointers s7 = pointers s6"
    using call_pointers[OF c7] o6 by simp_all
  have r: "(ok, s') =
    (if p1 = None then (False, RecordError s1)
     else if p2 = None then (False, free_parent (RecordError s2))
     else if \<not> ok3 then (False, free_parent (free_parent_ctx (RecordError s3)))
     else if p4 = None then (False, free_parent (free_parent_ctx (RecordError s4)))
     else if p5 = None then (False, free_parent (free_drbg (free_parent_ctx (RecordError s5))))
     else if \<not> ok7 then (False, free_parent (free_drbg (free_parent_ctx (free_ctx (RecordError s7)))))
     else (True, s7))"
    using b unfolding BuildRandChain_def Let_def c1 prod.case s1_def[symmetric] c2 s2_def[symmetric] c3 c4
      s4_def[symmetric] c5 s5_def[symmetric]
    unfolding s6_def[unfolded Let_def, symmetric] c7 prod.case by (rule sym)
  note Q = q1 q2 q3 q4 q5 q6 q7
  show ?thesis
    using r o1 o2 o3 o4 o5 o7 Q N
    by (auto simp: pointers_def s1_def s2_def s4_def s5_def shape_defs split: if_splits)
qed

lemma LoadDefaultProvider_owns:
  assumes l: "LoadDefaultProvider E s = (ok, s')" and o: "owns s"
  shows "owns s' \<and> (no_chain s' \<longleftrightarrow> no_chain s) \<and> g_initialized s' = g_initialized s \<and>
    g_customProvider s' = g_customProvider s"
proof (cases "g_defaultProvider s = None")
  case True
  obtain p t where c: "create (\<lambda>w. ro_load E w ''default'') s = (p, t)"
    by (metis prod.exhaust_sel)
  show ?thesis
    using l create_default[OF c o True] create_pointers[OF c] True
    by (auto simp: LoadDefaultProvider_def c Let_def pointers_def no_chain_def split: if_splits)
qed (use l o in \<open>simp add: LoadDefaultProvider_def\<close>)

lemma LoadFipsProvider_owns:
  assumes l: "LoadFipsProvider E s = (ok, s')" and o: "owns s"
  shows "owns s' \<and> (no_chain s' \<longleftrightarrow> no_chain s) \<and> g_initialized s' = g_initialized s \<and>
    g_customProvider s' = g_customProvider s"
proof -
  obtain ok1 s1 where d: "LoadDefaultProvider E s = (ok1, s1)"
    by (metis prod.exhaust_sel)
  note D = LoadDefaultProvider_owns[OF d o]
  obtain p t where c: "create (\<lambda>w. ro_load E w ''fips'') s1 = (p, t)"
    by (metis prod.exhaust_sel)
  have l': "(ok, s') = (if \<not> ok1 then (False, s1) else if g_fipsProvider s1 \<noteq> None then (True, s1)
     else if p = None then (False, RecordError (t\<lparr>g_fipsProvider := p\<rparr>)) else (True, t\<lparr>g_fipsProvider := p\<rparr>))"
    using l unfolding LoadFipsProvider_def d Let_def prod.case c by (rule sym)
  show ?thesis
  proof (cases "ok1 \<and> g_fipsProvider s1 = None")
    case True
    then show ?thesis
      using l' create_fips[OF c] create_pointers[OF c] D
      by (auto simp: pointers_def no_chain_def split: if_splits)
  qed (use l' D in \<open>auto split: if_splits\<close>)
qed

lemma PrepareProviders_owns:
  assumes l: "PrepareProviders E config s = (ok, s')" and o: "owns s" and n: "no_chain s" "no_providers s"
  shows "owns s' \<and> no_chain s' \<and> g_initialized s' = g_initialized s"
proof -
  obtain ok1 s1 where d: "(if fipsMode config then LoadFipsProvider E s else (True, s)) = (ok1, s1)"
    by (metis prod.exhaust_sel)
  have D: "owns s1 \<and> no_chain s1 \<and> g_initialized s1 = g_initialized s \<and> g_customProvider s1 = None"
    using d o n LoadFipsProvider_owns[of E s ok1 s1] by (auto simp: no_providers_def split: if_splits)
  obtain p t where c: "create (\<lambda>w. ro_load E w (customSeedProvider config)) s1 = (p, t)"
    by (metis prod.exhaust_sel)
  have C: "owns (t\<lparr>g_customProvider := p\<rparr>)" "pointers t = pointers s1"
    using create_custom[OF c] create_pointers[OF c] D by simp_all
  then have C': "p = None \<Longrightarrow> owns t"
    using D by (simp add: own_defs pointers_def)
  have l': "(ok, s') = (if \<not> ok1 then (False, s1) else if seedSource config \<noteq> ''CUSTOM'' then LoadDefaultProvider E s1
     else if customSeedProvider config = [] then (False, RecordError s1)
     else if p = None then (False, RecordError t) else (True, t\<lparr>g_customProvider := p\<rparr>))"
    using l unfolding PrepareProviders_def Let_def d prod.case c by (rule sym)
  show ?thesis
  proof (cases "ok1 \<and> seedSource config \<noteq> ''CUSTOM''")
    case True
    then show ?thesis
      using l' LoadDefaultProvider_owns[of E s1 ok s'] D by simp
  next
    case False
    then show ?thesis
      using l' D C C' by (auto simp: pointers_def no_chain_def split: if_splits)
  qed
qed

lemma ValidateParentRandAvailable_owns:
  assumes v: "ValidateParentRandAvailable E config s = (ok, s')" and o: "owns s"
  shows "owns s' \<and> (no_chain s' \<longleftrightarrow> no_chain s) \<and> g_initialized s' = g_initialized s"
proof -
  let ?f = "BuildFetchSpec config"
  obtain p t where c: "create (\<lambda>w. ro_fetch E w (parentName ?f) (parentPropq ?f)) s = (p, t)"
    by (metis prod.exhaust_sel)
  have l: "(ok, s') = (if p = None then (False, RecordError t) else (True, destroy p t))"
    using v by (simp add: ValidateParentRandAvailable_def FetchRandAvailable_def c split: if_splits)
  show ?thesis
    using c
  proof (cases rule: create_cases)
    case (None w)
    then show ?thesis
      using l o by (simp add: no_chain_def)
  next
    case (Some i w n)
    then show ?thesis
      using l o by (simp add: destroy_def own_defs no_chain_def)
  qed
qed

subsection \<open>The invariant\<close>

definition rand_inv :: "'w rand_state \<Rightarrow> bool" where
  "rand_inv s \<longleftrightarrow> owns s \<and> (if g_initialized s then full_chain s else no_chain s \<and> no_providers s)"

lemma rand_inv_rw [simp]: "rand_inv (s\<lparr>rw := w\<rparr>) = rand_inv s"
  by (simp add: rand_inv_def own_defs shape_defs)

lemma rand_inv_RecordError [simp]: "rand_inv (RecordError s) = rand_inv s"
  by (simp add: rand_inv_def RecordError_def own_defs shape_defs)

lemma rand_inv_call: "call f s = (x, s') \<Longrightarrow> rand_inv s' = rand_inv s"
  by (auto dest!: call_state)

lemma CleanupProviders_init [simp]: "g_initialized (CleanupProviders s) = g_initialized s"
  by (simp add: CleanupProviders_def Let_def)

lemma CleanupRandResources_init [simp]: "g_initialized (CleanupRandResources s) = g_initialized s"
  by (simp add: CleanupRandResources_def)

lemma CleanupRandResources_providers [simp]:
  "no_providers (CleanupRandResources s) = no_providers s"
  by (simp add: CleanupRandResources_def no_providers_def free_ctx_def free_parent_ctx_def free_drbg_def free_parent_def)

lemma RandInit_inv:
  assumes r: "RandInit E config s = (rc, s')" and i: "rand_inv s"
  shows "rand_inv s' \<and> (rc = CCSEC_CRYPT_OK \<longrightarrow> g_initialized s')"
proof (cases "g_initialized s \<or> \<not> ValidateConfig config")
  case True
  then have "(rc, s') = (if g_initialized s then (CCSEC_CRYPT_OK, s) else (CCSEC_CRYPT_PARAM_INVALID, RecordError s))"
    using r unfolding RandInit_def by (metis (no_types, lifting))
  then show ?thesis
    using i by (auto split: if_splits)
next
  case False
  obtain ok1 s1 where 1: "PrepareProviders E config s = (ok1, s1)"
    by (metis prod.exhaust_sel)
  obtain ok2 s2 where 2: "ValidateParentRandAvailable E config s1 = (ok2, s2)"
    by (metis prod.exhaust_sel)
  obtain ok3 s3 where 3: "BuildRandChain E config s2 = (ok3, s3)"
    by (metis prod.exhaust_sel)
  have o: "owns s" "no_chain s" "no_providers s"
    using i False by (simp_all add: rand_inv_def)
  note P = PrepareProviders_owns[OF 1 o]
  have V: "owns s2 \<and> no_chain s2 \<and> g_initialized s2 = g_initialized s"
    using ValidateParentRandAvailable_owns[OF 2] P by simp
  then have B: "owns s3 \<and> (if ok3 then full_chain s3 else no_chain s3) \<and> g_initialized s3 = g_initialized s"
    using BuildRandChain_owns[OF 3] by simp
  have l: "(rc, s') = (if \<not> ok1 then (CCSEC_CRYPT_ERROR, CleanupProviders s1)
     else if \<not> ok2 then (CCSEC_CRYPT_ERROR, CleanupProviders s2)
     else if \<not> ok3 then (CCSEC_CRYPT_ERROR, CleanupRandResources (CleanupProviders s3))
     else (CCSEC_CRYPT_OK, s3\<lparr>g_errorCount := 0, g_healthCheckInterval := cfg_healthCheckInterval config,
             g_lastHealthCheckMs := ro_now E (rw s3), g_activeConfig := config, g_initialized := True\<rparr>))"
    using r False unfolding RandInit_def 1 prod.case 2 3 Let_def by simp
  have f: "rand_inv (CleanupProviders t)" if "owns t" "no_chain t" "g_initialized t = g_initialized s" for t :: "'a rand_state"
    using CleanupProviders_owns[OF that(1)] that False by (simp add: rand_inv_def)
  have g: "rand_inv (CleanupRandResources t)" if "rand_inv t" "\<not> g_initialized t" for t :: "'a rand_state"
    using CleanupRandResources_owns[of t] that by (simp add: rand_inv_def)
  have h: "rand_inv (s3\<lparr>g_errorCount := 0, g_healthCheckInterval := cfg_healthCheckInterval config,
             g_lastHealthCheckMs := ro_now E (rw s3), g_activeConfig := config, g_initialized := True\<rparr>)" if ok3
    using B that by (simp add: rand_inv_def own_defs shape_defs)
  show ?thesis
    using l f[of s1] f[of s2] g[of "CleanupProviders s3"] f[of s3] h P V B False by (auto split: if_splits)
qed

lemma EnsureRandReady_inv:
  "EnsureRandReady E s = (rc, s') \<Longrightarrow> rand_inv s \<Longrightarrow> rand_inv s' \<and> (rc = CCSEC_CRYPT_OK \<longrightarrow> g_initialized s')"
  by (auto simp: EnsureRandReady_def split: if_splits prod.splits dest: RandInit_inv)

lemma health_check_inv:
  "health_check E s = (h, s') \<Longrightarrow> rand_inv s \<Longrightarrow> rand_inv s'"
  by (auto simp: health_check_def Let_def split: if_splits prod.splits dest!: call_state)
     (simp_all add: rand_inv_def own_defs shape_defs split: if_splits)

lemma rand_loop_inv: "rand_inv s \<Longrightarrow> rand_inv (snd (rand_loop E n k s))"
proof (induction E n k s rule: rand_loop.induct)
  case (2 E n attempts s)
  obtain rc s1 where e: "EnsureRandReady E s = (rc, s1)"
    by (metis prod.exhaust_sel)
  have i1: "rand_inv s1"
    using EnsureRandReady_inv[OF e] 2 by simp
  obtain h s2 where k: "health_check E s1 = (h, s2)"
    by (metis prod.exhaust_sel)
  have i2: "rand_inv s2"
    using health_check_inv[OF k i1] .
  obtain out s3 where c: "call (\<lambda>w. ro_generate E w n (securityStrength (g_activeConfig s2))
      (predictionResistance (g_activeConfig s2))) s2 = (out, s3)"
    by (metis prod.exhaust_sel)
  have i3: "rand_inv s3"
    using rand_inv_call[OF c] i2 by simp
  show ?case
    using 2(1)[OF e[symmetric]] 2(2)[OF e[symmetric]] i1 i2 i3
    by (auto simp: e k c Let_def split: option.splits)
qed simp

lemma GetRand_inv: "rand_inv s \<Longrightarrow> rand_inv (snd (GetRand E n s))"
  by (simp add: GetRand_def rand_loop_inv)

lemma pwd_loop_inv: "rand_inv s \<Longrightarrow> rand_inv (snd (pwd_loop E n k s))"
proof (induction E n k s rule: pwd_loop.induct)
  case (2 E n k s)
  obtain rc out s1 where g: "GetRand E (n * 8) s = ((rc, out), s1)"
    by (metis prod.exhaust_sel)
  then have "rand_inv s1"
    using GetRand_inv[of s E "n * 8"] 2 by simp
  then show ?case
    using 2(1)[OF g[symmetric]] 2(2)[OF g[symmetric]] by (auto simp: g Let_def)
qed simp

lemma RandDeinit_inv: "rand_inv s \<Longrightarrow> rand_inv (RandDeinit s) \<and> \<not> g_initialized (RandDeinit s)"
  using CleanupRandResources_owns[of s] CleanupProviders_owns[of "CleanupRandResources s"]
  by (auto simp: RandDeinit_def rand_inv_def own_defs shape_defs)

subsection \<open>The module as a state machine\<close>

datatype rand_op = RInit RandConfig | RGet nat | RPwd bytes u32 | RHealth | RDeinit

fun rand_step :: "'w rand_env \<Rightarrow> rand_op \<Rightarrow> 'w rand_state \<Rightarrow> 'w rand_state" where
  "rand_step E (RInit config) s = snd (RandInit E config s)"
| "rand_step E (RGet n) s = snd (GetRand E n s)"
| "rand_step E (RPwd buff retryTimes) s = snd (GetSecurePwd E buff retryTimes s)"
| "rand_step E RHealth s = snd (GetRandHealthStatus E s)"
| "rand_step E RDeinit s = RandDeinit s"

lemma GetRandHealthStatus_inv: "rand_inv s \<Longrightarrow> rand_inv (snd (GetRandHealthStatus E s))"
  by (auto simp: GetRandHealthStatus_def split: prod.splits dest!: call_state)

lemma rand_step_inv: "rand_inv s \<Longrightarrow> rand_inv (rand_step E opn s)"
proof (cases opn)
  case (RInit config)
  then show "rand_inv s \<Longrightarrow> ?thesis"
    using RandInit_inv[of E config s "fst (RandInit E config s)" "snd (RandInit E config s)"] by simp
qed (simp_all add: GetRand_inv GetSecurePwd_def pwd_loop_inv GetRandHealthStatus_inv RandDeinit_inv)

interpretation rand: machine "rand_step E" "rand_start w" "\<lambda>_. True" rand_inv for E :: "'w rand_env" and w
  by unfold_locales (simp_all add: rand_step_inv, simp add: rand_inv_def rand_start_def own_defs shape_defs)

lemma rand_inv_live:
  "rand_inv s \<Longrightarrow> \<not> double_free s \<and> mset (live s) = chain_objs s + provider_objs s \<and>
    (if g_initialized s then full_chain s else live s = [])"
  by (auto simp: rand_inv_def own_defs shape_defs)

text \<open>C7: Whatever operations are run and whatever OpenSSL answers, no object is freed twice and the
  objects that exist are exactly those the global pointers hold, each once: nothing leaks, also on
  the error paths of the initialisation. An initialised module has its whole chain; otherwise no
  object is left.\<close>

theorem rand_reachable_ownership:
  "\<not> double_free (fold (rand_step E) ops (rand_start w)) \<and>
   mset (live (fold (rand_step E) ops (rand_start w))) =
     chain_objs (fold (rand_step E) ops (rand_start w)) + provider_objs (fold (rand_step E) ops (rand_start w)) \<and>
   (if g_initialized (fold (rand_step E) ops (rand_start w)) then full_chain (fold (rand_step E) ops (rand_start w))
    else live (fold (rand_step E) ops (rand_start w)) = [])"
  by (rule rand_inv_live) (rule rand.inv_run, simp)

subsection \<open>Character types\<close>

datatype CharType = DIGIT | LOWER | UPPER | SPECIAL

definition char_type :: "char \<Rightarrow> CharType" where
  "char_type c = (if isdigit_c c then DIGIT else if islower_c c then LOWER else if isupper_c c then UPPER else SPECIAL)"

fun type_code :: "CharType \<Rightarrow> nat" where
  "type_code DIGIT = 0"
| "type_code LOWER = 1"
| "type_code UPPER = 2"
| "type_code SPECIAL = 3"

lemma type_bit_code: "type_bit c = push_bit (type_code (char_type c)) 1"
  by (simp add: type_bit_def char_type_def)

text \<open>The mask of a set of types: the loop computes the mask of the types that occur.\<close>

definition type_mask :: "CharType set \<Rightarrow> u8" where
  "type_mask T = (if DIGIT \<in> T then 1 else 0) OR (if LOWER \<in> T then 2 else 0) OR (if UPPER \<in> T then 4 else 0) OR
     (if SPECIAL \<in> T then 8 else 0)"

lemma type_mask_insert: "type_mask T OR type_bit c = type_mask (insert (char_type c) T)"
  by (cases "char_type c"; simp add: type_bit_code type_mask_def)

lemma fold_type_mask:
  "fold (\<lambda>c types. types OR type_bit c) pwd (type_mask T) = type_mask (T \<union> char_type ` set pwd)"
  by (induction pwd arbitrary: T) (simp_all add: type_mask_insert)

lemma CharType_set:
  "T = (if DIGIT \<in> T then {DIGIT} else {}) \<union> (if LOWER \<in> T then {LOWER} else {}) \<union>
     (if UPPER \<in> T then {UPPER} else {}) \<union> (if SPECIAL \<in> T then {SPECIAL} else {})"
  (is "T = ?R")
proof (rule set_eqI)
  show "t \<in> T \<longleftrightarrow> t \<in> ?R" for t
    by (cases t) simp_all
qed

text \<open>Clearing the lowest bit leaves something exactly when there are two bits; on four bits, by cases.\<close>

lemma type_mask_two: "type_mask T AND (type_mask T - 1) \<noteq> 0 \<longleftrightarrow> 2 \<le> card T"
  by (subst (3) CharType_set, cases "DIGIT \<in> T"; cases "LOWER \<in> T"; cases "UPPER \<in> T"; cases "SPECIAL \<in> T")
     (simp_all add: type_mask_def)

lemma HasMultipleCharTypes_card: "HasMultipleCharTypes pwd \<longleftrightarrow> 2 \<le> card (char_type ` set pwd)"
proof -
  have "type_mask {} = 0"
    by (simp add: type_mask_def)
  then have "HasMultipleCharTypes pwd \<longleftrightarrow>
      type_mask (char_type ` set pwd) AND (type_mask (char_type ` set pwd) - 1) \<noteq> 0"
    using fold_type_mask[of pwd "{}"] by (simp add: HasMultipleCharTypes_def)
  then show ?thesis
    by (simp add: type_mask_two)
qed

text \<open>The bit trick of the password check is the reference definition: it holds exactly for the
  strings that have characters of at least two of the four types.\<close>

lemma HasMultipleCharTypes_iff: "HasMultipleCharTypes pwd = (2 \<le> card (char_type ` set pwd))"
  by (rule HasMultipleCharTypes_card)

subsection \<open>Availability\<close>

text \<open>OpenSSL is up when it provides every object and the generator gives as many bytes as are asked for.\<close>

definition openssl_up :: "'w rand_env \<Rightarrow> bool" where
  "openssl_up E \<longleftrightarrow> (\<forall>w x y. fst (ro_fetch E w x y)) \<and> (\<forall>w. fst (ro_ctx_new E w)) \<and>
     (\<forall>w n b ps. fst (ro_instantiate E w n b ps)) \<and> (\<forall>w x. fst (ro_load E w x)) \<and> (\<forall>w. fst (ro_ready E w)) \<and>
     (\<forall>w n st pr. \<exists>b. fst (ro_generate E w n st pr) = Some b \<and> length b = n)"

lemma create_up: "create f s = (p, s') \<Longrightarrow> (\<And>w. fst (f w)) \<Longrightarrow> p \<noteq> None"
  by (cases "f (rw s)") (auto simp: create_def call_def split: if_splits dest: meta_spec[of _ "rw s"])

lemma call_up: "call f s = (x, s') \<Longrightarrow> x = fst (f (rw s))"
  by (cases "f (rw s)") (simp add: call_def)

lemma LoadDefaultProvider_up: "openssl_up E \<Longrightarrow> LoadDefaultProvider E s = (ok, s') \<Longrightarrow> ok"
  by (auto simp: LoadDefaultProvider_def openssl_up_def Let_def split: if_splits prod.splits dest!: create_up)

lemma LoadFipsProvider_up:
  assumes u: "openssl_up E" and l: "LoadFipsProvider E s = (ok, s')"
  shows ok
proof -
  obtain ok1 s1 where d: "LoadDefaultProvider E s = (ok1, s1)"
    by (metis prod.exhaust_sel)
  obtain p t where c: "create (\<lambda>w. ro_load E w ''fips'') s1 = (p, t)"
    by (metis prod.exhaust_sel)
  have "p \<noteq> None"
    using create_up[OF c] u by (simp add: openssl_up_def)
  then show ?thesis
    using l LoadDefaultProvider_up[OF u d] unfolding LoadFipsProvider_def d Let_def prod.case c
    by (auto split: if_splits)
qed

lemma PrepareProviders_up:
  assumes u: "openssl_up E" and c: "\<not> (seedSource config = ''CUSTOM'' \<and> customSeedProvider config = [])"
    and p: "PrepareProviders E config s = (ok, s')"
  shows ok
proof -
  obtain ok1 s1 where d: "(if fipsMode config then LoadFipsProvider E s else (True, s)) = (ok1, s1)"
    by (metis prod.exhaust_sel)
  then have 1: ok1
    using LoadFipsProvider_up[OF u] by (auto split: if_splits)
  obtain q t where e: "create (\<lambda>w. ro_load E w (customSeedProvider config)) s1 = (q, t)"
    by (metis prod.exhaust_sel)
  have "q \<noteq> None"
    using create_up[OF e] u by (simp add: openssl_up_def)
  then show ?thesis
    using p 1 c LoadDefaultProvider_up[OF u, of s1] unfolding PrepareProviders_def d Let_def prod.case e
    by (auto split: if_splits)
qed

lemma ValidateParentRandAvailable_up: "openssl_up E \<Longrightarrow> ValidateParentRandAvailable E config s = (ok, s') \<Longrightarrow> ok"
  by (auto simp: ValidateParentRandAvailable_def FetchRandAvailable_def openssl_up_def Let_def
      split: if_splits prod.splits dest!: create_up)

lemma BuildRandChain_up: "openssl_up E \<Longrightarrow> BuildRandChain E config s = (ok, s') \<Longrightarrow> ok"
  unfolding BuildRandChain_def Let_def openssl_up_def
  by (elim conjE, simp only: split: prod.splits if_splits)
     (auto dest!: create_up call_up)

lemma RandInit_up:
  assumes u: "openssl_up E" and v: "ValidateConfig config"
    and c: "\<not> (seedSource config = ''CUSTOM'' \<and> customSeedProvider config = [])"
    and r: "RandInit E config s = (rc, s')"
  shows "rc = CCSEC_CRYPT_OK"
proof -
  obtain ok1 s1 where 1: "PrepareProviders E config s = (ok1, s1)"
    by (metis prod.exhaust_sel)
  obtain ok2 s2 where 2: "ValidateParentRandAvailable E config s1 = (ok2, s2)"
    by (metis prod.exhaust_sel)
  obtain ok3 s3 where 3: "BuildRandChain E config s2 = (ok3, s3)"
    by (metis prod.exhaust_sel)
  have ok1 ok2 ok3
    using PrepareProviders_up[OF u c 1] ValidateParentRandAvailable_up[OF u 2] BuildRandChain_up[OF u 3] by simp_all
  then show ?thesis
    using r v unfolding RandInit_def 1 prod.case 2 3 Let_def by (auto split: if_splits)
qed

lemma EnsureRandReady_up: "openssl_up E \<Longrightarrow> EnsureRandReady E s = (rc, s') \<Longrightarrow> rc = CCSEC_CRYPT_OK"
proof -
  have "ValidateConfig default_config" "seedSource default_config \<noteq> ''CUSTOM''"
    by (simp_all add: ValidateConfig_def default_config_def)
  then show "openssl_up E \<Longrightarrow> EnsureRandReady E s = (rc, s') \<Longrightarrow> rc = CCSEC_CRYPT_OK"
    using RandInit_up[of E default_config s] by (auto simp: EnsureRandReady_def split: if_splits prod.splits)
qed

lemma health_check_up: "openssl_up E \<Longrightarrow> health_check E s = (h, s') \<Longrightarrow> h"
  by (auto simp: health_check_def openssl_up_def Let_def split: if_splits prod.splits dest!: call_up)

lemma GetRand_up:
  assumes u: "openssl_up E" and i: "rand_inv s" and n: "1 \<le> n" "n \<le> 65536"
  shows "\<exists>b s' w st pr. GetRand E n s = ((CCSEC_CRYPT_OK, Some b), s') \<and> length b = n \<and>
    fst (ro_generate E w n st pr) = Some b \<and> g_initialized s' \<and> rand_inv s'"
proof -
  obtain rc s1 where e: "EnsureRandReady E s = (rc, s1)"
    by (metis prod.exhaust_sel)
  have 1: "rc = CCSEC_CRYPT_OK" "rand_inv s1" "g_initialized s1"
    using EnsureRandReady_up[OF u e] EnsureRandReady_inv[OF e i] by simp_all
  then have c: "g_pRandCtx s1 \<noteq> None"
    by (simp add: rand_inv_def full_chain_def)
  obtain h s2 where k: "health_check E s1 = (h, s2)"
    by (metis prod.exhaust_sel)
  have 2: h "rand_inv s2" "g_initialized s2 = g_initialized s1"
    using health_check_up[OF u k] health_check_inv[OF k 1(2)] k
    by (auto simp: health_check_def Let_def split: if_splits prod.splits dest!: call_state)
  obtain r s3 where g: "call (\<lambda>w. ro_generate E w n (securityStrength (g_activeConfig s2))
      (predictionResistance (g_activeConfig s2))) s2 = (r, s3)"
    by (metis prod.exhaust_sel)
  obtain b w st pr where b: "r = Some b" "length b = n" "fst (ro_generate E w n st pr) = Some b"
    using call_up[OF g] u unfolding openssl_up_def by metis
  have 3: "rand_inv s3" "g_initialized s3"
    using rand_inv_call[OF g] 1 2 g by (auto dest!: call_state)
  have "rand_loop E n (Suc 999) s = ((CCSEC_CRYPT_OK, Some b), s3)"
    using 1 2 c b by (simp only: rand_loop.simps) (auto simp: e k g Let_def)
  then show ?thesis
    using b 3 n by (auto simp: GetRand_def MIN_RAND_LEN_def MAX_RAND_LEN_def MAX_GET_RAND_ATTEMPTS_def)
qed

text \<open>C36: While OpenSSL is up, \<open>GetRand\<close> succeeds from every state that operations can reach: it initialises
  the module with the default configuration when that has not happened, passes the
  periodic check, and fills a buffer of 1 to 65536 bytes.\<close>

theorem GetRand_available:
  assumes "openssl_up E" "1 \<le> n" "n \<le> 65536"
  shows "\<exists>b. fst (GetRand E n (fold (rand_step E) ops (rand_start w))) = (CCSEC_CRYPT_OK, Some b) \<and> length b = n \<and>
    g_initialized (snd (GetRand E n (fold (rand_step E) ops (rand_start w))))"
proof -
  have "rand_inv (fold (rand_step E) ops (rand_start w))"
    by (rule rand.inv_run) simp
  from GetRand_up[OF assms(1) this assms(2,3)] show ?thesis
    by auto
qed

text \<open>A generator that counts.\<close>

definition toy_rand :: "nat rand_env" where
  "toy_rand = \<lparr>ro_fetch = \<lambda>w x y. (True, w), ro_ctx_new = \<lambda>w. (True, w), ro_instantiate = \<lambda>w n b ps. (True, w),
     ro_load = \<lambda>w x. (True, w), ro_poll = \<lambda>w. (True, w), ro_ready = \<lambda>w. (True, w), ro_status = \<lambda>w. (True, w),
     ro_generate = \<lambda>w n st pr. (Some (map char_of [0..<n]), w + 1), ro_now = int\<rparr>"

lemma toy_rand_up: "openssl_up toy_rand"
  by (simp add: openssl_up_def toy_rand_def)

theorem GetRand_available_witness:
  "\<exists>b. fst (GetRand toy_rand 16 (fold (rand_step toy_rand) [RGet 8, RDeinit] (rand_start 0))) = (CCSEC_CRYPT_OK, Some b) \<and>
    length b = 16 \<and> g_initialized (snd (GetRand toy_rand 16 (fold (rand_step toy_rand) [RGet 8, RDeinit] (rand_start 0))))"
  using GetRand_available[OF toy_rand_up, of 16 "[RGet 8, RDeinit]" 0] by simp

subsection \<open>Passwords\<close>

lemma length_PWD_ALL_CHARS: "length PWD_ALL_CHARS = 95"
  by (simp add: PWD_ALL_CHARS_def)

lemma pwd_char_in: "pwd_char bs \<in> set PWD_ALL_CHARS"
proof -
  have "unat (rand_value bs mod 95) < 95"
    by (simp add: unat_mod)
  then show ?thesis
    by (simp add: pwd_char_def length_PWD_ALL_CHARS)
qed

lemma pwd_of_rand_props: "length (pwd_of_rand n r) = n \<and> set (pwd_of_rand n r) \<subseteq> set PWD_ALL_CHARS"
  by (auto simp: pwd_of_rand_def pwd_char_in)

definition pwd_result :: "nat \<Rightarrow> CcsecCryptErrorCode \<Rightarrow> bytes \<Rightarrow> bool" where
  "pwd_result n rc pwd \<longleftrightarrow> length pwd = n \<and>
    (if rc = CCSEC_CRYPT_OK then set pwd \<subseteq> set PWD_ALL_CHARS \<and> 2 \<le> card (char_type ` set pwd)
     else rc = CCSEC_CRYPT_ERROR \<and> pwd = replicate n (CHR 0x00))"

lemma pwd_loop_result: "pwd_loop E n k s = ((rc, pwd), s') \<Longrightarrow> pwd_result n rc pwd"
proof (induction E n k s rule: pwd_loop.induct)
  case (2 E n k s)
  obtain rc1 r1 s1 where g: "GetRand E (n * 8) s = ((rc1, r1), s1)"
    by (metis prod.exhaust_sel)
  have "HasMultipleCharTypes (pwd_of_rand n r) \<Longrightarrow> pwd_result n CCSEC_CRYPT_OK (pwd_of_rand n r)" for r
    using pwd_of_rand_props[of n r] by (simp add: pwd_result_def HasMultipleCharTypes_card)
  then show ?case
    using 2 by (auto simp: g Let_def split: if_splits)
qed (auto simp: pwd_result_def)

text \<open>C35: \<open>GetSecurePwd\<close> keeps the length of the buffer. When it succeeds every character is of
  the alphabet of 95 and at least two of the four types occur. A wrong length or no retries leave the buffer
  as it was; when the retries are used up the buffer is wiped with zeroes.\<close>

theorem GetSecurePwd_sound:
  assumes "GetSecurePwd E buff retryTimes s = ((rc, pwd), s')"
  shows "length pwd = length buff \<and>
    (if length buff < 8 \<or> 32 < length buff \<or> retryTimes = 0 then rc = CCSEC_CRYPT_PARAM_INVALID \<and> pwd = buff \<and> s' = s
     else if rc = CCSEC_CRYPT_OK then set pwd \<subseteq> set PWD_ALL_CHARS \<and> 2 \<le> card (char_type ` set pwd)
     else rc = CCSEC_CRYPT_ERROR \<and> pwd = replicate (length buff) (CHR 0x00))"
proof (cases "length buff < 8 \<or> 32 < length buff \<or> retryTimes = 0")
  case True
  then show ?thesis
    using assms by (auto simp: GetSecurePwd_def MIN_SECURE_PWD_LEN_def MAX_SECURE_PWD_LEN_def split: if_splits)
next
  case False
  then have "pwd_loop E (length buff) (unat retryTimes) s = ((rc, pwd), s')"
    using assms by (simp add: GetSecurePwd_def MIN_SECURE_PWD_LEN_def MAX_SECURE_PWD_LEN_def)
  then show ?thesis
    using False pwd_loop_result[of E "length buff" "unat retryTimes" s rc pwd s'] by (simp add: pwd_result_def)
qed

text \<open>A password of eight characters: each comes from eight of the bytes 0 to 63.\<close>

lemma toy_pwd: "pwd_of_rand 8 (map char_of [0..<64::nat]) = ''n+A<N8'' @ [CHR 0x60, CHR ''l'']"
  by code_simp

lemma toy_GetSecurePwd:
  "fst (GetSecurePwd toy_rand (replicate 8 (CHR 0x00)) 3 (rand_start 0)) =
    (CCSEC_CRYPT_OK, ''n+A<N8'' @ [CHR 0x60, CHR ''l''])"
proof -
  have "rand_inv (rand_start (0 :: nat))"
    by (rule rand.inv_init)
  from GetRand_up[OF toy_rand_up this, of 64] obtain s' where
    g: "GetRand toy_rand 64 (rand_start 0) = ((CCSEC_CRYPT_OK, Some (map char_of [0..<64::nat])), s')"
    by (auto simp: toy_rand_def)
  have m: "HasMultipleCharTypes (''n+A<N8'' @ [CHR 0x60, CHR ''l''])"
    by code_simp
  have "pwd_loop toy_rand 8 (Suc 2) (rand_start 0) = ((CCSEC_CRYPT_OK, ''n+A<N8'' @ [CHR 0x60, CHR ''l'']), s')"
    using m by (simp only: pwd_loop.simps) (simp add: g Let_def toy_pwd)
  then have "pwd_loop toy_rand 8 3 (rand_start 0) = ((CCSEC_CRYPT_OK, ''n+A<N8'' @ [CHR 0x60, CHR ''l'']), s')"
    by (simp only: numeral_3_eq_3 numeral_2_eq_2)
  then show ?thesis
    by (simp add: GetSecurePwd_def MIN_SECURE_PWD_LEN_def MAX_SECURE_PWD_LEN_def del: pwd_loop.simps)
qed

theorem GetSecurePwd_sound_witness:
  "\<exists>s'. GetSecurePwd toy_rand (replicate 8 (CHR 0x00)) 3 (rand_start 0) =
      ((CCSEC_CRYPT_OK, ''n+A<N8'' @ [CHR 0x60, CHR ''l'']), s') \<and>
    set (''n+A<N8'' @ [CHR 0x60, CHR ''l'']) \<subseteq> set PWD_ALL_CHARS \<and>
    2 \<le> card (char_type ` set (''n+A<N8'' @ [CHR 0x60, CHR ''l'']))"
proof -
  obtain s' where g: "GetSecurePwd toy_rand (replicate 8 (CHR 0x00)) 3 (rand_start 0) =
      ((CCSEC_CRYPT_OK, ''n+A<N8'' @ [CHR 0x60, CHR ''l'']), s')"
    using toy_GetSecurePwd by (metis prod.exhaust_sel)
  show ?thesis
    using GetSecurePwd_sound[OF g] g by simp
qed

end
