(* ===== verification/CdfHash.thy ===== *)
theory CdfHash
  imports CdfDefs
begin

section \<open>Digests (\<open>modules/cryption/hash.cpp\<close>)\<close>

text \<open>
  The hash object around OpenSSL's digest context and the optional BLAKE3 library. Both are
  parameters: a context is a value of the type \<open>'c\<close>, which the library's functions take and give
  back. \<open>he_blake3\<close> is the build option \<open>CDF_ENABLE_BLAKE3\<close>. Allocation is taken not to fail.
\<close>

datatype HashAlgorithm =
    HASH_UNKNOWN | HASH_SHA1 | HASH_SHA256 | HASH_SHA384 | HASH_SHA512 | HASH_BLAKE2 | HASH_BLAKE2S_256
  | HASH_BLAKE3 | HASH_SM3

fun GetEvpDigestName :: "HashAlgorithm \<Rightarrow> bytes option" where
  "GetEvpDigestName HASH_SHA1 = Some ''SHA1''"
| "GetEvpDigestName HASH_SHA256 = Some ''SHA2-256''"
| "GetEvpDigestName HASH_SHA384 = Some ''SHA2-384''"
| "GetEvpDigestName HASH_SHA512 = Some ''SHA2-512''"
| "GetEvpDigestName HASH_BLAKE2 = Some ''BLAKE2B-512''"
| "GetEvpDigestName HASH_BLAKE2S_256 = Some ''BLAKE2S-256''"
| "GetEvpDigestName HASH_BLAKE3 = Some ''BLAKE3''"
| "GetEvpDigestName HASH_SM3 = Some ''SM3''"
| "GetEvpDigestName HASH_UNKNOWN = None"

text \<open>\<open>he_fetch\<close> gives the size of an available digest, \<open>he_fresh\<close> is a context after
  \<open>EVP_MD_CTX_new\<close> or \<open>EVP_MD_CTX_reset\<close>.\<close>

record 'c hash_env =
  he_fetch :: "bytes \<Rightarrow> u32 option"
  he_new :: bool
  he_fresh :: 'c
  he_init :: "'c \<Rightarrow> bytes \<Rightarrow> 'c option"
  he_update :: "'c \<Rightarrow> bytes \<Rightarrow> 'c option"
  he_final :: "'c \<Rightarrow> bytes option \<times> 'c"
  he_blake3 :: bool
  he_b3_init :: 'c
  he_b3_update :: "'c \<Rightarrow> bytes \<Rightarrow> 'c"
  he_b3_final :: "'c \<Rightarrow> bytes"

record 'c Hash =
  digestSize :: u32
  h_inited :: bool
  h_md :: "bytes option"
  h_context :: "'c option"
  blake3Hasher :: "'c option"

definition hash_off :: "'c Hash" where
  "hash_off = \<lparr>digestSize = 0, h_inited = False, h_md = None, h_context = None, blake3Hasher = None\<rparr>"

definition BLAKE3_OUT_LEN :: u32 where "BLAKE3_OUT_LEN = 32"

definition Hash_DigestSize :: "'c Hash \<Rightarrow> u32" where
  "Hash_DigestSize h = (if \<not> h_inited h then 0 else digestSize h)"

definition Hash_Reset :: "'c hash_env \<Rightarrow> 'c Hash \<Rightarrow> bool \<times> 'c Hash" where
  "Hash_Reset E h =
    (if \<not> h_inited h then (False, h)
     else if blake3Hasher h \<noteq> None then (True, h\<lparr>blake3Hasher := Some (he_b3_init E)\<rparr>)
     else (case he_init E (he_fresh E) (the (h_md h)) of
        None \<Rightarrow> (False, h\<lparr>h_context := Some (he_fresh E)\<rparr>)
      | Some c \<Rightarrow> (True, h\<lparr>h_context := Some c\<rparr>)))"

text \<open>The constructor. A failing \<open>Reset\<close> is only logged: the object then counts as initialised.\<close>

definition Hash_new :: "'c hash_env \<Rightarrow> HashAlgorithm \<Rightarrow> 'c Hash" where
  "Hash_new E algorithm =
    (case GetEvpDigestName algorithm of
       None \<Rightarrow> hash_off
     | Some name \<Rightarrow>
       (case he_fetch E name of
          None \<Rightarrow>
            if he_blake3 E \<and> algorithm = HASH_BLAKE3 then
              hash_off\<lparr>blake3Hasher := Some (he_b3_init E), digestSize := BLAKE3_OUT_LEN, h_inited := True\<rparr>
            else hash_off
        | Some sz \<Rightarrow>
            if \<not> he_new E then hash_off\<lparr>h_md := Some name\<rparr>
            else snd (Hash_Reset E
              (hash_off\<lparr>h_md := Some name, h_context := Some (he_fresh E), digestSize := sz, h_inited := True\<rparr>))))"

definition Hash_Update :: "'c hash_env \<Rightarrow> bytes \<Rightarrow> 'c Hash \<Rightarrow> bool \<times> 'c Hash" where
  "Hash_Update E input h =
    (if \<not> h_inited h then (False, h)
     else if input = [] then (False, h)
     else case blake3Hasher h of
       Some c \<Rightarrow> (True, h\<lparr>blake3Hasher := Some (he_b3_update E c input)\<rparr>)
     | None \<Rightarrow>
       (case he_update E (the (h_context h)) input of
          None \<Rightarrow> (False, h)
        | Some c \<Rightarrow> (True, h\<lparr>h_context := Some c\<rparr>)))"

text \<open>\<open>Finalize\<close> appends the digest to the output and stores the length OpenSSL reports.\<close>

definition Hash_Finalize :: "'c hash_env \<Rightarrow> bytes \<Rightarrow> 'c Hash \<Rightarrow> (bool \<times> bytes) \<times> 'c Hash" where
  "Hash_Finalize E output h =
    (if \<not> h_inited h then ((False, output), h)
     else case blake3Hasher h of
       Some c \<Rightarrow> ((True, output @ he_b3_final E c), h)
     | None \<Rightarrow>
       (case he_final E (the (h_context h)) of
          (None, c) \<Rightarrow> ((False, output), h\<lparr>h_context := Some c\<rparr>)
        | (Some d, c) \<Rightarrow> ((True, output @ d), h\<lparr>h_context := Some c, digestSize := of_nat (length d)\<rparr>)))"

subsection \<open>Streams\<close>

text \<open>
  A \<open>std::istream\<close>: the bytes still to come, whether the device fails after them, and the state bits.
  \<open>read\<close> takes the bytes asked for; when there are fewer it takes those and sets \<open>eof\<close> and
  \<open>fail\<close>. When the device fails it gives nothing and sets \<open>bad\<close>.
\<close>

record istream =
  is_data :: bytes
  is_error :: bool
  is_eof :: bool
  is_fail :: bool
  is_bad :: bool

definition is_ok :: "istream \<Rightarrow> bool" where
  "is_ok i \<longleftrightarrow> \<not> is_fail i \<and> \<not> is_bad i"

definition is_read :: "nat \<Rightarrow> istream \<Rightarrow> bytes \<times> istream" where
  "is_read n i =
    (if \<not> is_ok i \<or> is_eof i then ([], i\<lparr>is_fail := True\<rparr>)
     else if n \<le> length (is_data i) then (take n (is_data i), i\<lparr>is_data := drop n (is_data i)\<rparr>)
     else if is_error i then ([], i\<lparr>is_data := [], is_bad := True\<rparr>)
     else (is_data i, i\<lparr>is_data := [], is_eof := True, is_fail := True\<rparr>))"

definition HASH_STREAM_BUFFER_SIZE :: nat where "HASH_STREAM_BUFFER_SIZE = 65536"

definition stream_left :: "istream \<Rightarrow> nat" where
  "stream_left i = length (is_data i) + (if is_ok i then 1 else 0)"

lemma is_read_less:
  "is_ok i \<Longrightarrow> is_read HASH_STREAM_BUFFER_SIZE i = (buf, i1) \<Longrightarrow> stream_left i1 < stream_left i"
  by (auto simp: is_read_def is_ok_def stream_left_def HASH_STREAM_BUFFER_SIZE_def split: if_splits)

text \<open>The loop: the hash, whether there was input, and whether all updates worked.\<close>

function stream_loop ::
  "'c hash_env \<Rightarrow> istream \<Rightarrow> bool \<Rightarrow> 'c Hash \<Rightarrow> (bool \<times> bool) \<times> 'c Hash \<times> istream" where
  "stream_loop E i hasInput h =
    (if \<not> is_ok i then ((True, hasInput), h, i)
     else let (buf, i1) = is_read HASH_STREAM_BUFFER_SIZE i in
       if buf = [] then stream_loop E i1 hasInput h
       else let (ok, h1) = Hash_Update E buf h in
         if \<not> ok then ((False, True), h1, i1) else stream_loop E i1 True h1)"
  by pat_completeness auto

termination
proof (relation "measure (\<lambda>(E, i, b, h). stream_left i)")
  show "\<not> \<not> is_ok i \<Longrightarrow> x = is_read HASH_STREAM_BUFFER_SIZE i \<Longrightarrow> (buf, i1) = x \<Longrightarrow> buf = [] \<Longrightarrow>
      ((E, i1, hasInput, h), E, i, hasInput, h) \<in> measure (\<lambda>(E, i, b, h). stream_left i)" for E i hasInput h x buf i1
    using is_read_less[of i buf i1] by simp
  show "\<not> \<not> is_ok i \<Longrightarrow> x = is_read HASH_STREAM_BUFFER_SIZE i \<Longrightarrow> (buf, i1) = x \<Longrightarrow> buf \<noteq> [] \<Longrightarrow>
      y = Hash_Update E buf h \<Longrightarrow> (ok, h1) = y \<Longrightarrow> \<not> \<not> ok \<Longrightarrow>
      ((E, i1, True, h1), E, i, hasInput, h) \<in> measure (\<lambda>(E, i, b, h). stream_left i)"
    for E i hasInput h x buf i1 y ok h1
    using is_read_less[of i buf i1] by simp
qed simp

declare stream_loop.simps [simp del]

definition HashStream :: "'c hash_env \<Rightarrow> istream \<Rightarrow> HashAlgorithm \<Rightarrow> bytes \<Rightarrow> bool \<times> bytes" where
  "HashStream E input algorithm output =
    (let h = Hash_new E algorithm in
     if Hash_DigestSize h = 0 then (False, output)
     else let ((ok, hasInput), h1, i1) = stream_loop E input False h in
     if \<not> ok then (False, output)
     else if is_bad i1 \<or> (is_fail i1 \<and> \<not> is_eof i1) then (False, output)
     else if \<not> hasInput then (False, output)
     else let ((ok2, out2), _) = Hash_Finalize E output h1 in
       (ok2, out2))"

definition Sha256Stream :: "'c hash_env \<Rightarrow> istream \<Rightarrow> bytes \<Rightarrow> bool \<times> bytes" where
  "Sha256Stream E input output = HashStream E input HASH_SHA256 output"

definition Sha256 :: "'c hash_env \<Rightarrow> bytes \<Rightarrow> bytes \<Rightarrow> bool \<times> bytes" where
  "Sha256 E input output =
    (if input = [] then (False, output)
     else let h = Hash_new E HASH_SHA256; (ok, h1) = Hash_Update E input h in
     if \<not> ok then (False, output)
     else let ((ok2, out2), _) = Hash_Finalize E output h1 in (ok2, out2))"

subsection \<open>Streaming and one shot\<close>

text \<open>
  What is known of the libraries: data may be given in pieces, with the same context and the same failure
  as at once, and an available digest is not empty.
\<close>

definition hash_law :: "'c hash_env \<Rightarrow> bool" where
  "hash_law E \<longleftrightarrow>
     (\<forall>c a b. a \<noteq> [] \<longrightarrow> b \<noteq> [] \<longrightarrow> he_update E c (a @ b) =
        (case he_update E c a of None \<Rightarrow> None | Some c1 \<Rightarrow> he_update E c1 b)) \<and>
     (\<forall>c a b. he_b3_update E c (a @ b) = he_b3_update E (he_b3_update E c a) b) \<and>
     (\<forall>name sz. he_fetch E name = Some sz \<longrightarrow> sz \<noteq> 0)"

lemma Hash_Update_append:
  assumes "hash_law E" "a \<noteq> []" "b \<noteq> []" and u: "Hash_Update E a h = (ok, h1)"
  shows "fst (Hash_Update E (a @ b) h) = (ok \<and> fst (Hash_Update E b h1)) \<and>
    (fst (Hash_Update E (a @ b) h) \<longrightarrow> Hash_Update E (a @ b) h = Hash_Update E b h1)"
  using assms by (auto simp: Hash_Update_def hash_law_def split: if_splits option.splits)

text \<open>A stream of the given bytes; \<open>err\<close> tells whether the device fails after them.\<close>

definition stream_of :: "bytes \<Rightarrow> bool \<Rightarrow> istream" where
  "stream_of data err = \<lparr>is_data = data, is_error = err, is_eof = False, is_fail = False, is_bad = False\<rparr>"

definition stream_end :: istream where
  "stream_end = \<lparr>is_data = [], is_error = False, is_eof = True, is_fail = True, is_bad = False\<rparr>"

lemma stream_of_ok [simp]: "is_ok (stream_of data err)" "\<not> is_ok stream_end"
  by (simp_all add: is_ok_def stream_of_def stream_end_def)

lemma is_read_stream_of:
  "is_read n (stream_of data False) =
    (if n \<le> length data then (take n data, stream_of (drop n data) False) else (data, stream_end))"
  by (simp add: is_read_def is_ok_def stream_of_def stream_end_def)

lemma stream_loop_end: "stream_loop E stream_end b h = ((True, b), h, stream_end)"
  by (simp add: stream_loop.simps)

lemma stream_loop_data:
  assumes law: "hash_law E"
  shows "if data = [] then stream_loop E (stream_of data False) b h = ((True, b), h, stream_end)
    else if fst (Hash_Update E data h) then
      stream_loop E (stream_of data False) b h = ((True, True), snd (Hash_Update E data h), stream_end)
    else \<not> fst (fst (stream_loop E (stream_of data False) b h))"
proof (induction "length data" arbitrary: data b h rule: less_induct)
  case less
  let ?n = HASH_STREAM_BUFFER_SIZE
  have n: "0 < ?n"
    by (simp add: HASH_STREAM_BUFFER_SIZE_def)
  show ?case
  proof (cases "?n \<le> length data")
    case False
    then show ?thesis
      using n stream_loop_end[of E]
      by (subst (1 2 3) stream_loop.simps) (auto simp: is_read_stream_of split: prod.splits)
  next
    case True
    obtain ok h1 where u: "Hash_Update E (take ?n data) h = (ok, h1)"
      by (metis prod.exhaust_sel)
    have t: "take ?n data \<noteq> []" "data \<noteq> []"
      using True n by auto
    have l: "stream_loop E (stream_of data False) b h =
       (if \<not> ok then ((False, True), h1, stream_of (drop ?n data) False)
        else stream_loop E (stream_of (drop ?n data) False) True h1)"
      using True t u by (subst stream_loop.simps) (simp add: is_read_stream_of)
    have ih: "if drop ?n data = [] then stream_loop E (stream_of (drop ?n data) False) True h1 = ((True, True), h1, stream_end)
      else if fst (Hash_Update E (drop ?n data) h1) then stream_loop E (stream_of (drop ?n data) False) True h1 =
        ((True, True), snd (Hash_Update E (drop ?n data) h1), stream_end)
      else \<not> fst (fst (stream_loop E (stream_of (drop ?n data) False) True h1))"
      by (rule less) (use n True in simp)
    show ?thesis
    proof (cases "drop ?n data = []")
      case True
      then have "take ?n data = data"
        by simp
      then show ?thesis
        using t l ih u True by simp
    next
      case False
      note A = Hash_Update_append[OF law t(1) False u, unfolded append_take_drop_id]
      show ?thesis
      proof (cases "ok \<and> fst (Hash_Update E (drop ?n data) h1)")
        case True
        then have "Hash_Update E data h = Hash_Update E (drop ?n data) h1"
          using A by blast
        then show ?thesis
          using True ih l t(2) False by (simp only: if_True if_False simp_thms)
      next
        case no: False
        then have "\<not> fst (Hash_Update E data h)"
          using A by blast
        moreover have "\<not> fst (fst (stream_loop E (stream_of data False) b h))"
          using no ih l False by (cases ok) simp_all
        ultimately show ?thesis
          using t(2) by simp
      qed
    qed
  qed
qed

lemma Hash_Update_off: "Hash_DigestSize (Hash_new E a) = 0 \<Longrightarrow> hash_law E \<Longrightarrow> \<not> fst (Hash_Update E data (Hash_new E a))"
  by (auto simp: Hash_DigestSize_def Hash_Update_def Hash_new_def Hash_Reset_def hash_law_def hash_off_def
      BLAKE3_OUT_LEN_def split: option.splits if_splits)

lemma stream_loop_error:
  "\<not> fst (fst (stream_loop E (stream_of data True) b h)) \<or> is_bad (snd (snd (stream_loop E (stream_of data True) b h)))"
proof (induction "length data" arbitrary: data b h rule: less_induct)
  case less
  let ?n = HASH_STREAM_BUFFER_SIZE
  have n: "0 < ?n"
    by (simp add: HASH_STREAM_BUFFER_SIZE_def)
  show ?case
  proof (cases "?n \<le> length data")
    case True
    obtain ok h1 where u: "Hash_Update E (take ?n data) h = (ok, h1)"
      by (metis prod.exhaust_sel)
    have t: "take ?n data \<noteq> []"
      using True n by auto
    have r: "is_read ?n (stream_of data True) = (take ?n data, stream_of (drop ?n data) True)"
      using True by (simp add: is_read_def is_ok_def stream_of_def)
    have "length (drop ?n data) < length data"
      using True n by simp
    from less[OF this, of True h1] show ?thesis
      using t by (subst (1 2) stream_loop.simps) (simp add: r u)
  next
    case False
    let ?e = "stream_of data True"
    have r: "is_read ?n ?e = ([], ?e\<lparr>is_data := [], is_bad := True\<rparr>)"
      using False by (simp add: is_read_def is_ok_def stream_of_def)
    have "stream_loop E (?e\<lparr>is_data := [], is_bad := True\<rparr>) b h = ((True, b), h, ?e\<lparr>is_data := [], is_bad := True\<rparr>)"
      by (simp add: stream_loop.simps is_ok_def)
    then show ?thesis
      by (subst (1 2) stream_loop.simps) (simp add: r)
  qed
qed

lemma Sha256Stream_good:
  assumes "hash_law E"
  shows "Sha256Stream E (stream_of data False) output = Sha256 E data output"
proof -
  let ?h = "Hash_new E HASH_SHA256"
  show ?thesis
  proof (cases "Hash_DigestSize ?h = 0 \<or> data = []")
    case True
    then show ?thesis
      using Hash_Update_off[of E HASH_SHA256 data] assms stream_loop_data[OF assms, of data False ?h]
      by (auto simp: Sha256Stream_def Sha256_def HashStream_def Let_def stream_end_def split: prod.splits)
  next
    case False
    then show ?thesis
      using stream_loop_data[OF assms, of data False ?h]
      by (auto simp: Sha256Stream_def Sha256_def HashStream_def Let_def stream_end_def split: prod.splits if_splits)
  qed
qed

text \<open>Reading a stream in blocks of 64 KiB gives the same answer and the same output as hashing all its
  bytes at once, on every outcome of the library; a stream whose device fails is rejected with the
  output as it was.\<close>

lemma Sha256Stream_one_shot:
  assumes "hash_law E"
  shows "Sha256Stream E (stream_of data err) output = (if err then (False, output) else Sha256 E data output)"
proof (cases err)
  case True
  then show ?thesis
    using stream_loop_error[of E data False "Hash_new E HASH_SHA256"]
    by (auto simp: Sha256Stream_def HashStream_def Let_def split: prod.splits)
qed (simp add: Sha256Stream_good[OF assms])

text \<open>A digest of one byte, the sum of the bytes.\<close>

definition toy_hash :: "nat hash_env" where
  "toy_hash = \<lparr>he_fetch = (\<lambda>_. Some 1), he_new = True, he_fresh = 0, he_init = (\<lambda>c _. Some 0),
     he_update = (\<lambda>c x. Some (c + sum_list (map of_char x))), he_final = (\<lambda>c. (Some [char_of c], c)),
     he_blake3 = False, he_b3_init = 0, he_b3_update = (\<lambda>c _. c), he_b3_final = (\<lambda>_. [])\<rparr>"

lemma Sha256Stream_one_shot_witness:
  "Sha256Stream toy_hash (stream_of ''AB'' False) ''x'' = (True, ''x'' @ [char_of (131 :: nat)])"
proof -
  have "hash_law toy_hash"
    by (simp add: hash_law_def toy_hash_def)
  from Sha256Stream_one_shot[OF this, of "''AB''" False "''x''"] show ?thesis
    by (simp add: Sha256_def Hash_new_def Hash_Update_def Hash_Finalize_def Hash_Reset_def toy_hash_def hash_off_def)
qed

end
