(* ===== verification/CdfKeytab.thy ===== *)
theory CdfKeytab
  imports CdfDefs CdfPbkdf2 "HOL-Library.Monad_Syntax"
begin

section \<open>Reading a keytab (\<open>modules/authentication/kerberos/krb_ctx.cpp\<close>)\<close>

text \<open>
  The keytab reader of the Kerberos context: a binary format with big-endian numbers, entries with
  a length in front, and holes with a negative length. A position is the \<open>uint32_t\<close> of the source, and
  adding to it wraps; the comparison with the size of the buffer is made in 64 bits. A reader gives \<open>None\<close>
  when the source returns an error: the position and the half-read entry are not used
  after that. Loops that a wrapping position could keep running are partial functions.
\<close>

subsection \<open>Data\<close>

record krb_principal =
  pr_realm :: bytes
  pr_comps :: "bytes list"
  pr_type :: int

record krb_entry =
  ke_principal :: krb_principal
  ke_time :: u32
  ke_vno :: u32
  ke_enctype :: int
  ke_key :: bytes

definition be_word :: "bytes \<Rightarrow> u32" where
  "be_word bs = fold (\<lambda>b v. push_bit 8 v OR ucast (u8_of b)) bs 0"

definition be16s :: "bytes \<Rightarrow> int" where
  "be16s bs = sint (ucast (be_word bs) :: 16 word)"

definition be32s :: "bytes \<Rightarrow> int" where
  "be32s bs = sint (be_word bs)"

subsection \<open>Reading\<close>

text \<open>\<open>count\<close> items of \<open>sz\<close> bytes each; every caller asks for at least one.\<close>

fun KerberosRead :: "bytes \<Rightarrow> nat \<Rightarrow> nat \<Rightarrow> u32 \<Rightarrow> (bytes \<times> u32) option" where
  "KerberosRead buf sz 0 pos = Some ([], pos)"
| "KerberosRead buf sz (Suc count) pos =
    (if length buf < unat pos + sz then None
     else case KerberosRead buf sz count (pos + of_nat sz) of
       None \<Rightarrow> None
     | Some (rest, pos1) \<Rightarrow> Some (take sz (drop (unat pos) buf) @ rest, pos1))"

text \<open>The size of the next entry, past the holes; \<open>err\<close> is what \<open>errno\<close> holds.\<close>

partial_function (option) KerberosReadEntrySize :: "int \<Rightarrow> bytes \<Rightarrow> u32 \<Rightarrow> (int \<times> int \<times> u32) option" where
  "KerberosReadEntrySize err buf keypos =
    (case KerberosRead buf 4 1 keypos of
       None \<Rightarrow> Some (1, 0, keypos)
     | Some (d, pos) \<Rightarrow>
       (let sz = be32s d in
        if sz < 0 then
          (if sz = - 2147483648 then Some (1, sz, pos)
           else let pos1 = pos + word_of_int (- sz) in
             if length buf < unat pos1 then Some (err, sz, pos1) else KerberosReadEntrySize err buf pos1)
        else Some (0, sz, pos)))"

definition read_counted :: "bytes \<Rightarrow> u32 \<Rightarrow> (bytes \<times> u32) option" where
  "read_counted buf keypos = do {
     (d, pos) \<leftarrow> KerberosRead buf 2 1 keypos;
     if be16s d \<le> 0 then None else KerberosRead buf 1 (nat (be16s d)) pos }"

definition KerberosReadEntryPrincipalRealm :: "bytes \<Rightarrow> u32 \<Rightarrow> (bytes \<times> u32) option" where
  "KerberosReadEntryPrincipalRealm buf keypos = read_counted buf keypos"

definition KerberosReadEntryPrincipalData :: "bytes \<Rightarrow> u32 \<Rightarrow> (bytes \<times> u32) option" where
  "KerberosReadEntryPrincipalData buf keypos = read_counted buf keypos"

fun read_comps :: "bytes \<Rightarrow> nat \<Rightarrow> u32 \<Rightarrow> (bytes list \<times> u32) option" where
  "read_comps buf 0 pos = Some ([], pos)"
| "read_comps buf (Suc n) pos = do {
     (c, pos1) \<leftarrow> KerberosReadEntryPrincipalData buf pos;
     (cs, pos2) \<leftarrow> read_comps buf n pos1;
     Some (c # cs, pos2) }"

definition KerberosReadEntryPrincipal :: "bytes \<Rightarrow> u32 \<Rightarrow> (krb_principal \<times> u32) option" where
  "KerberosReadEntryPrincipal buf keypos = do {
     (d, pos) \<leftarrow> KerberosRead buf 2 1 keypos;
     if be16s d \<le> 0 then None
     else do {
       (realm, pos1) \<leftarrow> KerberosReadEntryPrincipalRealm buf pos;
       (comps, pos2) \<leftarrow> read_comps buf (nat (be16s d)) pos1;
       (t, pos3) \<leftarrow> KerberosRead buf 4 1 pos2;
       Some (\<lparr>pr_realm = realm, pr_comps = comps, pr_type = be32s t\<rparr>, pos3) } }"

definition KerberosReadEntryTSVNo :: "bytes \<Rightarrow> u32 \<Rightarrow> ((u32 \<times> u32) \<times> u32) option" where
  "KerberosReadEntryTSVNo buf keypos = do {
     (t, pos1) \<leftarrow> KerberosRead buf 4 1 keypos;
     (v, pos2) \<leftarrow> KerberosRead buf 1 1 pos1;
     Some ((be_word t, be_word v), pos2) }"

definition KerberosReadEntryKey :: "bytes \<Rightarrow> u32 \<Rightarrow> ((int \<times> bytes) \<times> u32) option" where
  "KerberosReadEntryKey buf keypos = do {
     (t, pos1) \<leftarrow> KerberosRead buf 2 1 keypos;
     (n, pos2) \<leftarrow> KerberosRead buf 2 1 pos1;
     if be16s n \<le> 0 then None
     else do {
       (k, pos3) \<leftarrow> KerberosRead buf 1 (nat (be16s n)) pos2;
       Some ((be16s t, k), pos3) } }"

definition KerberosReadEntryContent :: "bytes \<Rightarrow> u32 \<Rightarrow> (krb_entry \<times> u32) option" where
  "KerberosReadEntryContent buf keypos = do {
     (p, pos1) \<leftarrow> KerberosReadEntryPrincipal buf keypos;
     ((t, v), pos2) \<leftarrow> KerberosReadEntryTSVNo buf pos1;
     ((et, k), pos3) \<leftarrow> KerberosReadEntryKey buf pos2;
     Some (\<lparr>ke_principal = p, ke_time = t, ke_vno = v, ke_enctype = et, ke_key = k\<rparr>, pos3) }"

text \<open>The optional 32-bit version number after the key, when the entry has room for it.\<close>

definition read_vno :: "bytes \<Rightarrow> u32 \<Rightarrow> int \<Rightarrow> krb_entry \<times> u32 \<Rightarrow> (krb_entry \<times> u32) option" where
  "read_vno buf startPos sz ep =
    (case ep of (e, endPos) \<Rightarrow>
       if unat endPos + 4 \<le> unat (word_of_int sz + startPos) then
         (case KerberosRead buf 4 1 endPos of
            None \<Rightarrow> None
          | Some (d, pos) \<Rightarrow> Some (if be_word d \<noteq> 0 then e\<lparr>ke_vno := be_word d\<rparr> else e, pos))
       else Some (e, endPos))"

text \<open>The outer \<open>None\<close> is a reader that does not return, the inner one an error.\<close>

definition KerberosReadEntry :: "int \<Rightarrow> bytes \<Rightarrow> u32 \<Rightarrow> (krb_entry \<times> u32) option option" where
  "KerberosReadEntry err buf keypos = do {
     (error, sz, startPos) \<leftarrow> KerberosReadEntrySize err buf keypos;
     if error \<noteq> 0 \<or> sz \<le> 0 then Some None
     else Some (do {
       ep \<leftarrow> KerberosReadEntryContent buf startPos;
       (e, pos) \<leftarrow> read_vno buf startPos sz ep;
       if startPos + word_of_int sz < pos then None
       else Some (e, startPos + word_of_int sz) }) }"

subsection \<open>Choosing an entry\<close>

definition KerberosTSAfter :: "u32 \<Rightarrow> u32 \<Rightarrow> bool" where
  "KerberosTSAfter a b \<longleftrightarrow> b < a"

definition KerberosMoreRecent :: "krb_entry \<Rightarrow> krb_entry \<Rightarrow> bool" where
  "KerberosMoreRecent k1 k2 =
    (if \<not> KerberosTSAfter (ke_time k2) (ke_time k1) \<and> ke_vno k1 < 128 \<and> 128 < ke_vno k2 then True
     else if \<not> KerberosTSAfter (ke_time k1) (ke_time k2) \<and> 128 < ke_vno k1 \<and> ke_vno k2 < 128 then False
     else ke_vno k2 < ke_vno k1)"

text \<open>Whether to read on, and the entry chosen so far: \<open>curEntry\<close> with its null principal is \<open>None\<close>.\<close>

definition KerberosCompareEntry :: "u32 \<Rightarrow> krb_entry option \<Rightarrow> krb_entry \<Rightarrow> bool \<times> krb_entry option" where
  "KerberosCompareEntry kvno cur new =
    (if kvno = 0 \<or> ke_vno new = 0 then
       (case cur of
          None \<Rightarrow> (True, Some new)
        | Some c \<Rightarrow> if KerberosMoreRecent new c then (True, Some new) else (True, Some c))
     else if ke_vno new = kvno then (False, Some new)
     else if ke_vno new = kvno AND 255 \<and> cur = None then (True, Some new)
     else (True, cur))"

definition entry_matches :: "(krb_principal \<Rightarrow> bool) \<Rightarrow> int \<Rightarrow> krb_entry \<Rightarrow> bool" where
  "entry_matches same enctype e \<longleftrightarrow> same (ke_principal e) \<and> (enctype = 0 \<or> enctype = ke_enctype e)"

partial_function (option) entry_loop ::
  "int \<Rightarrow> (krb_principal \<Rightarrow> bool) \<Rightarrow> bytes \<Rightarrow> u32 \<Rightarrow> int \<Rightarrow> u32 \<Rightarrow> krb_entry option \<Rightarrow> krb_entry option option" where
  "entry_loop err same buf kvno enctype pos cur =
    (case KerberosReadEntry err buf pos of
       None \<Rightarrow> None
     | Some None \<Rightarrow> Some cur
     | Some (Some (e, pos1)) \<Rightarrow>
       if \<not> entry_matches same enctype e then entry_loop err same buf kvno enctype pos1 cur
       else (case KerberosCompareEntry kvno cur e of (go_on, cur1) \<Rightarrow>
         if go_on then entry_loop err same buf kvno enctype pos1 cur1 else Some cur1))"

text \<open>\<open>same\<close> is the comparison with the principal of the context. The inner \<open>None\<close> is an error.\<close>

definition KerberosGetEntry ::
  "int \<Rightarrow> (krb_principal \<Rightarrow> bool) \<Rightarrow> bytes \<Rightarrow> u32 \<Rightarrow> int \<Rightarrow> krb_entry option option" where
  "KerberosGetEntry err same buf kvno enctype =
    (case KerberosRead buf 2 1 0 of
       None \<Rightarrow> Some None
     | Some (ktVNo, pos) \<Rightarrow> entry_loop err same buf kvno enctype pos None)"

subsection \<open>Positions\<close>

text \<open>What is left to read at a position.\<close>

definition kt_left :: "bytes \<Rightarrow> u32 \<Rightarrow> bytes" where
  "kt_left buf pos = drop (unat pos) buf"

lemma unat_advance:
  "unat pos + n \<le> length buf \<Longrightarrow> length buf < 2 ^ 32 \<Longrightarrow> unat (pos + of_nat n :: u32) = unat pos + n"
  by (subst unat_add_lem[THEN iffD1]) (simp_all add: unat_of_nat)

lemma kt_left_advance:
  "kt_left buf pos = x @ post \<Longrightarrow> x \<noteq> [] \<Longrightarrow> length buf < 2 ^ 32 \<Longrightarrow>
    unat pos + length x \<le> length buf \<and> kt_left buf (pos + of_nat (length x)) = post"
proof -
  assume l: "kt_left buf pos = x @ post" and n: "x \<noteq> []" and b: "length buf < 2 ^ 32"
  have "length buf - unat pos = length x + length post"
    using arg_cong[OF l, of length] by (simp add: kt_left_def)
  then have le: "unat pos + length x \<le> length buf"
    using n by (cases "unat pos \<le> length buf") auto
  have "drop (unat pos + length x) buf = post"
    using l by (simp add: kt_left_def add.commute flip: drop_drop)
  then show ?thesis
    using le b by (simp add: kt_left_def unat_advance)
qed

lemma KerberosRead_left:
  "kt_left buf pos = x @ post \<Longrightarrow> length x = sz * n \<Longrightarrow> 0 < sz \<Longrightarrow> length buf < 2 ^ 32 \<Longrightarrow>
    KerberosRead buf sz n pos = Some (x, pos + of_nat (length x))"
proof (induction n arbitrary: pos x)
  case (Suc n)
  let ?a = "take sz x"
  have a: "length ?a = sz" "?a \<noteq> []" "x = ?a @ drop sz x"
    using Suc.prems by auto
  have l: "kt_left buf pos = ?a @ (drop sz x @ post)"
    using Suc.prems(1) a(3) by (metis append.assoc)
  note adv = kt_left_advance[OF l a(2) Suc.prems(4)]
  have "KerberosRead buf sz n (pos + of_nat sz) = Some (drop sz x, pos + of_nat sz + of_nat (length (drop sz x)))"
    using Suc.IH[of "pos + of_nat sz" "drop sz x"] adv a(1) Suc.prems by simp
  moreover have "take sz (drop (unat pos) buf) = ?a"
    using l a(1) by (simp add: kt_left_def)
  moreover have "pos + of_nat sz + of_nat (length (drop sz x)) = pos + of_nat (length x)"
  proof -
    have "length x = sz + length (drop sz x)"
      using a(1) Suc.prems(2) by simp
    then show ?thesis
      by (simp only: of_nat_add add.assoc)
  qed
  ultimately show ?case
    using adv a(1,3) by simp
qed simp

declare KerberosRead.simps [simp del]

lemma KerberosRead_one: "KerberosRead buf sz 1 pos =
    (if length buf < unat pos + sz then None else Some (take sz (drop (unat pos) buf), pos + of_nat sz))"
  by (simp add: KerberosRead.simps)

subsection \<open>Readers that undo a writer\<close>

text \<open>\<open>parses p x a\<close>: wherever \<open>x\<close> is next in a buffer, the reader gives \<open>a\<close> and stops behind it.\<close>

definition parses :: "(bytes \<Rightarrow> u32 \<Rightarrow> ('a \<times> u32) option) \<Rightarrow> bytes \<Rightarrow> 'a \<Rightarrow> bool" where
  "parses p x a \<longleftrightarrow> x \<noteq> [] \<and> (\<forall>buf pos post. length buf < 2 ^ 32 \<longrightarrow> kt_left buf pos = x @ post \<longrightarrow>
     p buf pos = Some (a, pos + of_nat (length x)))"

lemma parsesD: "parses p x a \<Longrightarrow> length buf < 2 ^ 32 \<Longrightarrow> kt_left buf pos = x @ post \<Longrightarrow>
    p buf pos = Some (a, pos + of_nat (length x)) \<and> kt_left buf (pos + of_nat (length x)) = post \<and>
    unat pos + length x \<le> length buf"
  using kt_left_advance[of buf pos x post] by (auto simp: parses_def)

lemma parses_read: "0 < sz \<Longrightarrow> 0 < n \<Longrightarrow> length x = sz * n \<Longrightarrow> parses (\<lambda>buf. KerberosRead buf sz n) x x"
  using KerberosRead_left[of _ _ x _ sz n] by (auto simp: parses_def)

lemma parses_bind:
  assumes p: "parses p x a" and k: "parses (k a) y b"
  shows "parses (\<lambda>buf pos. p buf pos \<bind> (\<lambda>(a, pos1). k a buf pos1)) (x @ y) b"
  unfolding parses_def
proof (intro conjI allI impI)
  show "x @ y \<noteq> []"
    using p by (simp add: parses_def)
  fix buf pos post
  assume b: "length buf < 2 ^ 32" and l: "kt_left buf pos = (x @ y) @ post"
  from l have l1: "kt_left buf pos = x @ (y @ post)"
    by simp
  from parsesD[OF p b l1] have p1: "p buf pos = Some (a, pos + of_nat (length x))"
    and l2: "kt_left buf (pos + of_nat (length x)) = y @ post"
    by simp_all
  from parsesD[OF k b l2] show "p buf pos \<bind> (\<lambda>(a, pos1). k a buf pos1) = Some (b, pos + of_nat (length (x @ y)))"
    by (simp add: p1 add.assoc)
qed

lemma parses_map: "parses p x a \<Longrightarrow> parses (\<lambda>buf pos. p buf pos \<bind> (\<lambda>(a, pos1). Some (f a, pos1))) x (f a)"
  by (auto simp: parses_def)

subsection \<open>The format\<close>

definition be16 :: "u32 \<Rightarrow> bytes" where
  "be16 w = [low_byte (drop_bit 8 w), low_byte w]"

definition be32 :: "u32 \<Rightarrow> bytes" where
  "be32 w = [low_byte (drop_bit 24 w), low_byte (drop_bit 16 w), low_byte (drop_bit 8 w), low_byte w]"

definition counted :: "bytes \<Rightarrow> bytes" where
  "counted s = be16 (of_nat (length s)) @ s"

definition enc_principal :: "krb_principal \<Rightarrow> bytes" where
  "enc_principal p = be16 (of_nat (length (pr_comps p))) @ counted (pr_realm p) @ concat (map counted (pr_comps p)) @
     be32 (word_of_int (pr_type p))"

definition enc_content :: "krb_entry \<Rightarrow> bytes" where
  "enc_content e = enc_principal (ke_principal e) @ (be32 (ke_time e) @ [low_byte (ke_vno e)]) @
     (be16 (word_of_int (ke_enctype e)) @ counted (ke_key e))"

definition enc_entry :: "krb_entry \<Rightarrow> bytes" where
  "enc_entry e = be32 (of_nat (length (enc_content e) + 4)) @ enc_content e @ be32 (ke_vno e)"

datatype kt_item = Hole bytes | Entry krb_entry

fun enc_item :: "kt_item \<Rightarrow> bytes" where
  "enc_item (Hole h) = be32 (word_of_int (- int (length h))) @ h"
| "enc_item (Entry e) = enc_entry e"

definition enc_keytab :: "bytes \<Rightarrow> kt_item list \<Rightarrow> bytes" where
  "enc_keytab version items = version @ concat (map enc_item items)"

definition countable_bytes :: "bytes \<Rightarrow> bool" where
  "countable_bytes s \<longleftrightarrow> s \<noteq> [] \<and> length s < 32768"

definition valid_entry :: "krb_entry \<Rightarrow> bool" where
  "valid_entry e \<longleftrightarrow> pr_comps (ke_principal e) \<noteq> [] \<and> length (pr_comps (ke_principal e)) < 32768 \<and>
     list_all countable_bytes (pr_realm (ke_principal e) # ke_key e # pr_comps (ke_principal e)) \<and>
     - 2147483648 \<le> pr_type (ke_principal e) \<and> pr_type (ke_principal e) < 2147483648 \<and>
     - 32768 \<le> ke_enctype e \<and> ke_enctype e < 32768"

fun valid_item :: "kt_item \<Rightarrow> bool" where
  "valid_item (Hole h) = (h \<noteq> [])"
| "valid_item (Entry e) = valid_entry e"

lemma length_be [simp]: "length (be16 w) = 2" "length (be32 w) = 4"
  by (simp_all add: be16_def be32_def)

lemma be_ne [simp]: "be16 w \<noteq> []" "be32 w \<noteq> []"
  by (simp_all add: be16_def be32_def)

lemma be_word_be32 [simp]: "be_word (be32 w) = w"
proof -
  have "be_word (be32 w) = push_bit 24 (ucast (u8_of (low_byte (drop_bit 24 w)))) OR push_bit 16 (ucast (u8_of (low_byte (drop_bit 16 w)))) OR
      push_bit 8 (ucast (u8_of (low_byte (drop_bit 8 w)))) OR ucast (u8_of (low_byte w))"
    by (simp add: be_word_def be32_def push_bit_or or.assoc)
  then show ?thesis
    by (simp only: low_bytes_u32)
qed

lemma be_word_byte: "be_word [low_byte w] = w AND 255"
proof -
  have m: "(255 :: u32) = mask 8"
    by (simp add: mask_eq_exp_minus_1)
  show ?thesis
    unfolding m by (rule bit_word_eqI) (auto simp: be_word_def bit_or_iff bit_low_byte bit_and_iff bit_mask_iff)
qed

lemma be_word_be16: "be_word (be16 w) = take_bit 16 w"
proof (rule bit_word_eqI)
  fix n assume "n < LENGTH(32)"
  show "bit (be_word (be16 w)) n = bit (take_bit 16 w) n"
    by (cases "n < 8"; cases "n < 16")
      (auto simp: be_word_def be16_def bit_or_iff bit_push_bit_iff bit_low_byte bit_drop_bit_eq bit_take_bit_iff)
qed

lemma be32s_be32: "- 2147483648 \<le> i \<Longrightarrow> i < 2147483648 \<Longrightarrow> be32s (be32 (word_of_int i)) = i"
  by (simp add: be32s_def sint_sbintrunc' signed_take_bit_int_eq_self)

lemma be16s_be16: "- 32768 \<le> i \<Longrightarrow> i < 32768 \<Longrightarrow> be16s (be16 (word_of_int i)) = i"
proof -
  assume i: "- 32768 \<le> i" "i < 32768"
  have "(ucast (be_word (be16 (word_of_int i))) :: 16 word) = word_of_int i"
    unfolding be_word_be16 by (rule bit_word_eqI) (simp add: bit_ucast_iff bit_take_bit_iff bit_word_of_int_iff)
  then show ?thesis
    using i by (simp add: be16s_def sint_sbintrunc' signed_take_bit_int_eq_self)
qed

lemma be16s_length: "n < 32768 \<Longrightarrow> be16s (be16 (of_nat n)) = int n"
  using be16s_be16[of "int n"] by simp

lemma parses_be: "parses (\<lambda>buf. KerberosRead buf 2 1) (be16 w) (be16 w)" "parses (\<lambda>buf. KerberosRead buf 4 1) (be32 w) (be32 w)"
  by (simp_all add: parses_read)

lemma parses_counted:
  assumes "countable_bytes s"
  shows "parses read_counted (counted s) s"
proof -
  have s: "be16s (be16 (of_nat (length s))) = int (length s)" "0 < length s"
    using assms by (simp_all add: be16s_length countable_bytes_def)
  have k: "parses (\<lambda>buf pos. if be16s (be16 (of_nat (length s))) \<le> 0 then None
      else KerberosRead buf 1 (nat (be16s (be16 (of_nat (length s))))) pos) s s"
    unfolding s(1) using s(2) parses_read[of 1 "length s" s] by simp
  show ?thesis
    unfolding counted_def read_counted_def
    by (rule parses_bind[where k = "\<lambda>d buf pos. if be16s d \<le> 0 then None else KerberosRead buf 1 (nat (be16s d)) pos",
        OF parses_be(1) k])
qed

lemma parses_comps:
  "cs \<noteq> [] \<Longrightarrow> list_all countable_bytes cs \<Longrightarrow> parses (\<lambda>buf. read_comps buf (length cs)) (concat (map counted cs)) cs"
proof (induction cs rule: list_nonempty_induct)
  case (single c)
  then show ?case
    using parses_map[OF parses_counted[of c], of "\<lambda>c. [c]"] by (simp add: KerberosReadEntryPrincipalData_def)
next
  case (cons c cs)
  have k: "parses (\<lambda>buf pos. read_comps buf (length cs) pos \<bind> (\<lambda>(cs, pos2). Some (c # cs, pos2))) (concat (map counted cs)) (c # cs)"
    by (rule parses_map) (use cons in simp)
  have "parses read_counted (counted c) c"
    using cons by (simp add: parses_counted)
  from parses_bind[OF this, where k = "\<lambda>c buf pos. read_comps buf (length cs) pos \<bind> (\<lambda>(cs, pos2). Some (c # cs, pos2))", OF k]
  show ?case
    by (simp add: KerberosReadEntryPrincipalData_def)
qed

lemma parses_principal:
  assumes p: "pr_comps p \<noteq> []" "length (pr_comps p) < 32768" "list_all countable_bytes (pr_realm p # pr_comps p)"
    "- 2147483648 \<le> pr_type p" "pr_type p < 2147483648"
  shows "parses KerberosReadEntryPrincipal (enc_principal p) p"
proof -
  let ?n = "be16 (of_nat (length (pr_comps p)))"
  have n: "be16s ?n = int (length (pr_comps p))" "\<not> be16s ?n \<le> 0"
    using p(1,2) by (simp_all add: be16s_length)
  have e: "\<lparr>pr_realm = pr_realm p, pr_comps = pr_comps p, pr_type = be32s (be32 (word_of_int (pr_type p)))\<rparr> = p"
    using p(4,5) by (simp add: be32s_be32)
  have t: "parses (\<lambda>buf pos. KerberosRead buf 4 1 pos \<bind> (\<lambda>(t, pos3). Some
      (\<lparr>pr_realm = pr_realm p, pr_comps = pr_comps p, pr_type = be32s t\<rparr>, pos3))) (be32 (word_of_int (pr_type p))) p"
    using parses_map[OF parses_be(2)[of "word_of_int (pr_type p)"], of "\<lambda>t. \<lparr>pr_realm = pr_realm p, pr_comps = pr_comps p, pr_type = be32s t\<rparr>"]
    unfolding e .
  note c = parses_bind[where k = "\<lambda>comps buf pos2. KerberosRead buf 4 1 pos2 \<bind> (\<lambda>(t, pos3). Some
      (\<lparr>pr_realm = pr_realm p, pr_comps = comps, pr_type = be32s t\<rparr>, pos3))", OF parses_comps[OF p(1)] t]
  have r: "parses KerberosReadEntryPrincipalRealm (counted (pr_realm p)) (pr_realm p)"
    using p(3) parses_counted[of "pr_realm p"] by (simp add: KerberosReadEntryPrincipalRealm_def[abs_def])
  note r = parses_bind[where k = "\<lambda>realm buf pos1. read_comps buf (length (pr_comps p)) pos1 \<bind> (\<lambda>(comps, pos2).
      KerberosRead buf 4 1 pos2 \<bind> (\<lambda>(t, pos3). Some
      (\<lparr>pr_realm = realm, pr_comps = comps, pr_type = be32s t\<rparr>, pos3)))", OF r c]
  have "parses (\<lambda>buf pos. if be16s ?n \<le> 0 then None else KerberosReadEntryPrincipalRealm buf pos \<bind> (\<lambda>(realm, pos1).
      read_comps buf (nat (be16s ?n)) pos1 \<bind> (\<lambda>(comps, pos2). KerberosRead buf 4 1 pos2 \<bind> (\<lambda>(t, pos3). Some
      (\<lparr>pr_realm = realm, pr_comps = comps, pr_type = be32s t\<rparr>, pos3)))))
      (counted (pr_realm p) @ concat (map counted (pr_comps p)) @ be32 (word_of_int (pr_type p))) p"
    using r p(3) n by (simp del: nat_int add: nat_int[where n = "length (pr_comps p)"])
  from parses_bind[where k = "\<lambda>d buf pos. if be16s d \<le> 0 then None else KerberosReadEntryPrincipalRealm buf pos \<bind> (\<lambda>(realm, pos1).
      read_comps buf (nat (be16s d)) pos1 \<bind> (\<lambda>(comps, pos2). KerberosRead buf 4 1 pos2 \<bind> (\<lambda>(t, pos3). Some
      (\<lparr>pr_realm = realm, pr_comps = comps, pr_type = be32s t\<rparr>, pos3))))", OF parses_be(1) this]
  show ?thesis
    unfolding enc_principal_def by (simp add: KerberosReadEntryPrincipal_def[abs_def])
qed

lemma parses_TSVNo: "parses KerberosReadEntryTSVNo (be32 t @ [low_byte v]) (t, v AND 255)"
proof -
  have "parses (\<lambda>buf pos. KerberosRead buf 1 1 pos \<bind> (\<lambda>(v, pos2). Some ((be_word (be32 t), be_word v), pos2))) [low_byte v] (t, v AND 255)"
    using parses_map[OF parses_read[of 1 1 "[low_byte v]"], of "\<lambda>v. (be_word (be32 t), be_word v)"] by (simp add: be_word_byte)
  from parses_bind[where k = "\<lambda>t buf pos. KerberosRead buf 1 1 pos \<bind> (\<lambda>(v, pos2). Some ((be_word t, be_word v), pos2))",
      OF parses_be(2) this]
  show ?thesis
    by (simp add: KerberosReadEntryTSVNo_def[abs_def])
qed

lemma parses_Key:
  assumes k: "countable_bytes k" and t: "- 32768 \<le> et" "et < 32768"
  shows "parses KerberosReadEntryKey (be16 (word_of_int et) @ counted k) (et, k)"
proof -
  let ?t = "be16 (word_of_int et)"
  have s: "be16s (be16 (of_nat (length k))) = int (length k)" "0 < length k"
    using k by (simp_all add: be16s_length countable_bytes_def)
  have "parses (\<lambda>buf. KerberosRead buf 1 (length k)) k k"
    using parses_read[of 1 "length k" k] s(2) by simp
  from parses_map[OF this, of "\<lambda>k. (be16s ?t, k)"]
  have "parses (\<lambda>buf pos. if be16s (be16 (of_nat (length k))) \<le> 0 then None else
      KerberosRead buf 1 (nat (be16s (be16 (of_nat (length k))))) pos \<bind> (\<lambda>(k, pos3). Some ((be16s ?t, k), pos3))) k (et, k)"
    using s t by (simp add: be16s_be16)
  from parses_bind[where k = "\<lambda>n buf pos2. if be16s n \<le> 0 then None else
      KerberosRead buf 1 (nat (be16s n)) pos2 \<bind> (\<lambda>(k, pos3). Some ((be16s ?t, k), pos3))", OF parses_be(1) this]
  have "parses (\<lambda>buf pos1. KerberosRead buf 2 1 pos1 \<bind> (\<lambda>(n, pos2). if be16s n \<le> 0 then None else
      KerberosRead buf 1 (nat (be16s n)) pos2 \<bind> (\<lambda>(k, pos3). Some ((be16s ?t, k), pos3)))) (counted k) (et, k)"
    by (simp add: counted_def)
  from parses_bind[where k = "\<lambda>t buf pos1. KerberosRead buf 2 1 pos1 \<bind> (\<lambda>(n, pos2). if be16s n \<le> 0 then None else
      KerberosRead buf 1 (nat (be16s n)) pos2 \<bind> (\<lambda>(k, pos3). Some ((be16s t, k), pos3)))", OF parses_be(1) this]
  show ?thesis
    by (simp add: KerberosReadEntryKey_def[abs_def])
qed

lemma parses_Content:
  assumes v: "valid_entry e"
  shows "parses KerberosReadEntryContent (enc_content e) (e\<lparr>ke_vno := ke_vno e AND 255\<rparr>)"
proof -
  note V = v[unfolded valid_entry_def]
  have p: "parses KerberosReadEntryPrincipal (enc_principal (ke_principal e)) (ke_principal e)"
    using V by (intro parses_principal) simp_all
  have k: "parses KerberosReadEntryKey (be16 (word_of_int (ke_enctype e)) @ counted (ke_key e)) (ke_enctype e, ke_key e)"
    using V by (intro parses_Key) simp_all
  let ?e = "\<lambda>p t v et k. \<lparr>ke_principal = p, ke_time = t, ke_vno = v, ke_enctype = et, ke_key = k\<rparr>"
  let ?k = "\<lambda>p tv buf pos2. KerberosReadEntryKey buf pos2 \<bind> (\<lambda>(ek, pos3). Some (?e p (fst tv) (snd tv) (fst ek) (snd ek), pos3))"
  have e: "?e (ke_principal e) (ke_time e) (ke_vno e AND 255) (ke_enctype e) (ke_key e) = e\<lparr>ke_vno := ke_vno e AND 255\<rparr>"
    by (cases e) simp
  have 1: "parses (?k (ke_principal e) (ke_time e, ke_vno e AND 255)) (be16 (word_of_int (ke_enctype e)) @ counted (ke_key e))
      (e\<lparr>ke_vno := ke_vno e AND 255\<rparr>)"
    using parses_map[OF k, of "\<lambda>ek. ?e (ke_principal e) (ke_time e) (ke_vno e AND 255) (fst ek) (snd ek)"]
    unfolding fst_conv snd_conv e case_prod_beta .
  note 2 = parses_bind[where k = "?k (ke_principal e)", OF parses_TSVNo 1]
  note 3 = parses_bind[where k = "\<lambda>p buf pos1. KerberosReadEntryTSVNo buf pos1 \<bind> (\<lambda>(tv, pos2). ?k p tv buf pos2)", OF p 2]
  have "KerberosReadEntryContent = (\<lambda>buf pos. KerberosReadEntryPrincipal buf pos \<bind> (\<lambda>(p, pos1).
      KerberosReadEntryTSVNo buf pos1 \<bind> (\<lambda>(tv, pos2). ?k p tv buf pos2)))"
    by (simp add: KerberosReadEntryContent_def[abs_def] case_prod_beta' fun_eq_iff)
  then show ?thesis
    using 3 unfolding enc_content_def by simp
qed

subsection \<open>Holes and entries\<close>

lemma ReadEntrySize_hole:
  assumes h: "h \<noteq> []" and b: "length buf < 2 ^ 31" and l: "kt_left buf pos = enc_item (Hole h) @ post"
  shows "KerberosReadEntrySize err buf pos = KerberosReadEntrySize err buf (pos + of_nat (length (enc_item (Hole h))))"
    "kt_left buf (pos + of_nat (length (enc_item (Hole h)))) = post"
proof -
  let ?d = "be32 (word_of_int (- int (length h)))" and ?p = "pos + of_nat 4 :: u32"
  have b32: "length buf < 2 ^ 32"
    using b by simp
  have l1: "kt_left buf pos = ?d @ (h @ post)"
    using l by simp
  note r = parsesD[OF parses_be(2) b32 l1]
  have l2: "kt_left buf ?p = h @ post"
    using r by simp
  note a = kt_left_advance[OF l2 h b32]
  have n: "be32s ?d = - int (length h)" "- be32s ?d = int (length h)"
    using a b be32s_be32[of "- int (length h)"] by simp_all
  have q: "pos + of_nat (length (enc_item (Hole h))) = ?p + word_of_int (- be32s ?d)"
    unfolding n(2) by (simp add: add.assoc)
  have u: "unat (?p + word_of_int (- be32s ?d)) \<le> length buf"
    unfolding n(2) using a b32 unat_advance[of ?p "length h" buf] by simp
  have neg: "be32s ?d < 0" "be32s ?d \<noteq> - 2147483648"
    using n h a b by simp_all
  show "kt_left buf (pos + of_nat (length (enc_item (Hole h)))) = post"
    unfolding q n(2) using a by simp
  show "KerberosReadEntrySize err buf pos = KerberosReadEntrySize err buf (pos + of_nat (length (enc_item (Hole h))))"
    unfolding q by (subst KerberosReadEntrySize.simps) (use r u neg in \<open>simp add: Let_def\<close>)
qed

lemma length_enc_content [simp]: "enc_content e \<noteq> []"
  by (simp add: enc_content_def)

lemma ReadEntrySize_entry:
  assumes b: "length buf < 2 ^ 31" and l: "kt_left buf pos = enc_entry e @ post"
  shows "KerberosReadEntrySize err buf pos = Some (0, int (length (enc_content e) + 4), pos + 4)"
    "kt_left buf (pos + 4) = enc_content e @ be32 (ke_vno e) @ post"
proof -
  let ?d = "be32 (of_nat (length (enc_content e) + 4))"
  have b32: "length buf < 2 ^ 32"
    using b by simp
  have l1: "kt_left buf pos = ?d @ (enc_content e @ be32 (ke_vno e) @ post)"
    using l by (simp add: enc_entry_def)
  note r = parsesD[OF parses_be(2) b32 l1]
  show l2: "kt_left buf (pos + 4) = enc_content e @ be32 (ke_vno e) @ post"
    using r by simp
  have "length (enc_content e) + 4 \<le> length buf"
    using arg_cong[OF l, of length] by (simp add: kt_left_def enc_entry_def)
  then have "be32s ?d = int (length (enc_content e) + 4)"
    using be32s_be32[of "int (length (enc_content e) + 4)"] b by simp
  then show "KerberosReadEntrySize err buf pos = Some (0, int (length (enc_content e) + 4), pos + 4)"
    by (subst KerberosReadEntrySize.simps) (use r in \<open>simp add: Let_def\<close>)
qed

lemma KerberosReadEntry_entry:
  assumes v: "valid_entry e" and b: "length buf < 2 ^ 31" and l: "kt_left buf pos = enc_entry e @ post"
  shows "KerberosReadEntry err buf pos = Some (Some (e, pos + of_nat (length (enc_entry e))))"
    "kt_left buf (pos + of_nat (length (enc_entry e))) = post"
proof -
  let ?p = "pos + 4" and ?n = "length (enc_content e)" and ?e = "e\<lparr>ke_vno := ke_vno e AND 255\<rparr>"
  have b32: "length buf < 2 ^ 32"
    using b by simp
  note sz = ReadEntrySize_entry[OF b l]
  note c = parsesD[OF parses_Content[OF v] b32 sz(2)]
  have l3: "kt_left buf (?p + of_nat ?n) = be32 (ke_vno e) @ post"
    using c by simp
  note w = parsesD[OF parses_be(2) b32 l3]
  have q: "word_of_int (int (?n + 4)) + ?p = ?p + of_nat ?n + 4" "?p + word_of_int (int (?n + 4)) = ?p + of_nat ?n + 4"
    "pos + of_nat (length (enc_entry e)) = ?p + of_nat ?n + 4"
    by (simp_all add: enc_entry_def algebra_simps)
  have u: "unat (?p + of_nat ?n + 4) = unat (?p + of_nat ?n) + 4"
    using unat_advance[of "?p + of_nat ?n" 4 buf] w b32 by simp
  have vno: "(if ke_vno e \<noteq> 0 then ?e\<lparr>ke_vno := ke_vno e\<rparr> else ?e) = e"
    by (cases e) simp
  have rv: "read_vno buf ?p (int (?n + 4)) (?e, ?p + of_nat ?n) = Some (e, ?p + of_nat ?n + 4)"
    unfolding read_vno_def q using w u vno by simp
  show "KerberosReadEntry err buf pos = Some (Some (e, pos + of_nat (length (enc_entry e))))"
    unfolding KerberosReadEntry_def sz q(3) using c rv q by simp
  show "kt_left buf (pos + of_nat (length (enc_entry e))) = post"
    unfolding q(3) using w by simp
qed

lemma KerberosReadEntry_end:
  "kt_left buf pos = [] \<Longrightarrow> KerberosReadEntry err buf pos = Some None"
proof -
  assume "kt_left buf pos = []"
  then have "length buf < unat pos + 4"
    by (simp add: kt_left_def)
  then have "KerberosReadEntrySize err buf pos = Some (1, 0, pos)"
    by (subst KerberosReadEntrySize.simps) (simp only: KerberosRead_one if_True option.case)
  then show ?thesis
    by (simp add: KerberosReadEntry_def)
qed

text \<open>The entry the source ends up with, over the entries that match.\<close>

fun choose_entry :: "u32 \<Rightarrow> krb_entry list \<Rightarrow> krb_entry option \<Rightarrow> krb_entry option" where
  "choose_entry kvno [] cur = cur"
| "choose_entry kvno (e # es) cur =
    (case KerberosCompareEntry kvno cur e of (go_on, cur1) \<Rightarrow> if go_on then choose_entry kvno es cur1 else cur1)"

fun item_entries :: "kt_item list \<Rightarrow> krb_entry list" where
  "item_entries [] = []"
| "item_entries (Hole h # items) = item_entries items"
| "item_entries (Entry e # items) = e # item_entries items"

lemma entry_loop_items:
  "list_all valid_item items \<Longrightarrow> length buf < 2 ^ 31 \<Longrightarrow> kt_left buf pos = concat (map enc_item items) \<Longrightarrow>
    entry_loop err same buf kvno enctype pos cur =
      Some (choose_entry kvno (filter (entry_matches same enctype) (item_entries items)) cur)"
proof (induction items arbitrary: pos cur rule: item_entries.induct)
  case 1
  then show ?case
    by (subst entry_loop.simps) (simp add: KerberosReadEntry_end)
next
  case (2 h items)
  have h: "h \<noteq> []" "kt_left buf pos = enc_item (Hole h) @ concat (map enc_item items)"
    using 2 by simp_all
  note s = ReadEntrySize_hole[OF h(1) 2(3) h(2)]
  have "KerberosReadEntry err buf pos = KerberosReadEntry err buf (pos + of_nat (length (enc_item (Hole h))))"
    unfolding KerberosReadEntry_def s(1) ..
  then have "entry_loop err same buf kvno enctype pos cur =
      entry_loop err same buf kvno enctype (pos + of_nat (length (enc_item (Hole h)))) cur"
    by (subst (1 2) entry_loop.simps) simp
  then show ?case
    using 2 s(2) by simp
next
  case (3 e items)
  have e: "valid_entry e" "kt_left buf pos = enc_entry e @ concat (map enc_item items)" "list_all valid_item items"
    using 3 by simp_all
  note r = KerberosReadEntry_entry[OF e(1) 3(3) e(2)]
  note IH = 3(1)[OF e(3) 3(3) r(2)]
  show ?case
    by (subst entry_loop.simps) (simp add: r(1) IH split: prod.split)
qed

lemma KerberosGetEntry_keytab:
  assumes "length ver = 2" "list_all valid_item items" "length (enc_keytab ver items) < 2 ^ 31"
  shows "KerberosGetEntry err same (enc_keytab ver items) kvno enctype =
    Some (choose_entry kvno (filter (entry_matches same enctype) (item_entries items)) None)"
proof -
  let ?b = "enc_keytab ver items"
  have l: "kt_left ?b 0 = ver @ concat (map enc_item items)" and b: "length ?b < 2 ^ 32"
    using assms by (simp_all add: kt_left_def enc_keytab_def)
  have "parses (\<lambda>buf. KerberosRead buf 2 1) ver ver"
    using assms(1) by (simp add: parses_read)
  from parsesD[OF this b l] show ?thesis
    using assms entry_loop_items[OF assms(2,3)] by (simp add: KerberosGetEntry_def)
qed

subsection \<open>The choice\<close>

definition newer :: "krb_entry option \<Rightarrow> krb_entry \<Rightarrow> krb_entry option" where
  "newer cur e = (case cur of None \<Rightarrow> Some e | Some c \<Rightarrow> if KerberosMoreRecent e c then Some e else Some c)"

lemma choose_any: "choose_entry 0 es cur = foldl newer cur es"
proof (induction es arbitrary: cur)
  case (Cons e es)
  have "KerberosCompareEntry 0 cur e = (True, newer cur e)"
    by (simp add: KerberosCompareEntry_def newer_def split: option.split)
  then show ?case
    using Cons by simp
qed simp

lemma choose_version:
  assumes "kvno \<noteq> 0"
  shows "list_all (\<lambda>e. ke_vno e \<noteq> 0) es \<Longrightarrow> choose_entry kvno es cur =
    (case find (\<lambda>e. ke_vno e = kvno) es of
       Some e \<Rightarrow> Some e
     | None \<Rightarrow> (case cur of Some c \<Rightarrow> Some c | None \<Rightarrow> find (\<lambda>e. ke_vno e = kvno AND 255) es))"
proof (induction es arbitrary: cur)
  case (Cons e es)
  then show ?case
    using assms by (simp add: KerberosCompareEntry_def split: option.split)
qed (simp split: option.split)

text \<open>Among versions below 128 the recency rule is the order of the versions.\<close>

lemma MoreRecent_small: "ke_vno c < 128 \<Longrightarrow> ke_vno e < 128 \<Longrightarrow> KerberosMoreRecent e c \<longleftrightarrow> ke_vno c < ke_vno e"
  using less_trans[of 128 "ke_vno c" 128] less_trans[of 128 "ke_vno e" 128]
  by (auto simp: KerberosMoreRecent_def dest: less_not_sym)

lemma foldl_newer_some: "\<exists>e. foldl newer (Some c) es = Some e \<and> e \<in> set (c # es)"
proof (induction es arbitrary: c)
  case (Cons d es)
  show ?case
    using Cons[of c] Cons[of d] by (auto simp: newer_def)
qed simp

lemma foldl_newer_max:
  "foldl newer (Some c) es = Some e \<Longrightarrow> \<forall>d \<in> set (c # es). ke_vno d < 128 \<Longrightarrow> \<forall>d \<in> set (c # es). ke_vno d \<le> ke_vno e"
proof (induction es arbitrary: c)
  case (Cons d es)
  show ?case
  proof (cases "ke_vno c < ke_vno d")
    case True
    then have "\<forall>d' \<in> set (d # es). ke_vno d' \<le> ke_vno e"
      using Cons.prems by (intro Cons.IH) (simp_all add: newer_def MoreRecent_small)
    then show ?thesis
      using True by (auto intro: order_trans[OF less_imp_le])
  next
    case False
    then have "\<forall>d' \<in> set (c # es). ke_vno d' \<le> ke_vno e"
      using Cons.prems by (intro Cons.IH) (simp_all add: newer_def MoreRecent_small)
    then show ?thesis
      using False by (auto intro: order_trans simp: not_less)
  qed
qed simp

definition newest_of :: "krb_entry list \<Rightarrow> krb_entry option \<Rightarrow> bool" where
  "newest_of es r \<longleftrightarrow> (case r of
     None \<Rightarrow> es = []
   | Some e \<Rightarrow> e \<in> set es \<and> (list_all (\<lambda>d. ke_vno d < 128) es \<longrightarrow> list_all (\<lambda>d. ke_vno d \<le> ke_vno e) es))"

lemma choose_newest: "newest_of es (choose_entry 0 es None)"
proof (cases es)
  case (Cons c cs)
  have n: "choose_entry 0 es None = foldl newer (Some c) cs"
    unfolding choose_any Cons by (simp add: newer_def)
  from foldl_newer_some[of c cs] obtain e where e: "foldl newer (Some c) cs = Some e" "e \<in> set (c # cs)"
    by blast
  show ?thesis
    unfolding n using e foldl_newer_max[OF e(1)] by (simp add: newest_of_def Cons list_all_iff)
qed (simp add: newest_of_def)

subsection \<open>Reading ends\<close>

lemma KerberosRead_some: "KerberosRead buf sz 1 pos = Some (d, pos1) \<Longrightarrow> unat pos + sz \<le> length buf \<and> pos1 = pos + of_nat sz"
  by (simp only: KerberosRead_one) (auto split: if_splits)

lemma unat_plus_below: "unat (a :: u32) + unat b < 2 ^ 32 \<Longrightarrow> unat (a + b) = unat a + unat b"
  using unat_add_lem[of a b] by simp

lemma be32s_bounds: "- 2147483648 \<le> be32s d \<and> be32s d < 2147483648"
  using sint_greater_eq[of "be_word d"] sint_less[of "be_word d"] by (simp add: be32s_def)

lemma unat_word_of_int_u32: "0 \<le> i \<Longrightarrow> i < 2 ^ 32 \<Longrightarrow> unat (word_of_int i :: u32) = nat i"
  by (simp add: unat_eq_nat_uint uint_word_of_int)

text \<open>In a buffer below 2 GiB no step of the reader wraps.\<close>

lemma ReadEntrySize_returns:
  "length buf < 2 ^ 31 \<Longrightarrow> \<exists>rc sz pos1. KerberosReadEntrySize err buf pos = Some (rc, sz, pos1) \<and> sz < 2147483648 \<and>
    (rc = 0 \<longrightarrow> 0 \<le> sz \<longrightarrow> unat pos + 4 \<le> unat pos1 \<and> unat pos1 \<le> length buf)"
proof (induction "length buf - unat pos" arbitrary: pos rule: less_induct)
  case less
  show ?case
  proof (cases "KerberosRead buf 4 1 pos")
    case None
    then show ?thesis
      by (subst KerberosReadEntrySize.simps) simp
  next
    case (Some r)
    obtain d pos1 where r: "r = (d, pos1)"
      by force
    have p1: "unat pos + 4 \<le> length buf" "unat pos1 = unat pos + 4"
      using KerberosRead_some[of buf 4 pos d pos1] Some r less.prems unat_advance[of pos 4 buf] by simp_all
    define pos2 where "pos2 = pos1 + word_of_int (- be32s d)"
    show ?thesis
    proof (cases "be32s d < 0 \<and> be32s d \<noteq> - 2147483648 \<and> unat pos2 \<le> length buf")
      case True
      have "unat (word_of_int (- be32s d) :: u32) = nat (- be32s d)"
        using True be32s_bounds[of d] by (intro unat_word_of_int_u32) simp_all
      then have "unat pos2 = unat pos1 + nat (- be32s d)"
        unfolding pos2_def using be32s_bounds[of d] True p1 less.prems by (subst unat_plus_below) simp_all
      then have lt: "unat pos2 = unat pos + 4 + nat (- be32s d)"
        using p1 by simp
      have "KerberosReadEntrySize err buf pos = KerberosReadEntrySize err buf pos2"
        by (subst KerberosReadEntrySize.simps) (use Some r True in \<open>simp add: Let_def pos2_def\<close>)
      then show ?thesis
        using less.hyps[of pos2] less.prems lt p1 by force
    next
      case False
      then show ?thesis
        by (subst KerberosReadEntrySize.simps)
          (use Some r p1 be32s_bounds[of d] in \<open>auto simp: Let_def pos2_def not_le\<close>)
    qed
  qed
qed

lemma KerberosReadEntry_returns:
  assumes b: "length buf < 2 ^ 31"
  shows "\<exists>r. KerberosReadEntry err buf pos = Some r \<and>
    (\<forall>e pos1. r = Some (e, pos1) \<longrightarrow> unat pos + 4 \<le> length buf \<and> unat pos < unat pos1)"
proof -
  from ReadEntrySize_returns[OF b, of err pos] obtain rc sz p where
    s: "KerberosReadEntrySize err buf pos = Some (rc, sz, p)" "sz < 2147483648"
      "rc = 0 \<longrightarrow> 0 \<le> sz \<longrightarrow> unat pos + 4 \<le> unat p \<and> unat p \<le> length buf"
    by blast
  show ?thesis
  proof (cases "rc \<noteq> 0 \<or> sz \<le> 0")
    case False
    have w: "unat (word_of_int sz :: u32) = nat sz"
      using s(2) False by (intro unat_word_of_int_u32) simp_all
    have "nat sz < 2147483648"
      using s(2) by simp
    then have "unat (p + word_of_int sz) = unat p + nat sz"
      unfolding w[symmetric] using s False b w by (intro unat_plus_below) simp
    then show ?thesis
      using s False by (auto simp: KerberosReadEntry_def bind_eq_Some_conv split: if_splits)
  qed (simp add: KerberosReadEntry_def s(1))
qed

lemma entry_loop_returns: "length buf < 2 ^ 31 \<Longrightarrow> \<exists>r. entry_loop err same buf kvno enctype pos cur = Some r"
proof (induction "length buf - unat pos" arbitrary: pos cur rule: less_induct)
  case less
  from KerberosReadEntry_returns[OF less.prems, of err pos] obtain r where
    r: "KerberosReadEntry err buf pos = Some r"
    "\<forall>e pos1. r = Some (e, pos1) \<longrightarrow> unat pos + 4 \<le> length buf \<and> unat pos < unat pos1"
    by blast
  show ?case
  proof (cases r)
    case None
    then show ?thesis
      using r(1) by (subst entry_loop.simps) simp
  next
    case (Some ep)
    obtain e pos1 where ep: "ep = (e, pos1)"
      by force
    have "length buf - unat pos1 < length buf - unat pos"
      using r(2) Some ep by auto
    note IH = less.hyps[OF this less.prems]
    show ?thesis
      using r(1) Some ep IH by (subst entry_loop.simps) (simp split: prod.split)
  qed
qed

subsection \<open>Properties\<close>

text \<open>A keytab of one entry is a faithful encoding of it.\<close>

interpretation keytab: codec "\<lambda>e. enc_keytab [CHR 0x05, CHR 0x02] [Entry e]"
  "\<lambda>buf. case KerberosGetEntry 0 (\<lambda>_. True) buf 0 0 of Some r \<Rightarrow> r | None \<Rightarrow> None"
  "\<lambda>e. valid_entry e \<and> length (enc_entry e) < 2 ^ 30"
  by unfold_locales
    (subst KerberosGetEntry_keytab, simp_all add: enc_keytab_def entry_matches_def KerberosCompareEntry_def)

text \<open>C28: From a keytab file of valid entries and holes, written in the documented format and smaller than 2 GiB,
  the reader takes every entry back as it was written and skips the holes: what it answers is its choice
  over the written entries that match, in their order. With a version asked for it is the
  first entry of that version, or else the first that has its low byte.\<close>

theorem KerberosGetEntry_roundtrip:
  assumes "length ver = 2" "list_all valid_item items" "length (enc_keytab ver items) < 2 ^ 31"
    and "kvno \<noteq> 0" "list_all (\<lambda>e. ke_vno e \<noteq> 0) (item_entries items)"
  shows "KerberosGetEntry err same (enc_keytab ver items) kvno enctype = Some (
    let es = filter (entry_matches same enctype) (item_entries items)
    in case find (\<lambda>e. ke_vno e = kvno) es of Some e \<Rightarrow> Some e | None \<Rightarrow> find (\<lambda>e. ke_vno e = kvno AND 255) es)"
proof -
  have "list_all (\<lambda>e. ke_vno e \<noteq> 0) (filter (entry_matches same enctype) (item_entries items))"
    using assms(5) by (auto simp: list_all_iff)
  from choose_version[OF assms(4) this, of None] show ?thesis
    unfolding KerberosGetEntry_keytab[OF assms(1-3)] Let_def by (simp add: option.case_eq_if)
qed

definition toy_entry :: "u32 \<Rightarrow> krb_entry" where
  "toy_entry v = \<lparr>ke_principal = \<lparr>pr_realm = ''R'', pr_comps = [''host'', ''a''], pr_type = 1\<rparr>, ke_time = 0, ke_vno = v, ke_enctype = 18, ke_key = ''k''\<rparr>"

definition toy_items :: "kt_item list" where
  "toy_items = [Entry (toy_entry 3), Hole ''xyz'', Entry (toy_entry 5)]"

lemma toy_items_valid:
  "list_all valid_item toy_items" "length (enc_keytab ''52'' toy_items) < 2 ^ 31"
  "item_entries toy_items = [toy_entry 3, toy_entry 5]"
  by (simp_all add: toy_items_def toy_entry_def valid_entry_def countable_bytes_def enc_keytab_def enc_entry_def enc_content_def
      enc_principal_def counted_def)

theorem KerberosGetEntry_roundtrip_witness:
  "KerberosGetEntry 0 (\<lambda>_. True) (enc_keytab ''52'' toy_items) 5 18 = Some (Some (toy_entry 5))"
  by (subst KerberosGetEntry_roundtrip)
    (use toy_items_valid in \<open>simp_all add: toy_items_valid(3) entry_matches_def toy_entry_def\<close>)

text \<open>Asked for no particular version or encryption type, as the context does, the reader finds an entry of the file
  exactly when one has the principal; it is then one of these, and the one of the highest version as long
  as all versions are below 128.\<close>

lemma KerberosGetEntry_newest:
  assumes "length ver = 2" "list_all valid_item items" "length (enc_keytab ver items) < 2 ^ 31"
  shows "\<exists>r. KerberosGetEntry err same (enc_keytab ver items) 0 0 = Some r \<and>
    newest_of (filter (\<lambda>e. same (ke_principal e)) (item_entries items)) r"
  using choose_newest KerberosGetEntry_keytab[OF assms] by (simp add: entry_matches_def[abs_def])

lemma KerberosGetEntry_newest_witness:
  "\<exists>r. KerberosGetEntry 0 (\<lambda>_. True) (enc_keytab ''52'' toy_items) 0 0 = Some r \<and> newest_of [toy_entry 3, toy_entry 5] r"
  using KerberosGetEntry_newest[of "''52''" toy_items 0 "\<lambda>_. True"] toy_items_valid by simp

lemma KerberosGetEntry_total: "length buf < 2 ^ 31 \<Longrightarrow> \<exists>r. KerberosGetEntry err same buf kvno enctype = Some r"
  using entry_loop_returns by (simp add: KerberosGetEntry_def split: option.split prod.split)

end
