(* ===== verification/CdfKrbCtx.thy ===== *)
theory CdfKrbCtx
  imports CdfKeytab "HOL-Library.Multiset"
begin

section \<open>The Kerberos context (\<open>modules/authentication/kerberos/krb_ctx.cpp\<close>)\<close>

text \<open>
  The context owns up to six objects of libkrb5: the library context, a principal, a keytab, a
  credential cache, the options of a request and the contents of a keytab entry. A pointer is the
  number of its object; \<open>objs\<close> holds the objects that exist, those of other owners
  included, and \<open>misuse\<close> records that the library was handed a null or freed pointer where it needs
  an object. The library is a parameter with a state of its own, the world \<open>'w\<close>; a call that
  fails hands out no object and leaves a null pointer. The state is extensible: the server and the
  client add their own pointers to it.
\<close>

subsection \<open>Objects\<close>

record 'w krb_mem =
  kw :: 'w
  objs :: "nat multiset"
  next_obj :: nat
  misuse :: bool

definition lib_call :: "('w \<Rightarrow> 'a \<times> 'w) \<Rightarrow> ('w, 'z) krb_mem_scheme \<Rightarrow> 'a \<times> ('w, 'z) krb_mem_scheme" where
  "lib_call f s = (let (x, w) = f (kw s) in (x, s\<lparr>kw := w\<rparr>))"

definition new_obj :: "('w, 'z) krb_mem_scheme \<Rightarrow> nat \<times> ('w, 'z) krb_mem_scheme" where
  "new_obj s = (next_obj s, s\<lparr>objs := add_mset (next_obj s) (objs s), next_obj := next_obj s + 1\<rparr>)"

text \<open>A call that hands out an object when it succeeds.\<close>

definition lib_new :: "('w \<Rightarrow> bool \<times> 'w) \<Rightarrow> ('w, 'z) krb_mem_scheme \<Rightarrow> nat option \<times> ('w, 'z) krb_mem_scheme" where
  "lib_new f s =
    (let (ok, s) = lib_call f s in
     if ok then (let (i, s) = new_obj s in (Some i, s)) else (None, s))"

definition alive :: "('w, 'z) krb_mem_scheme \<Rightarrow> nat option \<Rightarrow> bool" where
  "alive s p = (case p of None \<Rightarrow> False | Some i \<Rightarrow> i \<in># objs s)"

text \<open>Passing pointers to a call that needs their objects, and freeing an object.\<close>

definition uses :: "nat option list \<Rightarrow> ('w, 'z) krb_mem_scheme \<Rightarrow> ('w, 'z) krb_mem_scheme" where
  "uses ps s = s\<lparr>misuse := misuse s \<or> \<not> list_all (alive s) ps\<rparr>"

definition free_obj :: "nat option \<Rightarrow> ('w, 'z) krb_mem_scheme \<Rightarrow> ('w, 'z) krb_mem_scheme" where
  "free_obj p s = (uses [p] s)\<lparr>objs := (case p of None \<Rightarrow> objs s | Some i \<Rightarrow> objs s - {#i#})\<rparr>"

subsection \<open>State and library\<close>

record 'w krb_ctx = "'w krb_mem" +
  c_context :: "nat option"
  c_principal :: "nat option"
  c_principal_name :: bytes
  c_entry :: "nat option"
  c_entry_val :: krb_entry
  c_keytab :: "nat option"
  c_ccache :: "nat option"
  c_opts :: "nat option"

record 'w krb_env =
  ko_errno :: "'w \<Rightarrow> int"
  ko_max_name :: nat
  ko_same :: "bytes \<Rightarrow> krb_principal \<Rightarrow> bool"
  ko_init_context :: "'w \<Rightarrow> bool \<times> 'w"
  ko_parse_name :: "'w \<Rightarrow> bytes \<Rightarrow> bool \<times> 'w"
  ko_setenv :: "'w \<Rightarrow> bytes \<Rightarrow> bytes \<Rightarrow> bool \<times> 'w"
  ko_kt_resolve :: "'w \<Rightarrow> bytes \<Rightarrow> bool \<times> 'w"
  ko_kt_add_entry :: "'w \<Rightarrow> krb_entry \<Rightarrow> bool \<times> 'w"
  ko_kt_remove_entry :: "'w \<Rightarrow> krb_entry \<Rightarrow> bool \<times> 'w"
  ko_cc_default :: "'w \<Rightarrow> bool \<times> 'w"
  ko_opt_alloc :: "'w \<Rightarrow> bool \<times> 'w"
  ko_get_init_creds :: "'w \<Rightarrow> bool \<times> 'w"
  ko_cc_initialize :: "'w \<Rightarrow> bool \<times> 'w"
  ko_cc_store :: "'w \<Rightarrow> bool \<times> 'w"

type_synonym krb_result = "u32 \<times> bytes"

definition KRB5KTNAME :: bytes where
  "KRB5KTNAME = ''MEMORY:OCKSecurityKTName''"

definition KRB5CCNAME :: bytes where
  "KRB5CCNAME = ''MEMORY:OCKSecurityCCName''"

definition zero_entry :: krb_entry where
  "zero_entry = \<lparr>ke_principal = \<lparr>pr_realm = [], pr_comps = [], pr_type = 0\<rparr>, ke_time = 0, ke_vno = 0, ke_enctype = 0, ke_key = []\<rparr>"

definition krb_ctx_new :: "'w \<Rightarrow> 'w krb_ctx" where
  "krb_ctx_new w = \<lparr>kw = w, objs = {#}, next_obj = 0, misuse = False, c_context = None, c_principal = None, c_principal_name = [],
     c_entry = None, c_entry_val = zero_entry, c_keytab = None, c_ccache = None, c_opts = None\<rparr>"

subsection \<open>Freeing\<close>

definition free_principal :: "('w, 'z) krb_ctx_scheme \<Rightarrow> ('w, 'z) krb_ctx_scheme" where
  "free_principal s = (free_obj (c_principal s) (uses [c_context s] s))\<lparr>c_principal := None\<rparr>"

definition close_keytab :: "('w, 'z) krb_ctx_scheme \<Rightarrow> ('w, 'z) krb_ctx_scheme" where
  "close_keytab s = (free_obj (c_keytab s) (uses [c_context s] s))\<lparr>c_keytab := None\<rparr>"

definition destroy_ccache :: "('w, 'z) krb_ctx_scheme \<Rightarrow> ('w, 'z) krb_ctx_scheme" where
  "destroy_ccache s = (free_obj (c_ccache s) (uses [c_context s] s))\<lparr>c_ccache := None\<rparr>"

definition free_opts :: "('w, 'z) krb_ctx_scheme \<Rightarrow> ('w, 'z) krb_ctx_scheme" where
  "free_opts s = (free_obj (c_opts s) (uses [c_context s] s))\<lparr>c_opts := None\<rparr>"

definition free_entry :: "('w, 'z) krb_ctx_scheme \<Rightarrow> ('w, 'z) krb_ctx_scheme" where
  "free_entry s = (free_obj (c_entry s) (uses [c_context s] s))\<lparr>c_entry := None\<rparr>"

definition KerberosUninit :: "('w, 'z) krb_ctx_scheme \<Rightarrow> ('w, 'z) krb_ctx_scheme" where
  "KerberosUninit s =
    (let s = (if c_principal s \<noteq> None then free_principal s else s);
         s = (if c_keytab s \<noteq> None then close_keytab s else s);
         s = (if c_ccache s \<noteq> None then destroy_ccache s else s);
         s = (if c_opts s \<noteq> None then free_opts s else s) in
     if c_context s \<noteq> None then (free_obj (c_context s) s)\<lparr>c_context := None\<rparr> else s)"

definition KerberosDestroyKeytab :: "'w krb_env \<Rightarrow> ('w, 'z) krb_ctx_scheme \<Rightarrow> ('w, 'z) krb_ctx_scheme" where
  "KerberosDestroyKeytab E s =
    (let s = (if c_entry s \<noteq> None then
           (let (ok, s) = lib_call (\<lambda>w. ko_kt_remove_entry E w (c_entry_val s)) (uses [c_context s, c_keytab s, c_entry s] s)
            in free_entry s) else s);
         s = (if c_keytab s \<noteq> None then close_keytab s else s) in
     KerberosUninit s)"

definition KerberosDestroyCCache :: "'w krb_env \<Rightarrow> ('w, 'z) krb_ctx_scheme \<Rightarrow> ('w, 'z) krb_ctx_scheme" where
  "KerberosDestroyCCache E s =
    (let s = (if c_opts s \<noteq> None then free_opts s else s) in KerberosDestroyKeytab E s)"

subsection \<open>Starting\<close>

definition KerberosInit ::
  "'w krb_env \<Rightarrow> bytes \<Rightarrow> ('w, 'z) krb_ctx_scheme \<Rightarrow> krb_result \<times> ('w, 'z) krb_ctx_scheme" where
  "KerberosInit E inPrincipal s =
    (let (p, s) = lib_new (ko_init_context E) s; s = s\<lparr>c_context := p\<rparr> in
     if p = None then ((1, ''krb5_init_context failed''), KerberosUninit s)
     else let (q, s) = lib_new (\<lambda>w. ko_parse_name E w (c_str inPrincipal)) (uses [c_context s] s);
              s = s\<lparr>c_principal := q, c_principal_name := c_str inPrincipal\<rparr> in
     if q = None then ((1, ''krb5_parse_name could not parse principal''), KerberosUninit s)
     else ((0, ''KerberosInit Succeed''), s))"

text \<open>
  The entry for the principal becomes the entry of the context; every other one read was freed. The answer is
  \<open>None\<close> when the reader does not return.
\<close>

definition KerberosGetEntry_ctx ::
  "'w krb_env \<Rightarrow> bytes \<Rightarrow> u32 \<Rightarrow> int \<Rightarrow> ('w, 'z) krb_ctx_scheme \<Rightarrow> (krb_result \<times> ('w, 'z) krb_ctx_scheme) option" where
  "KerberosGetEntry_ctx E buf kvno enctype s =
    (if KerberosRead buf 2 1 0 = None then Some ((1, ''read ktVNo error''), s)
     else case KerberosGetEntry (ko_errno E (kw s)) (ko_same E (c_principal_name s)) buf kvno enctype of
       None \<Rightarrow> None
     | Some None \<Rightarrow> Some ((1, ''GetEntry Failed''), s\<lparr>c_entry := None\<rparr>)
     | Some (Some e) \<Rightarrow>
         (let (i, s) = new_obj s in Some ((0, ''GetEntry succeed''), s\<lparr>c_entry := Some i, c_entry_val := e\<rparr>)))"

definition KerberosInitKeytab ::
  "'w krb_env \<Rightarrow> bytes \<Rightarrow> bytes \<Rightarrow> bytes \<Rightarrow> ('w, 'z) krb_ctx_scheme \<Rightarrow> (krb_result \<times> ('w, 'z) krb_ctx_scheme) option" where
  "KerberosInitKeytab E buf inPrincipal ktname s =
    (let (ar, s) = KerberosInit E inPrincipal s in
     if fst ar \<noteq> 0 then Some (ar, s)
     else if ko_max_name E < length ktname then Some ((1, []), s)
     else let (ok, s) = lib_call (\<lambda>w. ko_setenv E w ''KRB5_KTNAME'' (c_str ktname)) s in
     if \<not> ok then Some ((1, []), KerberosUninit s)
     else let (p, s) = lib_new (\<lambda>w. ko_kt_resolve E w (c_str ktname)) (uses [c_context s] s); s = s\<lparr>c_keytab := p\<rparr> in
     if p = None then Some ((1, []), KerberosUninit s)
     else case KerberosGetEntry_ctx E buf 0 0 s of
       None \<Rightarrow> None
     | Some (ar, s) \<Rightarrow>
       if fst ar \<noteq> 0 then Some (ar, KerberosUninit (close_keytab s))
       else let (ok, s) = lib_call (\<lambda>w. ko_kt_add_entry E w (c_entry_val s)) (uses [c_context s, c_keytab s, c_entry s] s) in
       if \<not> ok then Some ((1, ''krb5_kt_add_entry failed''), KerberosUninit (close_keytab (free_entry s)))
       else Some ((0, ''KerberosInitKeytab Succeed''), s))"

text \<open>The credentials are an object of the function: it is freed on every path.\<close>

definition ObtainKerberosCredentials ::
  "'w krb_env \<Rightarrow> ('w, 'z) krb_ctx_scheme \<Rightarrow> krb_result \<times> ('w, 'z) krb_ctx_scheme" where
  "ObtainKerberosCredentials E s =
    (let (creds, s) = lib_new (ko_get_init_creds E) (uses [c_context s, c_principal s, c_keytab s, c_opts s] s) in
     if creds = None then ((1, ''unable to login from keytab''), s)
     else let (ok, s) = lib_call (ko_cc_initialize E) (uses [c_context s, c_ccache s, c_principal s] s) in
     if \<not> ok then ((1, ''could not init ccache''), free_obj creds s)
     else let (ok, s) = lib_call (ko_cc_store E) (uses [c_context s, c_ccache s, creds] s) in
     if \<not> ok then ((1, ''could not store creds in cache''), free_obj creds s)
     else ((0, ''KerberosInitCcache Succeed''), free_obj creds s))"

definition KerberosInitCCache ::
  "'w krb_env \<Rightarrow> bytes \<Rightarrow> bytes \<Rightarrow> bytes \<Rightarrow> bytes \<Rightarrow> ('w, 'z) krb_ctx_scheme
     \<Rightarrow> (krb_result \<times> ('w, 'z) krb_ctx_scheme) option" where
  "KerberosInitCCache E buf inPrincipal ktname ccname s =
    (if ko_max_name E < length ktname \<or> ko_max_name E < length ccname then Some ((1, []), s)
     else case KerberosInitKeytab E buf inPrincipal ktname s of
       None \<Rightarrow> None
     | Some (ar, s) \<Rightarrow>
       if fst ar \<noteq> 0 then Some (ar, s)
       else let (ok, s) = lib_call (\<lambda>w. ko_setenv E w ''KRB5CCNAME'' (c_str ccname)) s in
       if \<not> ok then Some ((1, ''could not set KRB5CCNAME env''), KerberosDestroyKeytab E s)
       else let (p, s) = lib_new (ko_cc_default E) (uses [c_context s] s); s = s\<lparr>c_ccache := p\<rparr> in
       if p = None then Some ((1, ''unable to get default credentials cache''), KerberosDestroyKeytab E (destroy_ccache s))
       else let (p, s) = lib_new (ko_opt_alloc E) (uses [c_context s] s); s = s\<lparr>c_opts := p\<rparr> in
       if p = None then Some ((1, ''unable to allocate get_init_creds_opt struct''), KerberosDestroyKeytab E (destroy_ccache s))
       else let (ar, s) = ObtainKerberosCredentials E s in
       if fst ar = 0 then Some (ar, s)
       else Some (ar, KerberosDestroyKeytab E (destroy_ccache (free_opts s))))"

subsection \<open>Ownership\<close>

fun obj_of :: "nat option \<Rightarrow> nat multiset" where
  "obj_of None = {#}"
| "obj_of (Some i) = {#i#}"

definition ctx_objs :: "('w, 'z) krb_ctx_scheme \<Rightarrow> nat multiset" where
  "ctx_objs s = obj_of (c_context s) + obj_of (c_principal s) + obj_of (c_entry s) + obj_of (c_keytab s) +
     obj_of (c_ccache s) + obj_of (c_opts s)"

text \<open>The context owns what its pointers hold, and nothing without a library context; \<open>F\<close> are the objects of others.\<close>

definition ctx_owns :: "nat multiset \<Rightarrow> ('w, 'z) krb_ctx_scheme \<Rightarrow> bool" where
  "ctx_owns F s \<longleftrightarrow> objs s = ctx_objs s + F \<and>
     (c_context s = None \<longrightarrow> c_principal s = None \<and> c_entry s = None \<and> c_keytab s = None \<and> c_ccache s = None \<and> c_opts s = None)"

definition ctx_clean :: "('w, 'z) krb_ctx_scheme \<Rightarrow> bool" where
  "ctx_clean s \<longleftrightarrow> c_context s = None \<and> c_principal s = None \<and> c_entry s = None \<and> c_keytab s = None \<and>
     c_ccache s = None \<and> c_opts s = None"

lemmas ctx_defs = ctx_owns_def ctx_objs_def ctx_clean_def

lemma alive_simps [simp]: "alive s None = False" "alive s (Some i) = (i \<in># objs s)"
  by (simp_all add: alive_def)

lemma in_obj_of [simp]: "i \<in># obj_of p \<longleftrightarrow> p = Some i"
  by (cases p) auto

lemma alive_iff: "alive s p \<longleftrightarrow> p \<noteq> None \<and> obj_of p \<subseteq># objs s"
  by (cases p) simp_all

lemma uses_alive: "list_all (alive s) ps \<Longrightarrow> uses ps s = s"
  by (simp add: uses_def)

lemma ctx_alive: "ctx_owns F s \<Longrightarrow> p \<in> {c_context s, c_principal s, c_entry s, c_keytab s, c_ccache s, c_opts s} \<Longrightarrow>
    alive s p \<longleftrightarrow> p \<noteq> None"
proof -
  assume o: "ctx_owns F s" and p: "p \<in> {c_context s, c_principal s, c_entry s, c_keytab s, c_ccache s, c_opts s}"
  have "i \<in># ctx_objs s" if "p = Some i" for i
    using p by (simp add: ctx_objs_def that) metis
  then show ?thesis
    using o by (cases p) (simp_all add: ctx_owns_def)
qed

lemma ctx_uses:
  "ctx_owns F s \<Longrightarrow> set ps \<subseteq> {c_context s, c_principal s, c_entry s, c_keytab s, c_ccache s, c_opts s} \<Longrightarrow> None \<notin> set ps \<Longrightarrow>
    uses ps s = s"
  by (rule uses_alive) (metis ctx_alive list_all_iff subsetD)

lemma free_obj_alive: "alive s p \<Longrightarrow> free_obj p s = s\<lparr>objs := objs s - obj_of p\<rparr>"
  by (cases p) (simp_all add: free_obj_def uses_def)

text \<open>What each way of freeing does to a context that owns its objects.\<close>

lemma ctx_free:
  assumes o: "ctx_owns F s"
  shows "c_principal s \<noteq> None \<Longrightarrow> free_principal s = s\<lparr>objs := objs s - obj_of (c_principal s), c_principal := None\<rparr>"
    "c_keytab s \<noteq> None \<Longrightarrow> close_keytab s = s\<lparr>objs := objs s - obj_of (c_keytab s), c_keytab := None\<rparr>"
    "c_ccache s \<noteq> None \<Longrightarrow> destroy_ccache s = s\<lparr>objs := objs s - obj_of (c_ccache s), c_ccache := None\<rparr>"
    "c_opts s \<noteq> None \<Longrightarrow> free_opts s = s\<lparr>objs := objs s - obj_of (c_opts s), c_opts := None\<rparr>"
    "c_entry s \<noteq> None \<Longrightarrow> free_entry s = s\<lparr>objs := objs s - obj_of (c_entry s), c_entry := None\<rparr>"
proof -
  have c: "c_context s \<noteq> None \<Longrightarrow> uses [c_context s] s = s"
    using o by (intro ctx_uses) auto
  have k: "p \<noteq> None \<Longrightarrow> p \<in> {c_context s, c_principal s, c_entry s, c_keytab s, c_ccache s, c_opts s} \<Longrightarrow>
      free_obj p s = s\<lparr>objs := objs s - obj_of p\<rparr>" for p
    using ctx_alive[OF o] by (intro free_obj_alive) simp
  have n: "p \<noteq> None \<Longrightarrow> p \<in> {c_principal s, c_entry s, c_keytab s, c_ccache s, c_opts s} \<Longrightarrow> c_context s \<noteq> None" for p
    using o by (auto simp: ctx_owns_def)
  show "c_principal s \<noteq> None \<Longrightarrow> free_principal s = s\<lparr>objs := objs s - obj_of (c_principal s), c_principal := None\<rparr>"
    using n[of "c_principal s"] by (simp add: free_principal_def c k)
  show "c_keytab s \<noteq> None \<Longrightarrow> close_keytab s = s\<lparr>objs := objs s - obj_of (c_keytab s), c_keytab := None\<rparr>"
    using n[of "c_keytab s"] by (simp add: close_keytab_def c k)
  show "c_ccache s \<noteq> None \<Longrightarrow> destroy_ccache s = s\<lparr>objs := objs s - obj_of (c_ccache s), c_ccache := None\<rparr>"
    using n[of "c_ccache s"] by (simp add: destroy_ccache_def c k)
  show "c_opts s \<noteq> None \<Longrightarrow> free_opts s = s\<lparr>objs := objs s - obj_of (c_opts s), c_opts := None\<rparr>"
    using n[of "c_opts s"] by (simp add: free_opts_def c k)
  show "c_entry s \<noteq> None \<Longrightarrow> free_entry s = s\<lparr>objs := objs s - obj_of (c_entry s), c_entry := None\<rparr>"
    using n[of "c_entry s"] by (simp add: free_entry_def c k)
qed

lemma KerberosUninit_owns:
  assumes o: "ctx_owns F s" and e: "c_entry s = None"
  shows "KerberosUninit s = s\<lparr>objs := F, c_principal := None, c_keytab := None, c_ccache := None, c_opts := None, c_context := None\<rparr>"
proof -
  define s1 where "s1 = s\<lparr>objs := objs s - obj_of (c_principal s), c_principal := None\<rparr>"
  define s2 where "s2 = s1\<lparr>objs := objs s1 - obj_of (c_keytab s1), c_keytab := None\<rparr>"
  define s3 where "s3 = s2\<lparr>objs := objs s2 - obj_of (c_ccache s2), c_ccache := None\<rparr>"
  define s4 where "s4 = s3\<lparr>objs := objs s3 - obj_of (c_opts s3), c_opts := None\<rparr>"
  have o1: "ctx_owns F s1" and o2: "ctx_owns F s2" and o3: "ctx_owns F s3" and o4: "ctx_owns F s4"
    using o by (auto simp: s1_def s2_def s3_def s4_def ctx_owns_def ctx_objs_def)
  have r: "(if c_principal s \<noteq> None then free_principal s else s) = s1" "(if c_keytab s1 \<noteq> None then close_keytab s1 else s1) = s2"
    "(if c_ccache s2 \<noteq> None then destroy_ccache s2 else s2) = s3" "(if c_opts s3 \<noteq> None then free_opts s3 else s3) = s4"
    using ctx_free(1)[OF o] ctx_free(2)[OF o1] ctx_free(3)[OF o2] ctx_free(4)[OF o3]
    by (auto simp: s1_def s2_def s3_def s4_def)
  have k: "c_context s4 \<noteq> None \<Longrightarrow> free_obj (c_context s4) s4 = s4\<lparr>objs := objs s4 - obj_of (c_context s4)\<rparr>"
    using ctx_alive[OF o4] by (intro free_obj_alive) simp
  have "KerberosUninit s = s4\<lparr>objs := objs s4 - obj_of (c_context s4), c_context := None\<rparr>"
    unfolding KerberosUninit_def Let_def r using k by (cases "c_context s4") simp_all
  also have "\<dots> = s\<lparr>objs := F, c_principal := None, c_keytab := None, c_ccache := None, c_opts := None, c_context := None\<rparr>"
    using o e by (simp add: s1_def s2_def s3_def s4_def ctx_owns_def ctx_objs_def)
  finally show ?thesis .
qed

subsection \<open>Stages\<close>

text \<open>The context owns its objects and has those of the pattern: library context, principal, entry, keytab, cache, options.\<close>

definition ctx_at :: "bool \<times> bool \<times> bool \<times> bool \<times> bool \<times> bool \<Rightarrow> nat multiset \<Rightarrow> ('w, 'z) krb_ctx_scheme \<Rightarrow> bool" where
  "ctx_at sh F s \<longleftrightarrow> ctx_owns F s \<and> sh = (c_context s \<noteq> None, c_principal s \<noteq> None, c_entry s \<noteq> None,
     c_keytab s \<noteq> None, c_ccache s \<noteq> None, c_opts s \<noteq> None)"

abbreviation no_objs :: "bool \<times> bool \<times> bool \<times> bool \<times> bool \<times> bool" where
  "no_objs \<equiv> (False, False, False, False, False, False)"

abbreviation keytab_objs :: "bool \<times> bool \<times> bool \<times> bool \<times> bool \<times> bool" where
  "keytab_objs \<equiv> (True, True, True, True, False, False)"

abbreviation all_objs :: "bool \<times> bool \<times> bool \<times> bool \<times> bool \<times> bool" where
  "all_objs \<equiv> (True, True, True, True, True, True)"

lemma ctx_at_clean: "ctx_at no_objs F s \<longleftrightarrow> ctx_clean s \<and> objs s = F"
  by (auto simp: ctx_at_def ctx_defs)

text \<open>What an operation of the context leaves alone.\<close>

definition ctx_same :: "('w, 'z) krb_ctx_scheme \<Rightarrow> ('w, 'z) krb_ctx_scheme \<Rightarrow> bool" where
  "ctx_same s s' \<longleftrightarrow> misuse s' = misuse s \<and> krb_ctx.more s' = krb_ctx.more s"

lemma ctx_same_trans: "ctx_same s t \<Longrightarrow> ctx_same t u \<Longrightarrow> ctx_same s u"
  by (simp add: ctx_same_def)

lemma ctx_at_kw [simp]: "ctx_at sh F (s\<lparr>kw := w\<rparr>) = ctx_at sh F s" "ctx_same s (s\<lparr>kw := w\<rparr>)"
  by (simp_all add: ctx_at_def ctx_defs ctx_same_def)

lemma ctx_at_uses:
  "ctx_at sh F s \<Longrightarrow> set ps \<subseteq> {c_context s, c_principal s, c_entry s, c_keytab s, c_ccache s, c_opts s} \<Longrightarrow> None \<notin> set ps \<Longrightarrow>
    uses ps s = s"
  using ctx_uses[of F s ps] by (simp add: ctx_at_def)

lemma lib_call_state: "lib_call f s = (x, s') \<Longrightarrow> \<exists>w. s' = s\<lparr>kw := w\<rparr>"
  by (cases "f (kw s)") (auto simp: lib_call_def)

lemma lib_call_at: "lib_call f s = (x, s') \<Longrightarrow> ctx_at sh F s \<Longrightarrow> ctx_at sh F s' \<and> ctx_same s s'"
  by (auto dest: lib_call_state)

lemma lib_new_cases:
  assumes "lib_new f s = (p, s')"
  obtains (None) w where "p = None" "s' = s\<lparr>kw := w\<rparr>"
  | (Some) i w n where "p = Some i" "s' = s\<lparr>kw := w, objs := add_mset i (objs s), next_obj := n\<rparr>"
proof (cases "f (kw s)")
  case (Pair ok w)
  then have "lib_new f s = (if ok then (Some (next_obj s), s\<lparr>kw := w, objs := add_mset (next_obj s) (objs s), next_obj := next_obj s + 1\<rparr>)
      else (None, s\<lparr>kw := w\<rparr>))"
    by (simp add: lib_new_def lib_call_def new_obj_def)
  note c = this
  show thesis
  proof (cases ok)
    case True
    show thesis
      by (rule that(2)[where i = "next_obj s" and w = w and n = "next_obj s + 1"]) (use c assms True in simp_all)
  next
    case False
    show thesis
      by (rule that(1)[of w]) (use c assms False in simp_all)
  qed
qed

lemma lib_new_at:
  assumes n: "lib_new f s = (p, s')"
  shows "ctx_at no_objs F s \<Longrightarrow> ctx_at (p \<noteq> None, False, False, False, False, False) F (s'\<lparr>c_context := p\<rparr>)"
    "ctx_at (True, False, e, k, c, q) F s \<Longrightarrow> ctx_at (True, p \<noteq> None, e, k, c, q) F (s'\<lparr>c_principal := p, c_principal_name := y\<rparr>)"
    "ctx_at (True, r, e, False, c, q) F s \<Longrightarrow> ctx_at (True, r, e, p \<noteq> None, c, q) F (s'\<lparr>c_keytab := p\<rparr>)"
    "ctx_at (True, r, e, k, False, q) F s \<Longrightarrow> ctx_at (True, r, e, k, p \<noteq> None, q) F (s'\<lparr>c_ccache := p\<rparr>)"
    "ctx_at (True, r, e, k, c, False) F s \<Longrightarrow> ctx_at (True, r, e, k, c, p \<noteq> None) F (s'\<lparr>c_opts := p\<rparr>)"
  using n by (cases rule: lib_new_cases; simp add: ctx_at_def ctx_defs)+

lemma lib_new_same: "lib_new f s = (p, s') \<Longrightarrow> misuse s' = misuse s \<and> krb_ctx.more s' = krb_ctx.more s"
  by (erule lib_new_cases) simp_all

lemma free_at:
  assumes o: "ctx_at (x, r, e, k, c, q) F s"
  shows "k \<Longrightarrow> ctx_at (x, r, e, False, c, q) F (close_keytab s) \<and> ctx_same s (close_keytab s)"
    "c \<Longrightarrow> ctx_at (x, r, e, k, False, q) F (destroy_ccache s) \<and> ctx_same s (destroy_ccache s)"
    "q \<Longrightarrow> ctx_at (x, r, e, k, c, False) F (free_opts s) \<and> ctx_same s (free_opts s)"
    "e \<Longrightarrow> ctx_at (x, r, False, k, c, q) F (free_entry s) \<and> ctx_same s (free_entry s)"
proof -
  have w: "ctx_owns F s" and b: "x = (c_context s \<noteq> None)" "r = (c_principal s \<noteq> None)" "e = (c_entry s \<noteq> None)"
    "k = (c_keytab s \<noteq> None)" "c = (c_ccache s \<noteq> None)" "q = (c_opts s \<noteq> None)"
    using o by (simp_all add: ctx_at_def)
  note W = w[unfolded ctx_owns_def ctx_objs_def]
  show "k \<Longrightarrow> ctx_at (x, r, e, False, c, q) F (close_keytab s) \<and> ctx_same s (close_keytab s)"
    using W b by (simp add: ctx_free(2)[OF w] ctx_at_def ctx_owns_def ctx_objs_def ctx_same_def)
  show "c \<Longrightarrow> ctx_at (x, r, e, k, False, q) F (destroy_ccache s) \<and> ctx_same s (destroy_ccache s)"
    using W b by (simp add: ctx_free(3)[OF w] ctx_at_def ctx_owns_def ctx_objs_def ctx_same_def)
  show "q \<Longrightarrow> ctx_at (x, r, e, k, c, False) F (free_opts s) \<and> ctx_same s (free_opts s)"
    using W b by (simp add: ctx_free(4)[OF w] ctx_at_def ctx_owns_def ctx_objs_def ctx_same_def)
  show "e \<Longrightarrow> ctx_at (x, r, False, k, c, q) F (free_entry s) \<and> ctx_same s (free_entry s)"
    using W b by (simp add: ctx_free(5)[OF w] ctx_at_def ctx_owns_def ctx_objs_def ctx_same_def)
qed

lemma KerberosUninit_at:
  "ctx_at (x, r, False, k, c, q) F s \<Longrightarrow> ctx_at no_objs F (KerberosUninit s) \<and> ctx_same s (KerberosUninit s)"
  using KerberosUninit_owns[of F s] by (simp add: ctx_at_def ctx_owns_def ctx_objs_def ctx_same_def)

lemma KerberosDestroyKeytab_at:
  assumes o: "ctx_at (x, r, e, k, c, q) F s" and e: "e \<longrightarrow> k"
  shows "ctx_at no_objs F (KerberosDestroyKeytab E s) \<and> ctx_same s (KerberosDestroyKeytab E s)"
proof -
  define s1 where "s1 = (if c_entry s \<noteq> None then
    (let (ok, s) = lib_call (\<lambda>w. ko_kt_remove_entry E w (c_entry_val s)) (uses [c_context s, c_keytab s, c_entry s] s)
     in free_entry s) else s)"
  have 1: "ctx_at (x, r, False, k, c, q) F s1 \<and> ctx_same s s1"
  proof (cases "c_entry s")
    case None
    then show ?thesis
      using o by (simp add: s1_def ctx_at_def ctx_same_def)
  next
    case (Some i)
    then have h: "e" "c_keytab s \<noteq> None" "c_context s \<noteq> None"
      using o e by (auto simp: ctx_at_def ctx_owns_def)
    have u: "uses [c_context s, c_keytab s, c_entry s] s = s"
      using h Some by (intro ctx_at_uses[OF o]) auto
    obtain ok t where t: "lib_call (\<lambda>w. ko_kt_remove_entry E w (c_entry_val s)) s = (ok, t)"
      by (metis prod.exhaust_sel)
    have s1: "s1 = free_entry t"
      unfolding s1_def u t using Some by simp
    note T = lib_call_at[OF t o]
    show ?thesis
      unfolding s1 using free_at(4)[of x r e k c q F t] T h ctx_same_trans by blast
  qed
  define s2 where "s2 = (if c_keytab s1 \<noteq> None then close_keytab s1 else s1)"
  have 2: "ctx_at (x, r, False, False, c, q) F s2 \<and> ctx_same s1 s2"
    using free_at(1)[of x r False k c q F s1] 1 by (auto simp: s2_def ctx_at_def ctx_same_def)
  have "KerberosDestroyKeytab E s = KerberosUninit s2"
    by (simp only: KerberosDestroyKeytab_def s1_def s2_def Let_def)
  then show ?thesis
    using KerberosUninit_at[of x r False c q F s2] 1 2 ctx_same_trans by metis
qed

lemma KerberosDestroyCCache_at:
  assumes o: "ctx_at (x, r, e, k, c, q) F s" and e: "e \<longrightarrow> k"
  shows "ctx_at no_objs F (KerberosDestroyCCache E s) \<and> ctx_same s (KerberosDestroyCCache E s)"
proof -
  define s1 where "s1 = (if c_opts s \<noteq> None then free_opts s else s)"
  have 1: "ctx_at (x, r, e, k, c, False) F s1 \<and> ctx_same s s1"
    using free_at(3)[OF o] o by (auto simp: s1_def ctx_at_def ctx_same_def)
  have "KerberosDestroyCCache E s = KerberosDestroyKeytab E s1"
    by (simp add: KerberosDestroyCCache_def s1_def)
  then show ?thesis
    using KerberosDestroyKeytab_at[of x r e k c False F s1 E] 1 e ctx_same_trans by metis
qed

subsection \<open>Starting and its failures\<close>

lemma KerberosInit_at:
  assumes i: "KerberosInit E name s = (ar, s')" and c: "ctx_at no_objs F s"
  shows "ctx_at (if fst ar = 0 then (True, True, False, False, False, False) else no_objs) F s' \<and> ctx_same s s'"
proof -
  obtain p t where 1: "lib_new (ko_init_context E) s = (p, t)"
    by (metis prod.exhaust_sel)
  define s1 where "s1 = t\<lparr>c_context := p\<rparr>"
  have o1: "ctx_at (p \<noteq> None, False, False, False, False, False) F s1" and c1: "c_context s1 = p" and d1: "ctx_same s s1"
    using lib_new_at(1)[OF 1 c] lib_new_same[OF 1] by (simp_all add: s1_def ctx_same_def)
  obtain q u where 2: "lib_new (\<lambda>w. ko_parse_name E w (c_str name)) (uses [p] s1) = (q, u)"
    by (metis prod.exhaust_sel)
  define s2 where "s2 = u\<lparr>c_principal := q, c_principal_name := c_str name\<rparr>"
  have r: "(ar, s') = (if p = None then ((1, ''krb5_init_context failed''), KerberosUninit s1)
      else if q = None then ((1, ''krb5_parse_name could not parse principal''), KerberosUninit s2)
      else ((0, ''KerberosInit Succeed''), s2))"
    using i unfolding KerberosInit_def Let_def 1 prod.case s1_def[symmetric] c1 2 s2_def[symmetric] by (rule sym)
  show ?thesis
  proof (cases p)
    case None
    then show ?thesis
      using r KerberosUninit_at[OF o1] d1 ctx_same_trans[OF d1] by simp
  next
    case (Some x)
    have us: "uses [p] s1 = s1"
      using Some c1 ctx_at_uses[OF o1, of "[p]"] by simp
    have o: "ctx_at (True, False, False, False, False, False) F s1"
      using o1 Some by simp
    have o2: "ctx_at (True, q \<noteq> None, False, False, False, False) F s2" and d2: "ctx_same s s2"
      using lib_new_at(2)[OF 2[unfolded us] o] lib_new_same[OF 2[unfolded us]] d1 by (simp_all add: s2_def ctx_same_def)
    show ?thesis
      using r KerberosUninit_at[OF o2] o2 d2 ctx_same_trans[OF d2] Some by (auto split: if_splits)
  qed
qed

lemma KerberosGetEntry_ctx_at:
  assumes g: "KerberosGetEntry_ctx E buf kvno enctype s = Some (ar, s')" and o: "ctx_at (True, r, False, k, c, q) F s"
  shows "ctx_at (True, r, fst ar = 0, k, c, q) F s' \<and> ctx_same s s'"
proof -
  consider (err) "fst ar = 1" "s' = s" | (none) "fst ar = 1" "s' = s\<lparr>c_entry := None\<rparr>"
    | (some) i n e where "fst ar = 0" "s' = s\<lparr>objs := add_mset i (objs s), next_obj := n, c_entry := Some i, c_entry_val := e\<rparr>"
    using g by (auto simp: KerberosGetEntry_ctx_def new_obj_def split: if_splits option.splits)
  then show ?thesis
    using o by cases (simp_all add: ctx_at_def ctx_owns_def ctx_objs_def ctx_same_def)
qed

lemma KerberosInitKeytab_at:
  assumes i: "KerberosInitKeytab E buf name kt s = Some (ar, s')" and c: "ctx_at no_objs F s"
  shows "ctx_same s s' \<and> ctx_at (if fst ar = 0 then keytab_objs
    else if ko_max_name E < length kt \<and> fst (fst (KerberosInit E name s)) = 0 then (True, True, False, False, False, False)
    else no_objs) F s'"
proof -
  obtain ar1 s1 where 1: "KerberosInit E name s = (ar1, s1)"
    by (metis prod.exhaust_sel)
  note o1 = KerberosInit_at[OF 1 c]
  show ?thesis
  proof (cases "fst ar1 = 0 \<and> \<not> ko_max_name E < length kt")
    case False
    then show ?thesis
      using i o1 by (auto simp: KerberosInitKeytab_def 1 split: if_splits)
  next
    case True
    obtain ok s2 where 2: "lib_call (\<lambda>w. ko_setenv E w ''KRB5_KTNAME'' (c_str kt)) s1 = (ok, s2)"
      by (metis prod.exhaust_sel)
    have o2: "ctx_at (True, True, False, False, False, False) F s2 \<and> ctx_same s s2"
      using lib_call_at[OF 2, of "(True, True, False, False, False, False)" F] o1 True ctx_same_trans[of s s1 s2] by simp
    then have u2: "uses [c_context s2] s2 = s2"
      by (intro ctx_at_uses) (auto simp: ctx_at_def)
    obtain p t where 3: "lib_new (\<lambda>w. ko_kt_resolve E w (c_str kt)) s2 = (p, t)"
      by (metis prod.exhaust_sel)
    define s3 where "s3 = t\<lparr>c_keytab := p\<rparr>"
    have o3: "ctx_at (True, True, False, p \<noteq> None, False, False) F s3 \<and> ctx_same s s3"
      using lib_new_at(3)[OF 3] lib_new_same[OF 3] o2 by (simp add: s3_def ctx_same_def)
    have r: "Some (ar, s') = (if \<not> ok then Some ((1, []), KerberosUninit s2)
      else if p = None then Some ((1, []), KerberosUninit s3)
      else case KerberosGetEntry_ctx E buf 0 0 s3 of
       None \<Rightarrow> None
     | Some (ar, s) \<Rightarrow>
       if fst ar \<noteq> 0 then Some (ar, KerberosUninit (close_keytab s))
       else let (ok, s) = lib_call (\<lambda>w. ko_kt_add_entry E w (c_entry_val s)) (uses [c_context s, c_keytab s, c_entry s] s) in
       if \<not> ok then Some ((1, ''krb5_kt_add_entry failed''), KerberosUninit (close_keytab (free_entry s)))
       else Some ((0, ''KerberosInitKeytab Succeed''), s))"
      using i True unfolding KerberosInitKeytab_def Let_def 1 prod.case 2 u2 3 s3_def[symmetric] by simp
    show ?thesis
    proof (cases "ok \<and> p \<noteq> None")
      case False
      then show ?thesis
        using r o2 o3 KerberosUninit_at[of True True False False False F s2]
          KerberosUninit_at[of True True False False False F s3] True ctx_same_trans
        by (auto split: if_splits)
    next
      case p: True
      obtain ar4 s4 where 4: "KerberosGetEntry_ctx E buf 0 0 s3 = Some (ar4, s4)"
        using r p by (cases "KerberosGetEntry_ctx E buf 0 0 s3") auto
      have "ctx_at (True, True, False, True, False, False) F s3"
        using o3 p by simp
      note g = KerberosGetEntry_ctx_at[OF 4 this]
      note s4 = ctx_same_trans[OF conjunct2[OF o3] conjunct2[OF g]]
      show ?thesis
      proof (cases "fst ar4 = 0")
        case False
        have k: "ctx_at (True, True, False, False, False, False) F (close_keytab s4) \<and> ctx_same s4 (close_keytab s4)"
          using free_at(1)[of True True False True False False F s4] g False by simp
        have "ar = ar4" "s' = KerberosUninit (close_keytab s4)"
          using r p 4 False by simp_all
        then show ?thesis
          using KerberosUninit_at[OF conjunct1[OF k]] k s4 False True by (simp add: ctx_same_def)
      next
        case a: True
        have o4: "ctx_at keytab_objs F s4"
          using g a by simp
        have u: "uses [c_context s4, c_keytab s4, c_entry s4] s4 = s4"
          using o4 by (intro ctx_at_uses[OF o4]) (auto simp: ctx_at_def)
        obtain ok5 s5 where 5: "lib_call (\<lambda>w. ko_kt_add_entry E w (c_entry_val s4)) s4 = (ok5, s5)"
          by (metis prod.exhaust_sel)
        note o5 = lib_call_at[OF 5 o4]
        note e = free_at(4)[OF conjunct1[OF o5], OF TrueI] 
        note k = free_at(1)[OF conjunct1[OF e], OF TrueI]
        note n = KerberosUninit_at[OF conjunct1[OF k]]
        have "(ar, s') = (if \<not> ok5 then ((1, ''krb5_kt_add_entry failed''), KerberosUninit (close_keytab (free_entry s5)))
            else ((0, ''KerberosInitKeytab Succeed''), s5))"
          using r p a by (simp add: 4 u 5 split: if_splits)
        then show ?thesis
          using o5 e k n s4 True by (auto simp: ctx_same_def split: if_splits)
      qed
    qed
  qed
qed

lemma ObtainKerberosCredentials_at:
  assumes b: "ObtainKerberosCredentials E s = (ar, s')" and o: "ctx_at all_objs F s"
  shows "ctx_at all_objs F s' \<and> ctx_same s s'"
proof -
  have p: "c_context s \<noteq> None" "c_principal s \<noteq> None" "c_keytab s \<noteq> None" "c_ccache s \<noteq> None" "c_opts s \<noteq> None"
    using o by (simp_all add: ctx_at_def)
  have al: "alive s (c_context s)" "alive s (c_ccache s)"
    using p ctx_alive[of F s] o by (simp_all add: ctx_at_def)
  have u1: "uses [c_context s, c_principal s, c_keytab s, c_opts s] s = s"
    using p by (intro ctx_at_uses[OF o]) auto
  obtain creds s1 where 1: "lib_new (ko_get_init_creds E) s = (creds, s1)"
    by (metis prod.exhaust_sel)
  show ?thesis
    using 1
  proof (cases rule: lib_new_cases)
    case (None w)
    then show ?thesis
      using b o by (auto simp: ObtainKerberosCredentials_def u1 1)
  next
    case (Some i w n)
    have o1: "ctx_at all_objs (add_mset i F) s1"
      using o unfolding Some(2) by (simp add: ctx_at_def ctx_owns_def ctx_objs_def)
    have p1: "c_context s1 \<noteq> None" "c_principal s1 \<noteq> None" "c_ccache s1 \<noteq> None"
      using p unfolding Some(2) by simp_all
    have u2: "uses [c_context s1, c_ccache s1, c_principal s1] s1 = s1"
      using p1 by (intro ctx_at_uses[OF o1]) auto
    obtain ok2 s2 where 2: "lib_call (ko_cc_initialize E) s1 = (ok2, s2)"
      by (metis prod.exhaust_sel)
    obtain w2 where w2: "s2 = s1\<lparr>kw := w2\<rparr>"
      using lib_call_state[OF 2] by blast
    have u3: "uses [c_context s2, c_ccache s2, creds] s2 = s2"
      using al unfolding w2 Some by (intro uses_alive) (auto simp: alive_def split: option.splits)
    obtain ok3 s3 where 3: "lib_call (ko_cc_store E) s2 = (ok3, s3)"
      by (metis prod.exhaust_sel)
    obtain w3 where w3: "s3 = s2\<lparr>kw := w3\<rparr>"
      using lib_call_state[OF 3] by blast
    have f: "free_obj creds t = t\<lparr>objs := objs s\<rparr>" if "objs t = add_mset i (objs s)" for t :: "('a, 'b) krb_ctx_scheme"
      using free_obj_alive[of t creds] that by (simp add: Some)
    have "s' = free_obj creds (if ok2 then s3 else s2)"
      using b unfolding ObtainKerberosCredentials_def u1 1 Let_def prod.case u2 2 u3[unfolded Some(1)] 3 Some(1) by (auto split: if_splits)
    also have "\<dots> = (if ok2 then s3 else s2)\<lparr>objs := objs s\<rparr>"
      by (rule f) (simp add: w3 w2 Some(2))
    finally show ?thesis
      using o by (simp add: w3 w2 Some(2) ctx_at_def ctx_owns_def ctx_objs_def ctx_same_def)
  qed
qed

lemma destroy_no_ccache:
  "ctx_at (True, r, e, k, False, q) F s \<Longrightarrow> destroy_ccache s = s\<lparr>misuse := True\<rparr>"
proof -
  assume o: "ctx_at (True, r, e, k, False, q) F s"
  then have "uses [c_context s] s = s"
    by (intro ctx_at_uses[OF o]) (auto simp: ctx_at_def)
  then show ?thesis
    using o by (simp add: destroy_ccache_def free_obj_def uses_def ctx_at_def)
qed

lemma ctx_at_misuse [simp]: "ctx_at sh F (s\<lparr>misuse := b\<rparr>) = ctx_at sh F s"
  by (simp add: ctx_at_def ctx_defs)

definition no_ccache_msg :: bytes where
  "no_ccache_msg = ''unable to get default credentials cache''"

lemma other_msgs:
  "KerberosInit E name s = (ar, s') \<Longrightarrow> snd ar \<noteq> no_ccache_msg"
  "KerberosGetEntry_ctx E buf kvno enctype s = Some (ar, s') \<Longrightarrow> snd ar \<noteq> no_ccache_msg"
  "ObtainKerberosCredentials E s = (ar, s') \<Longrightarrow> snd ar \<noteq> no_ccache_msg"
  by (auto simp: KerberosInit_def KerberosGetEntry_ctx_def new_obj_def ObtainKerberosCredentials_def no_ccache_msg_def Let_def
      split: prod.splits if_splits option.splits)

lemma KerberosInitKeytab_msg: "KerberosInitKeytab E buf name kt s = Some (ar, s') \<Longrightarrow> snd ar \<noteq> no_ccache_msg"
  by (auto simp: KerberosInitKeytab_def Let_def no_ccache_msg_def split: prod.splits if_splits option.splits
      dest: other_msgs[unfolded no_ccache_msg_def])

lemma KerberosInitCCache_at:
  assumes i: "KerberosInitCCache E buf name kt cc s = Some (ar, s')" and c: "ctx_at no_objs F s"
  shows "ctx_at (if fst ar = 0 then all_objs else no_objs) F s' \<and> krb_ctx.more s' = krb_ctx.more s \<and>
    misuse s' = (misuse s \<or> snd ar = no_ccache_msg)"
proof (cases "ko_max_name E < length kt \<or> ko_max_name E < length cc")
  case True
  then show ?thesis
    using i c by (auto simp: KerberosInitCCache_def no_ccache_msg_def)
next
  case len: False
  obtain ar1 s1 where 1: "KerberosInitKeytab E buf name kt s = Some (ar1, s1)"
    using i len by (cases "KerberosInitKeytab E buf name kt s") (auto simp: KerberosInitCCache_def)
  note o1 = KerberosInitKeytab_at[OF 1 c]
  show ?thesis
  proof (cases "fst ar1 = 0")
    case False
    have "snd ar1 \<noteq> no_ccache_msg"
      by (rule KerberosInitKeytab_msg[OF 1])
    then show ?thesis
      using i len o1 False by (simp add: KerberosInitCCache_def 1 ctx_same_def)
  next
    case a: True
    obtain ok s2 where 2: "lib_call (\<lambda>w. ko_setenv E w ''KRB5CCNAME'' (c_str cc)) s1 = (ok, s2)"
      by (metis prod.exhaust_sel)
    have o2: "ctx_at keytab_objs F s2" and d2: "ctx_same s s2"
      using lib_call_at[OF 2, of keytab_objs F] o1 a ctx_same_trans[of s s1 s2] by simp_all
    have u2: "uses [c_context s2] s2 = s2"
      using o2 by (intro ctx_at_uses[OF o2]) (auto simp: ctx_at_def)
    obtain p t where 3: "lib_new (ko_cc_default E) s2 = (p, t)"
      by (metis prod.exhaust_sel)
    define s3 where "s3 = t\<lparr>c_ccache := p\<rparr>"
    have o3: "ctx_at (True, True, True, True, p \<noteq> None, False) F s3" and d3: "ctx_same s s3"
      using lib_new_at(4)[OF 3] lib_new_same[OF 3] o2 d2 by (simp_all add: s3_def ctx_same_def)
    have u3: "uses [c_context s3] s3 = s3"
      using o3 by (intro ctx_at_uses[OF o3]) (auto simp: ctx_at_def)
    obtain q u where 4: "lib_new (ko_opt_alloc E) s3 = (q, u)"
      by (metis prod.exhaust_sel)
    define s4 where "s4 = u\<lparr>c_opts := q\<rparr>"
    have o4: "ctx_at (True, True, True, True, p \<noteq> None, q \<noteq> None) F s4" and d4: "ctx_same s s4"
      using lib_new_at(5)[OF 4] lib_new_same[OF 4] o3 d3 by (simp_all add: s4_def ctx_same_def)
    obtain ar5 s5 where 5: "ObtainKerberosCredentials E s4 = (ar5, s5)"
      by (metis prod.exhaust_sel)
    have r: "(ar, s') = (if \<not> ok then ((1, ''could not set KRB5CCNAME env''), KerberosDestroyKeytab E s2)
      else if p = None then ((1, ''unable to get default credentials cache''), KerberosDestroyKeytab E (destroy_ccache s3))
      else if q = None then ((1, ''unable to allocate get_init_creds_opt struct''), KerberosDestroyKeytab E (destroy_ccache s4))
      else if fst ar5 = 0 then (ar5, s5)
      else (ar5, KerberosDestroyKeytab E (destroy_ccache (free_opts s5))))"
      using i len a unfolding KerberosInitCCache_def 1 option.case prod.case Let_def 2 u2 3 s3_def[symmetric] u3 4 s4_def[symmetric] 5
      by (simp split: if_splits)
    note end_here = KerberosDestroyKeytab_at[where e = True and k = True and E = E]
    consider "\<not> ok" | "ok" "p = None" | "ok" "p \<noteq> None" "q = None" | "ok" "p \<noteq> None" "q \<noteq> None"
      by blast
    then show ?thesis
    proof cases
      case 1
      then show ?thesis
        using r end_here[OF o2] d2 by (simp add: no_ccache_msg_def ctx_same_def)
    next
      case 2
      then have o3': "ctx_at keytab_objs F (s3\<lparr>misuse := True\<rparr>)" "destroy_ccache s3 = s3\<lparr>misuse := True\<rparr>"
        using o3 destroy_no_ccache[of True True True False F s3] by simp_all
      show ?thesis
        using r 2 end_here[OF o3'(1)] d3 unfolding o3'(2) by (simp add: no_ccache_msg_def ctx_same_def)
    next
      case 3
      then have "ctx_at (True, True, True, True, True, False) F s4"
        using o4 by simp
      note d = free_at(2)[OF this, OF TrueI]
      show ?thesis
        using r 3 end_here[OF conjunct1[OF d]] d d4 by (simp add: no_ccache_msg_def ctx_same_def)
    next
      case 4
      then have "ctx_at all_objs F s4"
        using o4 by simp
      note o5 = ObtainKerberosCredentials_at[OF 5 this]
      note f = free_at(3)[OF conjunct1[OF o5], OF TrueI]
      note d = free_at(2)[OF conjunct1[OF f], OF TrueI]
      show ?thesis
        using r 4 end_here[OF conjunct1[OF d]] d f o5 d4 other_msgs(3)[OF 5] by (auto simp: ctx_same_def split: if_splits)
    qed
  qed
qed

text \<open>A context that owns nothing and is started with a credential cache ends up with six objects of its own, which
  \<open>KerberosDestroyCCache\<close> frees, each once; or it fails, and then it owns nothing and all it had allocated is
  freed. The library gets a null pointer only when it has no default cache: the source then destroys the cache it did
  not get.\<close>

lemma KerberosInitCCache_lifecycle:
  assumes c: "ctx_clean s" and i: "KerberosInitCCache E buf name kt cc s = Some (ar, s')"
  shows "misuse s' = (misuse s \<or> snd ar = ''unable to get default credentials cache'') \<and>
    (if fst ar = 0 then
       ctx_at all_objs (objs s) s' \<and> ctx_clean (KerberosDestroyCCache E s') \<and>
       objs (KerberosDestroyCCache E s') = objs s \<and> misuse (KerberosDestroyCCache E s') = misuse s'
     else ctx_clean s' \<and> objs s' = objs s)"
proof -
  have "ctx_at no_objs (objs s) s"
    using c by (simp add: ctx_at_clean)
  note r = KerberosInitCCache_at[OF i this]
  show ?thesis
  proof (cases "fst ar = 0")
    case True
    then have o: "ctx_at all_objs (objs s) s'"
      using r by simp
    show ?thesis
      using r True KerberosDestroyCCache_at[OF o, of E] by (simp add: no_ccache_msg_def ctx_at_clean ctx_same_def)
  next
    case False
    then show ?thesis
      using r by (simp add: no_ccache_msg_def ctx_at_clean)
  qed
qed

definition toy_krb :: "unit krb_env" where
  "toy_krb = \<lparr>ko_errno = (\<lambda>_. 0), ko_max_name = 1100, ko_same = (\<lambda>_ _. True), ko_init_context = (\<lambda>w. (True, w)),
     ko_parse_name = (\<lambda>w _. (True, w)), ko_setenv = (\<lambda>w _ _. (True, w)), ko_kt_resolve = (\<lambda>w _. (True, w)),
     ko_kt_add_entry = (\<lambda>w _. (True, w)), ko_kt_remove_entry = (\<lambda>w _. (True, w)), ko_cc_default = (\<lambda>w. (True, w)),
     ko_opt_alloc = (\<lambda>w. (True, w)), ko_get_init_creds = (\<lambda>w. (True, w)), ko_cc_initialize = (\<lambda>w. (True, w)),
     ko_cc_store = (\<lambda>w. (True, w))\<rparr>"

lemma toy_krb_simps [simp]:
  "ko_errno toy_krb w = 0" "ko_max_name toy_krb = 1100" "ko_same toy_krb n p = True" "ko_init_context toy_krb w = (True, w)"
  "ko_parse_name toy_krb w n = (True, w)" "ko_setenv toy_krb w n m = (True, w)" "ko_kt_resolve toy_krb w n = (True, w)"
  "ko_kt_add_entry toy_krb w e = (True, w)" "ko_kt_remove_entry toy_krb w e = (True, w)" "ko_cc_default toy_krb w = (True, w)"
  "ko_opt_alloc toy_krb w = (True, w)" "ko_get_init_creds toy_krb w = (True, w)" "ko_cc_initialize toy_krb w = (True, w)"
  "ko_cc_store toy_krb w = (True, w)"
  by (simp_all add: toy_krb_def)

lemmas krb_eval = lib_new_def lib_call_def new_obj_def uses_def free_obj_def Let_def KerberosInit_def KerberosGetEntry_ctx_def
  KerberosInitKeytab_def

lemma toy_entry_read:
  "KerberosGetEntry err (ko_same toy_krb name) (enc_keytab ''52'' toy_items) 0 0 = Some (Some (toy_entry 5))"
  "KerberosRead (enc_keytab ''52'' toy_items) 2 1 0 \<noteq> None"
proof -
  have "newer (Some (toy_entry 3)) (toy_entry 5) = Some (toy_entry 5)"
    by (simp add: newer_def KerberosMoreRecent_def KerberosTSAfter_def toy_entry_def)
  then show "KerberosGetEntry err (ko_same toy_krb name) (enc_keytab ''52'' toy_items) 0 0 = Some (Some (toy_entry 5))"
    using toy_items_valid(1,2) by (subst KerberosGetEntry_keytab)
      (simp_all add: toy_items_valid(3) choose_any newer_def[of None] entry_matches_def toy_krb_def del: choose_entry.simps)
  show "KerberosRead (enc_keytab ''52'' toy_items) 2 1 0 \<noteq> None"
    unfolding KerberosRead_one by (simp add: enc_keytab_def)
qed

lemma KerberosInitCCache_lifecycle_witness:
  "\<exists>s'. KerberosInitCCache toy_krb (enc_keytab ''52'' toy_items) ''h'' KRB5KTNAME KRB5CCNAME (krb_ctx_new ()) =
      Some ((0, ''KerberosInitCcache Succeed''), s') \<and> c_opts s' \<noteq> None \<and> objs (KerberosDestroyCCache toy_krb s') = {#}"
proof -
  have "fst (the (KerberosInitCCache toy_krb (enc_keytab ''52'' toy_items) ''h'' KRB5KTNAME KRB5CCNAME (krb_ctx_new ()))) =
      (0, ''KerberosInitCcache Succeed'') \<and>
    KerberosInitCCache toy_krb (enc_keytab ''52'' toy_items) ''h'' KRB5KTNAME KRB5CCNAME (krb_ctx_new ()) \<noteq> None"
    using toy_entry_read
    by (simp add: KerberosInitCCache_def krb_eval krb_ctx_new_def KRB5KTNAME_def KRB5CCNAME_def ObtainKerberosCredentials_def)
  then obtain s' where s': "KerberosInitCCache toy_krb (enc_keytab ''52'' toy_items) ''h'' KRB5KTNAME KRB5CCNAME (krb_ctx_new ()) =
      Some ((0, ''KerberosInitCcache Succeed''), s')"
    by (metis option.collapse prod.collapse)
  have "ctx_clean (krb_ctx_new ())" "objs (krb_ctx_new ()) = {#}"
    by (simp_all add: ctx_clean_def krb_ctx_new_def)
  then have "ctx_at all_objs {#} s' \<and> objs (KerberosDestroyCCache toy_krb s') = {#}"
    using KerberosInitCCache_lifecycle[OF _ s'] by simp
  with s' show ?thesis
    by (auto simp: ctx_at_def)
qed

end
