(* ===== verification/CdfKrbServer.thy ===== *)
theory CdfKrbServer
  imports CdfKrbCtx CdfKmCryptor CdfFileUtils
begin

section \<open>The Kerberos server (\<open>modules/authentication/kerberos/krb_server.cpp\<close>)\<close>

text \<open>
  The server adds to its context a service name, credentials, a security context and the last answer
  it gave, all objects of the GSS library. The GSS library is a parameter on the same world: a
  call gives a major status, zero when it completed, and a minor status, which releasing an
  object also sets. Releasing a null object does nothing. Memory allocation does not fail.
\<close>

record 'w gss_env =
  go_import :: "'w \<Rightarrow> bytes \<Rightarrow> bytes \<Rightarrow> u32 \<times> 'w"
  go_acquire :: "'w \<Rightarrow> u32 \<times> 'w"
  go_accept :: "'w \<Rightarrow> bytes \<Rightarrow> (u32 \<times> u32 \<times> bool \<times> bytes) \<times> 'w"
  go_init_sec :: "'w \<Rightarrow> bytes option \<Rightarrow> (u32 \<times> u32 \<times> bool \<times> bytes) \<times> 'w"
  go_inquire :: "'w \<Rightarrow> (u32 \<times> u32) \<times> 'w"
  go_display :: "'w \<Rightarrow> (u32 \<times> u32 \<times> bytes) \<times> 'w"
  go_release :: "'w \<Rightarrow> u32 \<times> 'w"

record 'w krb_server = "'w krb_ctx" +
  g_initial :: bool
  s_service_name :: "nat option"
  s_sec_context :: "nat option"
  s_cred_out :: "nat option"
  s_cred_out_val :: bytes
  s_client :: bytes
  s_credentials :: "nat option"

definition KRB_MAX_FILE_SIZE :: nat where "KRB_MAX_FILE_SIZE = 1024000000"
definition KRB_MAX_KEYPASS_LEN :: nat where "KRB_MAX_KEYPASS_LEN = 1048576"
definition KRB_MAX_NAME_LENGTH :: nat where "KRB_MAX_NAME_LENGTH = 1048576"

subsection \<open>Objects of the GSS library\<close>

definition free_if :: "nat option \<Rightarrow> ('w, 'z) krb_mem_scheme \<Rightarrow> ('w, 'z) krb_mem_scheme" where
  "free_if p s = (if p = None then s else free_obj p s)"

definition gss_release :: "'w gss_env \<Rightarrow> nat option \<Rightarrow> ('w, 'z) krb_mem_scheme \<Rightarrow> u32 \<times> ('w, 'z) krb_mem_scheme" where
  "gss_release G p s = (let (m, s) = lib_call (go_release G) s in (m, free_if p s))"

text \<open>Releasing an object when there is one; otherwise the minor status stays.\<close>

definition release_in :: "'w gss_env \<Rightarrow> nat option \<Rightarrow> u32 \<times> ('w, 'z) krb_mem_scheme \<Rightarrow> u32 \<times> ('w, 'z) krb_mem_scheme" where
  "release_in G p ms = (if p = None then ms else gss_release G p (snd ms))"

definition obj_if :: "bool \<Rightarrow> ('w, 'z) krb_mem_scheme \<Rightarrow> nat option \<times> ('w, 'z) krb_mem_scheme" where
  "obj_if b s = (if b then (let (i, s) = new_obj s in (Some i, s)) else (None, s))"

subsection \<open>Starting\<close>

definition MakeGssOIDDescStruct ::
  "bytes \<Rightarrow> ('w, 'z) krb_mem_scheme \<Rightarrow> krb_result \<times> nat option \<times> ('w, 'z) krb_mem_scheme" where
  "MakeGssOIDDescStruct data s =
    (if 1048576 < length data \<or> data = [] then ((1, ''data size exceeds maximum allowed size''), None, s)
     else let (i, s) = new_obj s in ((0, ''MakeGssOIDDescStruct succeed''), Some i, s))"

definition MakeGssBufferDesc ::
  "bytes \<Rightarrow> ('w, 'z) krb_mem_scheme \<Rightarrow> krb_result \<times> nat option \<times> ('w, 'z) krb_mem_scheme" where
  "MakeGssBufferDesc data s =
    (if 1048576 < length data \<or> data = [] then ((1, ''data size exceeds maximum allowed size''), None, s)
     else let (i, s) = new_obj s in ((0, ''MakeGssBufferDesc succeed''), Some i, s))"

definition freeGssUserNameAndServiceNameBuffer ::
  "nat option \<Rightarrow> nat option \<Rightarrow> ('w, 'z) krb_mem_scheme \<Rightarrow> ('w, 'z) krb_mem_scheme" where
  "freeGssUserNameAndServiceNameBuffer u b s = free_if b (free_if u s)"

definition GSS_USER_NAME :: bytes where
  "GSS_USER_NAME = [CHR 0x2A, CHR 0x86, CHR 0x48, CHR 0x86, CHR 0xF7, CHR 0x12, CHR 0x01, CHR 0x02, CHR 0x01, CHR 0x01]"

text \<open>
  When a buffer could not be made its pointer is indeterminate, and the source frees it: \<open>misuse\<close>. The limits
  on the arguments rule this out.
\<close>

definition ServerInit ::
  "'w krb_env \<Rightarrow> 'w gss_env \<Rightarrow> bytes \<Rightarrow> bytes \<Rightarrow> 'w krb_server \<Rightarrow> (krb_result \<times> 'w krb_server) option" where
  "ServerInit E G servicePrincipleName keyTable s =
    (if servicePrincipleName = [] \<or> keyTable = [] \<or> KRB_MAX_NAME_LENGTH < length servicePrincipleName \<or>
        KRB_MAX_FILE_SIZE < length keyTable then Some ((2, ''ServerInit parameter error''), s)
     else case KerberosInitKeytab E keyTable servicePrincipleName KRB5KTNAME s of
       None \<Rightarrow> None
     | Some (ar, s) \<Rightarrow>
       if fst ar \<noteq> 0 then Some ((1, ''ServerInit keytab error''), s)
       else let s = s\<lparr>s_credentials := None, s_sec_context := None\<rparr>;
         (ar, u, s) = MakeGssOIDDescStruct GSS_USER_NAME s in
       if fst ar \<noteq> 0 then Some ((1, ''make gssOIDDescStruct error''), s\<lparr>misuse := True\<rparr>)
       else let (ar, b, s) = MakeGssBufferDesc servicePrincipleName s in
       if fst ar \<noteq> 0 then Some ((1, ''make gssBufferDesc error''), (free_if u s)\<lparr>misuse := True\<rparr>)
       else let (major, s) = lib_call (\<lambda>w. go_import G w servicePrincipleName GSS_USER_NAME) s;
         (p, s) = obj_if (major = 0) s; s = s\<lparr>s_service_name := p\<rparr> in
       if major \<noteq> 0 then
         Some ((1, ''gss_import_name Failed''), freeGssUserNameAndServiceNameBuffer u b (KerberosDestroyKeytab E s))
       else let (major, s) = lib_call (go_acquire G) s; (p, s) = obj_if (major = 0) s; s = s\<lparr>s_credentials := p\<rparr> in
       if major \<noteq> 0 then
         (let (m, s) = gss_release G (s_service_name s) s; s = s\<lparr>s_service_name := None\<rparr> in
          Some ((1, ''ServerInit gss_acquire_cred error''),
            freeGssUserNameAndServiceNameBuffer u b (KerberosDestroyKeytab E s)))
       else Some ((0, ''ServerInit success''), freeGssUserNameAndServiceNameBuffer u b (s\<lparr>g_initial := True\<rparr>)))"

subsection \<open>Authenticating a client\<close>

text \<open>The pointer of the security context is null after it was deleted.\<close>

definition delete_sec_context :: "'w gss_env \<Rightarrow> 'w krb_server \<Rightarrow> u32 \<times> 'w krb_server" where
  "delete_sec_context G s = (let (m, s) = gss_release G (s_sec_context s) s in (m, s\<lparr>s_sec_context := None\<rparr>))"

definition HandleServerAuthOutputToken ::
  "'w gss_env \<Rightarrow> nat option \<Rightarrow> bytes \<Rightarrow> 'w krb_server \<Rightarrow> krb_result \<times> bytes option \<times> 'w krb_server" where
  "HandleServerAuthOutputToken G tok val s =
    (if val = [] \<or> tok = None then ((1, ''outputToken is empty''), None, s)
     else let s = free_if (s_cred_out s) s;
       (i, s) = new_obj s;
       s = s\<lparr>s_cred_out := Some i, s_cred_out_val := val\<rparr>;
       (m, s) = gss_release G tok s in
     ((0, ''OK''), Some val, s))"

definition auth_error :: "u32 \<Rightarrow> u32 \<Rightarrow> bytes" where
  "auth_error minor major =
    ''ServerAuth Failed, minorStatus['' @ nat_str (unat minor) @ ''], majorStatus['' @ nat_str (unat major) @ '']''"

definition CheckReturn :: "'w gss_env \<Rightarrow> u32 \<Rightarrow> u32 \<Rightarrow> 'w krb_server \<Rightarrow> krb_result \<times> 'w krb_server" where
  "CheckReturn G major minor s =
    (if major \<noteq> 0 \<and> major \<noteq> 1 then
       (let (m, s) = delete_sec_context G s in ((if m \<noteq> 0 then m else major, auth_error m major), s))
     else if major = 1 then
       (let (m, s) = delete_sec_context G s in ((if m \<noteq> 0 then m else major, auth_error m major), s))
     else ((0, ''checkout success''), s))"

definition FreeClientPrincipalRes ::
  "'w gss_env \<Rightarrow> u32 \<Rightarrow> nat option \<Rightarrow> nat option \<Rightarrow> nat option \<Rightarrow> nat option \<Rightarrow> 'w krb_server \<Rightarrow> u32 \<times> 'w krb_server" where
  "FreeClientPrincipalRes G minor clientName serverName tok clientPrincipal s =
    (let (m, s) = release_in G tok (release_in G serverName (release_in G clientName (minor, s))) in
     (m, free_if clientPrincipal s))"

definition ServerGetClientPrincipal :: "'w gss_env \<Rightarrow> 'w krb_server \<Rightarrow> krb_result \<times> 'w krb_server" where
  "ServerGetClientPrincipal G s =
    (let ((major, minor), s) = lib_call (go_inquire G) s in
     if major \<noteq> 0 then
       ((if minor \<noteq> 0 then minor else major,
         ''gss_inquire_context failed, majorStatus:'' @ nat_str (unat major) @ '', minorStatus:'' @ nat_str (unat minor)), s)
     else let (cn, s) = obj_if True s; (sn, s) = obj_if True s;
       ((major, minor, name), s) = lib_call (go_display G) s; (tok, s) = obj_if (major = 0) s in
     if major \<noteq> 0 then
       (let (m, s) = FreeClientPrincipalRes G minor cn sn tok None s in
        ((if m \<noteq> 0 then m else major, ''gss_display_name failed''), s))
     else if name = [] then
       (let (m, s) = FreeClientPrincipalRes G minor cn sn tok None s in ((1, ''clientNameToken.length failed''), s))
     else let (cp, s) = obj_if True s; s = s\<lparr>s_client := c_str name\<rparr>;
       (m, s) = FreeClientPrincipalRes G minor cn sn tok cp s in
     ((0, ''ServerGetClientPrincipal succeed''), s))"

text \<open>\<open>outs\<close> is whether both output pointers are non-null; the second part of the answer is what they are set to.\<close>

definition ServerAuth ::
  "'w gss_env \<Rightarrow> bytes \<Rightarrow> bool \<Rightarrow> 'w krb_server \<Rightarrow> krb_result \<times> bytes option \<times> 'w krb_server" where
  "ServerAuth G credIn outs s =
    (if \<not> g_initial s then ((4, ''Server is not inited''), None, s)
     else if \<not> outs then ((1, ''Output parameters are null''), None, s)
     else if credIn = [] \<or> KRB_MAX_FILE_SIZE < length credIn then ((2, ''ServerAuth parameter error''), None, s)
     else let s = (free_if (s_cred_out s) s)\<lparr>s_cred_out := None, s_sec_context := None\<rparr>;
       ((major, minor, created, val), s) = lib_call (\<lambda>w. go_accept G w credIn) s;
       (p, s) = obj_if created s; s = s\<lparr>s_sec_context := p\<rparr>;
       (tok, s) = obj_if (val \<noteq> []) s;
       (ar, out, s) = HandleServerAuthOutputToken G tok val s in
     if fst ar \<noteq> 0 then
       (let (m, s) = (if s_sec_context s \<noteq> None then delete_sec_context G s else (minor, s));
            (m, s) = gss_release G tok s in (ar, out, s))
     else let (ar, s) = CheckReturn G major minor s in
     if fst ar \<noteq> 0 then (ar, out, s)
     else let (ret, s) = ServerGetClientPrincipal G s; (m, s) = delete_sec_context G s in (ret, out, s))"

text \<open>The destructor.\<close>

definition KrbServer_destroy :: "'w krb_env \<Rightarrow> 'w gss_env \<Rightarrow> 'w krb_server \<Rightarrow> 'w krb_server" where
  "KrbServer_destroy E G s =
    (let s = (free_if (s_cred_out s) s)\<lparr>s_cred_out := None\<rparr>;
       (m, s) = release_in G (s_service_name s) (0, s); s = s\<lparr>s_service_name := None\<rparr>;
       (m, s) = release_in G (s_credentials s) (m, s); s = s\<lparr>s_credentials := None\<rparr>;
       (m, s) = release_in G (s_sec_context s) (m, s); s = s\<lparr>s_sec_context := None\<rparr> in
     KerberosDestroyKeytab E s)"

subsection \<open>The keytab file\<close>

definition S_ISREG :: "u32 \<Rightarrow> bool" where
  "S_ISREG m \<longleftrightarrow> m AND S_IFMT = S_IFREG"

definition KrbServer_CheckFile :: "file_sys \<Rightarrow> bytes \<Rightarrow> bool" where
  "KrbServer_CheckFile fs configPath =
    (if PATH_MAX < length configPath then False
     else case fs_realpath fs (c_str configPath) of
       None \<Rightarrow> False
     | Some confRealPath \<Rightarrow>
       (case fs_stat fs confRealPath of
          None \<Rightarrow> False
        | Some b \<Rightarrow> if \<not> S_ISREG (st_mode b) \<or> st_size b \<le> 0 \<or> int KRB_MAX_FILE_SIZE < st_size b then False else True))"

definition ReadKeyTabContent :: "file_sys \<Rightarrow> bytes \<Rightarrow> nat \<Rightarrow> bytes option" where
  "ReadKeyTabContent fs file fileSize =
    (case fs_content fs file of None \<Rightarrow> None | Some c \<Rightarrow> if length c < fileSize then None else Some (take fileSize c))"

definition GetKeyTabVal :: "file_sys \<Rightarrow> bytes \<Rightarrow> bytes option" where
  "GetKeyTabVal fs path =
    (case fs_realpath fs (c_str path) of
       None \<Rightarrow> None
     | Some filePath \<Rightarrow>
       (case fs_length fs filePath of
          None \<Rightarrow> None
        | Some fileSize \<Rightarrow>
          if fileSize = 0 \<or> KRB_MAX_FILE_SIZE < fileSize then None else ReadKeyTabContent fs filePath fileSize))"

definition ReadCipherFromFile :: "file_sys \<Rightarrow> bytes \<Rightarrow> bytes option" where
  "ReadCipherFromFile fs path =
    (case CanonicalPath (fs_realpath fs) path of
       None \<Rightarrow> None
     | Some realPath \<Rightarrow>
       if \<not> CheckUserAccess fs realPath R_OK \<or> \<not> fst (IsFileValid fs realPath []) then None
       else if CheckUserAccess fs realPath R_OK then None
       else fs_content fs realPath)"

text \<open>
  The buffer and length handed out. \<open>memcpy_s\<close> refuses an empty plaintext, whose data is a null pointer, and one that is
  longer than the ciphertext; the result of the decryption is not looked at.
\<close>

definition GetKerberosKeytab ::
  "file_sys \<Rightarrow> 'w bao_env \<Rightarrow> bytes \<Rightarrow> bool \<Rightarrow> bool \<Rightarrow> bao_state \<Rightarrow> 'w \<Rightarrow> (bytes \<times> u32) option outcome \<times> 'w" where
  "GetKerberosKeytab fs E path outs keyTabEncrypted s w =
    (if \<not> outs then (Ret None, w)
     else if PATH_MAX < length path then (Ret None, w)
     else if \<not> keyTabEncrypted then
       (Ret (map_option (\<lambda>keytab. (keytab, of_nat (length keytab))) (GetKeyTabVal fs path)), w)
     else case ReadCipherFromFile fs path of
       None \<Rightarrow> (Ret None, w)
     | Some c \<Rightarrow>
       if KRB_MAX_KEYPASS_LEN < length c then (Ret None, w)
       else let n = length c; (r, w) = KmCryptor_Decrypt E (Borrow OPENBAO) AES256_GCM c 0 s w in
         (map_outcome (\<lambda>(rc, plaintext).
            if \<not> memcpy_s_ok n \<or> plaintext = [] \<or> n < length plaintext then None
            else Some (plaintext @ replicate (n - length plaintext) (CHR 0x00), of_nat n)) r, w))"

subsection \<open>What an authentication answers\<close>

text \<open>
  The name of the client when the library accepts its credentials with an answer and knows the client's name: the
  calls of a successful authentication, each on the world the one before left.
\<close>

definition accepted_name :: "'w gss_env \<Rightarrow> bytes \<Rightarrow> 'w \<Rightarrow> bytes option" where
  "accepted_name G credIn w =
    (let ((major, minor, created, val), w) = go_accept G w credIn in
     if major \<noteq> 0 \<or> val = [] then None
     else let w = snd (go_release G w); ((major, minor), w) = go_inquire G w in
     if major \<noteq> 0 then None
     else let ((major, minor, name), w) = go_display G w in
     if major \<noteq> 0 \<or> name = [] then None else Some name)"

text \<open>Only the world, the objects and their numbers change.\<close>

definition mem_same :: "('w, 'z) krb_mem_scheme \<Rightarrow> ('w, 'z) krb_mem_scheme \<Rightarrow> bool" where
  "mem_same s s' \<longleftrightarrow> misuse s' = misuse s \<and> krb_mem.more s' = krb_mem.more s"

lemma mem_same_refl [simp]: "mem_same s s"
  by (simp add: mem_same_def)

lemma mem_same_trans: "mem_same s t \<Longrightarrow> mem_same t u \<Longrightarrow> mem_same s u"
  by (simp add: mem_same_def)

lemma mem_same_upd [simp]:
  "mem_same s (t\<lparr>kw := w\<rparr>) = mem_same s t" "mem_same s (t\<lparr>objs := X\<rparr>) = mem_same s t" "mem_same s (t\<lparr>next_obj := n\<rparr>) = mem_same s t"
  "mem_same (s\<lparr>kw := w\<rparr>) t = mem_same s t" "mem_same (s\<lparr>objs := X\<rparr>) t = mem_same s t" "mem_same (s\<lparr>next_obj := n\<rparr>) t = mem_same s t"
  by (simp_all add: mem_same_def)

lemma mem_same_ctx:
  "mem_same s s' \<Longrightarrow> misuse s' = misuse s \<and> c_context s' = c_context s \<and> c_principal s' = c_principal s \<and> c_entry s' = c_entry s \<and>
    c_keytab s' = c_keytab s \<and> c_ccache s' = c_ccache s \<and> c_opts s' = c_opts s \<and> krb_ctx.more s' = krb_ctx.more s"
  by (cases s; cases s') (simp add: mem_same_def)

lemma mem_same_server:
  "mem_same s s' \<Longrightarrow> g_initial s' = g_initial s \<and> s_service_name s' = s_service_name s \<and> s_sec_context s' = s_sec_context s \<and>
    s_cred_out s' = s_cred_out s \<and> s_client s' = s_client s \<and> s_credentials s' = s_credentials s"
  by (cases s; cases s') (simp add: mem_same_def)

lemma obj_if_state:
  "obj_if b s = (p, s') \<Longrightarrow> mem_same s s' \<and> objs s' = objs s + obj_of p \<and> kw s' = kw s \<and> (p \<noteq> None) = b"
  by (auto simp: obj_if_def new_obj_def split: if_splits)

lemma lib_call_eq: "lib_call f s = (fst (f (kw s)), s\<lparr>kw := snd (f (kw s))\<rparr>)"
  by (simp add: lib_call_def split: prod.split)

lemma free_if_state: "objs s = X + obj_of p \<Longrightarrow> mem_same s (free_if p s) \<and> objs (free_if p s) = X \<and> kw (free_if p s) = kw s"
  using free_obj_alive[of s p] by (cases p) (simp_all add: free_if_def)

lemma gss_release_state:
  "gss_release G p s = (m, s') \<Longrightarrow> objs s = X + obj_of p \<Longrightarrow>
    mem_same s s' \<and> objs s' = X \<and> kw s' = snd (go_release G (kw s)) \<and> m = fst (go_release G (kw s))"
  using free_if_state[of "s\<lparr>kw := snd (go_release G (kw s))\<rparr>" X p] by (auto simp: gss_release_def lib_call_eq)

lemma release_in_state:
  "release_in G p (m, s) = (m', s') \<Longrightarrow> objs s = X + obj_of p \<Longrightarrow> mem_same s s' \<and> objs s' = X"
  using gss_release_state[of G p s m' s' X] by (cases p) (auto simp: release_in_def)

lemma delete_sec_context_state:
  "delete_sec_context G s = (m, s') \<Longrightarrow> objs s = X + obj_of (s_sec_context s) \<Longrightarrow>
    mem_same (s\<lparr>s_sec_context := None\<rparr>) s' \<and> objs s' = X"
proof -
  assume d: "delete_sec_context G s = (m, s')" and o: "objs s = X + obj_of (s_sec_context s)"
  obtain m1 s1 where 1: "gss_release G (s_sec_context s) s = (m1, s1)"
    by (metis prod.exhaust_sel)
  note e = gss_release_state[OF 1 o]
  have "s' = s1\<lparr>s_sec_context := None\<rparr>"
    using d by (simp add: delete_sec_context_def 1)
  then show ?thesis
    using e by (cases s; cases s1) (simp add: mem_same_def)
qed

lemma FreeClientPrincipalRes_state:
  assumes f: "FreeClientPrincipalRes G minor cn sn tok cp s = (m, s')"
    and o: "objs s = X + obj_of cp + obj_of tok + obj_of sn + obj_of cn"
  shows "mem_same s s' \<and> objs s' = X"
proof -
  obtain m1 s1 where 1: "release_in G cn (minor, s) = (m1, s1)"
    by (metis prod.exhaust_sel)
  note e1 = release_in_state[OF 1 o]
  obtain m2 s2 where 2: "release_in G sn (m1, s1) = (m2, s2)"
    by (metis prod.exhaust_sel)
  note e2 = release_in_state[OF 2 conjunct2[OF e1]]
  obtain m3 s3 where 3: "release_in G tok (m2, s2) = (m3, s3)"
    by (metis prod.exhaust_sel)
  note e3 = release_in_state[OF 3 conjunct2[OF e2]]
  have "s' = free_if cp s3"
    using f by (simp add: FreeClientPrincipalRes_def 1 2 3)
  then show ?thesis
    using free_if_state[OF conjunct2[OF e3]] e1 e2 e3 by (simp add: mem_same_def)
qed

lemma ServerGetClientPrincipal_state:
  assumes g: "ServerGetClientPrincipal G s = (ret, s')"
  shows "mem_same (s\<lparr>s_client := s_client s'\<rparr>) s' \<and> objs s' = objs s"
    "fst ret = 0 \<longleftrightarrow> fst (fst (go_inquire G (kw s))) = 0 \<and>
      (let r = fst (go_display G (snd (go_inquire G (kw s)))) in fst r = 0 \<and> snd (snd r) \<noteq> [])"
    "s_client s' = (if fst ret = 0 then c_str (snd (snd (fst (go_display G (snd (go_inquire G (kw s))))))) else s_client s)"
proof -
  obtain major minor w1 where 1: "go_inquire G (kw s) = ((major, minor), w1)"
    by (metis prod.exhaust_sel)
  obtain major2 minor2 name w2 where 2: "go_display G w1 = ((major2, minor2, name), w2)"
    by (metis prod.exhaust_sel)
  have "(mem_same (s\<lparr>s_client := s_client s'\<rparr>) s' \<and> objs s' = objs s) \<and>
    (fst ret = 0 \<longleftrightarrow> major = 0 \<and> major2 = 0 \<and> name \<noteq> []) \<and> s_client s' = (if fst ret = 0 then c_str name else s_client s)"
  proof (cases "major = 0")
    case False
    then show ?thesis
      using g by (auto simp: ServerGetClientPrincipal_def lib_call_eq 1 split: if_splits)
  next
    case True
    define s1 where "s1 = s\<lparr>kw := w1\<rparr>"
    obtain cn s2 where 3: "obj_if True s1 = (cn, s2)"
      by (metis prod.exhaust_sel)
    obtain sn s3 where 4: "obj_if True s2 = (sn, s3)"
      by (metis prod.exhaust_sel)
    obtain tok s4 where 5: "obj_if (major2 = 0) (s3\<lparr>kw := w2\<rparr>) = (tok, s4)"
      by (metis prod.exhaust_sel)
    obtain cp s5 where 6: "obj_if True s4 = (cp, s5)"
      by (metis prod.exhaust_sel)
    note E = obj_if_state[OF 3] obj_if_state[OF 4] obj_if_state[OF 5] obj_if_state[OF 6]
    define s6 where "s6 = s5\<lparr>s_client := c_str name\<rparr>"
    obtain m7 s7 where 7: "FreeClientPrincipalRes G minor2 cn sn tok None s4 = (m7, s7)"
      by (metis prod.exhaust_sel)
    obtain m8 s8 where 8: "FreeClientPrincipalRes G minor2 cn sn tok cp s6 = (m8, s8)"
      by (metis prod.exhaust_sel)
    have o4: "objs s4 = objs s + obj_of None + obj_of tok + obj_of sn + obj_of cn"
      and o6: "objs s6 = objs s + obj_of cp + obj_of tok + obj_of sn + obj_of cn"
      using E by (simp_all add: s1_def s6_def ac_simps)
    note F = FreeClientPrincipalRes_state[OF 7 o4] FreeClientPrincipalRes_state[OF 8 o6]
    have m: "mem_same s s4" "mem_same s s5"
      using E mem_same_trans by (auto simp: s1_def mem_same_def)
    then have m6: "mem_same (s\<lparr>s_client := c_str name\<rparr>) s6"
      by (cases s; cases s5) (simp add: mem_same_def s6_def)
    have w3: "kw s3 = w1"
      using E by (simp add: s1_def)
    have r: "(ret, s') = (if major2 \<noteq> 0 then ((if m7 \<noteq> 0 then m7 else major2, ''gss_display_name failed''), s7)
       else if name = [] then ((1, ''clientNameToken.length failed''), s7)
       else ((0, ''ServerGetClientPrincipal succeed''), s8))"
      using g True unfolding ServerGetClientPrincipal_def lib_call_eq 1 fst_conv snd_conv prod.case s1_def[symmetric] Let_def 3 4 w3 2
        5 6 s6_def[symmetric] 7 8 by simp
    have m7: "mem_same s s7" and m8: "mem_same (s\<lparr>s_client := c_str name\<rparr>) s8"
      using F m(1) m6 mem_same_trans by blast+
    have c: "s_client s7 = s_client s" "s_client s8 = c_str name"
      using mem_same_server[OF m7] mem_same_server[OF m8] by simp_all
    then have "mem_same (s\<lparr>s_client := s_client s7\<rparr>) s7" "mem_same (s\<lparr>s_client := s_client s8\<rparr>) s8"
      using m7 m8 by simp_all
    then show ?thesis
      using r True F c by (auto split: if_splits)
  qed
  note R = this
  show "mem_same (s\<lparr>s_client := s_client s'\<rparr>) s' \<and> objs s' = objs s"
    by (rule conjunct1[OF R])
  show "fst ret = 0 \<longleftrightarrow> fst (fst (go_inquire G (kw s))) = 0 \<and>
      (let r = fst (go_display G (snd (go_inquire G (kw s)))) in fst r = 0 \<and> snd (snd r) \<noteq> [])"
    unfolding 1 2 Let_def fst_conv snd_conv using R by blast
  show "s_client s' = (if fst ret = 0 then c_str (snd (snd (fst (go_display G (snd (go_inquire G (kw s))))))) else s_client s)"
    unfolding 1 2 fst_conv snd_conv using R by blast
qed

lemma HandleServerAuthOutputToken_state:
  assumes h: "HandleServerAuthOutputToken G tok val s = (ar, out, s')" and o: "objs s = X + obj_of tok + obj_of (s_cred_out s)"
    and t: "tok \<noteq> None \<longleftrightarrow> val \<noteq> []"
  shows "if val = [] then fst ar = 1 \<and> out = None \<and> s' = s
    else fst ar = 0 \<and> out = Some val \<and> kw s' = snd (go_release G (kw s)) \<and> objs s' = X + obj_of (s_cred_out s') \<and>
      mem_same (s\<lparr>s_cred_out := s_cred_out s', s_cred_out_val := val\<rparr>) s'"
proof (cases "val = []")
  case False
  define s1 where "s1 = free_if (s_cred_out s) s"
  obtain i s2 where 2: "new_obj s1 = (i, s2)"
    by (metis prod.exhaust_sel)
  define s3 where "s3 = s2\<lparr>s_cred_out := Some i, s_cred_out_val := val\<rparr>"
  obtain m s4 where 4: "gss_release G tok s3 = (m, s4)"
    by (metis prod.exhaust_sel)
  have r: "(ar, out, s') = ((0, ''OK''), Some val, s4)"
    using h False t unfolding HandleServerAuthOutputToken_def s1_def[symmetric] Let_def 2 prod.case s3_def[symmetric] 4
    by (auto split: if_splits)
  note e1 = free_if_state[OF o, folded s1_def]
  have e2: "mem_same s s2" "objs s2 = X + obj_of tok + {#i#}" "kw s2 = kw s"
    using 2 e1 by (auto simp: new_obj_def)
  have e3: "mem_same (s\<lparr>s_cred_out := Some i, s_cred_out_val := val\<rparr>) s3" "objs s3 = X + {#i#} + obj_of tok" "kw s3 = kw s"
    using e2 by (cases s; cases s2; simp add: mem_same_def s3_def)+
  note e4 = gss_release_state[OF 4 e3(2)]
  have m4: "mem_same (s\<lparr>s_cred_out := Some i, s_cred_out_val := val\<rparr>) s4"
    using e3(1) e4 mem_same_trans by blast
  have "s_cred_out s4 = Some i"
    using mem_same_server[OF m4] by simp
  then show ?thesis
    using r False e4 e3 m4 by simp
qed (use h in \<open>auto simp: HandleServerAuthOutputToken_def\<close>)

lemma CheckReturn_state:
  assumes c: "CheckReturn G major minor s = (ar, s')" and o: "objs s = X + obj_of (s_sec_context s)"
  shows "if major = 0 then fst ar = 0 \<and> s' = s else fst ar \<noteq> 0 \<and> mem_same (s\<lparr>s_sec_context := None\<rparr>) s' \<and> objs s' = X"
proof (cases "major = 0")
  case False
  obtain m s1 where 1: "delete_sec_context G s = (m, s1)"
    by (metis prod.exhaust_sel)
  show ?thesis
    using c False delete_sec_context_state[OF 1 o] by (auto simp: CheckReturn_def 1 split: if_splits)
qed (use c in \<open>auto simp: CheckReturn_def\<close>)

text \<open>Whether the arguments let an authentication start.\<close>

definition auth_args :: "bytes \<Rightarrow> bool \<Rightarrow> 'w krb_server \<Rightarrow> bool" where
  "auth_args credIn outs s \<longleftrightarrow> g_initial s \<and> outs \<and> credIn \<noteq> [] \<and> length credIn \<le> KRB_MAX_FILE_SIZE"

lemma ServerAuth_args: "\<not> auth_args credIn outs s \<Longrightarrow> ServerAuth G credIn outs s = (ar, out, s') \<Longrightarrow> fst ar \<noteq> 0 \<and> out = None \<and> s' = s"
  by (auto simp: auth_args_def ServerAuth_def split: if_splits)

text \<open>What an authentication leaves alone.\<close>

definition cred_same :: "'w krb_server \<Rightarrow> 'w krb_server \<Rightarrow> bool" where
  "cred_same s s' \<longleftrightarrow> misuse s' = misuse s \<and> c_context s' = c_context s \<and> c_principal s' = c_principal s \<and>
     c_entry s' = c_entry s \<and> c_keytab s' = c_keytab s \<and> c_ccache s' = c_ccache s \<and> c_opts s' = c_opts s \<and>
     g_initial s' = g_initial s \<and> s_service_name s' = s_service_name s \<and> s_credentials s' = s_credentials s"

lemma cred_same_trans: "cred_same s t \<Longrightarrow> cred_same t u \<Longrightarrow> cred_same s u"
  by (simp add: cred_same_def)

lemma cred_same_upd [simp]:
  "cred_same s (t\<lparr>kw := w\<rparr>) = cred_same s t"
  "cred_same s (t\<lparr>s_cred_out := p\<rparr>) = cred_same s t" "cred_same s (t\<lparr>s_cred_out_val := v\<rparr>) = cred_same s t"
  "cred_same s (t\<lparr>s_client := c\<rparr>) = cred_same s t" "cred_same s (t\<lparr>s_sec_context := q\<rparr>) = cred_same s t"
  "cred_same (s\<lparr>kw := w\<rparr>) t = cred_same s t"
  "cred_same (s\<lparr>s_cred_out := p\<rparr>) t = cred_same s t" "cred_same (s\<lparr>s_cred_out_val := v\<rparr>) t = cred_same s t"
  "cred_same (s\<lparr>s_client := c\<rparr>) t = cred_same s t" "cred_same (s\<lparr>s_sec_context := q\<rparr>) t = cred_same s t"
  by (simp_all add: cred_same_def)

lemma mem_cred_same: "mem_same s t \<Longrightarrow> cred_same s t"
  by (cases s; cases t) (simp add: cred_same_def mem_same_def)

lemma ServerAuth_state:
  assumes a: "ServerAuth G credIn outs s = (ar, out, s')" and g: "auth_args credIn outs s"
    and o: "objs s = X + obj_of (s_cred_out s)"
  shows "objs s' = X + obj_of (s_cred_out s') \<and> s_sec_context s' = None \<and> cred_same s s'"
    "fst ar = 0 \<longleftrightarrow> accepted_name G credIn (kw s) \<noteq> None"
    "s_client s' = (case accepted_name G credIn (kw s) of Some name \<Rightarrow> c_str name | None \<Rightarrow> s_client s)"
proof -
  define s1 where "s1 = (free_if (s_cred_out s) s)\<lparr>s_cred_out := None, s_sec_context := None\<rparr>"
  have e1: "objs s1 = X" "cred_same s s1" "kw s1 = kw s" "s_client s1 = s_client s" "s_cred_out s1 = None"
    using free_if_state[OF o] mem_cred_same mem_same_server[of s "free_if (s_cred_out s) s"] by (auto simp: s1_def)
  obtain major minor created val w where acc: "go_accept G (kw s) credIn = ((major, minor, created, val), w)"
    by (metis prod.exhaust_sel)
  obtain p s2 where 2: "obj_if created (s1\<lparr>kw := w\<rparr>) = (p, s2)"
    by (metis prod.exhaust_sel)
  define s3 where "s3 = s2\<lparr>s_sec_context := p\<rparr>"
  obtain tok s4 where 4: "obj_if (val \<noteq> []) s3 = (tok, s4)"
    by (metis prod.exhaust_sel)
  obtain ar5 out5 s5 where 5: "HandleServerAuthOutputToken G tok val s4 = (ar5, out5, s5)"
    by (metis prod.exhaust_sel)
  obtain ar6 s6 where 6: "CheckReturn G major minor s5 = (ar6, s6)"
    by (metis prod.exhaust_sel)
  obtain ar7 s7 where 7: "ServerGetClientPrincipal G s6 = (ar7, s7)"
    by (metis prod.exhaust_sel)
  obtain m8 s8 where 8: "delete_sec_context G s7 = (m8, s8)"
    by (metis prod.exhaust_sel)
  obtain m9 s9 where 9: "(if s_sec_context s5 \<noteq> None then delete_sec_context G s5 else (minor, s5)) = (m9, s9)"
    by (metis prod.exhaust_sel)
  obtain m10 s10 where 10: "gss_release G tok s9 = (m10, s10)"
    by (metis prod.exhaust_sel)
  have r: "(ar, out, s') = (if fst ar5 \<noteq> 0 then (ar5, out5, s10) else if fst ar6 \<noteq> 0 then (ar6, out5, s6) else (ar7, out5, s8))"
    using a g unfolding ServerAuth_def s1_def[symmetric] Let_def lib_call_eq e1(3) acc fst_conv snd_conv prod.case 2
      s3_def[symmetric] 4 5 6 7 8 9 10 by (auto simp: auth_args_def split: if_splits)
  note e2 = obj_if_state[OF 2]
  have e3: "objs s3 = X + obj_of p" "cred_same s s3" "kw s3 = w" "s_sec_context s3 = p" "s_client s3 = s_client s" "s_cred_out s3 = None"
    using e2 e1 mem_cred_same[of "s1\<lparr>kw := w\<rparr>" s2] cred_same_trans[of s s1 s2] mem_same_server[of "s1\<lparr>kw := w\<rparr>" s2] by (simp_all add: s3_def)
  note e4 = obj_if_state[OF 4]
  have f4: "objs s4 = X + obj_of p + obj_of tok + obj_of (s_cred_out s4)" "cred_same s s4" "kw s4 = w" "s_sec_context s4 = p"
    "s_client s4 = s_client s" "s_cred_out s4 = None"
    using e4 e3 mem_cred_same[of s3 s4] cred_same_trans[of s s3 s4] mem_same_server[of s3 s4] by simp_all
  note e5 = HandleServerAuthOutputToken_state[OF 5 f4(1)]
  have t: "tok \<noteq> None \<longleftrightarrow> val \<noteq> []"
    using e4 by simp
  note e5 = e5[OF t]
  have "(objs s' = X + obj_of (s_cred_out s') \<and> s_sec_context s' = None \<and> cred_same s s') \<and>
    (fst ar = 0 \<longleftrightarrow> accepted_name G credIn (kw s) \<noteq> None) \<and>
    s_client s' = (case accepted_name G credIn (kw s) of Some name \<Rightarrow> c_str name | None \<Rightarrow> s_client s)"
  proof (cases "val = []")
    case True
    then have b: "fst ar5 = 1" "s5 = s4" "tok = None"
      using e5 t by simp_all
    have o4: "objs s4 = X + obj_of (s_sec_context s4)"
      using f4 b by simp
    have s9: "objs s9 = X \<and> s_sec_context s9 = None \<and> cred_same s4 s9 \<and> s_client s9 = s_client s4 \<and> s_cred_out s9 = None"
      using 9 o4 f4 delete_sec_context_state[of G s4 m9 s9 X] mem_cred_same[of "s4\<lparr>s_sec_context := None\<rparr>" s9]
        mem_same_server[of "s4\<lparr>s_sec_context := None\<rparr>" s9] by (auto simp: b cred_same_def split: if_splits)
    have "objs s9 = X + obj_of tok"
      using s9 b by simp
    note e10 = gss_release_state[OF 10 this]
    have s': "ar = ar5" "s' = s10"
      using r b by simp_all
    have "accepted_name G credIn (kw s) = None"
      using True by (simp add: accepted_name_def acc)
    then show ?thesis
      using e10 s9 f4 mem_cred_same[of s9 s10] mem_same_server[of s9 s10] cred_same_trans[of s s4 s9] cred_same_trans[of s s9 s10]
      by (simp add: s' b)
  next
    case False
    then have b: "fst ar5 = 0" "kw s5 = snd (go_release G w)" "objs s5 = X + obj_of p + obj_of (s_cred_out s5)"
      "mem_same (s4\<lparr>s_cred_out := s_cred_out s5, s_cred_out_val := val\<rparr>) s5"
      using e5 f4 by simp_all
    have s5: "s_sec_context s5 = p" "s_client s5 = s_client s" "cred_same s s5"
      using mem_same_server[OF b(4)] f4 mem_cred_same[OF b(4)] cred_same_trans[of s s4 s5] by simp_all
    have o5: "objs s5 = (X + obj_of (s_cred_out s5)) + obj_of (s_sec_context s5)"
      using b(3) s5(1) by (simp add: ac_simps)
    note e6 = CheckReturn_state[OF 6 o5]
    show ?thesis
    proof (cases "major = 0")
      case m: False
      then have e: "fst ar6 \<noteq> 0" "mem_same (s5\<lparr>s_sec_context := None\<rparr>) s6" "objs s6 = X + obj_of (s_cred_out s5)"
        using e6 by simp_all
      have "accepted_name G credIn (kw s) = None"
        using m by (simp add: accepted_name_def acc)
      then show ?thesis
        using r b(1) e s5 mem_same_server[OF e(2)] mem_cred_same[OF e(2)] cred_same_trans[of s s5 s6] by simp
    next
      case m: True
      then have s6: "fst ar6 = 0" "s6 = s5"
        using e6 by simp_all
      note e7 = ServerGetClientPrincipal_state[OF 7[unfolded s6(2)]]
      have m7: "mem_same (s5\<lparr>s_client := s_client s7\<rparr>) s7"
        using e7(1) by simp
      have s7: "s_sec_context s7 = p" "s_cred_out s7 = s_cred_out s5" "cred_same s s7"
        using mem_same_server[OF m7] mem_cred_same[OF m7] s5 cred_same_trans[of s s5 s7] by simp_all
      have "objs s7 = (X + obj_of (s_cred_out s5)) + obj_of (s_sec_context s7)"
        using e7(1) o5 s7 s5 by simp
      note e8 = delete_sec_context_state[OF 8 this]
      have m8: "s_sec_context s8 = None" "s_cred_out s8 = s_cred_out s5" "s_client s8 = s_client s7" "cred_same s s8"
        using mem_same_server[OF conjunct1[OF e8]] mem_cred_same[OF conjunct1[OF e8]] s7 cred_same_trans[of s s7 s8] by simp_all
      have s': "ar = ar7" "s' = s8"
        using r b(1) s6 by simp_all
      have a: "accepted_name G credIn (kw s) =
          (if fst ar7 = 0 then Some (snd (snd (fst (go_display G (snd (go_inquire G (kw s5))))))) else None)"
        unfolding e7(2) using m False by (simp add: accepted_name_def acc b(2) Let_def split: prod.split)
      show ?thesis
        using e8 m8 e7(3) s5 by (simp add: s' a)
    qed
  qed
  note R = this
  show "objs s' = X + obj_of (s_cred_out s') \<and> s_sec_context s' = None \<and> cred_same s s'"
    by (rule conjunct1[OF R])
  show "fst ar = 0 \<longleftrightarrow> accepted_name G credIn (kw s) \<noteq> None"
    by (rule conjunct1[OF conjunct2[OF R]])
  show "s_client s' = (case accepted_name G credIn (kw s) of Some name \<Rightarrow> c_str name | None \<Rightarrow> s_client s)"
    by (rule conjunct2[OF conjunct2[OF R]])
qed

subsection \<open>The life of a server\<close>

definition srv_objs :: "'w krb_server \<Rightarrow> nat multiset" where
  "srv_objs s = obj_of (s_service_name s) + obj_of (s_sec_context s) + obj_of (s_credentials s) + obj_of (s_cred_out s)"

text \<open>Not started, or started: with the objects of a keytab, and a name and credentials.\<close>

definition srv_ok :: "'w krb_server \<Rightarrow> bool" where
  "srv_ok s \<longleftrightarrow> \<not> misuse s \<and> s_sec_context s = None \<and>
     (ctx_at no_objs (obj_of (s_cred_out s)) s \<and> s_service_name s = None \<and> s_credentials s = None \<or>
      ctx_at keytab_objs (srv_objs s) s \<and> s_service_name s \<noteq> None \<and> s_credentials s \<noteq> None)"

definition KrbServer_new :: "bool \<Rightarrow> 'w \<Rightarrow> 'w krb_server" where
  "KrbServer_new initial w = \<lparr>kw = w, objs = {#}, next_obj = 0, misuse = False, c_context = None, c_principal = None,
     c_principal_name = [], c_entry = None, c_entry_val = zero_entry, c_keytab = None, c_ccache = None, c_opts = None,
     g_initial = initial, s_service_name = None, s_sec_context = None, s_cred_out = None, s_cred_out_val = [],
     s_client = [], s_credentials = None\<rparr>"

text \<open>\<open>GetAuthentication\<close> makes a new server for the one name it knows.\<close>

definition KERBEROS :: bytes where "KERBEROS = ''kerberos''"

definition KrbServer_GetAuthentication :: "bytes \<Rightarrow> bool \<Rightarrow> 'w \<Rightarrow> 'w krb_server option" where
  "KrbServer_GetAuthentication name initial w = (if name \<noteq> KERBEROS then None else Some (KrbServer_new initial w))"

text \<open>The bytes \<open>/dev/random\<close> gives, none when it cannot be opened; fewer than asked for are a failed read.\<close>

definition GetRandomValueInternal :: "bytes option \<Rightarrow> u64" where
  "GetRandomValueInternal urandom =
    (case urandom of
       None \<Rightarrow> 0
     | Some bs \<Rightarrow> if length bs < 8 then 0 else foldr (\<lambda>b v. push_bit 8 v OR ucast (u8_of b)) (take 8 bs) 0)"

text \<open>
  A server is started only while it is not running, as often as its caller likes; clients are authenticated at any
  time. \<open>g_initial\<close> is one variable for all servers, which another may set.
\<close>

inductive srv_life :: "'w krb_env \<Rightarrow> 'w gss_env \<Rightarrow> 'w krb_server \<Rightarrow> bool" for E G where
  life_new: "srv_life E G (KrbServer_new initial w)"
| life_init: "srv_life E G s \<Longrightarrow> ctx_clean s \<Longrightarrow> ServerInit E G name keytab s = Some (ar, s') \<Longrightarrow> srv_life E G s'"
| life_auth: "srv_life E G s \<Longrightarrow> ServerAuth G credIn outs s = (ar, out, s') \<Longrightarrow> srv_life E G s'"
| life_other: "srv_life E G s \<Longrightarrow> srv_life E G (s\<lparr>g_initial := True\<rparr>)"

lemma ctx_at_server [simp]:
  "ctx_at sh F (s\<lparr>s_service_name := p\<rparr>) = ctx_at sh F s" "ctx_at sh F (s\<lparr>s_sec_context := p\<rparr>) = ctx_at sh F s"
  "ctx_at sh F (s\<lparr>s_cred_out := p\<rparr>) = ctx_at sh F s" "ctx_at sh F (s\<lparr>s_credentials := p\<rparr>) = ctx_at sh F s"
  "ctx_at sh F (s\<lparr>g_initial := b\<rparr>) = ctx_at sh F s"
  by (simp_all add: ctx_at_def ctx_defs)

text \<open>The context does not notice changes of the memory outside its objects.\<close>

lemma ctx_at_mem_same:
  "mem_same s s' \<Longrightarrow> ctx_at sh F s \<Longrightarrow> objs s' = ctx_objs s + F' \<Longrightarrow> ctx_at sh F' s'"
  using mem_same_ctx[of s s'] by (simp add: ctx_at_def ctx_owns_def ctx_objs_def)

lemma ctx_same_server:
  "ctx_same s s' \<Longrightarrow> misuse s' = misuse s \<and> g_initial s' = g_initial s \<and> s_service_name s' = s_service_name s \<and>
    s_sec_context s' = s_sec_context s \<and> s_cred_out s' = s_cred_out s \<and> s_client s' = s_client s \<and> s_credentials s' = s_credentials s"
  by (cases s; cases s') (simp add: ctx_same_def)

lemma ctx_at_objs: "ctx_at sh F s \<Longrightarrow> objs s = ctx_objs s + F"
  by (simp add: ctx_at_def ctx_owns_def)

lemma new_obj_at: "new_obj s = (i, s') \<Longrightarrow> ctx_at sh F s \<Longrightarrow> ctx_at sh (F + obj_of (Some i)) s' \<and> mem_same s s'"
  by (auto simp: new_obj_def ctx_at_def ctx_defs)

lemma obj_if_at: "obj_if b s = (p, s') \<Longrightarrow> ctx_at sh F s \<Longrightarrow> ctx_at sh (F + obj_of p) s' \<and> mem_same s s' \<and> (p \<noteq> None) = b"
  using obj_if_state[of b s p s'] ctx_at_mem_same[of s s' sh F "F + obj_of p"] ctx_at_objs[of sh F s] by (simp add: add.assoc)

lemma free_if_at: "ctx_at sh (F + obj_of p) s \<Longrightarrow> ctx_at sh F (free_if p s) \<and> mem_same s (free_if p s)"
  using free_if_state[of s "ctx_objs s + F" p] ctx_at_mem_same[of s "free_if p s" sh "F + obj_of p" F] ctx_at_objs[of sh _ s]
  by (simp add: add.assoc)

lemma release_in_at:
  "release_in G p (m, s) = (m', s') \<Longrightarrow> ctx_at sh (F + obj_of p) s \<Longrightarrow> ctx_at sh F s' \<and> mem_same s s'"
  using release_in_state[of G p m s m' s' "ctx_objs s + F"] ctx_at_mem_same[of s s' sh "F + obj_of p" F] ctx_at_objs[of sh _ s]
  by (simp add: add.assoc)

lemma gss_release_at:
  "gss_release G p s = (m, s') \<Longrightarrow> ctx_at sh (F + obj_of p) s \<Longrightarrow> ctx_at sh F s' \<and> mem_same s s'"
  using gss_release_state[of G p s m s' "ctx_objs s + F"] ctx_at_mem_same[of s s' sh "F + obj_of p" F] ctx_at_objs[of sh _ s]
  by (simp add: add.assoc)

lemma buffers_at:
  "ctx_at sh (F + obj_of b + obj_of u) s \<Longrightarrow>
    ctx_at sh F (freeGssUserNameAndServiceNameBuffer u b s) \<and> mem_same s (freeGssUserNameAndServiceNameBuffer u b s)"
  using free_if_at[of sh "F + obj_of b" u s] free_if_at[of sh F b "free_if u s"] mem_same_trans
  unfolding freeGssUserNameAndServiceNameBuffer_def by blast

lemma ctx_at_cred_same: "cred_same s s' \<Longrightarrow> ctx_at sh F s \<Longrightarrow> objs s' = ctx_objs s + F' \<Longrightarrow> ctx_at sh F' s'"
  by (simp add: cred_same_def ctx_at_def ctx_owns_def ctx_objs_def)

lemma srv_ok_cases:
  assumes "srv_ok s"
  obtains (stopped) "ctx_at no_objs (obj_of (s_cred_out s)) s" "s_service_name s = None" "s_credentials s = None"
  | (running) "ctx_at keytab_objs (srv_objs s) s" "s_service_name s \<noteq> None" "s_credentials s \<noteq> None"
  using assms by (auto simp: srv_ok_def)

lemma srv_ok_objs:
  assumes "srv_ok s"
  shows "objs s = (ctx_objs s + obj_of (s_service_name s) + obj_of (s_credentials s)) + obj_of (s_cred_out s)"
  using assms
proof (cases rule: srv_ok_cases)
  case running
  have "s_sec_context s = None"
    using assms by (simp add: srv_ok_def)
  then show ?thesis
    using ctx_at_objs[OF running(1)] by (simp add: srv_objs_def ac_simps)
qed (auto dest: ctx_at_objs)

lemma ServerAuth_ok:
  assumes o: "srv_ok s" and a: "ServerAuth G credIn outs s = (ar, out, s')"
  shows "srv_ok s'"
proof (cases "auth_args credIn outs s")
  case True
  note r = ServerAuth_state(1)[OF a True srv_ok_objs[OF o]]
  then have c: "cred_same s s'" "s_sec_context s' = None" "misuse s' = misuse s"
    "s_service_name s' = s_service_name s" "s_credentials s' = s_credentials s"
    by (simp_all add: cred_same_def)
  show ?thesis
    using o
  proof (cases rule: srv_ok_cases)
    case stopped
    have "ctx_at no_objs (obj_of (s_cred_out s')) s'"
      using r stopped by (intro ctx_at_cred_same[OF c(1) stopped(1)]) simp
    then show ?thesis
      using o c stopped by (simp add: srv_ok_def)
  next
    case running
    have "ctx_at keytab_objs (srv_objs s') s'"
      using r c by (intro ctx_at_cred_same[OF c(1) running(1)]) (simp add: srv_objs_def ac_simps)
    then show ?thesis
      using o c running by (simp add: srv_ok_def)
  qed
next
  case False
  then show ?thesis
    using ServerAuth_args[OF False a] o by simp
qed

lemma KrbServer_new_ok: "srv_ok (KrbServer_new initial w)"
  by (simp add: srv_ok_def KrbServer_new_def ctx_at_def ctx_defs)

lemma srv_ok_initial [simp]: "srv_ok (s\<lparr>g_initial := b\<rparr>) = srv_ok s"
  by (simp add: srv_ok_def srv_objs_def)

lemma KrbServer_destroy_ok:
  assumes o: "srv_ok s"
  shows "objs (KrbServer_destroy E G s) = {#} \<and> \<not> misuse (KrbServer_destroy E G s)"
proof -
  obtain sh where at: "ctx_at sh (srv_objs s) s" "sh = no_objs \<or> sh = keytab_objs"
    using o
  proof (cases rule: srv_ok_cases)
    case stopped
    then have "srv_objs s = obj_of (s_cred_out s)"
      using o by (simp add: srv_objs_def srv_ok_def)
    then show ?thesis
      using that[of no_objs] stopped(1) by simp
  next
    case running
    then show ?thesis
      using that[of keytab_objs] by simp
  qed
  define s1 where "s1 = (free_if (s_cred_out s) s)\<lparr>s_cred_out := None\<rparr>"
  have m0: "mem_same s (free_if (s_cred_out s) s)" and
    f1: "ctx_at sh (obj_of (s_sec_context s) + obj_of (s_credentials s) + obj_of (s_service_name s)) s1"
    using free_if_at[of sh "obj_of (s_sec_context s) + obj_of (s_credentials s) + obj_of (s_service_name s)" "s_cred_out s" s] at(1)
    by (simp_all add: s1_def srv_objs_def ac_simps)
  have e1: "misuse s1 = misuse s" "s_service_name s1 = s_service_name s" "s_credentials s1 = s_credentials s"
    "s_sec_context s1 = s_sec_context s"
    using mem_same_server[OF m0] mem_same_ctx[OF m0] by (simp_all add: s1_def)
  obtain m2 t2 where 2: "release_in G (s_service_name s1) (0, s1) = (m2, t2)"
    by (metis prod.exhaust_sel)
  note f2 = release_in_at[OF 2 f1[folded e1(2)]]
  define s2 where "s2 = t2\<lparr>s_service_name := None\<rparr>"
  have e2: "misuse s2 = misuse s" "s_credentials s2 = s_credentials s" "s_sec_context s2 = s_sec_context s"
    "ctx_at sh (obj_of (s_sec_context s) + obj_of (s_credentials s)) s2"
    using f2 mem_same_server[OF conjunct2[OF f2]] mem_same_ctx[OF conjunct2[OF f2]] e1 by (simp_all add: s2_def)
  obtain m3 t3 where 3: "release_in G (s_credentials s2) (m2, s2) = (m3, t3)"
    by (metis prod.exhaust_sel)
  note f3 = release_in_at[OF 3 e2(4)[folded e2(2)]]
  define s3 where "s3 = t3\<lparr>s_credentials := None\<rparr>"
  have e3: "misuse s3 = misuse s" "s_sec_context s3 = s_sec_context s" "ctx_at sh ({#} + obj_of (s_sec_context s)) s3"
    using f3 mem_same_server[OF conjunct2[OF f3]] mem_same_ctx[OF conjunct2[OF f3]] e2 by (simp_all add: s3_def)
  obtain m4 t4 where 4: "release_in G (s_sec_context s3) (m3, s3) = (m4, t4)"
    by (metis prod.exhaust_sel)
  note f4 = release_in_at[OF 4 e3(3)[folded e3(2)]]
  define s4 where "s4 = t4\<lparr>s_sec_context := None\<rparr>"
  have e4: "misuse s4 = misuse s" "ctx_at sh {#} s4"
    using f4 mem_same_ctx[OF conjunct2[OF f4]] e3 by (simp_all add: s4_def)
  have "ctx_at no_objs {#} (KerberosDestroyKeytab E s4) \<and> ctx_same s4 (KerberosDestroyKeytab E s4)"
    using at(2)
  proof
    assume "sh = no_objs"
    with e4 show ?thesis
      using KerberosDestroyKeytab_at[of False False False False False False "{#}" s4 E] by simp
  next
    assume "sh = keytab_objs"
    with e4 show ?thesis
      using KerberosDestroyKeytab_at[of True True True True False False "{#}" s4 E] by simp
  qed
  moreover have "KrbServer_destroy E G s = KerberosDestroyKeytab E s4"
    unfolding KrbServer_destroy_def s1_def[symmetric] Let_def 2 prod.case s2_def[symmetric] 3 s3_def[symmetric] 4 s4_def[symmetric] ..
  ultimately show ?thesis
    using e4(1) o by (simp add: ctx_at_clean ctx_same_def srv_ok_def)
qed

lemma MakeGss_at:
  assumes "ctx_at sh F s"
  shows "MakeGssOIDDescStruct GSS_USER_NAME s = (ar, u, s') \<Longrightarrow> fst ar = 0 \<and> ctx_at sh (F + obj_of u) s' \<and> mem_same s s'"
    "MakeGssBufferDesc d s = (ar, u, s') \<Longrightarrow> d \<noteq> [] \<Longrightarrow> length d \<le> KRB_MAX_NAME_LENGTH \<Longrightarrow>
      fst ar = 0 \<and> ctx_at sh (F + obj_of u) s' \<and> mem_same s s'"
  using new_obj_at[OF _ assms]
  by (auto simp: MakeGssOIDDescStruct_def MakeGssBufferDesc_def GSS_USER_NAME_def KRB_MAX_NAME_LENGTH_def split: if_splits prod.splits)

definition srv_has :: "nat option \<Rightarrow> nat option \<Rightarrow> nat option \<Rightarrow> 'w krb_server \<Rightarrow> bool" where
  "srv_has p q r s \<longleftrightarrow> \<not> misuse s \<and> s_sec_context s = None \<and> s_service_name s = p \<and> s_credentials s = q \<and> s_cred_out s = r"

lemma srv_has_same:
  "mem_same s s' \<Longrightarrow> srv_has p q r s' = srv_has p q r s" "ctx_same s s' \<Longrightarrow> srv_has p q r s' = srv_has p q r s"
  using mem_same_server[of s s'] mem_same_ctx[of s s'] ctx_same_server[of s s'] by (auto simp: srv_has_def)

lemma srv_has_upd [simp]:
  "srv_has p q r (s\<lparr>kw := w\<rparr>) = srv_has p q r s" "srv_has p q r (s\<lparr>g_initial := b\<rparr>) = srv_has p q r s"
  by (simp_all add: srv_has_def)

lemma srv_has_ok:
  "srv_has None None r s \<Longrightarrow> ctx_at no_objs (obj_of r) s \<Longrightarrow> srv_ok s"
  "srv_has (Some i) (Some j) r s \<Longrightarrow> ctx_at keytab_objs (obj_of r + {#i#} + {#j#}) s \<Longrightarrow> srv_ok s"
  by (simp_all add: srv_has_def srv_ok_def srv_objs_def ac_simps add_mset_commute)

lemma ServerInit_ok:
  assumes o: "srv_ok s" and c: "ctx_clean s" and n: "length KRB5KTNAME \<le> ko_max_name E"
    and i: "ServerInit E G name keytab s = Some (ar, s')"
  shows "srv_ok s'"
proof (cases "name = [] \<or> keytab = [] \<or> KRB_MAX_NAME_LENGTH < length name \<or> KRB_MAX_FILE_SIZE < length keytab")
  case True
  then show ?thesis
    using i o by (auto simp: ServerInit_def)
next
  case len: False
  let ?F = "obj_of (s_cred_out s)"
  have s0: "ctx_at no_objs ?F s" "s_service_name s = None" "s_credentials s = None" "s_sec_context s = None" "\<not> misuse s"
    using o c by (auto simp: srv_ok_def ctx_at_def ctx_clean_def)
  obtain ar1 t1 where 1: "KerberosInitKeytab E keytab name KRB5KTNAME s = Some (ar1, t1)"
    using i len by (cases "KerberosInitKeytab E keytab name KRB5KTNAME s") (auto simp: ServerInit_def)
  note k = KerberosInitKeytab_at[OF 1 s0(1)]
  note kf = ctx_same_server[OF conjunct1[OF k]]
  show ?thesis
  proof (cases "fst ar1 = 0")
    case False
    then show ?thesis
      using i len k kf s0 n by (auto simp: ServerInit_def 1 srv_ok_def)
  next
    case True
    define s1 where "s1 = t1\<lparr>s_credentials := None, s_sec_context := None\<rparr>"
    let ?r = "s_cred_out s"
    have a1: "ctx_at keytab_objs ?F s1" and h1: "srv_has None None ?r s1"
      using k kf True s0 by (simp_all add: s1_def srv_has_def)
    obtain ar2 u s2 where 2: "MakeGssOIDDescStruct GSS_USER_NAME s1 = (ar2, u, s2)"
      by (metis prod.exhaust_sel)
    note a2 = MakeGss_at(1)[OF a1 2]
    obtain ar3 b s3 where 3: "MakeGssBufferDesc name s2 = (ar3, b, s3)"
      by (metis prod.exhaust_sel)
    have a3: "fst ar3 = 0" "ctx_at keytab_objs (?F + obj_of u + obj_of b) s3" "srv_has None None ?r s3"
      using MakeGss_at(2)[OF _ 3, of keytab_objs "?F + obj_of u"] a2 len h1 srv_has_same(1)[of s1 s2] srv_has_same(1)[of s2 s3]
      by simp_all
    obtain major4 w4 where 4: "go_import G (kw s3) name GSS_USER_NAME = (major4, w4)"
      by (metis prod.exhaust_sel)
    obtain p t5 where 5: "obj_if (major4 = 0) (s3\<lparr>kw := w4\<rparr>) = (p, t5)"
      by (metis prod.exhaust_sel)
    define s5 where "s5 = t5\<lparr>s_service_name := p\<rparr>"
    have a5: "ctx_at keytab_objs (?F + obj_of u + obj_of b + obj_of p) s5" "srv_has p None ?r s5" "p \<noteq> None \<longleftrightarrow> major4 = 0"
      using obj_if_at[OF 5, of keytab_objs "?F + obj_of u + obj_of b"] a3 srv_has_same(1)[of "s3\<lparr>kw := w4\<rparr>" t5 None None ?r]
      by (simp_all add: s5_def srv_has_def)
    obtain major6 w6 where 6: "go_acquire G (kw s5) = (major6, w6)"
      by (metis prod.exhaust_sel)
    obtain q t7 where 7: "obj_if (major6 = 0) (s5\<lparr>kw := w6\<rparr>) = (q, t7)"
      by (metis prod.exhaust_sel)
    define s7 where "s7 = t7\<lparr>s_credentials := q\<rparr>"
    have a7: "ctx_at keytab_objs (?F + obj_of u + obj_of b + obj_of p + obj_of q) s7" "srv_has p q ?r s7" "q \<noteq> None \<longleftrightarrow> major6 = 0"
      using obj_if_at[OF 7, of keytab_objs "?F + obj_of u + obj_of b + obj_of p"] a5 srv_has_same(1)[of "s5\<lparr>kw := w6\<rparr>" t7 p None ?r]
      by (simp_all add: s7_def srv_has_def)
    obtain m8 t8 where 8: "gss_release G (s_service_name s7) s7 = (m8, t8)"
      by (metis prod.exhaust_sel)
    define s8 where "s8 = t8\<lparr>s_service_name := None\<rparr>"
    let ?free = "freeGssUserNameAndServiceNameBuffer u b"
    have r: "(ar, s') = (if major4 \<noteq> 0 then ((1, ''gss_import_name Failed''), ?free (KerberosDestroyKeytab E s5))
      else if major6 \<noteq> 0 then ((1, ''ServerInit gss_acquire_cred error''), ?free (KerberosDestroyKeytab E s8))
      else ((0, ''ServerInit success''), ?free (s7\<lparr>g_initial := True\<rparr>)))"
      using i len True a2 a3(1) unfolding ServerInit_def 1 option.case prod.case s1_def[symmetric] Let_def 2 3 lib_call_eq 4
        fst_conv snd_conv 5 s5_def[symmetric] 6 7 s7_def[symmetric] 8 s8_def[symmetric] by (auto split: if_splits)
    have stop: "srv_ok (?free (KerberosDestroyKeytab E t))"
      if t: "ctx_at keytab_objs (?F + obj_of u + obj_of b) t" "srv_has None None ?r t" for t
    proof -
      note d = KerberosDestroyKeytab_at[OF t(1), of E, OF impI, OF TrueI]
      have "ctx_at no_objs (?F + obj_of b + obj_of u) (KerberosDestroyKeytab E t)"
        using d by (simp add: ac_simps)
      note f = buffers_at[OF this]
      have "srv_has None None ?r (?free (KerberosDestroyKeytab E t))"
        using f d t(2) srv_has_same by blast
      then show ?thesis
        using f srv_has_ok(1) by blast
    qed
    consider "major4 \<noteq> 0" | "major4 = 0" "major6 \<noteq> 0" | "major4 = 0" "major6 = 0"
      by blast
    then show ?thesis
    proof cases
      case 1
      then have "ctx_at keytab_objs (?F + obj_of u + obj_of b) s5" "srv_has None None ?r s5"
        using a5 by simp_all
      from stop[OF this] show ?thesis
        using r 1 by simp
    next
      case m: 2
      have p7: "s_service_name s7 = p"
        using a7(2) by (simp add: srv_has_def)
      have "ctx_at keytab_objs (?F + obj_of u + obj_of b + obj_of (s_service_name s7)) s7"
        using a7 m p7 by simp
      note e = gss_release_at[OF 8 this]
      have "ctx_at keytab_objs (?F + obj_of u + obj_of b) s8" "srv_has None None ?r s8"
        using e a7 m srv_has_same(1)[of s7 t8 p q ?r] by (simp_all add: s8_def srv_has_def)
      from stop[OF this] show ?thesis
        using r m by simp
    next
      case m: 3
      obtain i j where ij: "p = Some i" "q = Some j"
        using a5 a7 m by auto
      have "ctx_at keytab_objs ((?F + {#i#} + {#j#}) + obj_of b + obj_of u) (s7\<lparr>g_initial := True\<rparr>)"
        using a7(1) ij by (simp add: ac_simps add_mset_commute)
      note f = buffers_at[OF this]
      have "srv_has (Some i) (Some j) ?r (?free (s7\<lparr>g_initial := True\<rparr>))"
        using f a7(2) ij srv_has_same(1)[of "s7\<lparr>g_initial := True\<rparr>"] by simp
      from srv_has_ok(2)[OF this conjunct1[OF f]] show ?thesis
        using r m by simp
    qed
  qed
qed

lemma srv_life_ok: "srv_life E G s \<Longrightarrow> length KRB5KTNAME \<le> ko_max_name E \<Longrightarrow> srv_ok s"
  by (induction rule: srv_life.induct) (auto simp: KrbServer_new_ok intro: ServerInit_ok ServerAuth_ok)

text \<open>C26: At every point of a server's life, whatever the libraries answer and however often starting it failed, the objects that exist
  are those its pointers hold, no null or freed pointer was passed where an object is needed, no security context is left open,
  and the destructor leaves nothing behind.\<close>

theorem KrbServer_lifecycle:
  assumes "srv_life E G s" "length KRB5KTNAME \<le> ko_max_name E"
  shows "objs s = ctx_objs s + srv_objs s \<and> \<not> misuse s \<and> s_sec_context s = None \<and>
    objs (KrbServer_destroy E G s) = {#} \<and> \<not> misuse (KrbServer_destroy E G s)"
proof -
  have o: "srv_ok s"
    using srv_life_ok assms by blast
  then show ?thesis
    using srv_ok_objs[OF o] KrbServer_destroy_ok[OF o, of E G] by (simp add: srv_ok_def srv_objs_def ac_simps)
qed

definition toy_gss :: "unit gss_env" where
  "toy_gss = \<lparr>go_import = (\<lambda>w _ _. (0, w)), go_acquire = (\<lambda>w. (0, w)), go_accept = (\<lambda>w _. ((0, 0, True, ''tok''), w)),
     go_init_sec = (\<lambda>w _. ((0, 0, True, ''tok''), w)), go_inquire = (\<lambda>w. ((0, 0), w)), go_display = (\<lambda>w. ((0, 0, ''ann''), w)),
     go_release = (\<lambda>w. (0, w))\<rparr>"

lemma toy_gss_simps [simp]:
  "go_import toy_gss w n d = (0, w)" "go_acquire toy_gss w = (0, w)" "go_accept toy_gss w c = ((0, 0, True, ''tok''), w)"
  "go_init_sec toy_gss w b = ((0, 0, True, ''tok''), w)" "go_inquire toy_gss w = ((0, 0), w)"
  "go_display toy_gss w = ((0, 0, ''ann''), w)" "go_release toy_gss w = (0, w)"
  by (simp_all add: toy_gss_def)

lemma toy_server:
  "\<exists>s. ServerInit toy_krb toy_gss ''h'' (enc_keytab ''52'' toy_items) (KrbServer_new False ()) = Some ((0, ''ServerInit success''), s) \<and>
     g_initial s"
proof -
  have "length (enc_keytab ''52'' toy_items) \<le> KRB_MAX_FILE_SIZE" "enc_keytab ''52'' toy_items \<noteq> []"
    by (simp_all add: KRB_MAX_FILE_SIZE_def toy_items_def toy_entry_def enc_keytab_def enc_entry_def enc_content_def
      enc_principal_def counted_def)
  then show ?thesis
    using toy_entry_read
    by (simp add: ServerInit_def krb_eval KrbServer_new_def KRB_MAX_NAME_LENGTH_def KRB5KTNAME_def MakeGssOIDDescStruct_def
        GSS_USER_NAME_def MakeGssBufferDesc_def obj_if_def freeGssUserNameAndServiceNameBuffer_def free_if_def)
qed

theorem KrbServer_lifecycle_witness:
  "\<exists>s. ServerInit toy_krb toy_gss ''h'' (enc_keytab ''52'' toy_items) (KrbServer_new False ()) = Some ((0, ''ServerInit success''), s) \<and>
     objs (KrbServer_destroy toy_krb toy_gss s) = {#}"
proof -
  obtain s where s: "ServerInit toy_krb toy_gss ''h'' (enc_keytab ''52'' toy_items) (KrbServer_new False ()) =
      Some ((0, ''ServerInit success''), s)"
    using toy_server by blast
  have "srv_life toy_krb toy_gss s"
    by (rule life_init[OF life_new _ s]) (simp add: ctx_clean_def KrbServer_new_def)
  from KrbServer_lifecycle[OF this] s show ?thesis
    by (simp add: KRB5KTNAME_def)
qed

text \<open>C27: Authenticating a client succeeds exactly when a server was started, the arguments are usable, and the library
  completes with an answer for the client and tells its name; only then is the client's name taken, up to a zero byte. In every other
  case, an exchange that would have to go on included, an error code is returned and the name stays.\<close>

theorem ServerAuth_accepts:
  assumes "srv_life E G s" "length KRB5KTNAME \<le> ko_max_name E" "ServerAuth G credIn outs s = (ar, out, s')"
  shows "(fst ar = 0) = (auth_args credIn outs s \<and> accepted_name G credIn (kw s) \<noteq> None) \<and>
    s_client s' = (case (if auth_args credIn outs s then accepted_name G credIn (kw s) else None) of
       Some name \<Rightarrow> c_str name | None \<Rightarrow> s_client s)"
proof -
  have o: "srv_ok s"
    using srv_life_ok assms by blast
  show ?thesis
    using ServerAuth_state(2,3)[OF assms(3) _ srv_ok_objs[OF o]] ServerAuth_args[OF _ assms(3)]
    by (cases "auth_args credIn outs s") simp_all
qed

theorem ServerAuth_accepts_witness:
  "\<exists>s s'. ServerAuth toy_gss ''cred'' True s = ((0, ''ServerGetClientPrincipal succeed''), Some ''tok'', s') \<and> s_client s' = ''ann''"
proof -
  obtain s where s: "ServerInit toy_krb toy_gss ''h'' (enc_keytab ''52'' toy_items) (KrbServer_new False ()) =
      Some ((0, ''ServerInit success''), s)" "g_initial s"
    using toy_server by blast
  have l: "srv_life toy_krb toy_gss s"
    by (rule life_init[OF life_new _ s(1)]) (simp add: ctx_clean_def KrbServer_new_def)
  obtain ar out s' where a: "ServerAuth toy_gss ''cred'' True s = (ar, out, s')"
    by (metis prod.exhaust_sel)
  have args: "auth_args ''cred'' True s"
    using s(2) by (simp add: auth_args_def KRB_MAX_FILE_SIZE_def)
  have n: "accepted_name toy_gss ''cred'' (kw s) = Some ''ann''"
    by (simp add: accepted_name_def)
  have "length KRB5KTNAME \<le> ko_max_name toy_krb"
    by (simp add: KRB5KTNAME_def)
  from ServerAuth_accepts[OF l this a] have r: "fst ar = 0" "s_client s' = ''ann''"
    using args n by (simp_all add: c_str_def)
  have "snd ar = ''ServerGetClientPrincipal succeed'' \<and> out = Some ''tok''"
    using a r(1) s(2) by (auto simp: ServerAuth_def lib_call_eq obj_if_def new_obj_def HandleServerAuthOutputToken_def KRB_MAX_FILE_SIZE_def
        CheckReturn_def ServerGetClientPrincipal_def Let_def split: prod.splits if_splits)
  with a r show ?thesis
    by (metis prod.collapse)
qed

text \<open>An encrypted keytab is never read: the file is refused when it cannot be read, and also when it can.\<close>

lemma GetKerberosKeytab_encrypted:
  "GetKerberosKeytab fs E path outs True s w = (Ret None, w)"
  by (simp add: GetKerberosKeytab_def ReadCipherFromFile_def split: option.split)

end
