(* ===== verification/CdfKrbClient.thy ===== *)
theory CdfKrbClient
  imports CdfKrbServer
begin

section \<open>The Kerberos client (\<open>modules/authentication/kerberos/krb_client.cpp\<close>)\<close>

text \<open>
  The client's context holds a credential cache; its own objects are two names, credentials and a security context.
\<close>

record 'w krb_client = "'w krb_ctx" +
  cl_client_name :: "nat option"
  cl_service_name :: "nat option"
  cl_sec_context :: "nat option"
  cl_credentials :: "nat option"

definition KrbClient_new :: "'w \<Rightarrow> 'w krb_client" where
  "KrbClient_new w = \<lparr>kw = w, objs = {#}, next_obj = 0, misuse = False, c_context = None, c_principal = None,
     c_principal_name = [], c_entry = None, c_entry_val = zero_entry, c_keytab = None, c_ccache = None, c_opts = None,
     cl_client_name = None, cl_service_name = None, cl_sec_context = None, cl_credentials = None\<rparr>"

definition KrbClient_GetAuthentication :: "bytes \<Rightarrow> 'w \<Rightarrow> 'w krb_client option" where
  "KrbClient_GetAuthentication name w = (if name \<noteq> KERBEROS then None else Some (KrbClient_new w))"

definition GSS_NT_PRINCIPAL :: bytes where
  "GSS_NT_PRINCIPAL = [CHR 0x2A, CHR 0x86, CHR 0x48, CHR 0x86, CHR 0xF7, CHR 0x12, CHR 0x01, CHR 0x02, CHR 0x02, CHR 0x01]"

subsection \<open>Starting\<close>

definition ClientInitClient ::
  "'w krb_env \<Rightarrow> 'w gss_env \<Rightarrow> bytes \<Rightarrow> 'w krb_client \<Rightarrow> krb_result \<times> 'w krb_client" where
  "ClientInitClient E G inClientName s =
    (let (b, s) = obj_if True s;
       (major, s) = lib_call (\<lambda>w. go_import G w inClientName GSS_USER_NAME) s;
       (p, s) = obj_if (major = 0) s; s = s\<lparr>cl_client_name := p\<rparr> in
     if major \<noteq> 0 then ((1, ''gss_import_name(inClientName) Failed''), free_if b (KerberosDestroyCCache E s))
     else let (major, s) = lib_call (go_acquire G) s; (q, s) = obj_if (major = 0) s; s = s\<lparr>cl_credentials := q\<rparr> in
     if major \<noteq> 0 then
       (let (m, s) = gss_release G (cl_client_name s) s; s = s\<lparr>cl_client_name := None\<rparr> in
        ((1, ''gss_acquire_cred Failed''), free_if b (KerberosDestroyCCache E s)))
     else ((0, ''ClientInitClient Succeed''), free_if b s))"

text \<open>A context and a principal of its own, freed on every path; freeing a null principal does nothing.\<close>

definition Krb5NameFormatCheckHack ::
  "'w krb_env \<Rightarrow> bytes \<Rightarrow> ('w, 'z) krb_mem_scheme \<Rightarrow> bool \<times> ('w, 'z) krb_mem_scheme" where
  "Krb5NameFormatCheckHack E name s =
    (let (c, s) = lib_new (ko_init_context E) s in
     if c = None then (False, s)
     else let (p, s) = lib_new (\<lambda>w. ko_parse_name E w (c_str name)) (uses [c] s) in
     (p \<noteq> None, free_if c (free_if p s)))"

definition ClientInitServer ::
  "'w krb_env \<Rightarrow> 'w gss_env \<Rightarrow> bytes \<Rightarrow> 'w krb_client \<Rightarrow> krb_result \<times> 'w krb_client" where
  "ClientInitServer E G inServiceName s =
    (let (ok, s) = Krb5NameFormatCheckHack E inServiceName s in
     if \<not> ok then ((1, ''Invalid inServiceName: '' @ inServiceName), s)
     else let (b, s) = obj_if True s;
       (major, s) = lib_call (\<lambda>w. go_import G w inServiceName GSS_NT_PRINCIPAL) s;
       (p, s) = obj_if (major = 0) s; s = s\<lparr>cl_service_name := p\<rparr> in
     if major \<noteq> 0 then
       (let (m, s) = gss_release G (cl_client_name s) s; s = s\<lparr>cl_client_name := None\<rparr>;
          (m, s) = gss_release G (cl_service_name s) s; s = s\<lparr>cl_service_name := None\<rparr>;
          (m, s) = gss_release G (cl_credentials s) s; s = s\<lparr>cl_credentials := None\<rparr> in
        ((1, ''gss_import_name(inServiceName) Failed''), free_if b (KerberosDestroyCCache E s)))
     else ((0, ''ClientInitServer Succeed''), free_if b s))"

definition ClientInit ::
  "'w krb_env \<Rightarrow> 'w gss_env \<Rightarrow> bytes \<Rightarrow> bytes \<Rightarrow> bytes \<Rightarrow> 'w krb_client \<Rightarrow> (krb_result \<times> 'w krb_client) option" where
  "ClientInit E G inClientName inServiceName keyTable s =
    (if inClientName = [] \<or> inServiceName = [] \<or> keyTable = [] \<or> KRB_MAX_NAME_LENGTH < length inClientName \<or>
        KRB_MAX_NAME_LENGTH < length inServiceName \<or> KRB_MAX_FILE_SIZE < length keyTable then
       Some ((2, ''Invalid parameter, client/server name may be empty or key table is empty or too large.''), s)
     else case KerberosInitCCache E keyTable inClientName KRB5KTNAME KRB5CCNAME (s\<lparr>cl_sec_context := None, cl_credentials := None\<rparr>) of
       None \<Rightarrow> None
     | Some (ar, s) \<Rightarrow>
       if fst ar \<noteq> 0 then Some (ar, s)
       else let (ar, s) = ClientInitClient E G inClientName s in
       if fst ar \<noteq> 0 then Some (ar, s)
       else let (ar, s) = ClientInitServer E G inServiceName s in
       if fst ar \<noteq> 0 then Some (ar, s)
       else Some ((0, ''ClientInit Succeed''), s))"

subsection \<open>Authenticating\<close>

text \<open>The security context is deleted when there is one; \<open>m\<close> is the minor status before.\<close>

definition delete_client_context :: "'w gss_env \<Rightarrow> u32 \<times> 'w krb_client \<Rightarrow> u32 \<times> 'w krb_client" where
  "delete_client_context G ms =
    (let (m, s) = release_in G (cl_sec_context (snd ms)) ms in (m, s\<lparr>cl_sec_context := None\<rparr>))"

definition ClientGetCred :: "'w gss_env \<Rightarrow> 'w krb_client \<Rightarrow> (krb_result \<times> bytes) \<times> 'w krb_client" where
  "ClientGetCred G s =
    (if cl_sec_context s \<noteq> None then (((1, ''Client has already been inited''), []), s)
     else let ((major, minor, created, val), s) = lib_call (\<lambda>w. go_init_sec G w None) s;
       (p, s) = obj_if created s; s = s\<lparr>cl_sec_context := p\<rparr>;
       (tok, s) = obj_if (val \<noteq> []) s in
     if tok \<noteq> None then
       (let (m, s) = gss_release G tok s in (((0, ''ClientGetCred succeed''), val), s))
     else let (m, s) = delete_client_context G (minor, s) in
       (((1, ''gss_init_sec_context error, majorStatus:'' @ nat_str (unat major) @ '', minorStatus:'' @ nat_str (unat m)), []), s))"

text \<open>\<open>cred\<close> is the input of \<open>credLen\<close> bytes, or a null pointer.\<close>

definition ClientAuthServer :: "'w gss_env \<Rightarrow> bytes option \<Rightarrow> 'w krb_client \<Rightarrow> krb_result \<times> 'w krb_client" where
  "ClientAuthServer G cred s =
    (case cred of
       None \<Rightarrow> ((2, ''ClientAuthServer parameter error''), s)
     | Some c \<Rightarrow>
       if c = [] \<or> KRB_MAX_FILE_SIZE < length c then ((2, ''ClientAuthServer parameter error''), s)
       else let ((major, minor, created, val), s) = lib_call (\<lambda>w. go_init_sec G w (Some c)) s;
         (p, s) = obj_if (cl_sec_context s = None \<and> created) s;
         s = (if cl_sec_context s = None then s\<lparr>cl_sec_context := p\<rparr> else s);
         (tok, s) = obj_if (val \<noteq> []) s;
         (m, s) = release_in G (cl_credentials s) (minor, s); s = s\<lparr>cl_credentials := None\<rparr>;
         (m, s) = gss_release G tok s in
       if major = 1 then ((1, ''ClientAuthServer Failed need continue''), s)
       else if major = 0 then ((0, ''ClientAuthServer Succeed''), s)
       else let (m, s) = delete_client_context G (m, s) in
         ((1, ''ClientAuthServer unknown error, majorStatus:'' @ nat_str (unat major) @ '', minorStatus:'' @ nat_str (unat m)), s))"

definition KrbClient_destroy :: "'w krb_env \<Rightarrow> 'w gss_env \<Rightarrow> 'w krb_client \<Rightarrow> 'w krb_client" where
  "KrbClient_destroy E G s =
    (let (m, s) = release_in G (cl_client_name s) (0, s); s = s\<lparr>cl_client_name := None\<rparr>;
       (m, s) = release_in G (cl_service_name s) (m, s); s = s\<lparr>cl_service_name := None\<rparr>;
       (m, s) = release_in G (cl_credentials s) (m, s); s = s\<lparr>cl_credentials := None\<rparr>;
       (m, s) = release_in G (cl_sec_context s) (m, s); s = s\<lparr>cl_sec_context := None\<rparr> in
     KerberosDestroyCCache E s)"

subsection \<open>The life of a client\<close>

definition cl_objs :: "'w krb_client \<Rightarrow> nat multiset" where
  "cl_objs s = obj_of (cl_client_name s) + obj_of (cl_service_name s) + obj_of (cl_credentials s) + obj_of (cl_sec_context s)"

definition cl_has :: "bool \<Rightarrow> nat option \<Rightarrow> nat option \<Rightarrow> nat option \<Rightarrow> nat option \<Rightarrow> 'w krb_client \<Rightarrow> bool" where
  "cl_has b p q r x s \<longleftrightarrow> misuse s = b \<and> cl_client_name s = p \<and> cl_service_name s = q \<and> cl_credentials s = r \<and> cl_sec_context s = x"

lemma ctx_at_client [simp]:
  "ctx_at sh F (s\<lparr>cl_client_name := p\<rparr>) = ctx_at sh F s" "ctx_at sh F (s\<lparr>cl_service_name := p\<rparr>) = ctx_at sh F s"
  "ctx_at sh F (s\<lparr>cl_credentials := p\<rparr>) = ctx_at sh F s" "ctx_at sh F (s\<lparr>cl_sec_context := p\<rparr>) = ctx_at sh F s"
  by (simp_all add: ctx_at_def ctx_defs)

lemma cl_has_upd [simp]:
  "cl_has b p q r x (s\<lparr>kw := w\<rparr>) = cl_has b p q r x s"
  by (simp add: cl_has_def)

lemma cl_has_same:
  "mem_same s s' \<Longrightarrow> cl_has b p q r x s' = cl_has b p q r x s" "ctx_same s s' \<Longrightarrow> cl_has b p q r x s' = cl_has b p q r x s"
  by (cases s; cases s'; auto simp: cl_has_def mem_same_def ctx_same_def)+

text \<open>Stopped, or with all objects of the context; the library was handed a null pointer exactly when \<open>b\<close>.\<close>

definition cl_ok :: "bool \<Rightarrow> 'w krb_client \<Rightarrow> bool" where
  "cl_ok b s \<longleftrightarrow> misuse s = b \<and> (ctx_at no_objs (cl_objs s) s \<or> ctx_at all_objs (cl_objs s) s)"

lemma cl_has_ok:
  "cl_has b p q r x s \<Longrightarrow> sh = no_objs \<or> sh = all_objs \<Longrightarrow> ctx_at sh (obj_of p + obj_of q + obj_of r + obj_of x) s \<Longrightarrow> cl_ok b s"
  by (auto simp: cl_has_def cl_ok_def cl_objs_def)

lemma release_client:
  assumes "release_in G p (m, s) = (m', s')" "ctx_at sh (F + obj_of p) s" "cl_has b x q r y s"
  shows "ctx_at sh F s'" "cl_has b x q r y s'"
  using release_in_at[OF assms(1,2)] cl_has_same(1) assms(3) by blast+

lemma gss_release_client:
  assumes "gss_release G p s = (m', s')" "ctx_at sh (F + obj_of p) s" "cl_has b x q r y s"
  shows "ctx_at sh F s'" "cl_has b x q r y s'"
  using gss_release_at[OF assms(1,2)] cl_has_same(1) assms(3) by blast+

lemma obj_if_client:
  assumes "obj_if c s = (p, s')" "ctx_at sh F s" "cl_has b x q r y s"
  shows "ctx_at sh (F + obj_of p) s'" "cl_has b x q r y s'" "p \<noteq> None \<longleftrightarrow> c"
  using obj_if_at[OF assms(1,2)] cl_has_same(1) assms(3) by blast+

lemma delete_client_context_ok:
  assumes d: "delete_client_context G (m, s) = (m', s')" and a: "ctx_at sh (F + obj_of x) s" and h: "cl_has b p q r x s"
  shows "ctx_at sh F s'" "cl_has b p q r None s'"
proof -
  obtain m1 s1 where 1: "release_in G (cl_sec_context s) (m, s) = (m1, s1)"
    by (metis prod.exhaust_sel)
  have x: "cl_sec_context s = x"
    using h by (simp add: cl_has_def)
  have s': "s' = s1\<lparr>cl_sec_context := None\<rparr>"
    using d 1 by (simp add: delete_client_context_def)
  show "ctx_at sh F s'" "cl_has b p q r None s'"
    using release_client[OF 1[unfolded x] a h] by (simp_all add: s' cl_has_def)
qed

lemma ClientGetCred_ok:
  assumes c: "ClientGetCred G s = (ar, s')" and o: "cl_ok b s"
  shows "cl_ok b s'"
proof (cases "cl_sec_context s")
  case (Some i)
  then show ?thesis
    using c o by (auto simp: ClientGetCred_def)
next
  case None
  obtain sh where sh: "sh = no_objs \<or> sh = all_objs" "ctx_at sh (cl_objs s) s"
    using o unfolding cl_ok_def by blast
  let ?p = "cl_client_name s" and ?q = "cl_service_name s" and ?r = "cl_credentials s"
  let ?F = "obj_of ?p + obj_of ?q + obj_of ?r"
  have a0: "ctx_at sh ?F s" and h0: "cl_has b ?p ?q ?r None s"
    using sh o None by (simp_all add: cl_objs_def cl_has_def cl_ok_def)
  obtain major minor created val w where 1: "go_init_sec G (kw s) None = ((major, minor, created, val), w)"
    by (metis prod.exhaust_sel)
  obtain x t2 where 2: "obj_if created (s\<lparr>kw := w\<rparr>) = (x, t2)"
    by (metis prod.exhaust_sel)
  define s2 where "s2 = t2\<lparr>cl_sec_context := x\<rparr>"
  have a2: "ctx_at sh (?F + obj_of x) s2" and h2: "cl_has b ?p ?q ?r x s2"
    using obj_if_client[OF 2, of sh ?F b ?p ?q ?r None] a0 h0 by (simp_all add: s2_def cl_has_def)
  obtain tok s3 where 3: "obj_if (val \<noteq> []) s2 = (tok, s3)"
    by (metis prod.exhaust_sel)
  note a3 = obj_if_client[OF 3 a2 h2]
  obtain m4 s4 where 4: "gss_release G tok s3 = (m4, s4)"
    by (metis prod.exhaust_sel)
  note a4 = gss_release_client[OF 4 a3(1,2)]
  obtain m5 s5 where 5: "delete_client_context G (minor, s3) = (m5, s5)"
    by (metis prod.exhaust_sel)
  have s': "s' = (if tok \<noteq> None then s4 else s5)"
    using c None unfolding ClientGetCred_def Let_def lib_call_eq 1 fst_conv snd_conv prod.case 2 s2_def[symmetric] 3 4 5 by auto
  show ?thesis
  proof (cases tok)
    case None
    then have "ctx_at sh (?F + obj_of x) s3"
      using a3(1) by simp
    note d = delete_client_context_ok[OF 5 this a3(2)]
    show ?thesis
      using cl_has_ok[OF d(2) sh(1)] d(1) by (simp add: s' None)
  next
    case (Some i)
    then show ?thesis
      using cl_has_ok[OF a4(2) sh(1) a4(1)] by (simp add: s')
  qed
qed

lemma ClientAuthServer_ok:
  assumes c: "ClientAuthServer G cred s = (ar, s')" and o: "cl_ok b s"
  shows "cl_ok b s'"
proof (cases "\<exists>c. cred = Some c \<and> c \<noteq> [] \<and> \<not> KRB_MAX_FILE_SIZE < length c")
  case False
  then show ?thesis
    using c o by (auto simp: ClientAuthServer_def split: option.splits if_splits)
next
  case True
  then obtain i where i: "cred = Some i" "i \<noteq> []" "\<not> KRB_MAX_FILE_SIZE < length i"
    by blast
  obtain sh where sh: "sh = no_objs \<or> sh = all_objs" "ctx_at sh (cl_objs s) s"
    using o unfolding cl_ok_def by blast
  let ?p = "cl_client_name s" and ?q = "cl_service_name s" and ?r = "cl_credentials s" and ?x = "cl_sec_context s"
  let ?F = "obj_of ?p + obj_of ?q + obj_of ?r"
  have a0: "ctx_at sh (?F + obj_of ?x) s" and h0: "cl_has b ?p ?q ?r ?x s"
    using sh o by (simp_all add: cl_objs_def cl_has_def cl_ok_def)
  obtain major minor created val w where 1: "go_init_sec G (kw s) (Some i) = ((major, minor, created, val), w)"
    by (metis prod.exhaust_sel)
  define s1 where "s1 = s\<lparr>kw := w\<rparr>"
  have a1: "ctx_at sh (?F + obj_of ?x) s1" and h1: "cl_has b ?p ?q ?r ?x s1" and x1: "cl_sec_context s1 = ?x"
    using a0 h0 by (simp_all add: s1_def)
  obtain x t2 where 2: "obj_if (cl_sec_context s1 = None \<and> created) s1 = (x, t2)"
    by (metis prod.exhaust_sel)
  define s2 where "s2 = (if cl_sec_context t2 = None then t2\<lparr>cl_sec_context := x\<rparr> else t2)"
  define y where "y = (if ?x = None then x else ?x)"
  have a2: "ctx_at sh (?F + obj_of y) s2" and h2: "cl_has b ?p ?q ?r y s2"
    using obj_if_client[OF 2 a1 h1] x1 by (auto simp: s2_def y_def cl_has_def)
  obtain tok s3 where 3: "obj_if (val \<noteq> []) s2 = (tok, s3)"
    by (metis prod.exhaust_sel)
  note a3 = obj_if_client[OF 3 a2 h2]
  have r3: "cl_credentials s3 = ?r"
    using a3(2) by (simp add: cl_has_def)
  obtain m4 t4 where 4: "release_in G (cl_credentials s3) (minor, s3) = (m4, t4)"
    by (metis prod.exhaust_sel)
  define s4 where "s4 = t4\<lparr>cl_credentials := None\<rparr>"
  have "ctx_at sh ((obj_of ?p + obj_of ?q + obj_of y + obj_of tok) + obj_of ?r) s3"
    using a3(1) by (simp add: ac_simps)
  from release_client[OF 4[unfolded r3] this a3(2)]
  have a4: "ctx_at sh (obj_of ?p + obj_of ?q + obj_of y + obj_of tok) s4" and h4: "cl_has b ?p ?q None y s4"
    by (simp_all add: s4_def cl_has_def)
  obtain m5 s5 where 5: "gss_release G tok s4 = (m5, s5)"
    by (metis prod.exhaust_sel)
  note a5 = gss_release_client[OF 5 a4 h4]
  obtain m6 s6 where 6: "delete_client_context G (m5, s5) = (m6, s6)"
    by (metis prod.exhaust_sel)
  note a6 = delete_client_context_ok[OF 6 a5]
  have s': "s' = (if major = 0 \<or> major = 1 then s5 else s6)"
    using c i(2,3) unfolding ClientAuthServer_def i(1) Let_def lib_call_eq option.case 1 fst_conv snd_conv prod.case s1_def[symmetric]
      2 s2_def[symmetric] 3 4 s4_def[symmetric] 5 6 by (auto split: if_splits)
  have "cl_ok b s5"
    using a5(1) by (intro cl_has_ok[OF a5(2) sh(1)]) simp
  moreover have "cl_ok b s6"
    using a6(1) by (intro cl_has_ok[OF a6(2) sh(1)]) simp
  ultimately show ?thesis
    by (simp add: s')
qed

lemma KrbClient_destroy_ok:
  assumes o: "cl_ok b s"
  shows "objs (KrbClient_destroy E G s) = {#} \<and> misuse (KrbClient_destroy E G s) = b"
proof -
  obtain sh where sh: "sh = no_objs \<or> sh = all_objs" "ctx_at sh (cl_objs s) s"
    using o unfolding cl_ok_def by blast
  let ?p = "cl_client_name s" and ?q = "cl_service_name s" and ?r = "cl_credentials s" and ?x = "cl_sec_context s"
  have a0: "ctx_at sh (({#} + obj_of ?x + obj_of ?r + obj_of ?q) + obj_of ?p) s" and h0: "cl_has b ?p ?q ?r ?x s"
    using sh o by (simp_all add: cl_objs_def cl_has_def cl_ok_def ac_simps)
  obtain m1 t1 where 1: "release_in G ?p (0, s) = (m1, t1)"
    by (metis prod.exhaust_sel)
  define s1 where "s1 = t1\<lparr>cl_client_name := None\<rparr>"
  have a1: "ctx_at sh (({#} + obj_of ?x + obj_of ?r) + obj_of ?q) s1" and h1: "cl_has b None ?q ?r ?x s1"
    using release_client[OF 1 a0 h0] by (simp_all add: s1_def cl_has_def)
  obtain m2 t2 where 2: "release_in G (cl_service_name s1) (m1, s1) = (m2, t2)"
    by (metis prod.exhaust_sel)
  have q: "cl_service_name s1 = ?q"
    using h1 by (simp add: cl_has_def)
  define s2 where "s2 = t2\<lparr>cl_service_name := None\<rparr>"
  have a2: "ctx_at sh (({#} + obj_of ?x) + obj_of ?r) s2" and h2: "cl_has b None None ?r ?x s2"
    using release_client[OF 2[unfolded q] a1 h1] by (simp_all add: s2_def cl_has_def)
  obtain m3 t3 where 3: "release_in G (cl_credentials s2) (m2, s2) = (m3, t3)"
    by (metis prod.exhaust_sel)
  have r: "cl_credentials s2 = ?r"
    using h2 by (simp add: cl_has_def)
  define s3 where "s3 = t3\<lparr>cl_credentials := None\<rparr>"
  have a3: "ctx_at sh ({#} + obj_of ?x) s3" and h3: "cl_has b None None None ?x s3"
    using release_client[OF 3[unfolded r] a2 h2] by (simp_all add: s3_def cl_has_def)
  obtain m4 t4 where 4: "release_in G (cl_sec_context s3) (m3, s3) = (m4, t4)"
    by (metis prod.exhaust_sel)
  have x: "cl_sec_context s3 = ?x"
    using h3 by (simp add: cl_has_def)
  define s4 where "s4 = t4\<lparr>cl_sec_context := None\<rparr>"
  have a4: "ctx_at sh {#} s4" and h4: "misuse s4 = b"
    using release_client[OF 4[unfolded x] a3 h3] by (simp_all add: s4_def cl_has_def)
  have "ctx_at no_objs {#} (KerberosDestroyCCache E s4) \<and> ctx_same s4 (KerberosDestroyCCache E s4)"
    using sh(1) a4 KerberosDestroyCCache_at[of False False False False False False "{#}" s4 E]
      KerberosDestroyCCache_at[of True True True True True True "{#}" s4 E] by auto
  moreover have "KrbClient_destroy E G s = KerberosDestroyCCache E s4"
    unfolding KrbClient_destroy_def 1 prod.case s1_def[symmetric] Let_def 2 s2_def[symmetric] 3 s3_def[symmetric] 4 s4_def[symmetric] ..
  ultimately show ?thesis
    using h4 by (simp add: ctx_at_clean ctx_same_def)
qed

lemma InitCCache_success_msg:
  "KerberosInitCCache E buf name kt cc s = Some (ar, s') \<Longrightarrow> fst ar = 0 \<Longrightarrow> snd ar \<noteq> no_ccache_msg"
  by (auto simp: KerberosInitCCache_def Let_def split: if_splits option.splits prod.splits dest: other_msgs)

lemma free_if_client:
  assumes "ctx_at sh (F + obj_of p) s" "cl_has b x q r y s"
  shows "ctx_at sh F (free_if p s)" "cl_has b x q r y (free_if p s)"
  using free_if_at[OF assms(1)] cl_has_same(1) assms(2) by blast+

lemma stop_client:
  assumes "ctx_at all_objs (F + obj_of p) s" "cl_has b x q r y s"
  shows "ctx_at no_objs F (free_if p (KerberosDestroyCCache E s))" "cl_has b x q r y (free_if p (KerberosDestroyCCache E s))"
proof -
  note d = KerberosDestroyCCache_at[OF assms(1), of E, OF impI, OF TrueI]
  show "ctx_at no_objs F (free_if p (KerberosDestroyCCache E s))" "cl_has b x q r y (free_if p (KerberosDestroyCCache E s))"
    using free_if_client[OF conjunct1[OF d]] cl_has_same(2)[OF conjunct2[OF d]] assms(2) by blast+
qed

lemma ClientInitClient_ok:
  assumes c: "ClientInitClient E G name s = (ar, s')" and a: "ctx_at all_objs {#} s" and h: "cl_has b None None None None s"
  shows "snd ar \<noteq> no_ccache_msg \<and> (if fst ar = 0 then
      \<exists>p r. ctx_at all_objs (obj_of p + obj_of r) s' \<and> cl_has b p None r None s'
    else ctx_at no_objs {#} s' \<and> cl_has b None None None None s')"
proof -
  obtain u s1 where 1: "obj_if True s = (u, s1)"
    by (metis prod.exhaust_sel)
  note a1 = obj_if_client[OF 1 a h]
  obtain major w where 2: "go_import G (kw s1) name GSS_USER_NAME = (major, w)"
    by (metis prod.exhaust_sel)
  define t2 where "t2 = s1\<lparr>kw := w\<rparr>"
  obtain p t3 where 3: "obj_if (major = 0) t2 = (p, t3)"
    by (metis prod.exhaust_sel)
  define s3 where "s3 = t3\<lparr>cl_client_name := p\<rparr>"
  have a3: "ctx_at all_objs ({#} + obj_of u + obj_of p) s3" "cl_has b p None None None s3" "p \<noteq> None \<longleftrightarrow> major = 0"
    using obj_if_client[OF 3, of all_objs "{#} + obj_of u" b None None None None] a1 by (simp_all add: t2_def s3_def cl_has_def)
  obtain major4 w4 where 4: "go_acquire G (kw s3) = (major4, w4)"
    by (metis prod.exhaust_sel)
  define t4 where "t4 = s3\<lparr>kw := w4\<rparr>"
  obtain r t5 where 5: "obj_if (major4 = 0) t4 = (r, t5)"
    by (metis prod.exhaust_sel)
  define s5 where "s5 = t5\<lparr>cl_credentials := r\<rparr>"
  have a5: "ctx_at all_objs ({#} + obj_of u + obj_of p + obj_of r) s5" "cl_has b p None r None s5" "r \<noteq> None \<longleftrightarrow> major4 = 0"
    using obj_if_client[OF 5, of all_objs "{#} + obj_of u + obj_of p" b p None None None] a3 by (simp_all add: t4_def s5_def cl_has_def)
  have p5: "cl_client_name s5 = p"
    using a5(2) by (simp add: cl_has_def)
  obtain m6 t6 where 6: "gss_release G (cl_client_name s5) s5 = (m6, t6)"
    by (metis prod.exhaust_sel)
  define s6 where "s6 = t6\<lparr>cl_client_name := None\<rparr>"
  have res: "(ar, s') = (if major \<noteq> 0 then ((1, ''gss_import_name(inClientName) Failed''), free_if u (KerberosDestroyCCache E s3))
    else if major4 \<noteq> 0 then ((1, ''gss_acquire_cred Failed''), free_if u (KerberosDestroyCCache E s6))
    else ((0, ''ClientInitClient Succeed''), free_if u s5))"
    using c unfolding ClientInitClient_def Let_def 1 prod.case lib_call_eq 2 fst_conv snd_conv t2_def[symmetric] 3 s3_def[symmetric]
      4 t4_def[symmetric] 5 s5_def[symmetric] 6 s6_def[symmetric] by (auto split: if_splits)
  consider "major \<noteq> 0" | "major = 0" "major4 \<noteq> 0" | "major = 0" "major4 = 0"
    by blast
  then show ?thesis
  proof cases
    case 1
    then have "ctx_at all_objs ({#} + obj_of u) s3" "cl_has b None None None None s3"
      using a3 by simp_all
    from stop_client[OF this] show ?thesis
      using res 1 by (simp add: no_ccache_msg_def)
  next
    case m: 2
    then have "ctx_at all_objs (({#} + obj_of u) + obj_of p) s5" "cl_has b p None None None s5"
      using a5 by simp_all
    from gss_release_client[OF 6[unfolded p5] this]
    have "ctx_at all_objs ({#} + obj_of u) s6" "cl_has b None None None None s6"
      by (simp_all add: s6_def cl_has_def)
    from stop_client[OF this] show ?thesis
      using res m by (simp add: no_ccache_msg_def)
  next
    case m: 3
    have "ctx_at all_objs ((obj_of p + obj_of r) + obj_of u) s5"
      using a5(1) by (simp add: ac_simps)
    from free_if_client[OF this a5(2)] show ?thesis
      using res m by (auto simp: no_ccache_msg_def)
  qed
qed

lemma Krb5NameFormatCheckHack_same:
  assumes c: "Krb5NameFormatCheckHack E name s = (ok, s')"
  shows "mem_same s s' \<and> objs s' = objs s"
proof -
  obtain c1 s1 where 1: "lib_new (ko_init_context E) s = (c1, s1)"
    by (metis prod.exhaust_sel)
  show ?thesis
    using 1
  proof (cases rule: lib_new_cases)
    case (None w)
    then show ?thesis
      using c by (auto simp: Krb5NameFormatCheckHack_def 1)
  next
    case (Some i w n)
    have u: "uses [c1] s1 = s1"
      by (rule uses_alive) (simp add: Some)
    have m1: "mem_same s s1" "objs s1 = objs s + obj_of c1"
      by (simp_all add: Some)
    obtain p s2 where 2: "lib_new (\<lambda>w. ko_parse_name E w (c_str name)) s1 = (p, s2)"
      by (metis prod.exhaust_sel)
    have m2: "mem_same s s2 \<and> objs s2 = (objs s + obj_of c1) + obj_of p"
      using 2 by (cases rule: lib_new_cases) (use m1 in simp_all)
    note f1 = free_if_state[OF conjunct2[OF m2]]
    note f2 = free_if_state[of "free_if p s2" "objs s" c1]
    have "s' = free_if c1 (free_if p s2)"
      using c unfolding Krb5NameFormatCheckHack_def 1 Let_def prod.case u 2 using Some(1) by auto
    then show ?thesis
      using m2 f1 f2 mem_same_trans by metis
  qed
qed

lemma ClientInitServer_ok:
  assumes c: "ClientInitServer E G name s = (ar, s')" and a: "ctx_at all_objs (obj_of p + obj_of r) s"
    and h: "cl_has b p None r None s"
  shows "snd ar \<noteq> no_ccache_msg \<and> cl_ok b s'"
proof -
  obtain ok s1 where 1: "Krb5NameFormatCheckHack E name s = (ok, s1)"
    by (metis prod.exhaust_sel)
  note m1 = Krb5NameFormatCheckHack_same[OF 1]
  have a1: "ctx_at all_objs (obj_of p + obj_of r) s1" and h1: "cl_has b p None r None s1"
    using m1 ctx_at_mem_same[of s s1, OF _ a] ctx_at_objs[OF a] cl_has_same(1)[of s s1 b p None r None] h by auto
  obtain u s2 where 2: "obj_if True s1 = (u, s2)"
    by (metis prod.exhaust_sel)
  note a2 = obj_if_client[OF 2 a1 h1]
  obtain major w where 3: "go_import G (kw s2) name GSS_NT_PRINCIPAL = (major, w)"
    by (metis prod.exhaust_sel)
  define t3 where "t3 = s2\<lparr>kw := w\<rparr>"
  obtain q t4 where 4: "obj_if (major = 0) t3 = (q, t4)"
    by (metis prod.exhaust_sel)
  define s4 where "s4 = t4\<lparr>cl_service_name := q\<rparr>"
  have a4: "ctx_at all_objs (obj_of p + obj_of r + obj_of u + obj_of q) s4" "cl_has b p q r None s4" "q \<noteq> None \<longleftrightarrow> major = 0"
    using obj_if_client[OF 4, of all_objs "obj_of p + obj_of r + obj_of u" b p None r None] a2
    by (simp_all add: t3_def s4_def cl_has_def)
  have p4: "cl_client_name s4 = p"
    using a4(2) by (simp add: cl_has_def)
  obtain m5 t5 where 5: "gss_release G (cl_client_name s4) s4 = (m5, t5)"
    by (metis prod.exhaust_sel)
  define s5 where "s5 = t5\<lparr>cl_client_name := None\<rparr>"
  have "ctx_at all_objs ((obj_of u + obj_of r + obj_of q) + obj_of p) s4"
    using a4(1) by (simp add: ac_simps)
  from gss_release_client[OF 5[unfolded p4] this a4(2)]
  have a5: "ctx_at all_objs ((obj_of u + obj_of r) + obj_of q) s5" "cl_has b None q r None s5"
    by (simp_all add: s5_def cl_has_def)
  have q5: "cl_service_name s5 = q"
    using a5(2) by (simp add: cl_has_def)
  obtain m6 t6 where 6: "gss_release G (cl_service_name s5) s5 = (m6, t6)"
    by (metis prod.exhaust_sel)
  define s6 where "s6 = t6\<lparr>cl_service_name := None\<rparr>"
  from gss_release_client[OF 6[unfolded q5] a5]
  have a6: "ctx_at all_objs (obj_of u + obj_of r) s6" "cl_has b None None r None s6"
    by (simp_all add: s6_def cl_has_def)
  have r6: "cl_credentials s6 = r"
    using a6(2) by (simp add: cl_has_def)
  obtain m7 t7 where 7: "gss_release G (cl_credentials s6) s6 = (m7, t7)"
    by (metis prod.exhaust_sel)
  define s7 where "s7 = t7\<lparr>cl_credentials := None\<rparr>"
  from gss_release_client[OF 7[unfolded r6] a6]
  have a7: "ctx_at all_objs ({#} + obj_of u) s7" "cl_has b None None None None s7"
    by (simp_all add: s7_def cl_has_def)
  have res: "(ar, s') = (if \<not> ok then ((1, ''Invalid inServiceName: '' @ name), s1)
    else if major \<noteq> 0 then ((1, ''gss_import_name(inServiceName) Failed''), free_if u (KerberosDestroyCCache E s7))
    else ((0, ''ClientInitServer Succeed''), free_if u s4))"
    using c unfolding ClientInitServer_def 1 Let_def prod.case 2 lib_call_eq 3 fst_conv snd_conv t3_def[symmetric] 4 s4_def[symmetric]
      5 s5_def[symmetric] 6 s6_def[symmetric] 7 s7_def[symmetric] by (auto split: if_splits)
  have o1: "cl_ok b s1"
    using a1 by (intro cl_has_ok[OF h1, of all_objs]) simp_all
  have o7: "cl_ok b (free_if u (KerberosDestroyCCache E s7))"
    using stop_client[OF a7, of E] by (intro cl_has_ok[of b None None None None _ no_objs]) simp_all
  have "ctx_at all_objs ((obj_of p + obj_of q + obj_of r) + obj_of u) s4"
    using a4(1) by (simp add: ac_simps)
  note f4 = free_if_client[OF this a4(2)]
  have o4: "cl_ok b (free_if u s4)"
    using f4(1) by (intro cl_has_ok[OF f4(2), of all_objs]) simp_all
  show ?thesis
    using res o1 o7 o4 by (auto simp: no_ccache_msg_def split: if_splits)
qed

lemma ClientInit_ok:
  assumes o: "cl_ok b s" and e: "objs s = {#}" and i: "ClientInit E G name service keytab s = Some (ar, s')"
  shows "cl_ok (b \<or> snd ar = no_ccache_msg) s'"
proof (cases "name = [] \<or> service = [] \<or> keytab = [] \<or> KRB_MAX_NAME_LENGTH < length name \<or>
    KRB_MAX_NAME_LENGTH < length service \<or> KRB_MAX_FILE_SIZE < length keytab")
  case True
  then show ?thesis
    using i o by (auto simp: ClientInit_def no_ccache_msg_def)
next
  case len: False
  define s0 where "s0 = s\<lparr>cl_sec_context := None, cl_credentials := None\<rparr>"
  have "obj_of x = {#} \<longleftrightarrow> x = None" for x
    by (cases x) simp_all
  then have c0: "ctx_at no_objs {#} s0" and h0: "cl_has b None None None None s0"
    using o e by (auto simp: cl_ok_def cl_objs_def cl_has_def s0_def ctx_at_def ctx_defs)
  obtain ar1 s1 where 1: "KerberosInitCCache E keytab name KRB5KTNAME KRB5CCNAME s0 = Some (ar1, s1)"
    using i len by (cases "KerberosInitCCache E keytab name KRB5KTNAME KRB5CCNAME s0") (auto simp: ClientInit_def s0_def)
  note k = KerberosInitCCache_at[OF 1 c0]
  have h1: "cl_has (b \<or> snd ar1 = no_ccache_msg) None None None None s1"
    using k h0 by (cases s0; cases s1) (auto simp: cl_has_def)
  show ?thesis
  proof (cases "fst ar1 = 0")
    case False
    have "cl_ok (b \<or> snd ar1 = no_ccache_msg) s1"
      using k False by (intro cl_has_ok[OF h1, of no_objs]) simp_all
    then show ?thesis
      using i len False by (simp add: ClientInit_def s0_def[symmetric] 1)
  next
    case True
    have a1: "ctx_at all_objs {#} s1" and g1: "cl_has b None None None None s1"
      using k h1 True InitCCache_success_msg[OF 1] by simp_all
    obtain ar2 s2 where 2: "ClientInitClient E G name s1 = (ar2, s2)"
      by (metis prod.exhaust_sel)
    note c2 = ClientInitClient_ok[OF 2 a1 g1]
    show ?thesis
    proof (cases "fst ar2 = 0")
      case False
      have "cl_ok b s2"
        using c2 False by (intro cl_has_ok[of b None None None None s2 no_objs]) simp_all
      then show ?thesis
        using i len True False c2 by (simp add: ClientInit_def s0_def[symmetric] 1 2)
    next
      case t2: True
      then obtain p r where pr: "ctx_at all_objs (obj_of p + obj_of r) s2" "cl_has b p None r None s2"
        using c2 by auto
      obtain ar3 s3 where 3: "ClientInitServer E G service s2 = (ar3, s3)"
        by (metis prod.exhaust_sel)
      note c3 = ClientInitServer_ok[OF 3 pr]
      have "ar = (if fst ar3 = 0 then (0, ''ClientInit Succeed'') else ar3)" "s' = s3"
        using i len True t2 by (auto simp: ClientInit_def s0_def[symmetric] 1 2 3 split: if_splits)
      then show ?thesis
        using c3 by (simp add: no_ccache_msg_def)
    qed
  qed
qed

text \<open>
  A client is started only while it owns nothing. \<open>b\<close> records whether a start failed because the library had no default
  credential cache.
\<close>

inductive cli_life :: "'w krb_env \<Rightarrow> 'w gss_env \<Rightarrow> bool \<Rightarrow> 'w krb_client \<Rightarrow> bool" for E G where
  cli_new: "cli_life E G False (KrbClient_new w)"
| cli_init: "cli_life E G b s \<Longrightarrow> objs s = {#} \<Longrightarrow> ClientInit E G name service keytab s = Some (ar, s') \<Longrightarrow>
    cli_life E G (b \<or> snd ar = no_ccache_msg) s'"
| cli_cred: "cli_life E G b s \<Longrightarrow> ClientGetCred G s = (ar, s') \<Longrightarrow> cli_life E G b s'"
| cli_auth: "cli_life E G b s \<Longrightarrow> ClientAuthServer G cred s = (ar2, s') \<Longrightarrow> cli_life E G b s'"

lemma KrbClient_new_ok: "cl_ok False (KrbClient_new w)"
  by (simp add: cl_ok_def cl_objs_def KrbClient_new_def ctx_at_def ctx_defs)

lemma cli_life_ok: "cli_life E G b s \<Longrightarrow> cl_ok b s"
  by (induction rule: cli_life.induct) (auto simp: KrbClient_new_ok intro: ClientInit_ok ClientGetCred_ok ClientAuthServer_ok)


lemma toy_client:
  "\<exists>s. ClientInit toy_krb toy_gss ''h'' ''s'' (enc_keytab ''52'' toy_items) (KrbClient_new ()) = Some ((0, ''ClientInit Succeed''), s)"
proof -
  have "length (enc_keytab ''52'' toy_items) \<le> KRB_MAX_FILE_SIZE" "enc_keytab ''52'' toy_items \<noteq> []"
    by (simp_all add: KRB_MAX_FILE_SIZE_def toy_items_def toy_entry_def enc_keytab_def enc_entry_def enc_content_def
      enc_principal_def counted_def)
  then show ?thesis
    using toy_entry_read
    by (simp add: ClientInit_def krb_eval KrbClient_new_def KRB_MAX_NAME_LENGTH_def KRB5KTNAME_def KRB5CCNAME_def
        KerberosInitCCache_def ObtainKerberosCredentials_def ClientInitClient_def ClientInitServer_def Krb5NameFormatCheckHack_def
        obj_if_def free_if_def)
qed


subsection \<open>Starting ends\<close>

lemma KerberosInitKeytab_returns: "length buf < 2 ^ 31 \<Longrightarrow> KerberosInitKeytab E buf name kt s \<noteq> None"
proof -
  assume "length buf < 2 ^ 31"
  then have 1: "KerberosGetEntry err same buf kvno enctype \<noteq> None" for err same kvno enctype
    using KerberosGetEntry_total by force
  have 2: "KerberosGetEntry_ctx E buf kvno enctype t \<noteq> None" for kvno enctype and t :: "('a, 'b) krb_ctx_scheme"
    by (auto simp: 1 KerberosGetEntry_ctx_def split: option.splits prod.splits)
  show ?thesis
    by (auto simp: 2 KerberosInitKeytab_def Let_def split: option.splits prod.splits)
qed

text \<open>C30: Starting a server or a client ends on every keytab, however its entries and holes are laid out: the size the source
  allows keeps the reader's 32-bit position from wrapping.\<close>

theorem Kerberos_start_returns:
  "(\<exists>r. ServerInit E G name keytab s = Some r) \<and> (\<exists>r. ClientInit E G client service keytab c = Some r)"
proof -
  have k: "KRB_MAX_FILE_SIZE < 2 ^ 31"
    by (simp add: KRB_MAX_FILE_SIZE_def)
  have "length keytab \<le> KRB_MAX_FILE_SIZE \<Longrightarrow> KerberosInitKeytab E keytab n kt t \<noteq> None" for n kt and t :: "('a, 'z) krb_ctx_scheme"
    using KerberosInitKeytab_returns le_less_trans[OF _ k] by blast
  note 1 = this
  have 2: "length keytab \<le> KRB_MAX_FILE_SIZE \<Longrightarrow> KerberosInitCCache E keytab n kt cc t \<noteq> None" for n kt cc and t :: "'a krb_client"
    by (auto simp: 1 KerberosInitCCache_def Let_def split: option.splits prod.splits)
  have "ServerInit E G name keytab s \<noteq> None"
    by (auto simp: 1 ServerInit_def Let_def not_less split: option.splits prod.splits)
  moreover have "ClientInit E G client service keytab c \<noteq> None"
    by (auto simp: 2 ClientInit_def Let_def not_less split: option.splits prod.splits)
  ultimately show ?thesis
    by auto
qed

end
