(* ===== verification/CdfAuthorization.thy ===== *)
theory CdfAuthorization
  imports CdfDefs CdfOrdMap "HOL-Library.Char_ord" "HOL-Library.List_Lexorder"
begin

section \<open>Whitelist authorization (\<open>modules/authorization/whitelist_authorization.cpp\<close>)\<close>

text \<open>
  The whitelist is a \<open>std::map\<close> from user names to whether they are allowed, ordered by the bytes
  of the names. The JSON parser is a parameter. The operations return their code and the whitelist
  they leave behind.
\<close>

datatype AuthRC =
    AUTH_OK | AUTH_FAILED | CONF_CONFLICT | CONF_INVALID | PARAM_ERROR | CONF_FORMAT_INVALID | NO_SUCH_USER
  | USER_EXIST | EMPTY_USERNAME | NO_SUCH_ROLE | EMPTY_ROLE | ROLE_EXISTED | NO_SUCH_PERMISSION | ROLE_IN_USE
  | PERMISSION_IN_USE | PERMISSION_EXISTED | PERMISSION_BIND_FAILED | MALLOC_FAILED | NOT_SUPPORTED_TYPE
  | SET_EXTERNAL_LOGGER_FAILED

type_synonym whitelist = "(bytes, bool) omap"

definition MAX_ALLOWED_NAME_LENGTH :: nat where "MAX_ALLOWED_NAME_LENGTH = 1024 * 1024"
definition MAX_ALLOWED_CONF_LENGTH :: nat where "MAX_ALLOWED_CONF_LENGTH = 1024 * 1024 * 100"

text \<open>A well-formed node of the configuration: the user and whether it is allowed.\<close>

definition conf_entry :: "json \<Rightarrow> (bytes \<times> bool) option" where
  "conf_entry node =
    (if \<not> json_is_object node then None
     else case json_member ''user'' node of
       Some (JString user) \<Rightarrow>
         (case json_member ''allow'' node of
            Some (JBool access) \<Rightarrow> Some (c_str user, access)
          | _ \<Rightarrow> None)
     | _ \<Rightarrow> None)"

fun conf_loop :: "json list \<Rightarrow> whitelist \<Rightarrow> AuthRC \<times> whitelist" where
  "conf_loop [] wl = (AUTH_OK, wl)"
| "conf_loop (node # nodes) wl =
    (case conf_entry node of
       None \<Rightarrow> (CONF_FORMAT_INVALID, wl)
     | Some (userName, access) \<Rightarrow>
       (case map_of wl userName of
          None \<Rightarrow> conf_loop nodes (om_insert userName access wl)
        | Some a \<Rightarrow> if a \<noteq> access then (CONF_CONFLICT, wl) else conf_loop nodes wl))"

definition Auth_Initialize :: "(bytes \<Rightarrow> json option) \<Rightarrow> bytes \<Rightarrow> whitelist \<Rightarrow> AuthRC \<times> whitelist" where
  "Auth_Initialize parse conf wl =
    (if MAX_ALLOWED_CONF_LENGTH < length conf then (PARAM_ERROR, wl)
     else if conf = [] then (CONF_FORMAT_INVALID, wl)
     else case parse (c_str conf) of
       Some (JArray nodes) \<Rightarrow> conf_loop nodes wl
     | _ \<Rightarrow> (CONF_FORMAT_INVALID, wl))"

definition CheckPermission :: "whitelist \<Rightarrow> bytes \<Rightarrow> AuthRC" where
  "CheckPermission wl user =
    (if user = [] \<or> MAX_ALLOWED_NAME_LENGTH < length user then PARAM_ERROR
     else case map_of wl user of
       None \<Rightarrow> AUTH_FAILED
     | Some access \<Rightarrow> if access then AUTH_OK else AUTH_FAILED)"

definition Auth_UnInitialize :: "whitelist \<Rightarrow> AuthRC \<times> whitelist" where
  "Auth_UnInitialize wl = (AUTH_OK, [])"

definition GetAllPrincipals :: "whitelist \<Rightarrow> AuthRC \<times> bytes list" where
  "GetAllPrincipals wl = (AUTH_OK, map fst wl)"

subsection \<open>What a configuration grants\<close>

text \<open>The entries of a configuration up to the first malformed node.\<close>

fun conf_entries :: "json list \<Rightarrow> (bytes \<times> bool) list" where
  "conf_entries [] = []"
| "conf_entries (node # nodes) =
    (case conf_entry node of None \<Rightarrow> [] | Some e \<Rightarrow> e # conf_entries nodes)"

lemma conf_loop_wf: "om_wf wl \<Longrightarrow> om_wf (snd (conf_loop nodes wl))"
  by (induction nodes arbitrary: wl) (auto simp: om_wf_insert split: option.splits)

text \<open>How the loop ends with \<open>n\<close> nodes left: \<open>rest\<close> are the entries that follow, \<open>m\<close> the whitelist.\<close>

definition conf_end :: "AuthRC \<Rightarrow> nat \<Rightarrow> (bytes \<times> bool) list \<Rightarrow> (bytes \<rightharpoonup> bool) \<Rightarrow> bool" where
  "conf_end rc n rest m =
    (if rc = AUTH_OK then n = 0
     else if rc = CONF_CONFLICT then rest \<noteq> [] \<and> m (fst (hd rest)) = Some (\<not> snd (hd rest))
     else rc = CONF_FORMAT_INVALID \<and> 0 < n \<and> rest = [])"

lemma conf_loop_result:
  "om_wf wl \<Longrightarrow> conf_loop nodes wl = (rc, wl') \<Longrightarrow>
    \<exists>es rest. conf_entries nodes = es @ rest \<and> length es \<le> length nodes \<and> map_of wl' = map_of es ++ map_of wl \<and>
      conf_end rc (length nodes - length es) rest (map_of wl')"
proof (induction nodes arbitrary: wl)
  case Nil
  then show ?case
    by (simp add: conf_end_def)
next
  case (Cons node nodes)
  show ?case
  proof (cases "conf_entry node")
    case None
    then show ?thesis
      using Cons.prems by (auto simp: conf_end_def)
  next
    case (Some e)
    obtain u a where e: "e = (u, a)"
      by (cases e)
    show ?thesis
    proof (cases "map_of wl u = Some (\<not> a)")
      case True
      then have "rc = CONF_CONFLICT" "wl' = wl"
        using Cons.prems by (auto simp: Some e)
      note v = this
      show ?thesis
        by (rule exI[of _ "[]"], rule exI[of _ "conf_entries (node # nodes)"])
          (use v True in \<open>simp add: Some e conf_end_def\<close>)
    next
      case False
      then have l: "conf_loop nodes (om_insert u a wl) = (rc, wl')"
        using Cons.prems by (auto simp: Some e om_insert_def split: option.splits if_splits)
      obtain es rest where r: "conf_entries nodes = es @ rest" "length es \<le> length nodes"
        "map_of wl' = map_of es ++ map_of (om_insert u a wl)"
        "conf_end rc (length nodes - length es) rest (map_of wl')"
        using Cons.IH[OF om_wf_insert[OF Cons.prems(1)] l] by blast
      have "map_of wl' = map_of ((u, a) # es) ++ map_of wl"
        unfolding r(3) using False Cons.prems(1)
        by (auto simp: fun_eq_iff map_of_om_insert map_add_def split: option.splits if_splits)
      note v = this
      show ?thesis
        by (rule exI[of _ "(u, a) # es"], rule exI[of _ rest]) (use r(1,2,4) v in \<open>simp add: Some e fun_upd_def\<close>)
    qed
  qed
qed

lemma CheckPermission_OK:
  "CheckPermission wl x = AUTH_OK \<longleftrightarrow> x \<noteq> [] \<and> length x \<le> MAX_ALLOWED_NAME_LENGTH \<and> map_of wl x = Some True"
  by (auto simp: CheckPermission_def split: option.splits)


text \<open>A configuration whose second node is malformed: it is rejected, and its first user is permitted.\<close>

definition toy_conf :: "json list" where
  "toy_conf = [JObject [(''user'', JString ''ann''), (''allow'', JBool True)], JNull]"


end
