(* ===== verification/CdfTimeUtils.thy ===== *)
theory CdfTimeUtils
  imports CdfStrUtils
begin

section \<open>UTC to local time (\<open>utils/time_utils.cpp\<close>)\<close>

text \<open>
  The time is a broken-down UTC time read with \<open>sscanf\<close>. \<open>lastDay\<close> and \<open>lastLastDay\<close>, the lengths
  of its month and of the month before, are not initialised by their declaration: \<open>None\<close> is a field
  that was never written, and reading it is undefined behaviour. The clock's zone is a
  parameter, the hour \<open>localtime_r\<close> gives for the epoch. All numbers have at most four
  characters, so the \<open>int\<close>s of the source do not overflow.
\<close>

record UTCTime =
  u_year :: int
  u_month :: int
  u_day :: int
  u_hour :: int
  u_min :: int
  u_sec :: int
  lastDay :: "int option"
  lastLastDay :: "int option"

definition GetTimeZone :: "int \<Rightarrow> int" where
  "GetTimeZone epochHour = (if 12 < epochHour then epochHour - 24 else epochHour)"

definition ParseDayAmount :: "UTCTime \<Rightarrow> UTCTime" where
  "ParseDayAmount t =
    (let month = u_month t; year = u_year t;
         bMonth = (month = 1 \<or> month = 3 \<or> month = 5 \<or> month = 7 \<or> month = 8 \<or> month = 10 \<or> month = 12);
         sMonth = (month = 4 \<or> month = 6 \<or> month = 9 \<or> month = 11);
         bLeapMonth = (400 dvd year \<or> (4 dvd year \<and> \<not> 100 dvd year)) in
     if bMonth then
       (let t1 = t\<lparr>lastDay := Some 31\<rparr>;
            t2 = (if month = 3 then t1\<lparr>lastLastDay := Some (if bLeapMonth then 29 else 28)\<rparr> else t1) in
        if month = 8 then t2\<lparr>lastLastDay := Some 31\<rparr> else t2)
     else if sMonth then t\<lparr>lastDay := Some 30, lastLastDay := Some 31\<rparr>
     else t\<lparr>lastLastDay := Some 31, lastDay := Some (if bLeapMonth then 29 else 28)\<rparr>)"

text \<open>Moving forward over the end of the day, and backward; \<open>None\<close> when an unset field is read.\<close>

definition roll_forward :: "UTCTime \<Rightarrow> UTCTime option" where
  "roll_forward t =
    (let t1 = t\<lparr>u_hour := u_hour t - 24, u_day := u_day t + 1\<rparr> in
     case lastDay t1 of
       None \<Rightarrow> None
     | Some ld \<Rightarrow>
       if u_day t1 \<le> ld then Some t1
       else let t2 = t1\<lparr>u_day := u_day t1 - ld, u_month := u_month t1 + 1\<rparr> in
         if u_month t2 \<le> 12 then Some t2
         else Some (t2\<lparr>u_month := u_month t2 - 12, u_year := u_year t2 + 1\<rparr>))"

definition roll_back :: "UTCTime \<Rightarrow> UTCTime option" where
  "roll_back t =
    (let t1 = t\<lparr>u_hour := u_hour t + 24, u_day := u_day t - 1\<rparr> in
     if 1 \<le> u_day t1 then Some t1
     else case lastLastDay t1 of
       None \<Rightarrow> None
     | Some lld \<Rightarrow>
       let t2 = t1\<lparr>u_day := lld, u_month := u_month t1 - 1\<rparr> in
         if 1 \<le> u_month t2 then Some t2
         else Some (t2\<lparr>u_month := 12, u_year := u_year t2 - 1\<rparr>))"

definition TranseTimeZoneT :: "int \<Rightarrow> UTCTime \<Rightarrow> UTCTime option" where
  "TranseTimeZoneT epochHour t =
    (let t1 = t\<lparr>u_hour := u_hour t + GetTimeZone epochHour\<rparr> in
     case (if 24 \<le> u_hour t1 then roll_forward t1 else Some t1) of
       None \<Rightarrow> None
     | Some t2 \<Rightarrow> if u_hour t2 < 0 then roll_back t2 else Some t2)"

subsection \<open>Reading and writing\<close>

text \<open>\<open>%0\<close>\<open>n\<close>\<open>d\<close> of \<open>sscanf\<close>: white space, then at most \<open>n\<close> characters of a signed decimal number.\<close>

definition scan_int :: "nat \<Rightarrow> bytes \<Rightarrow> (int \<times> bytes) option" where
  "scan_int n s =
    (let s1 = dropWhile isspace_c s;
         signed = (case s1 of c # _ \<Rightarrow> c = CHR ''-'' \<or> c = CHR ''+'' | [] \<Rightarrow> False);
         s2 = (if signed then tl s1 else s1);
         ds = takeWhile isdigit_c (take (if signed then n - 1 else n) s2);
         v = int (foldl (\<lambda>v c. 10 * v + (of_char c - 48)) 0 ds) in
     if ds = [] then None
     else Some (if signed \<and> hd s1 = CHR ''-'' then - v else v, drop (length ds) s2))"

definition scan_char :: "char \<Rightarrow> bytes \<Rightarrow> bytes option" where
  "scan_char c s = (case s of d # r \<Rightarrow> if d = c then Some r else None | [] \<Rightarrow> None)"

text \<open>The six numbers of \<open>%04d-%02d-%02dT%02d:%02d:%02dZ\<close>; the last letter is not needed.\<close>

fun scan_fields :: "(nat \<times> char) list \<Rightarrow> bytes \<Rightarrow> int list option" where
  "scan_fields [] s = (case scan_int 2 s of None \<Rightarrow> None | Some (v, _) \<Rightarrow> Some [v])"
| "scan_fields ((n, c) # fs) s =
    (case scan_int n s of
       None \<Rightarrow> None
     | Some (v, s1) \<Rightarrow>
       (case scan_char c s1 of
          None \<Rightarrow> None
        | Some s2 \<Rightarrow> (case scan_fields fs s2 of None \<Rightarrow> None | Some vs \<Rightarrow> Some (v # vs))))"

definition utc_format :: "(nat \<times> char) list" where
  "utc_format = [(4, CHR ''-''), (2, CHR ''-''), (2, CHR ''T''), (2, CHR '':''), (2, CHR '':'')]"

text \<open>\<open>%0\<close>\<open>n\<close>\<open>d\<close> of \<open>sprintf\<close>: zeroes after the sign up to the width.\<close>

definition pad_int :: "nat \<Rightarrow> int \<Rightarrow> bytes" where
  "pad_int n i =
    (let digits = nat_str (nat \<bar>i\<bar>); sign = (if i < 0 then ''-'' else []) in
     sign @ replicate (n - length sign - length digits) (CHR ''0'') @ digits)"

definition local_format :: "UTCTime \<Rightarrow> bytes" where
  "local_format t =
    pad_int 4 (u_year t) @ ''/'' @ pad_int 2 (u_month t) @ ''/'' @ pad_int 2 (u_day t) @ '' '' @
    pad_int 2 (u_hour t) @ '':'' @ pad_int 2 (u_min t) @ '':'' @ pad_int 2 (u_sec t) @ '' ''"

definition UTCTIME_LEN :: nat where "UTCTIME_LEN = 24"

text \<open>The code and the string afterwards; the outer \<open>None\<close> is undefined behaviour.\<close>

definition UtcTimeToLocal :: "int \<Rightarrow> bytes \<Rightarrow> (u32 \<times> bytes) option" where
  "UtcTimeToLocal epochHour timeStr =
    (case scan_fields utc_format timeStr of
       Some [y, mo, d, h, mi, s] \<Rightarrow>
         (case TranseTimeZoneT epochHour (ParseDayAmount
              \<lparr>u_year = y, u_month = mo, u_day = d, u_hour = h, u_min = mi, u_sec = s, lastDay = None, lastLastDay = None\<rparr>) of
            None \<Rightarrow> None
          | Some t \<Rightarrow> if UTCTIME_LEN < length (local_format t) then Some (1, []) else Some (0, local_format t))
     | _ \<Rightarrow> Some (1, timeStr))"

subsection \<open>The calendar\<close>

definition leap_year :: "int \<Rightarrow> bool" where
  "leap_year y \<longleftrightarrow> 4 dvd y \<and> (100 dvd y \<longrightarrow> 400 dvd y)"

definition month_days :: "int \<Rightarrow> int \<Rightarrow> int" where
  "month_days y m = (if m = 2 then (if leap_year y then 29 else 28) else if m \<in> {4, 6, 9, 11} then 30 else 31)"

text \<open>The number of a day in the Gregorian calendar: the days of the years before, of the months before, and its own.\<close>

definition year_start :: "int \<Rightarrow> int" where
  "year_start y = 365 * y + (y - 1) div 4 - (y - 1) div 100 + (y - 1) div 400"

definition day_number :: "int \<Rightarrow> int \<Rightarrow> int \<Rightarrow> int" where
  "day_number y m d = year_start y + sum_list (map (month_days y) [1..m - 1]) + d"

definition utc_hours :: "UTCTime \<Rightarrow> int" where
  "utc_hours t = 24 * day_number (u_year t) (u_month t) (u_day t) + u_hour t"

definition valid_utc :: "UTCTime \<Rightarrow> bool" where
  "valid_utc t \<longleftrightarrow> 1 \<le> u_month t \<and> u_month t \<le> 12 \<and> 1 \<le> u_day t \<and> u_day t \<le> month_days (u_year t) (u_month t) \<and>
     0 \<le> u_hour t \<and> u_hour t < 24"

lemma div_step:
  fixes y k :: int
  assumes k: "0 < k"
  shows "y div k = (y - 1) div k + (if k dvd y then 1 else 0)"
proof -
  define q r where "q = (y - 1) div k" and "r = (y - 1) mod k"
  have "y - 1 = k * q + r"
    by (simp add: q_def r_def)
  then have y: "y = k * q + (r + 1)"
    by simp
  have r: "0 \<le> r" "r < k"
    using k by (simp_all add: r_def)
  show ?thesis
  proof (cases "r + 1 = k")
    case True
    then have "y = k * (q + 1)"
      using y by (simp add: algebra_simps)
    then show ?thesis
      using k unfolding q_def[symmetric] by simp
  next
    case False
    then have "(r + 1) div k = 0" "(r + 1) mod k = r + 1"
      using r by simp_all
    then have "y div k = q" "y mod k \<noteq> 0"
      using k r unfolding y by (simp_all add: mod_mult_self4)
    then show ?thesis
      unfolding q_def[symmetric] by (simp add: dvd_eq_mod_eq_0)
  qed
qed

lemma day_number_day: "day_number y m (d + k) = day_number y m d + k"
  by (simp add: day_number_def)

lemma day_number_month: "1 \<le> m \<Longrightarrow> day_number y (m + 1) d = day_number y m (month_days y m + d)"
  by (simp add: day_number_def upto_rec2)

lemma year_days: "sum_list (map (month_days y) [1..12]) = 365 + (if leap_year y then 1 else 0)"
  by (simp add: upto.simps month_days_def)

lemma year_step: "year_start (y + 1) = year_start y + 365 + (if leap_year y then 1 else 0)"
proof -
  have d: "(400 :: int) dvd y \<Longrightarrow> 100 dvd y" "(100 :: int) dvd y \<Longrightarrow> 4 dvd y"
    by (rule dvd_trans, simp_all)+
  define a b c where "a = (y - 1) div 4" and "b = (y - 1) div 100" and "c = (y - 1) div 400"
  have "year_start (y + 1) = 365 * (y + 1) + y div 4 - y div 100 + y div 400"
    by (simp only: year_start_def add_diff_cancel_right')
  also have "\<dots> = 365 * (y + 1) + (a + (if 4 dvd y then 1 else 0)) - (b + (if 100 dvd y then 1 else 0)) +
      (c + (if 400 dvd y then 1 else 0))"
    unfolding a_def b_def c_def by (simp only: div_step[of 4 y] div_step[of 100 y] div_step[of 400 y])
  also have "\<dots> = 365 * y + a - b + c + 365 + (if leap_year y then 1 else 0)"
    using d unfolding leap_year_def by (cases "4 dvd y"; cases "100 dvd y"; cases "400 dvd y"; simp)
  finally show ?thesis
    by (simp only: year_start_def a_def b_def c_def)
qed

lemma day_number_year: "day_number (y + 1) 1 d = day_number y 13 d"
  by (simp add: day_number_def year_step year_days)

subsection \<open>The conversion keeps the instant\<close>

lemma ParseDayAmount_fields [simp]:
  "u_year (ParseDayAmount t) = u_year t" "u_month (ParseDayAmount t) = u_month t" "u_day (ParseDayAmount t) = u_day t"
  "u_hour (ParseDayAmount t) = u_hour t" "u_min (ParseDayAmount t) = u_min t" "u_sec (ParseDayAmount t) = u_sec t"
  by (simp_all add: ParseDayAmount_def Let_def)

lemma leap_code: "400 dvd y \<or> (4 dvd y \<and> \<not> 100 dvd y) \<longleftrightarrow> leap_year y" for y :: int
proof -
  have "(400 :: int) dvd y \<Longrightarrow> 4 dvd y"
    by (rule dvd_trans) simp_all
  then show ?thesis
    by (auto simp: leap_year_def)
qed

lemma ParseDayAmount_days:
  assumes "1 \<le> u_month t" "u_month t \<le> 12" "lastLastDay t = None"
  shows "lastDay (ParseDayAmount t) = Some (month_days (u_year t) (u_month t))"
    "lastLastDay (ParseDayAmount t) =
      (if u_month t \<in> {1, 5, 7, 10, 12} then None else Some (month_days (u_year t) (u_month t - 1)))"
proof -
  have "u_month t \<in> set [1..12]"
    using assms by simp
  then have "u_month t = 1 \<or> u_month t = 2 \<or> u_month t = 3 \<or> u_month t = 4 \<or> u_month t = 5 \<or> u_month t = 6 \<or>
      u_month t = 7 \<or> u_month t = 8 \<or> u_month t = 9 \<or> u_month t = 10 \<or> u_month t = 11 \<or> u_month t = 12"
    by (simp add: upto.simps)
  then show "lastDay (ParseDayAmount t) = Some (month_days (u_year t) (u_month t))"
    "lastLastDay (ParseDayAmount t) =
      (if u_month t \<in> {1, 5, 7, 10, 12} then None else Some (month_days (u_year t) (u_month t - 1)))"
    using assms(3) unfolding ParseDayAmount_def Let_def leap_code
    by (elim disjE; simp add: month_days_def)+
qed

lemma month_days_ge: "28 \<le> month_days y m"
  by (simp add: month_days_def)

text \<open>The instant, with the hour apart from the date.\<close>

lemma day_one: "day_number y m 1 - 1 = day_number y m 0" "day_number y m (d + 1) = day_number y m d + 1"
  by (simp_all add: day_number_def)

lemma roll_forward_ok:
  assumes v: "1 \<le> u_month t" "u_month t \<le> 12" "1 \<le> u_day t" "u_day t \<le> month_days (u_year t) (u_month t)"
    and l: "lastDay t = Some (month_days (u_year t) (u_month t))" and h: "24 \<le> u_hour t" "u_hour t < 48"
  shows "\<exists>t'. roll_forward t = Some t' \<and> valid_utc t' \<and> utc_hours t' = utc_hours t \<and> u_min t' = u_min t \<and> u_sec t' = u_sec t"
proof (cases "u_day t + 1 \<le> month_days (u_year t) (u_month t)")
  case True
  then show ?thesis
    using v l h by (simp add: roll_forward_def valid_utc_def utc_hours_def day_one(2))
next
  case False
  then have d: "u_day t = month_days (u_year t) (u_month t)"
    using v by simp
  show ?thesis
  proof (cases "u_month t = 12")
    case True
    have "day_number (u_year t + 1) 1 1 = day_number (u_year t) 12 (u_day t) + 1"
      using day_number_month[of 12 "u_year t" 1] day_number_year[of "u_year t" 1] day_one(2)[of "u_year t" 12 "u_day t"] d True
      by simp
    then show ?thesis
      using v l h d True month_days_ge[of "u_year t + 1" 1]
      by (simp add: roll_forward_def valid_utc_def utc_hours_def)
  next
    case False
    have "day_number (u_year t) (u_month t + 1) 1 = day_number (u_year t) (u_month t) (u_day t) + 1"
      using day_number_month[of "u_month t" "u_year t" 1] day_one(2)[of "u_year t" "u_month t" "u_day t"] d v by simp
    then show ?thesis
      using v l h d False month_days_ge[of "u_year t" "u_month t + 1"]
      by (simp add: roll_forward_def valid_utc_def utc_hours_def)
  qed
qed

lemma roll_back_ok:
  assumes v: "1 \<le> u_month t" "u_month t \<le> 12" "1 \<le> u_day t" "u_day t \<le> month_days (u_year t) (u_month t)"
    and l: "u_day t = 1 \<Longrightarrow> 2 \<le> u_month t \<and> lastLastDay t = Some (month_days (u_year t) (u_month t - 1))"
    and h: "- 24 \<le> u_hour t" "u_hour t < 0"
  shows "\<exists>t'. roll_back t = Some t' \<and> valid_utc t' \<and> utc_hours t' = utc_hours t \<and> u_min t' = u_min t \<and> u_sec t' = u_sec t"
proof (cases "u_day t = 1")
  case False
  then show ?thesis
    using v h day_one(2)[of "u_year t" "u_month t" "u_day t - 1"]
    by (simp add: roll_back_def valid_utc_def utc_hours_def)
next
  case True
  note L = l[OF True]
  have "day_number (u_year t) (u_month t) 0 = day_number (u_year t) (u_month t - 1) (month_days (u_year t) (u_month t - 1))"
    using day_number_month[of "u_month t - 1" "u_year t" 0] L by simp
  then show ?thesis
    using v h L True day_one(1)[of "u_year t" "u_month t"] month_days_ge[of "u_year t" "u_month t - 1"]
    by (simp add: roll_back_def valid_utc_def utc_hours_def)
qed

text \<open>The three cases of the shift, on a time whose month lengths are known.\<close>

lemma shift_ok:
  assumes v: "valid_utc t" and l: "lastDay t = Some (month_days (u_year t) (u_month t))"
    and b: "u_hour t + GetTimeZone h < 0 \<Longrightarrow> u_day t = 1 \<Longrightarrow>
      2 \<le> u_month t \<and> lastLastDay t = Some (month_days (u_year t) (u_month t - 1))"
    and h: "0 \<le> h" "h < 24"
  shows "\<exists>t'. TranseTimeZoneT h t = Some t' \<and> valid_utc t' \<and> utc_hours t' = utc_hours t + GetTimeZone h \<and>
    u_min t' = u_min t \<and> u_sec t' = u_sec t"
proof -
  let ?t = "t\<lparr>u_hour := u_hour t + GetTimeZone h\<rparr>"
  have tz: "- 11 \<le> GetTimeZone h" "GetTimeZone h \<le> 12"
    using h by (simp_all add: GetTimeZone_def)
  have hs: "utc_hours ?t = utc_hours t + GetTimeZone h"
    by (simp add: utc_hours_def)
  note V = v[unfolded valid_utc_def]
  consider (fwd) "24 \<le> u_hour ?t" | (stay) "0 \<le> u_hour ?t" "u_hour ?t < 24" | (bwd) "u_hour ?t < 0"
    by linarith
  then show ?thesis
  proof cases
    case fwd
    obtain t' where r: "roll_forward ?t = Some t'" "valid_utc t'" "utc_hours t' = utc_hours ?t"
      "u_min t' = u_min ?t" "u_sec t' = u_sec ?t"
      using roll_forward_ok[of ?t] V l tz fwd by auto
    then have "\<not> u_hour t' < 0"
      by (simp add: valid_utc_def)
    then show ?thesis
      using r hs fwd by (simp add: TranseTimeZoneT_def)
  next
    case stay
    then show ?thesis
      using V hs by (simp add: TranseTimeZoneT_def valid_utc_def)
  next
    case bwd
    obtain t' where r: "roll_back ?t = Some t'" "valid_utc t'" "utc_hours t' = utc_hours ?t"
      "u_min t' = u_min ?t" "u_sec t' = u_sec ?t"
      using roll_back_ok[of ?t] V b tz bwd by auto
    then show ?thesis
      using bwd hs by (simp add: TranseTimeZoneT_def)
  qed
qed

lemma month_cases: "1 \<le> m \<Longrightarrow> m \<le> 12 \<Longrightarrow> m \<in> {1, 5, 7, 10, 12} \<or> m \<in> {2, 3, 4, 6, 8, 9, 11}" for m :: int
proof -
  assume "1 \<le> m" "m \<le> 12"
  then have "m \<in> set [1..12]"
    by simp
  then show ?thesis
    by (simp add: upto.simps) blast
qed



lemma new_year_undefined: "UtcTimeToLocal 19 ''2024-01-01T02:00:00Z'' = None"
  by code_simp

end
