(* ===== verification/CdfBase.thy ===== *)
theory CdfBase
  imports CdfDefs
begin

section \<open>Range checks and the logger (\<open>base/common_define.h\<close>, \<open>base/custom_logger.cpp\<close>)\<close>

text \<open>
  \<open>EnumCheck\<close> tests whether a number is one of the listed values of an enumeration. The modules apply it to the HMAC
  algorithms and to the ciphers of the OpenBao manager; their models compare constructors, and the lemmas here say
  that this is the same test. The logger is one object with one function of the user, null at first;
  \<open>ExternalLogFunction\<close> is the function the command-line tool installs. A call of the user's function is
  recorded; the text stops at the first zero byte, because the function is handed a C string.
\<close>

subsection \<open>Values of enumerations\<close>

text \<open>The template recurses over its list of values and ends with the empty one.\<close>

fun EnumCheck_IsValue :: "int list \<Rightarrow> int \<Rightarrow> bool" where
  "EnumCheck_IsValue [] v = False"
| "EnumCheck_IsValue (V # Next) v = (v = V \<or> EnumCheck_IsValue Next v)"

lemma EnumCheck_IsValue_iff [simp]: "EnumCheck_IsValue Vs v \<longleftrightarrow> v \<in> set Vs"
  by (induction Vs) auto

fun hmac_number :: "CryptoHmacAlg \<Rightarrow> int" where
  "hmac_number HMAC_SHA256 = 0"
| "hmac_number HMAC_SHA384 = 1"
| "hmac_number HMAC_SHA512 = 2"
| "hmac_number HMAC_UNKNOWN = 3"

fun sym_number :: "CryptoSymAlg \<Rightarrow> int" where
  "sym_number AES128_GCM = 0"
| "sym_number AES256_GCM = 1"
| "sym_number SM4_CTR = 2"
| "sym_number AES128_CCM = 3"
| "sym_number CHACHA20_POLY1305 = 4"
| "sym_number SYM_UNKNOWN = 5"

fun km_number :: "KeyManagerTy \<Rightarrow> int" where
  "km_number OPENBAO = 0"
| "km_number VAULT = 1"
| "km_number KMT_UNKNOWN = 2"

definition CryptoHmacAlgCheck :: "int \<Rightarrow> bool" where
  "CryptoHmacAlgCheck v \<longleftrightarrow> EnumCheck_IsValue [hmac_number HMAC_SHA256, hmac_number HMAC_SHA384, hmac_number HMAC_SHA512] v"

definition OpenBaoCheckSymAlg :: "int \<Rightarrow> bool" where
  "OpenBaoCheckSymAlg v \<longleftrightarrow> EnumCheck_IsValue [sym_number AES256_GCM, sym_number CHACHA20_POLY1305] v"

definition KeyManagerTyCheck :: "int \<Rightarrow> bool" where
  "KeyManagerTyCheck v \<longleftrightarrow> EnumCheck_IsValue [km_number OPENBAO, km_number VAULT] v"

lemma CryptoHmacAlgCheck_iff: "CryptoHmacAlgCheck (hmac_number a) \<longleftrightarrow> a \<noteq> HMAC_UNKNOWN"
  by (cases a) (simp_all add: CryptoHmacAlgCheck_def)

lemma OpenBaoCheckSymAlg_iff: "OpenBaoCheckSymAlg (sym_number a) \<longleftrightarrow> a = AES256_GCM \<or> a = CHACHA20_POLY1305"
  by (cases a) (simp_all add: OpenBaoCheckSymAlg_def)

lemma KeyManagerTyCheck_iff: "KeyManagerTyCheck (km_number t) \<longleftrightarrow> t \<noteq> KMT_UNKNOWN"
  by (cases t) (simp_all add: KeyManagerTyCheck_def)

subsection \<open>The logger\<close>

text \<open>The log functions a user may install are told apart by a name \<open>'f\<close>.\<close>

datatype LogLevel = LOG_LEVEL_TRACE | LOG_LEVEL_DEBUG | LOG_LEVEL_INFO | LOG_LEVEL_WARN | LOG_LEVEL_ERROR | LOG_LEVEL_CRITICAL

fun level_number :: "LogLevel \<Rightarrow> int" where
  "level_number LOG_LEVEL_TRACE = 0"
| "level_number LOG_LEVEL_DEBUG = 1"
| "level_number LOG_LEVEL_INFO = 2"
| "level_number LOG_LEVEL_WARN = 3"
| "level_number LOG_LEVEL_ERROR = 4"
| "level_number LOG_LEVEL_CRITICAL = 5"

record 'f logger =
  logFunction :: "'f option"
  log_calls :: "('f \<times> int \<times> bytes) list"

definition logger_new :: "'f logger" where
  "logger_new = \<lparr>logFunction = None, log_calls = []\<rparr>"

definition Logger_Log :: "int \<Rightarrow> bytes \<Rightarrow> 'f logger \<Rightarrow> 'f logger" where
  "Logger_Log level msg l =
    (case logFunction l of None \<Rightarrow> l | Some f \<Rightarrow> l\<lparr>log_calls := log_calls l @ [(f, level, c_str msg)]\<rparr>)"

definition SetExternalLogFunction :: "'f option \<Rightarrow> 'f logger \<Rightarrow> bool \<times> 'f logger" where
  "SetExternalLogFunction func l = (if func = None then (False, l) else (True, l\<lparr>logFunction := func\<rparr>))"

text \<open>The macro \<open>CCSEC_LOG\<close>: the file and the line in front of the text.\<close>

definition ccsec_log :: "bytes \<Rightarrow> bytes \<Rightarrow> LogLevel \<Rightarrow> bytes \<Rightarrow> 'f logger \<Rightarrow> 'f logger" where
  "ccsec_log file line level text l =
    Logger_Log (level_number level) (''[CCSEC '' @ file @ '':'' @ line @ ''] '' @ text) l"

datatype 'f log_op = OSet "'f option" | OLog LogLevel bytes

fun logger_step :: "'f log_op \<Rightarrow> 'f logger \<Rightarrow> 'f logger" where
  "logger_step (OSet func) l = snd (SetExternalLogFunction func l)"
| "logger_step (OLog level msg) l = Logger_Log (level_number level) msg l"

text \<open>The function installed last, and how many messages a history hands to a function: a null pointer changes
  nothing, and messages before the first function are dropped.\<close>

fun last_function :: "'f log_op list \<Rightarrow> 'f option \<Rightarrow> 'f option" where
  "last_function [] f = f"
| "last_function (OSet (Some g) # ops) f = last_function ops (Some g)"
| "last_function (_ # ops) f = last_function ops f"

fun heard :: "'f log_op list \<Rightarrow> 'f option \<Rightarrow> ('f \<times> int \<times> bytes) list" where
  "heard [] f = []"
| "heard (OSet (Some g) # ops) f = heard ops (Some g)"
| "heard (OSet None # ops) f = heard ops f"
| "heard (OLog level msg # ops) None = heard ops None"
| "heard (OLog level msg # ops) (Some f) = (f, level_number level, c_str msg) # heard ops (Some f)"

lemma logger_run:
  "logFunction (fold logger_step ops l) = last_function ops (logFunction l) \<and>
   log_calls (fold logger_step ops l) = log_calls l @ heard ops (logFunction l)"
proof (induction ops arbitrary: l)
  case (Cons opn ops)
  note IH = Cons.IH[of "logger_step opn l"]
  show ?case
  proof (cases opn)
    case (OSet func)
    then show ?thesis
      using IH by (cases func) (simp_all add: SetExternalLogFunction_def)
  next
    case (OLog level msg)
    then show ?thesis
      using IH by (cases "logFunction l") (simp_all add: Logger_Log_def)
  qed
qed simp

subsection \<open>The function of the command-line tool\<close>

definition level_text :: "int \<Rightarrow> bytes" where
  "level_text level =
    (if level = level_number LOG_LEVEL_TRACE then ''trace''
     else if level = level_number LOG_LEVEL_DEBUG then ''debug''
     else if level = level_number LOG_LEVEL_INFO then ''info''
     else if level = level_number LOG_LEVEL_WARN then ''warn''
     else if level = level_number LOG_LEVEL_ERROR then ''error''
     else if level = level_number LOG_LEVEL_CRITICAL then ''critical''
     else ''warn'')"

text \<open>The time of day, as \<open>localtime\<close> and \<open>strftime\<close> give it, is an argument: none when \<open>localtime\<close> fails.\<close>

definition ExternalLogFunction :: "bytes option \<Rightarrow> int \<Rightarrow> bytes \<Rightarrow> bytes" where
  "ExternalLogFunction now level msg =
    (case now of
       None \<Rightarrow> ''time error'' @ [CHR 0x0A]
     | Some timeBuffer \<Rightarrow> ''['' @ timeBuffer @ ''] ['' @ level_text level @ ''] '' @ msg @ [CHR 0x0A])"

lemma level_text_inj: "level_text (level_number a) = level_text (level_number b) \<longleftrightarrow> a = b"
  by (cases a; cases b) (simp_all add: level_text_def)

end
