(* ===== verification/CdfCompose.thy ===== *)
theory CdfCompose
  imports CdfPsk CdfJwt CdfKmCryptor
begin

section \<open>The cipher of the clients: PSK and JWT over the key manager\<close>

text \<open>
  The PSK manager and the JWT server encrypt through \<open>KmCryptor\<close> and see only its result; their
  own theories take the two calls as parameters. Here the parameters are the cryptor's model in a
  state of the key manager, and the laws the clients rely on are proved of it: what was encrypted
  in one state is decrypted in a later one. A call that has no result (an exception, a deadlock, a
  bad cast) gives a client nothing; it counts as a failed call here, of which the
  theorems about successful calls do not speak. The exports of one reload are answered from
  one state of the outside world.
\<close>

fun returned :: "(CryptionRC \<times> bytes) outcome \<Rightarrow> CryptionRC \<times> bytes" where
  "returned (Ret r) = r"
| "returned _ = (CRC_ERROR, [])"

definition km_encrypt :: "'w bao_env \<Rightarrow> bao_state \<times> 'w \<Rightarrow> KeyManagerTy \<Rightarrow> CryptoSymAlg \<Rightarrow> bytes \<Rightarrow> u32
    \<Rightarrow> CryptionRC \<times> bytes" where
  "km_encrypt E x ty alg plaintext d =
    returned (fst (KmCryptor_Encrypt E (Borrow ty) alg plaintext d (fst x) (snd x)))"

definition km_decrypt :: "'w bao_env \<Rightarrow> bao_state \<times> 'w \<Rightarrow> KeyManagerTy \<Rightarrow> CryptoSymAlg \<Rightarrow> bytes \<Rightarrow> u32
    \<Rightarrow> CryptionRC \<times> bytes" where
  "km_decrypt E x ty alg ciphertext d =
    returned (fst (KmCryptor_Decrypt E (Borrow ty) alg ciphertext d (fst x) (snd x)))"

text \<open>
  When the state \<open>y\<close> still serves the ciphertexts of \<open>x\<close>: the manager is logged in under the same
  type tag and has at least the domains of \<open>x\<close>, and the key each domain encrypted with is still
  known and exported with the same value. Newer keys may have been added.
\<close>

definition key_kept :: "'w bao_env \<Rightarrow> bao_state \<times> 'w \<Rightarrow> bao_state \<times> 'w \<Rightarrow> u32 \<Rightarrow> bool" where
  "key_kept E x y d \<longleftrightarrow>
    (let k = om_last (inner (fst x) d) in
     k \<le> 65535 \<and> key_time (fst y) d k \<noteq> None \<and>
     fst (export_key E (fst y) d k (snd y)) = fst (export_key E (fst x) d k (snd x)))"

definition serves :: "'w bao_env \<Rightarrow> bao_state \<times> 'w \<Rightarrow> bao_state \<times> 'w \<Rightarrow> bool" where
  "serves E x y \<longleftrightarrow> crypto_law (be_crypto E) \<and> bao_inv x \<and>
    inited (fst y) \<and> km_type (fst y) = km_type (fst x) \<and>
    CdfOpenbao.domainCount (fst x) \<le> CdfOpenbao.domainCount (fst y) \<and>
    list_all (\<lambda>(d, m). m \<noteq> [] \<longrightarrow> key_kept E x y d) (domainKeyMap (fst x))"

subsection \<open>The interface\<close>

text \<open>
  A cipher with states, as its clients see it: what a state encrypted, every state that serves it
  decrypts to the plaintext, and a ciphertext is never empty.
\<close>

locale cipher_service =
  fixes encrypt :: "'s \<Rightarrow> KeyManagerTy \<Rightarrow> CryptoSymAlg \<Rightarrow> bytes \<Rightarrow> u32 \<Rightarrow> CryptionRC \<times> bytes"
    and decrypt :: "'s \<Rightarrow> KeyManagerTy \<Rightarrow> CryptoSymAlg \<Rightarrow> bytes \<Rightarrow> u32 \<Rightarrow> CryptionRC \<times> bytes"
    and serves_for :: "'s \<Rightarrow> 's \<Rightarrow> bool"
  assumes decrypts: "serves_for x y \<Longrightarrow> encrypt x ty a p d = (CRC_OK, c) \<Longrightarrow> decrypt y ty a c d = (CRC_OK, p)"
    and nonempty: "encrypt x ty a p d = (CRC_OK, c) \<Longrightarrow> c \<noteq> []"
begin

text \<open>The PSK manager in a state \<open>x\<close> of the cipher, and the JWT server.\<close>

lemma psk_token:
  assumes "serves_for x y" "BuildAndEncryptPskToken (e\<lparr>pe_encrypt := encrypt x, pe_decrypt := decrypt x\<rparr>) p s = Inr ct"
  shows "token_for (e\<lparr>pe_encrypt := encrypt y, pe_decrypt := decrypt y\<rparr>) (options s) p ct"
proof -
  let ?o = "options s" and ?t = "ConcatenatePskToken (pskContent p) (ConstructPskMetaJsonString e p)"
  have m: "ConstructPskMetaJsonString (e\<lparr>pe_encrypt := f, pe_decrypt := g\<rparr>) p = ConstructPskMetaJsonString e p" for f g
    by (simp add: ConstructPskMetaJsonString_def ConstructPskMetaJson_def FormatTime_def)
  have "encrypt x (keyManagerType ?o) (algType ?o) ?t (domainId ?o) = (CRC_OK, ct)"
    using assms(2) by (auto simp: BuildAndEncryptPskToken_def EncryptPskToken_def m Let_def split: prod.splits if_splits)
  then show ?thesis
    using decrypts[OF assms(1)] nonempty by (simp add: token_for_def m)
qed

lemma psk_cipher_law:
  assumes "serves_for x x"
  shows "cipher_law (e\<lparr>pe_encrypt := encrypt x, pe_decrypt := decrypt x\<rparr>)"
  using decrypts[OF assms] nonempty by (auto simp: cipher_law_def)

lemma jwt_cipher_back:
  assumes "serves_for x y"
  shows "cipher_back (e1\<lparr>je_encrypt := encrypt x\<rparr>) (e2\<lparr>je_decrypt := decrypt y\<rparr>)"
  using decrypts[OF assms] by (auto simp: cipher_back_def)

end

subsection \<open>The key manager provides it\<close>

lemma returned_OK: "returned r = (CRC_OK, c) \<longleftrightarrow> r = Ret (CRC_OK, c)"
  by (cases r) auto

lemma km_encrypt_OK:
  assumes "km_encrypt E x ty a p d = (CRC_OK, c)"
  obtains s' w' where "KmCryptor_Encrypt E (Borrow ty) a p d (fst x) (snd x) = (Ret (CRC_OK, c), s', w')"
    "Bao_Encrypt E a d p (fst x) (snd x) = (Ret (KM_OK, c), s', w')"
proof -
  obtain r s' w' where k: "KmCryptor_Encrypt E (Borrow ty) a p d (fst x) (snd x) = (r, s', w')"
    by (metis prod.exhaust_sel)
  then have "r = Ret (CRC_OK, c)"
    using assms by (simp add: km_encrypt_def returned_OK)
  then show thesis
    using that k KmCryptor_Encrypt_OK by metis
qed

lemma Params_OK:
  "CheckEncryptAndDecryptParams d a s = KM_OK \<longleftrightarrow>
    inited s \<and> domainKeyMap s \<noteq> [] \<and> d < CdfOpenbao.domainCount s \<and> map_of (domainKeyMap s) d \<noteq> None \<and>
    (a = AES256_GCM \<or> a = CHACHA20_POLY1305)"
  by (auto simp: CheckEncryptAndDecryptParams_def)

text \<open>An encryption that succeeded used the latest key of a domain that had one.\<close>

lemma Bao_Encrypt_used:
  assumes "Bao_Encrypt E a d p s w = (Ret (KM_OK, c), s', w')"
  shows "CheckEncryptAndDecryptParams d a s = KM_OK \<and> (\<exists>m. (d, m) \<in> set (domainKeyMap s) \<and> m \<noteq> [])"
proof -
  have c: "CheckEncryptAndDecryptParams d a s = KM_OK" and k: "fst (fst (GetLatestKey E d 0 s w)) \<noteq> []"
    using assms by (auto simp: Bao_Encrypt_def Let_def split: if_splits prod.splits)
  then obtain m where m: "map_of (domainKeyMap s) d = Some m"
    by (auto simp: Params_OK)
  have "m \<noteq> []"
    using k m by (auto simp: GetLatestKey_def inner_def om_insert_def Let_def split: if_splits)
  then show ?thesis
    using c map_of_SomeD[OF m] by blast
qed

lemma serves_key_kept:
  assumes "serves E x y" "Bao_Encrypt E a d p (fst x) (snd x) = (Ret (KM_OK, c), s', w')"
  shows "key_kept E x y d \<and> CheckEncryptAndDecryptParams d a (fst y) = KM_OK"
proof -
  obtain m where m: "(d, m) \<in> set (domainKeyMap (fst x))" "m \<noteq> []"
    and c: "CheckEncryptAndDecryptParams d a (fst x) = KM_OK"
    using Bao_Encrypt_used[OF assms(2)] by blast
  have k: "key_kept E x y d"
    using assms(1) m by (auto simp: serves_def list_all_iff)
  then have "map_of (domainKeyMap (fst y)) d \<noteq> None"
    by (auto simp: key_kept_def key_time_def inner_def Let_def split: option.splits)
  then show ?thesis
    using k c assms(1) by (auto simp: serves_def Params_OK)
qed

lemma KmCryptor_Encrypt_ptr:
  assumes "KmCryptor_Encrypt E km a p d s w = (Ret (CRC_OK, c), s', w')"
  obtains q where "km = Some q" "Borrow (km_Type q s) = Some q"
proof (cases km)
  case (Some q)
  then show thesis
    using assms that by (cases q; cases "km_type s") (auto simp: KmCryptor_Encrypt_def)
qed (use assms in \<open>simp add: KmCryptor_Encrypt_def\<close>)

lemma km_back:
  assumes sv: "serves E x y" and e: "km_encrypt E x ty a p d = (CRC_OK, c)"
  shows "km_decrypt E y ty a c d = (CRC_OK, p)"
proof -
  obtain s' w' where k: "KmCryptor_Encrypt E (Borrow ty) a p d (fst x) (snd x) = (Ret (CRC_OK, c), s', w')"
    and b: "Bao_Encrypt E a d p (fst x) (snd x) = (Ret (KM_OK, c), s', w')"
    using e by (rule km_encrypt_OK)
  obtain q where q: "Borrow ty = Some q" "Borrow (km_Type q (fst x)) = Some q"
    using k by (rule KmCryptor_Encrypt_ptr)
  have act: "Borrow (km_Type q (fst y)) = Some q"
    using q(2) sv by (cases q) (simp_all add: serves_def)
  have "bao_wf (fst x)" "CdfOpenbao.domainCount (fst x) \<le> 1023" "crypto_law (be_crypto E)"
    using sv by (simp_all add: serves_def bao_inv_def)
  then have "fst (KmCryptor_Decrypt E (Some q) a c d (fst y) (snd y)) = Ret (CRC_OK, p)"
    using serves_key_kept[OF sv b] KmCryptor_roundtrip_core[OF _ _ _ _ k act] by (simp add: key_kept_def Let_def)
  then show ?thesis
    by (simp add: km_decrypt_def q(1))
qed

lemma km_nonempty:
  assumes "km_encrypt E x ty a p d = (CRC_OK, c)"
  shows "c \<noteq> []"
proof -
  obtain s' w' where b: "Bao_Encrypt E a d p (fst x) (snd x) = (Ret (KM_OK, c), s', w')"
    using assms by (rule km_encrypt_OK)
  then obtain k n where "c = Base64Encode (Some (ConstructCipherHeader a d k @ n))"
    by (auto simp: Bao_Encrypt_def Let_def split: if_splits prod.splits)
  then show ?thesis
    using base64_injective[of "ConstructCipherHeader a d k @ n" "[]"]
    by (auto simp: ConstructCipherHeader_def Base64Encode_ref encode_tail_simps)
qed

interpretation km_cipher: cipher_service "km_encrypt E" "km_decrypt E" "serves E" for E :: "'w bao_env"
  by unfold_locales (erule km_back, assumption, erule km_nonempty)

lemma export_key_same: "exePath s' = exePath s \<Longrightarrow> accessToken s' = accessToken s \<Longrightarrow> export_key E s' d k w = export_key E s d k w"
  by (simp add: export_key_def export_cmd_def bao_run_def)

text \<open>Creating a key, whatever comes of it, keeps the manager serving what it encrypted before.\<close>

lemma serves_after_CreateKey:
  assumes law: "crypto_law (be_crypto E)" and inv: "bao_inv (s, w)" and i: "inited s"
    and ids: "list_all (\<lambda>(d, m). om_last m \<le> 65535) (domainKeyMap s)"
    and c: "CreateKey E d0 s w = (r, s', w')"
    and stable: "\<And>d k. fst (export_key E s d k w') = fst (export_key E s d k w)"
  shows "serves E (s, w) (s', w')"
proof -
  have wf: "bao_wf s"
    using inv by (simp add: bao_inv_def)
  note core = CreateKey_core[OF wf c]
  then have "exePath s' = exePath s" "accessToken s' = accessToken s"
    by blast+
  then have x: "fst (export_key E s' d k w') = fst (export_key E s d k w)" for d k
    using stable export_key_same[of s' s E] by simp
  have "key_time s' = key_time s \<or> (\<exists>k t. key_time s' = (key_time s)(d0 := (key_time s d0)(k \<mapsto> t)))"
    using core by (auto split: outcome.splits prod.splits KeyManagerRC.splits)
  then have t: "key_time s d k \<noteq> None \<Longrightarrow> key_time s' d k \<noteq> None" for d k
    by (elim disjE exE) auto
  have "key_kept E (s, w) (s', w') d" if "(d, m) \<in> set (domainKeyMap s)" "m \<noteq> []" for d m
  proof -
    have "map_of (domainKeyMap s) d = Some m"
      using that(1) wf om_distinct[of "domainKeyMap s"] by (simp add: bao_wf_def)
    then have m: "inner s d = m"
      by (simp add: inner_def)
    then have "key_time s d (om_last m) \<noteq> None"
      using that(2) by (auto simp: key_time_def om_last_def map_of_eq_None_iff m)
    then show ?thesis
      using t[of d "om_last m"] x that ids by (auto simp: key_kept_def Let_def list_all_iff m)
  qed
  then have "list_all (\<lambda>(d, m). m \<noteq> [] \<longrightarrow> key_kept E (s, w) (s', w') d) (domainKeyMap s)"
    by (auto simp: list_all_iff)
  moreover have "inited s'" "CdfOpenbao.domainCount s' = CdfOpenbao.domainCount s"
    using core i by simp_all
  ultimately show ?thesis
    using law inv CreateKey_type[OF c] by (simp add: serves_def)
qed

subsection \<open>A reload of the keys\<close>

definition psk_over :: "'w bao_env \<Rightarrow> bao_state \<times> 'w \<Rightarrow> psk_env \<Rightarrow> psk_env" where
  "psk_over E x e = e\<lparr>pe_encrypt := km_encrypt E x, pe_decrypt := km_decrypt E x\<rparr>"

lemma storable_over: "storable (psk_over E x e) p = storable e p"
  by (simp add: psk_over_def storable_def ConstructPskMetaJsonString_def ConstructPskMetaJson_def FormatTime_def
      time_kept_def cong: option.case_cong)

text \<open>C6: Keys survive a rotation of the key manager's keys: tokens that the PSK manager made with the default
  options, each over a state of the key manager of its own, are all restored
  by a reload over one later state that still has the keys and exports them unchanged.\<close>

theorem LoadAllPsk_over_key_manager:
  assumes "CheckInited s" "psk_inv s" "ps \<noteq> []" "length ps < 4294967295"
    and made: "list_all2 (\<lambda>p ct. storable e p \<and> (\<exists>x s0. serves E x y \<and> options s0 = default_options \<and>
      BuildAndEncryptPskToken (psk_over E x e) p s0 = Inr ct)) ps cts"
  shows "fst (LoadAllPsk (psk_over E y e) cts s) = PSK_OK \<and>
    (\<forall>k < length ps. pskIdMap (snd (LoadAllPsk (psk_over E y e) cts s)) (1 + word_of_nat k) =
       Some ((ps ! k)\<lparr>pskId := 1 + word_of_nat k\<rparr>))"
proof (rule LoadAllPsk_tokens[OF assms(1-4)])
  have "token_for (psk_over E y e) default_options p ct"
    if "serves E x y" "options s0 = default_options" "BuildAndEncryptPskToken (psk_over E x e) p s0 = Inr ct" for p ct x s0
    using km_cipher.psk_token[of E x y e p s0 ct] that by (simp add: psk_over_def)
  then show "list_all2 (\<lambda>p ct. storable (psk_over E y e) p \<and> token_for (psk_over E y e) default_options p ct) ps cts"
    by (intro list_all2_mono[OF made]) (auto simp: storable_over)
qed

subsection \<open>Tokens of the JWT server\<close>

definition jwt_over :: "'w bao_env \<Rightarrow> bao_state \<times> 'w \<Rightarrow> jwt_env \<Rightarrow> jwt_env" where
  "jwt_over E x e = e\<lparr>je_encrypt := km_encrypt E x, je_decrypt := km_decrypt E x\<rparr>"

lemma jwt_over_simps:
  "je_encrypt (jwt_over E x e) = km_encrypt E x" "je_decrypt (jwt_over E x e) = km_decrypt E x"
  "je_hmac (jwt_over E x e) = je_hmac e" "je_now (jwt_over E x e) = je_now e"
  by (simp_all add: jwt_over_def)

lemma expired_over:
  "token_expired (jwt_over E x e) m t = token_expired e m t" "IsExpired (jwt_over E x e) k = IsExpired e k"
  "IsOldKeyExpired (jwt_over E x e) k = IsOldKeyExpired e k"
  by (simp_all add: token_expired_def IsExpired_def IsOldKeyExpired_def now_u64_def jwt_over_simps)

lemma SetEncryptionKey_OK:
  assumes "SetEncryptionKey e newKey s0 = (JWT_OK, s)"
  obtains raw c where "newKey = Some raw" "js_options s = js_options s0"
    "je_encrypt e (jo_keyManagerType (js_options s)) JWT_DEFAULT_SYM_ENC_ALG raw (key_domain s) = (CRC_OK, c)" "c \<noteq> []"
    "GetKey (keyPass s) = c"
  using assms that
  by (auto simp: SetEncryptionKey_def SetKey_def GetKey_def key_domain_def Let_def split: if_splits prod.splits option.splits)

text \<open>C9: refreshing the signing key and rotating the key manager's keys do not invalidate tokens: the
  server's key is set, a token is made with it and the key is refreshed, each over a state of the key
  manager of its own; the token is accepted over every later state that still has the keys
  and exports them unchanged, as long as the token and the previous signing key have not expired.\<close>

theorem jwt_refresh_over_key_manager:
  assumes law: "hmac_law (je_hmac e)" and tot: "hmac_total (je_hmac e)" and h: "header_ok (tokenHeader s)"
    and alg: "mAlg (tokenHeader s) = jo_algType (js_options s)"
    and set: "SetEncryptionKey (jwt_over E x0 e0) raw s0 = (JWT_OK, s)"
    and c: "CreateToken (jwt_over E x e) opt s = (JWT_OK, opt')" and b: "buf_ok (co_input opt) (co_inputLen opt)"
    and len: "unat (co_tokenLen opt') < unat JWT_INPUT_LENGTH_MAX"
    and r: "RefreshEncryptionKey (jwt_over E x1 e1) newKey s = (JWT_OK, s2)"
    and hm: "je_hmac e2 = je_hmac e" and sv: "serves E x0 x" "serves E x0 y" "serves E x1 y"
    and fresh: "\<not> token_expired e2 (sint (mExpireTimeMinute (tokenHeader s))) (uint (mCreateTimeSec (tokenHeader s)))"
    and key: "\<not> IsOldKeyExpired e2 (keyPass s2)"
  shows "ValidateToken (jwt_over E y e2) (present opt opt') s2 = JWT_OK"
proof (rule refresh_core[OF _ _ h alg c b len r])
  let ?ty = "jo_keyManagerType (js_options s)" and ?dm = "key_domain s"
  obtain k0 where k0: "km_encrypt E x0 ?ty JWT_DEFAULT_SYM_ENC_ALG k0 ?dm = (CRC_OK, GetKey (keyPass s))"
    using set by (rule SetEncryptionKey_OK) (auto simp: jwt_over_simps)
  show "je_decrypt (jwt_over E y e2) ?ty JWT_DEFAULT_SYM_ENC_ALG (GetKey (keyPass s)) ?dm = (CRC_OK, k)"
    if "je_decrypt (jwt_over E x e) ?ty JWT_DEFAULT_SYM_ENC_ALG (GetKey (keyPass s)) ?dm = (CRC_OK, k)" for k
    using that km_back[OF sv(1) k0] km_back[OF sv(2) k0] by (simp add: jwt_over_simps)
  show "cipher_back (jwt_over E x1 e1) (jwt_over E y e2)"
    using km_cipher.jwt_cipher_back[OF sv(3)] by (simp add: cipher_back_def jwt_over_simps)
qed (use law tot hm fresh key in \<open>simp_all add: jwt_over_simps expired_over\<close>)

subsection \<open>An example\<close>

lemma toy_native_any:
  assumes "p \<noteq> []" "length p < 1000"
  shows "fst (fst (NativeCryptor_Encrypt toy_crypto AES256_GCM p toy_key CCSEC_UNSPECIFIED)) = CRC_OK"
proof -
  have n: "unat (word_of_nat (length p) :: u32) = length p" "unat (44 + word_of_nat (length p) :: u32) = 44 + length p"
    using assms(2) by (simp_all add: unat_word_ariths unat_of_nat)
  then have "(word_of_nat (length p) :: u32) \<noteq> 0"
    using assms(1) by (metis length_0_conv unat_0)
  then show ?thesis
    unfolding NativeCryptor_Encrypt_def toy_stack toy_native_def toy_key_def
    using assms by (simp add: KeyEncrypt_def Engine_Encrypt_def OpensslEncrypt_def rand_fill_def write_at_def
      read_at_def toy_crypto_def EstimatedCipherLen_def layout_defs PLAINTEXT_MAX_LENGTH_def memcpy_s_ok_def
      MULTIPLIER_FACTOR_def n Let_def)
qed

lemma pe_encrypt_over: "pe_encrypt (psk_over E x e) = km_encrypt E x"
  by (simp add: psk_over_def)

definition short_psk :: Psk where
  "short_psk = demo_psk\<lparr>pskContent := ''key''\<rparr>"

lemma short_psk_storable: "storable (demo_env demo_doc) short_psk"
  using demo_storable
  by (simp add: short_psk_def storable_def ConstructPskMetaJsonString_def ConstructPskMetaJson_def del: c_str_id)

lemma export_key_map: "export_key E (s\<lparr>domainKeyMap := m\<rparr>) d k w = export_key E s d k w"
  by (simp add: export_key_def export_cmd_def bao_run_def)

lemma toy_serves: "serves toy_bao (toy_state, Export) (toy_later, Export)"
proof -
  have ex: "export_key toy_bao toy_later d k w = export_key toy_bao toy_state d k w" for d k w
    by (simp add: toy_later_def export_key_map)
  have la: "domainKeyMap toy_later = [(0, [(5, 1000), (6, 400000000)]), (1, [(0, 299999999)])]"
    and st: "domainKeyMap toy_state = [(0, [(5, 1000)]), (1, [(0, 299999999)])]"
    by (simp_all add: toy_later_def toy_state_def)
  have "crypto_law (be_crypto toy_bao)"
    using toy_crypto_law by (simp add: toy_bao_def)
  moreover have "bao_inv (toy_state, Export)"
    using toy_wf by (simp add: bao_inv_def toy_state_def)
  moreover have "inited toy_later" "km_type toy_later = km_type toy_state"
    "CdfOpenbao.domainCount toy_state \<le> CdfOpenbao.domainCount toy_later"
    by (simp_all add: toy_later_def toy_state_def)
  moreover have "key_kept toy_bao (toy_state, Export) (toy_later, Export) 0"
    "key_kept toy_bao (toy_state, Export) (toy_later, Export) 1"
    using ex by (simp_all add: key_kept_def Let_def key_time_def inner_def om_last_def la st)
  ultimately show ?thesis
    by (simp add: serves_def toy_state_def)
qed

lemma toy_km_encrypt:
  assumes "p \<noteq> []" "length p < 1000"
  obtains c where "km_encrypt toy_bao (toy_state, Export) OPENBAO AES256_GCM p 0 = (CRC_OK, c)"
proof -
  have k: "toy_key \<noteq> []" and c: "be_crypto toy_bao = toy_crypto"
    by (simp_all add: toy_key_def toy_bao_def)
  obtain n x where n: "NativeCryptor_Encrypt toy_crypto AES256_GCM p toy_key CCSEC_UNSPECIFIED = ((CRC_OK, n), x)"
    using toy_native_any[OF assms] by (cases "NativeCryptor_Encrypt toy_crypto AES256_GCM p toy_key CCSEC_UNSPECIFIED") auto
  have "Bao_Encrypt toy_bao AES256_GCM 0 p toy_state Export =
      (Ret (KM_OK, Base64Encode (Some (ConstructCipherHeader AES256_GCM 0 5 @ n))), toy_state, Export)"
    unfolding Bao_Encrypt_def Let_def toy_params toy_latest prod.case c n
    using k assms by (simp add: PLAINTEXT_MAX_LENGTH_def)
  moreover have "km_type toy_state = OPENBAO"
    by (simp add: toy_state_def)
  ultimately have "fst (KmCryptor_Encrypt toy_bao (Borrow OPENBAO) AES256_GCM p 0 toy_state Export) =
      Ret (CRC_OK, Base64Encode (Some (ConstructCipherHeader AES256_GCM 0 5 @ n)))"
    using assms by (simp add: KmCryptor_Encrypt_def cryptor_result_def)
  then show thesis
    using that by (simp add: km_encrypt_def)
qed

lemma toy_psk_token: "\<exists>ct. BuildAndEncryptPskToken (psk_over toy_bao (toy_state, Export) (demo_env demo_doc)) short_psk psk_init_state = Inr ct"
proof -
  let ?t = "ConcatenatePskToken (pskContent short_psk) (ConstructPskMetaJsonString (psk_over toy_bao (toy_state, Export) (demo_env demo_doc)) short_psk)"
  have t: "?t = ''a2V5.ZG9j''"
    by (simp add: ConstructPskMetaJsonString_def psk_over_def demo_env_def short_psk_def c_str_def) code_simp
  obtain c where c: "km_encrypt toy_bao (toy_state, Export) OPENBAO AES256_GCM ''a2V5.ZG9j'' 0 = (CRC_OK, c)"
    by (rule toy_km_encrypt[of "''a2V5.ZG9j''"]) simp_all
  then have "c \<noteq> []"
    by (rule km_nonempty)
  then show ?thesis
    unfolding BuildAndEncryptPskToken_def EncryptPskToken_def t
    using c by (simp add: pe_encrypt_over psk_init_state_def default_options_def)
qed

theorem LoadAllPsk_over_key_manager_witness:
  "\<exists>cts. fst (LoadAllPsk (psk_over toy_bao (toy_later, Export) (demo_env demo_doc)) cts demo_state) = PSK_OK \<and>
    pskIdMap (snd (LoadAllPsk (psk_over toy_bao (toy_later, Export) (demo_env demo_doc)) cts demo_state)) 1 =
      Some (short_psk\<lparr>pskId := 1\<rparr>)"
proof -
  obtain ct where ct: "BuildAndEncryptPskToken (psk_over toy_bao (toy_state, Export) (demo_env demo_doc)) short_psk psk_init_state = Inr ct"
    using toy_psk_token by blast
  have "options psk_init_state = default_options" "CheckInited demo_state"
    by (simp_all add: psk_init_state_def CheckInited_def demo_state_def)
  then have "list_all2 (\<lambda>p ct. storable (demo_env demo_doc) p \<and> (\<exists>x s0. serves toy_bao x (toy_later, Export) \<and>
      options s0 = default_options \<and> BuildAndEncryptPskToken (psk_over toy_bao x (demo_env demo_doc)) p s0 = Inr ct))
      [short_psk] [ct]"
    using short_psk_storable toy_serves ct by auto
  from LoadAllPsk_over_key_manager[OF \<open>CheckInited demo_state\<close> demo_inv _ _ this] show ?thesis
    by auto
qed

definition toy_jwt_server :: jwt_server where
  "toy_jwt_server = demo_server\<lparr>keyPass := (keyPass demo_server)\<lparr>kp_key := None\<rparr>\<rparr>"

definition toy_jenv :: "int \<Rightarrow> jwt_env" where
  "toy_jenv t = jwt_over toy_bao (toy_state, Export) (demo_jenv t)"

lemma toy_serves_itself: "serves toy_bao (toy_state, Export) (toy_state, Export)"
  using toy_serves by (simp add: serves_def toy_state_def key_kept_def Let_def key_time_def inner_def om_last_def)

lemma toy_set:
  obtains s where "SetEncryptionKey (toy_jenv 1500) (Some (replicate 32 (CHR ''k''))) toy_jwt_server = (JWT_OK, s)"
    "demo_like (toy_jenv 2000) s" "kp_hours (keyPass s) = 24" "kp_newTime (keyPass s) = 1500"
proof -
  let ?k = "replicate 32 (CHR ''k'')"
  let ?s = "snd (SetEncryptionKey (toy_jenv 1500) (Some ?k) toy_jwt_server)"
  obtain c where c: "km_encrypt toy_bao (toy_state, Export) OPENBAO AES256_GCM ?k 0 = (CRC_OK, c)"
    by (rule toy_km_encrypt[of ?k]) simp_all
  note n = km_nonempty[OF c] and d = km_back[OF toy_serves_itself c]
  have e: "fst (SetEncryptionKey (toy_jenv 1500) (Some ?k) toy_jwt_server) = JWT_OK \<and>
      ?s = toy_jwt_server\<lparr>keyPass := (keyPass toy_jwt_server)\<lparr>kp_key := Some c, kp_newTime := 1500\<rparr>\<rparr>"
    using c n
    by (simp add: SetEncryptionKey_def toy_jwt_server_def demo_server_def jwt_default_options_def JWT_KEY_LENGTH_MAX_def
        Jwt_CheckKeyLen_def HMAC_SHA256_MIN_LENGTH_def SetKey_def toy_jenv_def jwt_over_simps Let_def key_domain_def
        u32_of_i16_def JWT_DEFAULT_SYM_ENC_ALG_def now_u64_def demo_jenv_def c_str_def)
  have "demo_like (toy_jenv 2000) ?s"
    using e n d
    by (simp add: demo_like_def toy_jwt_server_def demo_server_def toy_jenv_def jwt_over_simps expired_over IsExpired_def
        now_u64_def SECONDS_PER_HOUR_def GetKey_def demo_jenv_def)
  moreover have "kp_hours (keyPass ?s) = 24" "kp_newTime (keyPass ?s) = 1500"
    using e by (simp_all add: toy_jwt_server_def demo_server_def)
  ultimately show thesis
    using that[of ?s] e by (simp add: prod_eq_iff)
qed

lemma toy_refresh:
  assumes "demo_like (toy_jenv 2000) s" "kp_hours (keyPass s) = 24" "kp_newTime (keyPass s) = 1500"
  obtains s2 where "RefreshEncryptionKey (toy_jenv 2500) (Some (replicate 32 (CHR ''n''))) s = (JWT_OK, s2)"
    "\<not> IsOldKeyExpired (demo_jenv 3000) (keyPass s2)"
proof -
  let ?r = "RefreshEncryptionKey (toy_jenv 2500) (Some (replicate 32 (CHR ''n''))) s"
  obtain c where c: "km_encrypt toy_bao (toy_state, Export) OPENBAO AES256_GCM (replicate 32 (CHR ''n'')) 0 = (CRC_OK, c)"
    by (rule toy_km_encrypt[of "replicate 32 (CHR ''n'')"]) simp_all
  have "fst ?r = JWT_OK" "kp_oldTime (keyPass (snd ?r)) = 1500" "kp_hours (keyPass (snd ?r)) = 24"
    using assms c km_nonempty[OF c]
    by (auto simp: RefreshEncryptionKey_def demo_like_def jwt_default_options_def JWT_KEY_LENGTH_MAX_def
        Jwt_CheckKeyLen_def HMAC_SHA256_MIN_LENGTH_def RefreshKey_def SetKey_def GetKey_def toy_jenv_def jwt_over_simps
        Let_def key_domain_def u32_of_i16_def JWT_DEFAULT_SYM_ENC_ALG_def split: option.splits)
  then show thesis
    using that[of "snd ?r"]
    by (simp add: prod_eq_iff IsOldKeyExpired_def demo_jenv_def now_u64_def SECONDS_PER_HOUR_def)
qed

theorem jwt_refresh_over_key_manager_witness:
  "\<exists>s opt' s2. SetEncryptionKey (toy_jenv 1500) (Some (replicate 32 (CHR ''k''))) toy_jwt_server = (JWT_OK, s) \<and>
    CreateToken (toy_jenv 2000) demo_copt s = (JWT_OK, opt') \<and>
    RefreshEncryptionKey (toy_jenv 2500) (Some (replicate 32 (CHR ''n''))) s = (JWT_OK, s2) \<and>
    ValidateToken (jwt_over toy_bao (toy_later, Export) (demo_jenv 3000)) (present demo_copt opt') s2 = JWT_OK"
proof -
  obtain s where s: "SetEncryptionKey (toy_jenv 1500) (Some (replicate 32 (CHR ''k''))) toy_jwt_server = (JWT_OK, s)"
    "demo_like (toy_jenv 2000) s" "kp_hours (keyPass s) = 24" "kp_newTime (keyPass s) = 1500" by (rule toy_set)
  obtain opt' where c: "CreateToken (toy_jenv 2000) demo_copt s = (JWT_OK, opt')"
    "unat (co_tokenLen opt') < unat JWT_INPUT_LENGTH_MAX" using s(2) by (rule demo_create)
  obtain s2 where r: "RefreshEncryptionKey (toy_jenv 2500) (Some (replicate 32 (CHR ''n''))) s = (JWT_OK, s2)"
    "\<not> IsOldKeyExpired (demo_jenv 3000) (keyPass s2)" using s(2-4) by (rule toy_refresh)
  have t: "tokenHeader s = tokenHeader demo_server" "js_options s = jwt_default_options"
    using s(2) by (simp_all add: demo_like_def)
  have "ValidateToken (jwt_over toy_bao (toy_later, Export) (demo_jenv 3000)) (present demo_copt opt') s2 = JWT_OK"
  proof (rule jwt_refresh_over_key_manager[OF demo_laws(1,2) _ _ s(1)[unfolded toy_jenv_def] c(1)[unfolded toy_jenv_def]
        demo_buf c(2) r(1)[unfolded toy_jenv_def] _ toy_serves_itself toy_serves toy_serves _ r(2)])
    show "header_ok (tokenHeader s)" "mAlg (tokenHeader s) = jo_algType (js_options s)"
      by (simp_all add: t header_ok_def demo_server_def jwt_default_options_def)
    show "\<not> token_expired (demo_jenv 3000) (sint (mExpireTimeMinute (tokenHeader s))) (uint (mCreateTimeSec (tokenHeader s)))"
      by (simp add: t token_expired_def demo_server_def demo_jenv_def JWT_EXPIRE_TIME_MAX_MINUTE_def JWT_SECONDS_PER_MINUTE_def)
  qed (simp add: demo_jenv_def)
  then show ?thesis
    using s(1) c(1) r(1) by blast
qed

end
