(* ===== verification/CdfKrbHeap.thy ===== *)
theory CdfKrbHeap
  imports CdfKeytab "HOL-Library.Multiset"
begin

section \<open>The memory of the keytab reader (\<open>krb_ctx.cpp\<close>)\<close>

text \<open>
  CdfKeytab.thy reads a keytab into values. The source builds an entry of heap blocks: the principal,
  the array of its components, the characters of the realm and of every component, and the key.
  Here the reader is modelled with these blocks. A pointer is the number of its block,
  together with what the block holds; \<open>live\<close> are the blocks that are allocated, those of the rest of the
  program included, and \<open>fault\<close> records an access to, or a \<open>free\<close> of, a block that is not. Any
  allocation may fail: \<open>ok\<close> says which succeed. The bytes of a block that is not filled yet are
  not modelled, no code reads them.
\<close>

subsection \<open>Blocks\<close>

record kheap =
  live :: "nat multiset"
  next_addr :: nat
  fault :: bool

definition kmalloc :: "(nat \<Rightarrow> bool) \<Rightarrow> kheap \<Rightarrow> nat option \<times> kheap" where
  "kmalloc ok h =
    (if ok (next_addr h)
     then (Some (next_addr h), h\<lparr>live := add_mset (next_addr h) (live h), next_addr := next_addr h + 1\<rparr>)
     else (None, h\<lparr>next_addr := next_addr h + 1\<rparr>))"

definition kaccess :: "nat \<Rightarrow> kheap \<Rightarrow> kheap" where
  "kaccess a h = h\<lparr>fault := fault h \<or> a \<notin># live h\<rparr>"

definition kfree :: "nat \<Rightarrow> kheap \<Rightarrow> kheap" where
  "kfree a h = (kaccess a h)\<lparr>live := live h - {#a#}\<rparr>"

record hprinc =
  hp_block :: nat
  hp_realm :: "(nat \<times> bytes) option"
  hp_length :: nat
  hp_data :: "(nat \<times> (nat \<times> bytes) option list) option"
  hp_type :: int

record hentry =
  he_principal :: "hprinc option"
  he_time :: u32
  he_vno :: u32
  he_enctype :: int
  he_contents :: "(nat \<times> bytes) option"

definition empty_hentry :: hentry where
  "empty_hentry = \<lparr>he_principal = None, he_time = 0, he_vno = 0, he_enctype = 0, he_contents = None\<rparr>"

text \<open>\<open>retEntry.principal->...\<close>: an access, and an assignment to a field.\<close>

definition at_princ :: "hentry \<Rightarrow> kheap \<Rightarrow> kheap" where
  "at_princ e h = (case he_principal e of None \<Rightarrow> h\<lparr>fault := True\<rparr> | Some p \<Rightarrow> kaccess (hp_block p) h)"

definition set_princ :: "(hprinc \<Rightarrow> hprinc) \<Rightarrow> hentry \<Rightarrow> hentry" where
  "set_princ f e = e\<lparr>he_principal := map_option f (he_principal e)\<rparr>"

text \<open>\<open>retEntry.principal->data[index]\<close>.\<close>

definition at_data :: "nat \<Rightarrow> hentry \<Rightarrow> kheap \<Rightarrow> kheap" where
  "at_data index e h =
    (case he_principal e of
       None \<Rightarrow> h\<lparr>fault := True\<rparr>
     | Some p \<Rightarrow>
       (case hp_data p of
          None \<Rightarrow> h\<lparr>fault := True\<rparr>
        | Some (d, cs) \<Rightarrow> if index < length cs then kaccess d (kaccess (hp_block p) h) else h\<lparr>fault := True\<rparr>))"

definition set_data :: "nat \<Rightarrow> (nat \<times> bytes) option \<Rightarrow> hentry \<Rightarrow> hentry" where
  "set_data index v e = set_princ (\<lambda>p. p\<lparr>hp_data := map_option (\<lambda>(d, cs). (d, cs[index := v])) (hp_data p)\<rparr>) e"

subsection \<open>Reading\<close>

text \<open>A reader returns the position behind what it read, or none when it returned an error.\<close>

text \<open>What the readers of the realm and of a component share: a length, a block for the characters, and the
  characters. \<open>acc\<close> is the access to the place that is filled.\<close>

definition H_counted ::
  "(nat \<Rightarrow> bool) \<Rightarrow> bytes \<Rightarrow> (kheap \<Rightarrow> kheap) \<Rightarrow> u32 \<Rightarrow> kheap \<Rightarrow> ((nat \<times> bytes) \<times> u32) option \<times> kheap" where
  "H_counted ok buf acc keypos h =
    (case KerberosRead buf 2 1 keypos of
       None \<Rightarrow> (None, h)
     | Some (d, pos) \<Rightarrow>
       if be16s d \<le> 0 then (None, h)
       else (case kmalloc ok (acc h) of
          (None, h1) \<Rightarrow> (None, h1)
        | (Some a, h1) \<Rightarrow>
          (case KerberosRead buf 1 (nat (be16s d)) pos of
             None \<Rightarrow> (None, kfree a h1)
           | Some (s, pos1) \<Rightarrow> (Some ((a, s), pos1), acc h1))))"

definition H_PrincipalRealm ::
  "(nat \<Rightarrow> bool) \<Rightarrow> bytes \<Rightarrow> u32 \<Rightarrow> hentry \<Rightarrow> kheap \<Rightarrow> u32 option \<times> hentry \<times> kheap" where
  "H_PrincipalRealm ok buf keypos e h =
    (case H_counted ok buf (at_princ e) keypos h of
       (None, h1) \<Rightarrow> (None, e, h1)
     | (Some (v, pos), h1) \<Rightarrow> (Some pos, set_princ (\<lambda>p. p\<lparr>hp_realm := Some v\<rparr>) e, h1))"

definition H_PrincipalData ::
  "(nat \<Rightarrow> bool) \<Rightarrow> bytes \<Rightarrow> nat \<Rightarrow> u32 \<Rightarrow> hentry \<Rightarrow> kheap \<Rightarrow> u32 option \<times> hentry \<times> kheap" where
  "H_PrincipalData ok buf index keypos e h =
    (case H_counted ok buf (at_data index e) keypos h of
       (None, h1) \<Rightarrow> (None, e, h1)
     | (Some (v, pos), h1) \<Rightarrow> (Some pos, set_data index (Some v) e, h1))"

text \<open>The loop over the components, from \<open>i\<close> for \<open>n\<close> rounds.\<close>

fun H_comps ::
  "(nat \<Rightarrow> bool) \<Rightarrow> bytes \<Rightarrow> nat \<Rightarrow> nat \<Rightarrow> u32 \<Rightarrow> hentry \<Rightarrow> kheap \<Rightarrow> u32 option \<times> hentry \<times> kheap" where
  "H_comps ok buf 0 i pos e h = (Some pos, e, h)"
| "H_comps ok buf (Suc n) i pos e h =
    (case H_PrincipalData ok buf i pos e h of
       (None, e1, h1) \<Rightarrow> (None, e1, h1)
     | (Some pos1, e1, h1) \<Rightarrow> H_comps ok buf n (Suc i) pos1 e1 h1)"

text \<open>The part of the principal behind its two blocks.\<close>

definition H_princ_rest ::
  "(nat \<Rightarrow> bool) \<Rightarrow> bytes \<Rightarrow> nat \<Rightarrow> u32 \<Rightarrow> hentry \<Rightarrow> kheap \<Rightarrow> u32 option \<times> hentry \<times> kheap" where
  "H_princ_rest ok buf n pos e2 h2 =
     (case H_PrincipalRealm ok buf pos e2 h2 of
        (None, e3, h3) \<Rightarrow> (None, e3, h3)
      | (Some pos1, e3, h3) \<Rightarrow>
        (case H_comps ok buf n 0 pos1 e3 h3 of
           (None, e4, h4) \<Rightarrow> (None, e4, h4)
         | (Some pos2, e4, h4) \<Rightarrow>
           (case KerberosRead buf 4 1 pos2 of
              None \<Rightarrow> (None, e4, at_princ e4 h4)
            | Some (t, pos3) \<Rightarrow>
              (Some pos3, set_princ (\<lambda>p. p\<lparr>hp_type := be32s t\<rparr>) e4, at_princ e4 h4))))"

definition H_Principal ::
  "(nat \<Rightarrow> bool) \<Rightarrow> bytes \<Rightarrow> u32 \<Rightarrow> hentry \<Rightarrow> kheap \<Rightarrow> u32 option \<times> hentry \<times> kheap" where
  "H_Principal ok buf keypos e h =
    (case KerberosRead buf 2 1 keypos of
       None \<Rightarrow> (None, e, h)
     | Some (c, pos) \<Rightarrow>
       if be16s c \<le> 0 then (None, e, h)
       else let n = nat (be16s c) in
       (case kmalloc ok h of
          (None, h1) \<Rightarrow> (None, e\<lparr>he_principal := None\<rparr>, h1)
        | (Some p, h1) \<Rightarrow>
          let e1 = e\<lparr>he_principal := Some \<lparr>hp_block = p, hp_realm = None, hp_length = n, hp_data = None, hp_type = 0\<rparr>\<rparr>;
              h1 = at_princ e1 h1 in
          (case kmalloc ok h1 of
             (None, h2) \<Rightarrow> (None, e1, h2)
           | (Some d, h2) \<Rightarrow>
             H_princ_rest ok buf n pos (set_princ (\<lambda>p. p\<lparr>hp_data := Some (d, replicate n None)\<rparr>) e1) h2)))"

definition H_TSVNo :: "bytes \<Rightarrow> u32 \<Rightarrow> hentry \<Rightarrow> u32 option \<times> hentry" where
  "H_TSVNo buf keypos e =
    (case KerberosRead buf 4 1 keypos of
       None \<Rightarrow> (None, e)
     | Some (t, pos1) \<Rightarrow>
       (case KerberosRead buf 1 1 pos1 of
          None \<Rightarrow> (None, e\<lparr>he_time := be_word t\<rparr>)
        | Some (v, pos2) \<Rightarrow> (Some pos2, e\<lparr>he_time := be_word t, he_vno := be_word v\<rparr>)))"

definition H_Key ::
  "(nat \<Rightarrow> bool) \<Rightarrow> bytes \<Rightarrow> u32 \<Rightarrow> hentry \<Rightarrow> kheap \<Rightarrow> u32 option \<times> hentry \<times> kheap" where
  "H_Key ok buf keypos e h =
    (case KerberosRead buf 2 1 keypos of
       None \<Rightarrow> (None, e, h)
     | Some (t, pos1) \<Rightarrow>
       let e1 = e\<lparr>he_enctype := be16s t\<rparr> in
       (case KerberosRead buf 2 1 pos1 of
          None \<Rightarrow> (None, e1, h)
        | Some (n, pos2) \<Rightarrow>
          if be16s n \<le> 0 then (None, e1, h)
          else (case kmalloc ok h of
             (None, h1) \<Rightarrow> (None, e1\<lparr>he_contents := None\<rparr>, h1)
           | (Some a, h1) \<Rightarrow>
             (case KerberosRead buf 1 (nat (be16s n)) pos2 of
                None \<Rightarrow> (None, e1\<lparr>he_contents := Some (a, [])\<rparr>, h1)
              | Some (k, pos3) \<Rightarrow> (Some pos3, e1\<lparr>he_contents := Some (a, k)\<rparr>, h1)))))"

definition H_Content ::
  "(nat \<Rightarrow> bool) \<Rightarrow> bytes \<Rightarrow> u32 \<Rightarrow> hentry \<Rightarrow> kheap \<Rightarrow> u32 option \<times> hentry \<times> kheap" where
  "H_Content ok buf keypos e h =
    (case H_Principal ok buf keypos e h of
       (None, e1, h1) \<Rightarrow> (None, e1, h1)
     | (Some pos1, e1, h1) \<Rightarrow>
       (case H_TSVNo buf pos1 e1 of
          (None, e2) \<Rightarrow> (None, e2, h1)
        | (Some pos2, e2) \<Rightarrow> H_Key ok buf pos2 e2 h1))"

subsection \<open>Freeing\<close>

text \<open>The loop over the components: the index runs up to the length that the principal has.\<close>

fun H_free_comps :: "nat \<Rightarrow> nat \<Rightarrow> (nat \<times> bytes) option list \<Rightarrow> kheap \<Rightarrow> kheap" where
  "H_free_comps 0 i cs h = h"
| "H_free_comps (Suc n) i cs h =
    (if i < length cs then
       H_free_comps n (Suc i) cs (case cs ! i of None \<Rightarrow> h | Some (a, s) \<Rightarrow> kfree a h)
     else h\<lparr>fault := True\<rparr>)"

definition KerberosFreeEntryPrincipalData :: "hprinc \<Rightarrow> nat \<times> (nat \<times> bytes) option list \<Rightarrow> kheap \<Rightarrow> kheap" where
  "KerberosFreeEntryPrincipalData p = (\<lambda>(d, cs) h.
    kfree d (H_free_comps (hp_length p) 0 cs (kaccess d (kaccess (hp_block p) h))))"

definition KerberosFreeEntry :: "hentry \<Rightarrow> kheap \<Rightarrow> hentry \<times> kheap" where
  "KerberosFreeEntry e h =
    (let h1 = (case he_principal e of
          None \<Rightarrow> h
        | Some p \<Rightarrow>
          kfree (hp_block p) (case hp_data p of
             None \<Rightarrow> kaccess (hp_block p) h
           | Some dcs \<Rightarrow> KerberosFreeEntryPrincipalData p dcs (kaccess (hp_block p) h)));
         h2 = (case he_contents e of None \<Rightarrow> h1 | Some (a, k) \<Rightarrow> kfree a h1)
     in (e\<lparr>he_principal := None, he_contents := None\<rparr>, h2))"

subsection \<open>An entry and the choice of one\<close>

text \<open>Behind the size of the entry: the content, the optional version number, and the end.\<close>

definition H_entry_body ::
  "(nat \<Rightarrow> bool) \<Rightarrow> bytes \<Rightarrow> int \<Rightarrow> u32 \<Rightarrow> kheap \<Rightarrow> u32 option \<times> hentry \<times> kheap" where
  "H_entry_body ok buf sz startPos h =
    (case H_Content ok buf startPos empty_hentry h of
       (None, e, h1) \<Rightarrow> (None, KerberosFreeEntry e h1)
     | (Some endPos, e, h1) \<Rightarrow>
       (let (failed, e1, keypos) =
          (if unat endPos + 4 \<le> unat (word_of_int sz + startPos) then
             (case KerberosRead buf 4 1 endPos of
                None \<Rightarrow> (True, e, endPos)
              | Some (d, pos) \<Rightarrow> (False, if be_word d \<noteq> 0 then e\<lparr>he_vno := be_word d\<rparr> else e, pos))
           else (False, e, endPos))
        in if failed then (None, KerberosFreeEntry e1 h1)
           else if startPos + word_of_int sz < keypos then (None, KerberosFreeEntry e1 h1)
           else (Some (startPos + word_of_int sz), e1, h1)))"

definition H_ReadEntry ::
  "int \<Rightarrow> (nat \<Rightarrow> bool) \<Rightarrow> bytes \<Rightarrow> u32 \<Rightarrow> kheap \<Rightarrow> (u32 option \<times> hentry \<times> kheap) option" where
  "H_ReadEntry err ok buf keypos h = do {
     (error, sz, startPos) \<leftarrow> KerberosReadEntrySize err buf keypos;
     if error \<noteq> 0 \<or> sz \<le> 0 then Some (None, empty_hentry, h)
     else Some (H_entry_body ok buf sz startPos h) }"

definition princ_val :: "hprinc \<Rightarrow> krb_principal" where
  "princ_val p = \<lparr>pr_realm = (case hp_realm p of None \<Rightarrow> [] | Some (a, s) \<Rightarrow> s),
     pr_comps = (case hp_data p of None \<Rightarrow> [] | Some (d, cs) \<Rightarrow> map (\<lambda>c. case c of None \<Rightarrow> [] | Some (a, s) \<Rightarrow> s) cs),
     pr_type = hp_type p\<rparr>"

definition entry_val :: "hentry \<Rightarrow> krb_entry" where
  "entry_val e = \<lparr>ke_principal = (case he_principal e of None \<Rightarrow> \<lparr>pr_realm = [], pr_comps = [], pr_type = 0\<rparr> | Some p \<Rightarrow> princ_val p),
     ke_time = he_time e, ke_vno = he_vno e, ke_enctype = he_enctype e,
     ke_key = (case he_contents e of None \<Rightarrow> [] | Some (a, k) \<Rightarrow> k)\<rparr>"

text \<open>\<open>kt_free\<close> is \<open>krb5_kt_free_entry\<close> of the library.\<close>

definition H_CompareEntry ::
  "(hentry \<Rightarrow> kheap \<Rightarrow> kheap) \<Rightarrow> u32 \<Rightarrow> hentry \<Rightarrow> hentry \<Rightarrow> bool \<Rightarrow> kheap \<Rightarrow> bool \<times> hentry \<times> bool \<times> kheap" where
  "H_CompareEntry kt_free kvno cur new found h =
    (if kvno = 0 \<or> he_vno new = 0 then
       (if he_principal cur = None \<or> KerberosMoreRecent (entry_val new) (entry_val cur)
        then (True, new, True, kt_free cur h)
        else (True, cur, found, kt_free new h))
     else if he_vno new = kvno then (False, new, True, kt_free cur h)
     else if he_vno new = kvno AND 255 \<and> he_principal cur = None then (True, new, True, h)
     else (True, cur, found, kt_free new h))"

partial_function (option) H_entry_loop ::
  "int \<Rightarrow> (nat \<Rightarrow> bool) \<Rightarrow> (hentry \<Rightarrow> kheap \<Rightarrow> kheap) \<Rightarrow> (krb_principal \<Rightarrow> bool) \<Rightarrow> bytes \<Rightarrow> u32 \<Rightarrow> int \<Rightarrow>
    u32 \<Rightarrow> hentry \<Rightarrow> bool \<Rightarrow> kheap \<Rightarrow> (hentry \<times> bool \<times> kheap) option" where
  "H_entry_loop err ok kt_free same buf kvno enctype pos cur found h =
    (case H_ReadEntry err ok buf pos h of
       None \<Rightarrow> None
     | Some (None, e, h1) \<Rightarrow> Some (cur, found, h1)
     | Some (Some pos1, e, h1) \<Rightarrow>
       if \<not> entry_matches same enctype (entry_val e)
       then H_entry_loop err ok kt_free same buf kvno enctype pos1 cur found (kt_free e h1)
       else (case H_CompareEntry kt_free kvno cur e found h1 of (go_on, cur1, found1, h2) \<Rightarrow>
         if go_on then H_entry_loop err ok kt_free same buf kvno enctype pos1 cur1 found1 h2
         else Some (cur1, found1, h2)))"

text \<open>Whether an entry was found, the entry that the caller gets, and the heap. When the version of the
  file cannot be read, the caller's entry is not assigned.\<close>

definition H_GetEntry ::
  "int \<Rightarrow> (nat \<Rightarrow> bool) \<Rightarrow> (hentry \<Rightarrow> kheap \<Rightarrow> kheap) \<Rightarrow> (krb_principal \<Rightarrow> bool) \<Rightarrow> bytes \<Rightarrow> u32 \<Rightarrow> int \<Rightarrow>
    kheap \<Rightarrow> (bool \<times> hentry option \<times> kheap) option" where
  "H_GetEntry err ok kt_free same buf kvno enctype h =
    (case KerberosRead buf 2 1 0 of
       None \<Rightarrow> Some (False, None, h)
     | Some (ktVNo, pos) \<Rightarrow>
       map_option (\<lambda>(cur, found, h1). (found, Some cur, h1))
         (H_entry_loop err ok kt_free same buf kvno enctype pos empty_hentry False h))"

subsection \<open>The blocks of an entry\<close>

definition ptr_blocks :: "(nat \<times> bytes) option \<Rightarrow> nat multiset" where
  "ptr_blocks v = (case v of None \<Rightarrow> {#} | Some (a, s) \<Rightarrow> {#a#})"

definition comp_blocks :: "(nat \<times> bytes) option list \<Rightarrow> nat multiset" where
  "comp_blocks cs = \<Sum>\<^sub># (mset (map ptr_blocks cs))"

definition data_blocks :: "(nat \<times> (nat \<times> bytes) option list) option \<Rightarrow> nat multiset" where
  "data_blocks v = (case v of None \<Rightarrow> {#} | Some (d, cs) \<Rightarrow> add_mset d (comp_blocks cs))"

definition realm_blocks :: "hentry \<Rightarrow> nat multiset" where
  "realm_blocks e = (case he_principal e of None \<Rightarrow> {#} | Some p \<Rightarrow> ptr_blocks (hp_realm p))"

text \<open>All blocks of an entry but the realm's, and all of them.\<close>

definition freed_blocks :: "hentry \<Rightarrow> nat multiset" where
  "freed_blocks e = (case he_principal e of None \<Rightarrow> {#} | Some p \<Rightarrow> add_mset (hp_block p) (data_blocks (hp_data p))) +
     ptr_blocks (he_contents e)"

definition entry_blocks :: "hentry \<Rightarrow> nat multiset" where
  "entry_blocks e = realm_blocks e + freed_blocks e"

definition shaped :: "hentry \<Rightarrow> bool" where
  "shaped e \<longleftrightarrow> (case he_principal e of None \<Rightarrow> True | Some p \<Rightarrow>
     (case hp_data p of None \<Rightarrow> True | Some (d, cs) \<Rightarrow> length cs = hp_length p))"

lemmas block_defs = ptr_blocks_def data_blocks_def realm_blocks_def freed_blocks_def entry_blocks_def

lemma comp_blocks_simps [simp]:
  "comp_blocks [] = {#}" "comp_blocks (c # cs) = ptr_blocks c + comp_blocks cs"
  "comp_blocks (cs @ ds) = comp_blocks cs + comp_blocks ds" "comp_blocks (replicate n None) = {#}"
  by (simp_all add: comp_blocks_def ptr_blocks_def)

lemma ptr_blocks_simps [simp]: "ptr_blocks None = {#}" "ptr_blocks (Some (a, s)) = {#a#}"
  by (simp_all add: ptr_blocks_def)

lemma comp_blocks_update: "i < length cs \<Longrightarrow> cs ! i = None \<Longrightarrow> comp_blocks (cs[i := v]) = ptr_blocks v + comp_blocks cs"
proof -
  assume i: "i < length cs" "cs ! i = None"
  have "cs = take i cs @ None # drop (Suc i) cs"
    using id_take_nth_drop[OF i(1)] i(2) by simp
  then have "comp_blocks cs = comp_blocks (take i cs) + comp_blocks (drop (Suc i) cs)"
    by (metis comp_blocks_simps(2,3) ptr_blocks_simps(1) add_0)
  then show ?thesis
    using i(1) by (simp add: upd_conv_take_nth_drop)
qed

subsection \<open>Growing the heap\<close>

text \<open>Live blocks are different, and below the next one to be given out.\<close>

definition heap_wf :: "kheap \<Rightarrow> bool" where
  "heap_wf h \<longleftrightarrow> (\<forall>a. count (live h) a \<le> (if a < next_addr h then 1 else 0))"

text \<open>From \<open>h\<close> to \<open>h1\<close> the blocks \<open>M\<close> were added, and nothing was misused.\<close>

definition grows :: "kheap \<Rightarrow> nat multiset \<Rightarrow> kheap \<Rightarrow> bool" where
  "grows h M h1 \<longleftrightarrow> live h1 = live h + M \<and> fault h1 = fault h \<and> (heap_wf h \<longrightarrow> heap_wf h1)"

lemma grows_refl [simp]: "grows h {#} h"
  by (simp add: grows_def)

lemma grows_trans: "grows h M h1 \<Longrightarrow> grows h1 N h2 \<Longrightarrow> grows h (M + N) h2"
  by (simp add: grows_def ac_simps)

lemma grows_live: "grows h M h1 \<Longrightarrow> M \<subseteq># live h1"
  by (simp add: grows_def)

lemma grows_mem: "grows h M h1 \<Longrightarrow> a \<in># live h \<Longrightarrow> a \<in># live h1"
  by (simp add: grows_def)

lemma heap_wf_sub: "heap_wf h \<Longrightarrow> live h1 \<subseteq># live h \<Longrightarrow> next_addr h1 = next_addr h \<Longrightarrow> heap_wf h1"
  unfolding heap_wf_def by (metis le_trans mset_subset_eq_count)

lemma kaccess_live [simp]: "a \<in># live h \<Longrightarrow> kaccess a h = h"
  by (simp add: kaccess_def)

lemma kfree_grows: "grows h (add_mset a M) h1 \<Longrightarrow> grows h M (kfree a h1)"
proof -
  assume g: "grows h (add_mset a M) h1"
  then have "a \<in># live h1"
    by (simp add: grows_def)
  then show ?thesis
    using g heap_wf_sub[of h1 "h1\<lparr>live := live h1 - {#a#}\<rparr>"] by (auto simp: grows_def kfree_def)
qed

lemma kmalloc_cases:
  assumes "kmalloc ok h = (t, h1)"
  obtains (Full) "t = None" "\<not> ok (next_addr h)" "grows h {#} h1"
  | (Block) a where "t = Some a" "grows h {#a#} h1" "a \<in># live h1"
proof (cases "ok (next_addr h)")
  case True
  have "count (live h) (next_addr h) = 0" if "heap_wf h"
    using that by (metis heap_wf_def le_zero_eq less_irrefl)
  then have "grows h {#next_addr h#} h1"
    using assms True by (auto simp: kmalloc_def grows_def heap_wf_def less_Suc_eq)
  then show thesis
    using Block assms True by (auto simp: kmalloc_def)
next
  case False
  have "grows h {#} h1"
    using assms False by (auto simp: kmalloc_def grows_def heap_wf_def le_Suc_eq split: if_splits)
  then show thesis
    using Full assms False by (auto simp: kmalloc_def)
qed

subsection \<open>What the readers add\<close>

lemma at_princ_live [simp]: "he_principal e = Some p \<Longrightarrow> hp_block p \<in># live h \<Longrightarrow> at_princ e h = h"
  by (simp add: at_princ_def)

lemma at_data_live [simp]:
  "he_principal e = Some p \<Longrightarrow> hp_data p = Some (d, cs) \<Longrightarrow> i < length cs \<Longrightarrow> hp_block p \<in># live h \<Longrightarrow> d \<in># live h \<Longrightarrow>
    at_data i e h = h"
  by (simp add: at_data_def)

text \<open>\<open>complete ok\<close>: no allocation fails.\<close>

definition complete :: "(nat \<Rightarrow> bool) \<Rightarrow> bool" where
  "complete ok \<longleftrightarrow> (\<forall>n. ok n)"

lemma read_counted_eq: "read_counted buf pos = (case KerberosRead buf 2 1 pos of None \<Rightarrow> None
    | Some (d, pos1) \<Rightarrow> if be16s d \<le> 0 then None else KerberosRead buf 1 (nat (be16s d)) pos1)"
  by (simp add: read_counted_def split: Option.bind_splits option.splits)

lemma H_counted_cases:
  assumes "H_counted ok buf acc pos h = (r, h1)" and acc: "\<And>M h1. grows h M h1 \<Longrightarrow> acc h1 = h1"
  obtains (Fail) "r = None" "grows h {#} h1" "complete ok \<longrightarrow> read_counted buf pos = None"
  | (Read) a s pos1 where "r = Some ((a, s), pos1)" "grows h {#a#} h1" "read_counted buf pos = Some (s, pos1)"
proof (cases "KerberosRead buf 2 1 pos")
  case None
  then show thesis
    using assms(1) Fail by (simp add: H_counted_def read_counted_eq)
next
  case (Some dp)
  obtain d pos0 where d: "KerberosRead buf 2 1 pos = Some (d, pos0)"
    using Some by (cases dp) simp
  obtain t h2 where m: "kmalloc ok (acc h) = (t, h2)" "kmalloc ok h = (t, h2)"
    using acc[OF grows_refl] by (cases "kmalloc ok h") simp
  show thesis
  proof (cases "be16s d \<le> 0")
    case True
    then show thesis
      using assms(1) Fail d by (simp add: H_counted_def read_counted_eq)
  next
    case False
    show thesis
      using m(2)
    proof (cases rule: kmalloc_cases)
      case Full
      then show thesis
        using assms(1) Fail d False m by (auto simp: H_counted_def complete_def)
    next
      case (Block a)
      show thesis
      proof (cases "KerberosRead buf 1 (nat (be16s d)) pos0")
        case None
        then show thesis
          using assms(1) Fail d False m Block kfree_grows[of h a "{#}" h2]
          by (simp add: H_counted_def read_counted_eq)
      next
        case (Some sp)
        then show thesis
          using assms(1) Read d False m Block acc[OF Block(2)]
          by (cases sp) (auto simp: H_counted_def read_counted_eq)
      qed
    qed
  qed
qed

lemma H_PrincipalRealm_cases:
  assumes "H_PrincipalRealm ok buf pos e h = (r, e1, h1)" "he_principal e = Some p" "hp_block p \<in># live h"
  obtains (Fail) "r = None" "e1 = e" "grows h {#} h1" "complete ok \<longrightarrow> KerberosReadEntryPrincipalRealm buf pos = None"
  | (Read) a s pos1 where "r = Some pos1" "e1 = set_princ (\<lambda>p. p\<lparr>hp_realm := Some (a, s)\<rparr>) e" "grows h {#a#} h1"
      "KerberosReadEntryPrincipalRealm buf pos = Some (s, pos1)"
proof -
  obtain r0 h0 where c: "H_counted ok buf (at_princ e) pos h = (r0, h0)"
    by (cases "H_counted ok buf (at_princ e) pos h")
  show thesis
    using c
  proof (cases rule: H_counted_cases)
    show "at_princ e h1 = h1" if "grows h M h1" for M h1
      using grows_mem[OF that assms(3)] assms(2) by simp
  qed (use assms(1) c that in \<open>auto simp: H_PrincipalRealm_def KerberosReadEntryPrincipalRealm_def\<close>)
qed

lemma H_PrincipalData_cases:
  assumes "H_PrincipalData ok buf i pos e h = (r, e1, h1)" "he_principal e = Some p" "hp_block p \<in># live h"
    "hp_data p = Some (d, cs)" "d \<in># live h" "i < length cs"
  obtains (Fail) "r = None" "e1 = e" "grows h {#} h1" "complete ok \<longrightarrow> KerberosReadEntryPrincipalData buf pos = None"
  | (Read) a s pos1 where "r = Some pos1" "e1 = set_data i (Some (a, s)) e" "grows h {#a#} h1"
      "KerberosReadEntryPrincipalData buf pos = Some (s, pos1)"
proof -
  obtain r0 h0 where c: "H_counted ok buf (at_data i e) pos h = (r0, h0)"
    by (cases "H_counted ok buf (at_data i e) pos h")
  show thesis
    using c
  proof (cases rule: H_counted_cases)
    show "at_data i e h1 = h1" if "grows h M h1" for M h1
      using grows_mem[OF that] assms by simp
  qed (use assms(1) c that in \<open>auto simp: H_PrincipalData_def KerberosReadEntryPrincipalData_def\<close>)
qed

definition comp_val :: "(nat \<times> bytes) option \<Rightarrow> bytes" where
  "comp_val c = (case c of None \<Rightarrow> [] | Some (a, s) \<Rightarrow> s)"

text \<open>The components, filled from the left.\<close>

definition with_comps :: "hprinc \<Rightarrow> nat \<Rightarrow> (nat \<times> bytes) option list \<Rightarrow> hentry \<Rightarrow> hentry" where
  "with_comps p d cs e = e\<lparr>he_principal := Some (p\<lparr>hp_data := Some (d, cs)\<rparr>)\<rparr>"

lemma set_data_with_comps:
  "set_data (length ds) v (with_comps p d (ds @ None # cs) e) = with_comps p d (ds @ v # cs) e"
  by (simp add: set_data_def set_princ_def with_comps_def)

lemma H_comps_spec:
  assumes "H_comps ok buf n (length ds) pos (with_comps p d (ds @ replicate n None) e) h = (r, e1, h1)"
    "hp_block p \<in># live h" "d \<in># live h"
  shows "\<exists>xs. length xs = n \<and> e1 = with_comps p d (ds @ xs) e \<and> grows h (comp_blocks xs) h1 \<and>
    (case r of None \<Rightarrow> complete ok \<longrightarrow> read_comps buf n pos = None
     | Some pos1 \<Rightarrow> read_comps buf n pos = Some (map comp_val xs, pos1))"
  using assms
proof (induction n arbitrary: ds pos h)
  case 0
  then show ?case by auto
next
  case (Suc n)
  let ?e = "with_comps p d (ds @ replicate (Suc n) None) e"
  obtain r0 e0 h0 where c: "H_PrincipalData ok buf (length ds) pos ?e h = (r0, e0, h0)"
    by (metis prod.exhaust_sel)
  have e: "he_principal ?e = Some (p\<lparr>hp_data := Some (d, ds @ replicate (Suc n) None)\<rparr>)"
    by (simp add: with_comps_def)
  have l: "hp_block (p\<lparr>hp_data := Some (d, ds @ replicate (Suc n) None)\<rparr>) \<in># live h"
    "hp_data (p\<lparr>hp_data := Some (d, ds @ replicate (Suc n) None)\<rparr>) = Some (d, ds @ replicate (Suc n) None)"
    "length ds < length (ds @ replicate (Suc n) None)"
    using Suc.prems(2) by simp_all
  show ?case
    using c e l(1,2) Suc.prems(3) l(3)
  proof (cases rule: H_PrincipalData_cases)
    case Fail
    then show ?thesis
      using Fail Suc.prems(1) c by (intro exI[of _ "replicate (Suc n) None"]) auto
  next
    case (Read a s pos1)
    have e0: "e0 = with_comps p d ((ds @ [Some (a, s)]) @ replicate n None) e"
      using Read(2) set_data_with_comps[of ds "Some (a, s)" p d "replicate n None" e] by simp
    have "H_comps ok buf n (length (ds @ [Some (a, s)])) pos1 (with_comps p d ((ds @ [Some (a, s)]) @ replicate n None) e) h0 = (r, e1, h1)"
      using Suc.prems(1) c Read(1) unfolding e0 by simp
    from Suc.IH[OF this] obtain xs where xs: "length xs = n" "e1 = with_comps p d ((ds @ [Some (a, s)]) @ xs) e"
      "grows h0 (comp_blocks xs) h1"
      "case r of None \<Rightarrow> complete ok \<longrightarrow> read_comps buf n pos1 = None
       | Some pos2 \<Rightarrow> read_comps buf n pos1 = Some (map comp_val xs, pos2)"
      using grows_mem[OF Read(3)] Suc.prems(2,3) by blast
    have "grows h (comp_blocks (Some (a, s) # xs)) h1"
      using grows_trans[OF Read(3) xs(3)] by simp
    then show ?thesis
      using xs Read(4) by (intro exI[of _ "Some (a, s) # xs"]) (auto simp: comp_val_def split: option.splits)
  qed
qed

text \<open>What a reader of a part of an entry does, when it starts with no block of the entry allocated.\<close>

definition built :: "kheap \<Rightarrow> hentry \<Rightarrow> kheap \<Rightarrow> bool" where
  "built h e h1 \<longleftrightarrow> grows h (entry_blocks e) h1 \<and> shaped e"

lemma built_empty: "he_principal e = None \<Longrightarrow> he_contents e = None \<Longrightarrow> built h e h"
  by (simp add: built_def shaped_def entry_blocks_def realm_blocks_def freed_blocks_def)

lemma blocks_of_principal:
  "he_contents e = None \<Longrightarrow> entry_blocks (e\<lparr>he_principal := Some p\<rparr>) =
     ptr_blocks (hp_realm p) + add_mset (hp_block p) (data_blocks (hp_data p))"
  by (simp add: entry_blocks_def realm_blocks_def freed_blocks_def)

lemma shaped_principal: "shaped (e\<lparr>he_principal := Some p\<rparr>) \<longleftrightarrow>
    (case hp_data p of None \<Rightarrow> True | Some (d, cs) \<Rightarrow> length cs = hp_length p)"
  by (simp add: shaped_def)

definition value_rest :: "bytes \<Rightarrow> nat \<Rightarrow> u32 \<Rightarrow> (krb_principal \<times> u32) option" where
  "value_rest buf n pos = do {
     (realm, pos1) \<leftarrow> KerberosReadEntryPrincipalRealm buf pos;
     (comps, pos2) \<leftarrow> read_comps buf n pos1;
     (t, pos3) \<leftarrow> KerberosRead buf 4 1 pos2;
     Some (\<lparr>pr_realm = realm, pr_comps = comps, pr_type = be32s t\<rparr>, pos3) }"

lemma H_princ_rest_spec:
  assumes "H_princ_rest ok buf n pos (e\<lparr>he_principal := Some q\<rparr>) h = (r, e1, h1)"
    and q: "q = \<lparr>hp_block = a, hp_realm = None, hp_length = n, hp_data = Some (d, replicate n None), hp_type = 0\<rparr>"
    and live: "a \<in># live h" "d \<in># live h"
  shows "\<exists>p M. e1 = e\<lparr>he_principal := Some p\<rparr> \<and> hp_block p = a \<and> hp_length p = n \<and>
    (\<exists>cs. hp_data p = Some (d, cs) \<and> length cs = n \<and> M = ptr_blocks (hp_realm p) + comp_blocks cs) \<and> grows h M h1 \<and>
    (case r of None \<Rightarrow> complete ok \<longrightarrow> value_rest buf n pos = None
     | Some pos1 \<Rightarrow> value_rest buf n pos = Some (princ_val p, pos1))"
proof -
  obtain r3 e3 h3 where R: "H_PrincipalRealm ok buf pos (e\<lparr>he_principal := Some q\<rparr>) h = (r3, e3, h3)"
    by (metis prod.exhaust_sel)
  have q1: "he_principal (e\<lparr>he_principal := Some q\<rparr>) = Some q" "hp_block q \<in># live h"
    using live q by simp_all
  show ?thesis
    using R q1
  proof (cases rule: H_PrincipalRealm_cases)
    case Fail
    then show ?thesis
      using Fail assms(1) R by (intro exI[of _ q] exI[of _ "{#}"]) (auto simp: H_princ_rest_def value_rest_def q)
  next
    case (Read b s pos1)
    let ?q = "q\<lparr>hp_realm := Some (b, s)\<rparr>"
    have e3: "e3 = with_comps ?q d ([] @ replicate n None) e"
      using Read(2) by (simp add: set_princ_def with_comps_def q)
    obtain r4 e4 h4 where C: "H_comps ok buf n (length ([] :: (nat \<times> bytes) option list)) pos1 e3 h3 = (r4, e4, h4)"
      by (metis prod.exhaust_sel)
    have "hp_block ?q \<in># live h3" "d \<in># live h3"
      using grows_mem[OF Read(3)] live q by simp_all
    from H_comps_spec[OF C[unfolded e3] this] obtain xs where xs: "length xs = n" "e4 = with_comps ?q d xs e"
      "grows h3 (comp_blocks xs) h4"
      "case r4 of None \<Rightarrow> complete ok \<longrightarrow> read_comps buf n pos1 = None
       | Some pos2 \<Rightarrow> read_comps buf n pos1 = Some (map comp_val xs, pos2)"
      by auto
    have l4: "at_princ e4 h4 = h4"
      using grows_mem[OF xs(3)] grows_mem[OF Read(3)] live q xs(2) by (simp add: with_comps_def)
    have g: "grows h ({#b#} + comp_blocks xs) h4"
      using Read(3) xs(3) by (rule grows_trans)
    have v: "princ_val (?q\<lparr>hp_data := Some (d, xs), hp_type := t\<rparr>) = \<lparr>pr_realm = s, pr_comps = map comp_val xs, pr_type = t\<rparr>" for t
      by (simp add: princ_val_def comp_val_def[abs_def])
    show ?thesis
    proof (cases r4)
      case None
      then show ?thesis
        using assms(1) R C Read xs g
        by (intro exI[of _ "?q\<lparr>hp_data := Some (d, xs)\<rparr>"] exI[of _ "{#b#} + comp_blocks xs"])
          (auto simp: H_princ_rest_def value_rest_def with_comps_def q)
    next
      case (Some pos2)
      show ?thesis
      proof (cases "KerberosRead buf 4 1 pos2")
        case None
        then show ?thesis
          using assms(1) R C Read xs g l4 Some
          by (intro exI[of _ "?q\<lparr>hp_data := Some (d, xs)\<rparr>"] exI[of _ "{#b#} + comp_blocks xs"])
            (auto simp: H_princ_rest_def value_rest_def with_comps_def q)
      next
        case (Some tp)
        then obtain t pos3 where t: "KerberosRead buf 4 1 pos2 = Some (t, pos3)"
          by (cases tp) simp
        then show ?thesis
          using assms(1) R C Read xs g l4 \<open>r4 = Some pos2\<close> v[of "be32s t"]
          by (intro exI[of _ "?q\<lparr>hp_data := Some (d, xs), hp_type := be32s t\<rparr>"] exI[of _ "{#b#} + comp_blocks xs"])
            (auto simp: H_princ_rest_def value_rest_def with_comps_def set_princ_def q)
      qed
    qed
  qed
qed

lemma KerberosReadEntryPrincipal_eq: "KerberosReadEntryPrincipal buf pos = (case KerberosRead buf 2 1 pos of None \<Rightarrow> None
    | Some (c, pos1) \<Rightarrow> if be16s c \<le> 0 then None else value_rest buf (nat (be16s c)) pos1)"
  by (simp add: KerberosReadEntryPrincipal_def value_rest_def split: Option.bind_splits option.splits)

lemma H_Principal_spec:
  assumes "H_Principal ok buf pos e h = (r, e1, h1)" and e: "he_principal e = None" "he_contents e = None"
  shows "built h e1 h1 \<and> (\<exists>v. e1 = e\<lparr>he_principal := v\<rparr>) \<and>
    (case r of None \<Rightarrow> complete ok \<longrightarrow> KerberosReadEntryPrincipal buf pos = None
     | Some pos1 \<Rightarrow> (\<exists>p. he_principal e1 = Some p \<and> KerberosReadEntryPrincipal buf pos = Some (princ_val p, pos1)))"
proof (cases "KerberosRead buf 2 1 pos")
  case None
  then show ?thesis
    using assms by (auto simp: H_Principal_def KerberosReadEntryPrincipal_eq built_empty intro: exI[of _ None])
next
  case (Some cp)
  then obtain c pos0 where c: "KerberosRead buf 2 1 pos = Some (c, pos0)"
    by (cases cp) simp
  let ?n = "nat (be16s c)"
  obtain t ha where m: "kmalloc ok h = (t, ha)"
    by (cases "kmalloc ok h")
  show ?thesis
  proof (cases "be16s c \<le> 0")
    case True
    then show ?thesis
      using assms c by (auto simp: H_Principal_def KerberosReadEntryPrincipal_eq built_empty intro: exI[of _ None])
  next
    case False
    show ?thesis
      using m
    proof (cases rule: kmalloc_cases)
      case Full
      then show ?thesis
        using assms c False m
        by (auto simp: H_Principal_def complete_def built_def shaped_def entry_blocks_def realm_blocks_def freed_blocks_def intro: exI[of _ None])
    next
      case (Block a)
      let ?p = "\<lparr>hp_block = a, hp_realm = None, hp_length = ?n, hp_data = None, hp_type = 0\<rparr>"
      let ?q = "?p\<lparr>hp_data := Some (d, replicate ?n None)\<rparr>"
      obtain t2 hb where m2: "kmalloc ok ha = (t2, hb)"
        by (cases "kmalloc ok ha")
      show ?thesis
        using m2
      proof (cases rule: kmalloc_cases)
        case Full
        then show ?thesis
          using assms c False m m2 Block grows_trans[OF Block(2) Full(3)]
          by (auto simp: H_Principal_def complete_def built_def blocks_of_principal shaped_principal data_blocks_def
              at_princ_def intro: exI[of _ "Some ?p"])
      next
        case (Block d)
        let ?q = "?p\<lparr>hp_data := Some (d, replicate ?n None)\<rparr>"
        have l: "a \<in># live hb" "d \<in># live hb"
          using grows_mem[OF Block(2)] \<open>a \<in># live ha\<close> Block(3) by simp_all
        have R: "H_princ_rest ok buf ?n pos0 (e\<lparr>he_principal := Some ?q\<rparr>) hb = (r, e1, h1)"
          using assms c False m m2 \<open>t = Some a\<close> Block \<open>a \<in># live ha\<close>
          by (simp add: H_Principal_def at_princ_def set_princ_def Let_def)
        obtain p M where p: "e1 = e\<lparr>he_principal := Some p\<rparr>" "hp_block p = a" "hp_length p = ?n"
          "\<exists>cs. hp_data p = Some (d, cs) \<and> length cs = ?n \<and> M = ptr_blocks (hp_realm p) + comp_blocks cs" "grows hb M h1"
          "case r of None \<Rightarrow> complete ok \<longrightarrow> value_rest buf ?n pos0 = None
           | Some pos1 \<Rightarrow> value_rest buf ?n pos0 = Some (princ_val p, pos1)"
          using H_princ_rest_spec[OF R _ l] by auto
        have "grows h ({#a#} + {#d#} + M) h1"
          using grows_trans[OF grows_trans[OF \<open>grows h {#a#} ha\<close> Block(2)] p(5)] .
        moreover have "entry_blocks e1 = {#a#} + {#d#} + M" "shaped e1"
          using p(1-4) e by (auto simp: blocks_of_principal shaped_principal data_blocks_def)
        ultimately show ?thesis
          using p(1,6) c False by (auto simp: built_def KerberosReadEntryPrincipal_eq split: option.splits)
      qed
    qed
  qed
qed

lemma H_TSVNo_spec:
  assumes "H_TSVNo buf pos e = (r, e1)"
  shows "he_principal e1 = he_principal e \<and> he_contents e1 = he_contents e \<and> he_enctype e1 = he_enctype e \<and>
    (case r of None \<Rightarrow> KerberosReadEntryTSVNo buf pos = None
     | Some pos1 \<Rightarrow> KerberosReadEntryTSVNo buf pos = Some ((he_time e1, he_vno e1), pos1))"
  using assms by (auto simp: H_TSVNo_def KerberosReadEntryTSVNo_def split: option.splits)

lemma KerberosReadEntryKey_eq: "KerberosReadEntryKey buf pos = (case KerberosRead buf 2 1 pos of None \<Rightarrow> None
    | Some (t, pos1) \<Rightarrow> (case KerberosRead buf 2 1 pos1 of None \<Rightarrow> None
      | Some (n, pos2) \<Rightarrow> if be16s n \<le> 0 then None
        else (case KerberosRead buf 1 (nat (be16s n)) pos2 of None \<Rightarrow> None | Some (k, pos3) \<Rightarrow> Some ((be16s t, k), pos3))))"
  by (simp add: KerberosReadEntryKey_def split: Option.bind_splits option.splits)

lemma H_Key_spec:
  assumes "H_Key ok buf pos e h = (r, e1, h1)" "he_contents e = None"
  shows "(\<exists>t v. e1 = e\<lparr>he_enctype := t, he_contents := v\<rparr>) \<and> grows h (ptr_blocks (he_contents e1)) h1 \<and>
    (case r of None \<Rightarrow> complete ok \<longrightarrow> KerberosReadEntryKey buf pos = None
     | Some pos1 \<Rightarrow> (\<exists>a k. he_contents e1 = Some (a, k) \<and> KerberosReadEntryKey buf pos = Some ((he_enctype e1, k), pos1)))"
proof (cases "KerberosRead buf 2 1 pos")
  case None
  then show ?thesis
    using assms by (auto simp: H_Key_def KerberosReadEntryKey_eq intro!: exI[of _ "he_enctype e"] exI[of _ None])
next
  case (Some tp)
  then obtain t pos1 where t: "KerberosRead buf 2 1 pos = Some (t, pos1)"
    by (cases tp) simp
  show ?thesis
  proof (cases "KerberosRead buf 2 1 pos1")
    case None
    then show ?thesis
      using assms t by (auto simp: H_Key_def KerberosReadEntryKey_eq intro!: exI[of _ "be16s t"] exI[of _ None])
  next
    case (Some np)
    then obtain n pos2 where n: "KerberosRead buf 2 1 pos1 = Some (n, pos2)"
      by (cases np) simp
    obtain b ha where m: "kmalloc ok h = (b, ha)"
      by (cases "kmalloc ok h")
    show ?thesis
    proof (cases "be16s n \<le> 0")
      case True
      then show ?thesis
        using assms t n by (auto simp: H_Key_def KerberosReadEntryKey_eq intro!: exI[of _ "be16s t"] exI[of _ None])
    next
      case False
      show ?thesis
        using m
      proof (cases rule: kmalloc_cases)
        case Full
        then show ?thesis
          using assms t n False m by (auto simp: H_Key_def complete_def intro!: exI[of _ "be16s t"] exI[of _ None])
      next
        case (Block a)
        then show ?thesis
          using assms t n False m
          by (cases "KerberosRead buf 1 (nat (be16s n)) pos2")
            (auto simp: H_Key_def KerberosReadEntryKey_eq intro!: exI[of _ "be16s t"])
      qed
    qed
  qed
qed

lemma KerberosReadEntryContent_eq: "KerberosReadEntryContent buf pos = (case KerberosReadEntryPrincipal buf pos of None \<Rightarrow> None
    | Some (p, pos1) \<Rightarrow> (case KerberosReadEntryTSVNo buf pos1 of None \<Rightarrow> None
      | Some ((t, v), pos2) \<Rightarrow> (case KerberosReadEntryKey buf pos2 of None \<Rightarrow> None
        | Some ((et, k), pos3) \<Rightarrow>
          Some (\<lparr>ke_principal = p, ke_time = t, ke_vno = v, ke_enctype = et, ke_key = k\<rparr>, pos3))))"
  by (simp add: KerberosReadEntryContent_def split: Option.bind_splits option.splits)

lemma blocks_of_contents:
  "he_contents e = None \<Longrightarrow> entry_blocks (e\<lparr>he_enctype := t, he_contents := v\<rparr>) = entry_blocks e + ptr_blocks v"
  by (simp add: entry_blocks_def realm_blocks_def freed_blocks_def)

lemma blocks_same: "he_principal e1 = he_principal e \<Longrightarrow> he_contents e1 = he_contents e \<Longrightarrow>
    entry_blocks e1 = entry_blocks e \<and> shaped e1 = shaped e \<and> realm_blocks e1 = realm_blocks e"
  by (simp add: entry_blocks_def realm_blocks_def freed_blocks_def shaped_def)

lemma H_Content_spec:
  assumes "H_Content ok buf pos e h = (r, e1, h1)" and e: "he_principal e = None" "he_contents e = None"
  shows "built h e1 h1 \<and>
    (case r of None \<Rightarrow> complete ok \<longrightarrow> KerberosReadEntryContent buf pos = None
     | Some pos1 \<Rightarrow> he_principal e1 \<noteq> None \<and> KerberosReadEntryContent buf pos = Some (entry_val e1, pos1))"
proof -
  obtain r2 e2 h2 where P: "H_Principal ok buf pos e h = (r2, e2, h2)"
    by (metis prod.exhaust_sel)
  note sp = H_Principal_spec[OF P e]
  show ?thesis
  proof (cases r2)
    case None
    then show ?thesis
      using assms(1) P sp by (auto simp: H_Content_def KerberosReadEntryContent_eq)
  next
    case (Some pos2)
    then obtain p where p: "he_principal e2 = Some p" "KerberosReadEntryPrincipal buf pos = Some (princ_val p, pos2)"
      using sp by auto
    have c2: "he_contents e2 = None"
      using sp e(2) by auto
    obtain r3 e3 where T: "H_TSVNo buf pos2 e2 = (r3, e3)"
      by (cases "H_TSVNo buf pos2 e2")
    note st = H_TSVNo_spec[OF T]
    have b3: "built h e3 h2"
      using sp st blocks_same[of e3 e2] by (simp add: built_def)
    show ?thesis
    proof (cases r3)
      case None
      then show ?thesis
        using assms(1) P T st p b3 Some by (auto simp: H_Content_def KerberosReadEntryContent_eq)
    next
      case (Some pos3)
      have c3: "he_contents e3 = None"
        using st c2 by simp
      have K: "H_Key ok buf pos3 e3 h2 = (r, e1, h1)"
        using assms(1) P T Some \<open>r2 = Some pos2\<close> by (simp add: H_Content_def)
      note sk = H_Key_spec[OF K c3]
      obtain t v where e1: "e1 = e3\<lparr>he_enctype := t, he_contents := v\<rparr>"
        using sk by blast
      have "built h e1 h1"
        using grows_trans[of h "entry_blocks e3" h2 "ptr_blocks v" h1] b3 sk e1
        by (simp add: built_def blocks_of_contents[OF c3]) (simp add: shaped_def)
      then show ?thesis
        using sk st p Some e1 by (auto simp: KerberosReadEntryContent_eq entry_val_def split: option.splits)
    qed
  qed
qed

subsection \<open>What freeing an entry leaves\<close>

lemma H_free_comps_spec:
  "i + n = length cs \<Longrightarrow> grows h (N + comp_blocks (drop i cs)) h1 \<Longrightarrow> grows h N (H_free_comps n i cs h1)"
proof (induction n arbitrary: i h1)
  case (Suc n)
  then have i: "i < length cs" and d: "drop i cs = cs ! i # drop (Suc i) cs"
    by (simp_all add: Cons_nth_drop_Suc)
  let ?h = "case cs ! i of None \<Rightarrow> h1 | Some (a, s) \<Rightarrow> kfree a h1"
  have "grows h (N + comp_blocks (drop (Suc i) cs)) ?h"
    using Suc.prems(2) kfree_grows[of h _ "N + comp_blocks (drop (Suc i) cs)" h1] unfolding d
    by (auto split: option.splits simp: ac_simps)
  then show ?case
    using Suc.IH[of "Suc i" ?h] Suc.prems(1) i by simp
qed simp

text \<open>The realm is not freed, everything else of the entry is.\<close>

lemma KerberosFreeEntry_spec:
  assumes "built h e h1"
  shows "grows h (realm_blocks e) (snd (KerberosFreeEntry e h1))"
proof -
  let ?K = "ptr_blocks (he_contents e)"
  let ?h2 = "case he_principal e of None \<Rightarrow> h1
      | Some p \<Rightarrow> kfree (hp_block p) (case hp_data p of
             None \<Rightarrow> kaccess (hp_block p) h1
           | Some dcs \<Rightarrow> KerberosFreeEntryPrincipalData p dcs (kaccess (hp_block p) h1))"
  have g: "grows h (entry_blocks e) h1" and sh: "shaped e"
    using assms by (simp_all add: built_def)
  have "grows h (realm_blocks e + ?K) ?h2"
  proof (cases "he_principal e")
    case None
    then show ?thesis
      using g by (simp add: entry_blocks_def freed_blocks_def)
  next
    case (Some p)
    let ?R = "ptr_blocks (hp_realm p) + ?K"
    have G: "grows h (add_mset (hp_block p) (data_blocks (hp_data p) + ?R)) h1"
      using g Some by (simp add: entry_blocks_def realm_blocks_def freed_blocks_def ac_simps)
    then have p: "hp_block p \<in># live h1"
      by (simp add: grows_def)
    show ?thesis
    proof (cases "hp_data p")
      case None
      then show ?thesis
        using G p kfree_grows[of h "hp_block p" ?R h1] Some by (simp add: data_blocks_def realm_blocks_def)
    next
      case (Some dcs)
      obtain d cs where d: "hp_data p = Some (d, cs)"
        using Some by (cases dcs) simp
      have "length cs = hp_length p"
        using sh \<open>he_principal e = Some p\<close> d by (simp add: shaped_def)
      moreover have "grows h (add_mset d (add_mset (hp_block p) ?R) + comp_blocks (drop 0 cs)) h1"
        using G d by (simp add: data_blocks_def ac_simps add_mset_commute)
      ultimately have "grows h (add_mset d (add_mset (hp_block p) ?R)) (H_free_comps (hp_length p) 0 cs h1)"
        by (intro H_free_comps_spec) simp_all
      then have "grows h ?R (kfree (hp_block p) (kfree d (H_free_comps (hp_length p) 0 cs h1)))"
        by (intro kfree_grows)
      moreover have "d \<in># live h1"
        using G d by (simp add: grows_def data_blocks_def)
      ultimately show ?thesis
        using d p \<open>he_principal e = Some p\<close> by (simp add: KerberosFreeEntryPrincipalData_def realm_blocks_def)
    qed
  qed
  then show ?thesis
    using kfree_grows[of h _ "realm_blocks e" ?h2]
    by (cases "he_contents e") (auto simp: KerberosFreeEntry_def Let_def)
qed

subsection \<open>An entry of the file\<close>

lemma size_realm_blocks: "size (realm_blocks e) \<le> 1"
  by (auto simp: realm_blocks_def ptr_blocks_def split: option.splits)

definition leaves_one :: "kheap \<Rightarrow> nat multiset \<Rightarrow> kheap \<Rightarrow> bool" where
  "leaves_one h M h1 \<longleftrightarrow> (\<exists>L. size L \<le> 1 \<and> grows h (M + L) h1)"

lemma leaves_freed: "built h e h1 \<Longrightarrow> KerberosFreeEntry e h1 = (e2, h2) \<Longrightarrow> leaves_one h {#} h2"
  using KerberosFreeEntry_spec[of h e h1] size_realm_blocks[of e]
  by (auto simp: leaves_one_def intro!: exI[of _ "realm_blocks e"])

lemma leaves_none: "grows h M h1 \<Longrightarrow> leaves_one h M h1"
  by (auto simp: leaves_one_def intro: exI[of _ "{#}"])

text \<open>The part of \<open>KerberosReadEntry\<close> behind the size of the entry.\<close>

definition entry_body :: "bytes \<Rightarrow> int \<Rightarrow> u32 \<Rightarrow> (krb_entry \<times> u32) option" where
  "entry_body buf sz startPos = do {
     ep \<leftarrow> KerberosReadEntryContent buf startPos;
     (e, pos) \<leftarrow> read_vno buf startPos sz ep;
     if startPos + word_of_int sz < pos then None
     else Some (e, startPos + word_of_int sz) }"

lemma entry_val_vno: "entry_val (e\<lparr>he_vno := v\<rparr>) = (entry_val e)\<lparr>ke_vno := v\<rparr>"
  by (simp add: entry_val_def)

lemma H_entry_body_spec:
  assumes "H_entry_body ok buf sz startPos h = (r, e, h1)"
  shows "case r of
      None \<Rightarrow> leaves_one h {#} h1 \<and> (complete ok \<longrightarrow> entry_body buf sz startPos = None)
    | Some pos1 \<Rightarrow> built h e h1 \<and> he_principal e \<noteq> None \<and> entry_body buf sz startPos = Some (entry_val e, pos1)"
proof -
  obtain rc ec hc where C: "H_Content ok buf startPos empty_hentry h = (rc, ec, hc)"
    by (metis prod.exhaust_sel)
  have sp: "built h ec hc \<and> (case rc of None \<Rightarrow> complete ok \<longrightarrow> KerberosReadEntryContent buf startPos = None
     | Some pos1 \<Rightarrow> he_principal ec \<noteq> None \<and> KerberosReadEntryContent buf startPos = Some (entry_val ec, pos1))"
    by (rule H_Content_spec[OF C]) (simp_all add: empty_hentry_def)
  show ?thesis
  proof (cases rc)
    case None
    then show ?thesis
      using assms C sp by (auto dest: leaves_freed simp: H_entry_body_def entry_body_def)
  next
    case (Some endPos)
    have b: "built h (ec\<lparr>he_vno := v\<rparr>) hc" for v
      using sp blocks_same[of "ec\<lparr>he_vno := v\<rparr>" ec] by (simp add: built_def)
    have f: "KerberosFreeEntry ec hc = (e2, h2) \<Longrightarrow> leaves_one h {#} h2"
      "KerberosFreeEntry (ec\<lparr>he_vno := v\<rparr>) hc = (e2, h2) \<Longrightarrow> leaves_one h {#} h2" for v e2 h2
      using sp b by (auto dest: leaves_freed)
    show ?thesis
    proof (cases "unat endPos + 4 \<le> unat (word_of_int sz + startPos)")
      case False
      then show ?thesis
        using assms C sp Some by (auto dest: f simp: H_entry_body_def entry_body_def read_vno_def split: if_splits)
    next
      case True
      show ?thesis
      proof (cases "KerberosRead buf 4 1 endPos")
        case None
        then show ?thesis
          using assms C sp Some True by (auto dest: f simp: H_entry_body_def entry_body_def read_vno_def)
      next
        case dp: (Some dp)
        then obtain d pos where "KerberosRead buf 4 1 endPos = Some (d, pos)"
          by (cases dp) simp
        then show ?thesis
          using assms C sp Some True b[of "be_word d"]
          by (auto dest: f simp: H_entry_body_def entry_body_def read_vno_def entry_val_vno split: if_splits)
      qed
    qed
  qed
qed

lemma H_ReadEntry_spec:
  assumes "H_ReadEntry err ok buf pos h = Some (r, e, h1)"
  shows "case r of
      None \<Rightarrow> leaves_one h {#} h1 \<and> (complete ok \<longrightarrow> KerberosReadEntry err buf pos = Some None)
    | Some pos1 \<Rightarrow> built h e h1 \<and> he_principal e \<noteq> None \<and> KerberosReadEntry err buf pos = Some (Some (entry_val e, pos1))"
proof -
  obtain er sz startPos where s: "KerberosReadEntrySize err buf pos = Some (er, sz, startPos)"
    using assms by (auto simp: H_ReadEntry_def split: Option.bind_splits)
  show ?thesis
  proof (cases "er \<noteq> 0 \<or> sz \<le> 0")
    case True
    then show ?thesis
      using assms s leaves_none[OF grows_refl] by (auto simp: H_ReadEntry_def KerberosReadEntry_def)
  next
    case False
    have b: "H_entry_body ok buf sz startPos h = (r, e, h1)" and v: "KerberosReadEntry err buf pos = Some (entry_body buf sz startPos)"
      using assms s False by (simp_all add: H_ReadEntry_def KerberosReadEntry_def entry_body_def)
    show ?thesis
      using H_entry_body_spec[OF b] unfolding v by (cases r) simp_all
  qed
qed

lemma H_ReadEntry_None: "H_ReadEntry err ok buf pos h = None \<longleftrightarrow> KerberosReadEntry err buf pos = None"
  by (auto simp: H_ReadEntry_def KerberosReadEntry_def split: Option.bind_splits)

subsection \<open>The whole file\<close>

text \<open>\<open>krb5_kt_free_entry\<close> gives back exactly the blocks of the entry it is handed.\<close>

definition kt_law :: "(hentry \<Rightarrow> kheap \<Rightarrow> kheap) \<Rightarrow> bool" where
  "kt_law kt_free \<longleftrightarrow>
    (\<forall>e h. entry_blocks e \<subseteq># live h \<longrightarrow> kt_free e h = h\<lparr>live := live h - entry_blocks e\<rparr>)"

lemma kt_free_grows: "kt_law kt_free \<Longrightarrow> grows h (M + entry_blocks e) h1 \<Longrightarrow> grows h M (kt_free e h1)"
proof -
  assume l: "kt_law kt_free" and g: "grows h (M + entry_blocks e) h1"
  then have "kt_free e h1 = h1\<lparr>live := live h1 - entry_blocks e\<rparr>"
    by (simp add: kt_law_def grows_def)
  then show ?thesis
    using g heap_wf_sub[of h1 "h1\<lparr>live := live h1 - entry_blocks e\<rparr>"] by (auto simp: grows_def ac_simps)
qed

definition cur_val :: "bool \<Rightarrow> hentry \<Rightarrow> krb_entry option" where
  "cur_val found cur = (if found then Some (entry_val cur) else None)"

definition chosen :: "bool \<Rightarrow> hentry \<Rightarrow> bool" where
  "chosen found cur \<longleftrightarrow> (if found then he_principal cur \<noteq> None else cur = empty_hentry)"

lemma no_blocks [simp]: "entry_blocks empty_hentry = {#}" "he_principal empty_hentry = None"
  by (simp_all add: empty_hentry_def entry_blocks_def realm_blocks_def freed_blocks_def)

lemma entry_val_vno_eq [simp]: "ke_vno (entry_val e) = he_vno e"
  by (simp add: entry_val_def)

lemma H_CompareEntry_spec:
  assumes law: "kt_law kt_free" and c: "H_CompareEntry kt_free kvno cur new found h1 = (go_on, cur1, found1, h2)"
    and g: "grows h (entry_blocks cur + entry_blocks new) h1" and n: "he_principal new \<noteq> None" and ch: "chosen found cur"
  shows "grows h (entry_blocks cur1) h2 \<and> chosen found1 cur1 \<and>
    KerberosCompareEntry kvno (cur_val found cur) (entry_val new) = (go_on, cur_val found1 cur1)"
proof -
  have f: "grows h (entry_blocks cur) (kt_free new h1)" "grows h (entry_blocks new) (kt_free cur h1)"
    using kt_free_grows[OF law] g by (simp_all add: add.commute)
  have e: "cur = empty_hentry \<Longrightarrow> grows h (entry_blocks new) h1"
    using g by simp
  show ?thesis
    using c f e n ch
    by (cases found) (auto simp: H_CompareEntry_def KerberosCompareEntry_def chosen_def cur_val_def split: if_splits)
qed

text \<open>What a run of the loop does to the heap and what it chooses; \<open>h0\<close> is the heap before the current choice.\<close>

definition loop_spec ::
  "int \<Rightarrow> (nat \<Rightarrow> bool) \<Rightarrow> (hentry \<Rightarrow> kheap \<Rightarrow> kheap) \<Rightarrow> (krb_principal \<Rightarrow> bool) \<Rightarrow> bytes \<Rightarrow> u32 \<Rightarrow> int \<Rightarrow>
    u32 \<Rightarrow> hentry \<Rightarrow> bool \<Rightarrow> kheap \<Rightarrow> hentry \<times> bool \<times> kheap \<Rightarrow> bool" where
  "loop_spec err ok kt_free same buf kvno enctype pos cur found h res \<longleftrightarrow>
    (\<forall>h0. kt_law kt_free \<longrightarrow> grows h0 (entry_blocks cur) h \<longrightarrow> chosen found cur \<longrightarrow>
      (case res of (cur1, found1, h1) \<Rightarrow> leaves_one h0 (entry_blocks cur1) h1 \<and> chosen found1 cur1 \<and>
        (complete ok \<longrightarrow> entry_loop err same buf kvno enctype pos (cur_val found cur) = Some (cur_val found1 cur1))))"

lemma H_entry_loop_spec:
  "H_entry_loop err ok kt_free same buf kvno enctype pos cur found h = Some res \<Longrightarrow>
   loop_spec err ok kt_free same buf kvno enctype pos cur found h res"
proof (erule H_entry_loop.raw_induct[rotated, where P = loop_spec])
  fix H_loop err ok kt_free same buf kvno enctype pos cur found h res
  assume ih: "\<And>err ok kt_free same buf kvno enctype pos cur found h res.
      H_loop err ok kt_free same buf kvno enctype pos cur found h = Some res \<Longrightarrow>
      loop_spec err ok kt_free same buf kvno enctype pos cur found h res"
    and step: "(case H_ReadEntry err ok buf pos h of
       None \<Rightarrow> None
     | Some (None, e, h1) \<Rightarrow> Some (cur, found, h1)
     | Some (Some pos1, e, h1) \<Rightarrow>
       if \<not> entry_matches same enctype (entry_val e)
       then H_loop err ok kt_free same buf kvno enctype pos1 cur found (kt_free e h1)
       else (case H_CompareEntry kt_free kvno cur e found h1 of (go_on, cur1, found1, h2) \<Rightarrow>
         if go_on then H_loop err ok kt_free same buf kvno enctype pos1 cur1 found1 h2
         else Some (cur1, found1, h2))) = Some res"
  show "loop_spec err ok kt_free same buf kvno enctype pos cur found h res"
    unfolding loop_spec_def
  proof (intro allI impI)
    fix h0
    assume p: "kt_law kt_free" "grows h0 (entry_blocks cur) h" "chosen found cur"
    obtain r e h1 where R: "H_ReadEntry err ok buf pos h = Some (r, e, h1)"
      using step by (auto split: option.splits)
    note sp = H_ReadEntry_spec[OF R]
    show "case res of (cur1, found1, h1) \<Rightarrow> leaves_one h0 (entry_blocks cur1) h1 \<and> chosen found1 cur1 \<and>
        (complete ok \<longrightarrow> entry_loop err same buf kvno enctype pos (cur_val found cur) = Some (cur_val found1 cur1))"
    proof (cases r)
      case None
      then obtain L where "size L \<le> 1" "grows h L h1"
        using sp by (auto simp: leaves_one_def)
      then have "leaves_one h0 (entry_blocks cur) h1"
        using grows_trans[OF p(2)] by (auto simp: leaves_one_def)
      then show ?thesis
        using step R None sp p(3) by (auto simp: entry_loop.simps)
    next
      case (Some pos1)
      then have b: "grows h (entry_blocks e) h1" "he_principal e \<noteq> None"
        and v: "KerberosReadEntry err buf pos = Some (Some (entry_val e, pos1))"
        using sp by (simp_all add: built_def)
      have g: "grows h0 (entry_blocks cur + entry_blocks e) h1"
        using grows_trans[OF p(2) b(1)] .
      show ?thesis
      proof (cases "entry_matches same enctype (entry_val e)")
        case False
        then have "H_loop err ok kt_free same buf kvno enctype pos1 cur found (kt_free e h1) = Some res"
          using step R Some by simp
        from ih[OF this, unfolded loop_spec_def] p(1,3) kt_free_grows[OF p(1) g] show ?thesis
          using False v by (auto simp: entry_loop.simps[of err same buf kvno enctype pos])
      next
        case True
        obtain go_on cur1 found1 h2 where C: "H_CompareEntry kt_free kvno cur e found h1 = (go_on, cur1, found1, h2)"
          by (metis prod.exhaust_sel)
        note cs = H_CompareEntry_spec[OF p(1) C g b(2) p(3)]
        show ?thesis
        proof (cases go_on)
          case False
          then have "res = (cur1, found1, h2)"
            using step R Some True C by simp
          then show ?thesis
            using cs v True False leaves_none by (auto simp: entry_loop.simps[of err same buf kvno enctype pos])
        next
          case go: True
          then have "H_loop err ok kt_free same buf kvno enctype pos1 cur1 found1 h2 = Some res"
            using step R Some True C by simp
          from ih[OF this, unfolded loop_spec_def] p(1) cs show ?thesis
            using v True go by (auto simp: entry_loop.simps[of err same buf kvno enctype pos])
        qed
      qed
    qed
  qed
qed

lemma H_entry_loop_returns:
  "length buf < 2 ^ 31 \<Longrightarrow> \<exists>r. H_entry_loop err ok kt_free same buf kvno enctype pos cur found h = Some r"
proof (induction "length buf - unat pos" arbitrary: pos cur found h rule: less_induct)
  case less
  have "H_ReadEntry err ok buf pos h \<noteq> None"
    using KerberosReadEntry_returns[OF less.prems, of err pos] by (auto simp: H_ReadEntry_None)
  then obtain r e h1 where R: "H_ReadEntry err ok buf pos h = Some (r, e, h1)"
    by auto
  show ?case
  proof (cases r)
    case None
    then show ?thesis
      using R by (subst H_entry_loop.simps) simp
  next
    case (Some pos1)
    then have "KerberosReadEntry err buf pos = Some (Some (entry_val e, pos1))"
      using H_ReadEntry_spec[OF R] by simp
    then have "length buf - unat pos1 < length buf - unat pos"
      using KerberosReadEntry_returns[OF less.prems, of err pos] by auto
    note IH = less.hyps[OF this less.prems]
    show ?thesis
      using R Some IH by (subst H_entry_loop.simps) (simp split: prod.split)
  qed
qed

subsection \<open>Properties\<close>

lemma H_GetEntry_cases:
  assumes "kt_law kt_free" "length buf < 2 ^ 31"
  obtains rc e h1 where "H_GetEntry err ok kt_free same buf kvno enctype h = Some (rc, e, h1)"
    "leaves_one h (if rc then entry_blocks (the e) else {#}) h1"
    "complete ok \<longrightarrow> KerberosGetEntry err same buf kvno enctype = Some (if rc then Some (entry_val (the e)) else None)"
proof (cases "KerberosRead buf 2 1 0")
  case None
  then show thesis
    by (intro that[of False None h]) (simp_all add: H_GetEntry_def KerberosGetEntry_def leaves_none)
next
  case (Some vp)
  then obtain v pos where v: "KerberosRead buf 2 1 0 = Some (v, pos)"
    by (cases vp) simp
  obtain cur found h1 where L: "H_entry_loop err ok kt_free same buf kvno enctype pos empty_hentry False h = Some (cur, found, h1)"
    using H_entry_loop_returns[OF assms(2)] by (metis prod_cases3)
  have "chosen False empty_hentry" "grows h (entry_blocks empty_hentry) h"
    by (simp_all add: chosen_def)
  then have s: "leaves_one h (entry_blocks cur) h1" "chosen found cur"
    "complete ok \<longrightarrow> entry_loop err same buf kvno enctype pos None = Some (cur_val found cur)"
    using H_entry_loop_spec[OF L, unfolded loop_spec_def, rule_format, OF assms(1), of h]
    by (auto simp: cur_val_def)
  then have "leaves_one h (if found then entry_blocks cur else {#}) h1"
    by (auto simp: chosen_def split: if_splits)
  then show thesis
    by (intro that[of found "Some cur" h1]) (use L v s(3) in \<open>simp_all add: H_GetEntry_def KerberosGetEntry_def cur_val_def split: if_splits\<close>)
qed

text \<open>C14: Memory safety of the keytab reader, whichever of its allocations fail: reading a file below 2 GiB returns, no
  block is used or freed that is not allocated, none is freed twice, and afterwards exactly the blocks of the entry
  that is handed out have been added, but for at most one: the realm of an entry that could not be read to its
  end, which \<open>KerberosFreeEntry\<close> forgets.\<close>

theorem KerberosGetEntry_memory:
  assumes "kt_law kt_free" "length buf < 2 ^ 31"
  shows "\<exists>rc e h1 L. H_GetEntry err ok kt_free same buf kvno enctype h = Some (rc, e, h1) \<and> size L \<le> 1 \<and>
    live h1 = live h + (if rc then entry_blocks (the e) else {#}) + L \<and> fault h1 = fault h \<and> (heap_wf h \<longrightarrow> heap_wf h1)"
proof -
  obtain rc e h1 where r: "H_GetEntry err ok kt_free same buf kvno enctype h = Some (rc, e, h1)"
    "leaves_one h (if rc then entry_blocks (the e) else {#}) h1"
    by (rule H_GetEntry_cases[OF assms])
  then show ?thesis
    by (auto simp: leaves_one_def grows_def ac_simps)
qed

text \<open>C15: The reader that builds entries of heap blocks answers what the reader of values answers, as long as memory
  does not run out: the same entry, or that there is none.\<close>

theorem KerberosGetEntry_heap_refines:
  assumes "kt_law kt_free" "complete ok" "length buf < 2 ^ 31"
  shows "map_option (\<lambda>(rc, e, h1). if rc then Some (entry_val (the e)) else None)
      (H_GetEntry err ok kt_free same buf kvno enctype h) = KerberosGetEntry err same buf kvno enctype"
proof -
  obtain rc e h1 where "H_GetEntry err ok kt_free same buf kvno enctype h = Some (rc, e, h1)"
    "complete ok \<longrightarrow> KerberosGetEntry err same buf kvno enctype = Some (if rc then Some (entry_val (the e)) else None)"
    by (rule H_GetEntry_cases[OF assms(1,3)])
  then show ?thesis
    using assms(2) by simp
qed

subsection \<open>An example\<close>

definition toy_kt_free :: "hentry \<Rightarrow> kheap \<Rightarrow> kheap" where
  "toy_kt_free e h = h\<lparr>live := live h - entry_blocks e\<rparr>"

lemma toy_kt_law: "kt_law toy_kt_free"
  by (simp add: kt_law_def toy_kt_free_def)

definition toy_heap :: kheap where
  "toy_heap = \<lparr>live = {#}, next_addr = 0, fault = False\<rparr>"

text \<open>An entry that ends behind its realm: the block of the realm, the third that was allocated, stays.\<close>

definition cut_keytab :: bytes where
  "cut_keytab = [CHR 0x05, CHR 0x02] @ be32 100 @ be16 1 @ counted ''REALM''"

lemma cut_keytab_leaks:
  "H_GetEntry 0 (\<lambda>_. True) toy_kt_free (\<lambda>_. True) cut_keytab 0 0 toy_heap =
     Some (False, Some empty_hentry, \<lparr>live = {#2#}, next_addr = 3, fault = False\<rparr>)"
proof -
  have s: "KerberosReadEntrySize 0 cut_keytab 2 = Some (0, 100, 6)"
    by (subst KerberosReadEntrySize.simps) code_simp
  have "H_entry_body (\<lambda>_. True) cut_keytab 100 6 toy_heap =
      (None, empty_hentry, \<lparr>live = {#2#}, next_addr = 3, fault = False\<rparr>)"
    by code_simp
  then have "H_ReadEntry 0 (\<lambda>_. True) cut_keytab 2 toy_heap =
      Some (None, empty_hentry, \<lparr>live = {#2#}, next_addr = 3, fault = False\<rparr>)"
    by (simp add: H_ReadEntry_def s)
  moreover have "KerberosRead cut_keytab 2 1 0 = Some ([CHR 0x05, CHR 0x02], 2)"
    by code_simp
  ultimately show ?thesis
    by (simp add: H_GetEntry_def H_entry_loop.simps)
qed

theorem KerberosGetEntry_memory_witness:
  "\<exists>rc e h1 L. H_GetEntry 0 (\<lambda>n. n < 4) toy_kt_free (\<lambda>_. True) cut_keytab 0 0 toy_heap = Some (rc, e, h1) \<and> size L \<le> 1 \<and>
    live h1 = (if rc then entry_blocks (the e) else {#}) + L \<and> fault h1 = False \<and> heap_wf h1"
proof -
  have "heap_wf toy_heap" "length cut_keytab < 2 ^ 31"
    by (simp_all add: heap_wf_def toy_heap_def cut_keytab_def counted_def)
  from KerberosGetEntry_memory[OF toy_kt_law this(2), of 0 "\<lambda>n. n < 4" "\<lambda>_. True" 0 0 toy_heap] this(1)
  show ?thesis by (simp add: toy_heap_def)
qed

theorem KerberosGetEntry_heap_refines_witness:
  "map_option (\<lambda>(rc, e, h1). if rc then Some (entry_val (the e)) else None)
      (H_GetEntry 0 (\<lambda>_. True) toy_kt_free (\<lambda>_. True) (enc_keytab ''52'' toy_items) 5 18 toy_heap) = Some (Some (toy_entry 5))"
proof -
  have "KerberosGetEntry 0 (\<lambda>_. True) (enc_keytab ''52'' toy_items) 5 18 = Some (Some (toy_entry 5))"
    using KerberosGetEntry_keytab[of "''52''" toy_items] toy_items_valid
    by (simp add: toy_items_valid(3) entry_matches_def toy_entry_def KerberosCompareEntry_def)
  then show ?thesis
    using KerberosGetEntry_heap_refines[OF toy_kt_law _ toy_items_valid(2)] by (simp add: complete_def)
qed

end
