(* ===== verification/Spec2Isabelle.thy ===== *)
theory Spec2Isabelle
  imports CdfPsk CdfJwt CdfPbkdf2 CdfCliProof CdfBaoExecProof CdfRandProof CdfHash CdfKrbClient
    CdfAuthorization CdfTimeUtils CdfBase CdfCompose CdfKrbHeap
begin

section \<open>CDF: the model and its properties\<close>

text \<open>
  CDF (Confidential Data defensive Framework) is a C++ library under \<open>src/cdf\<close>. Its core keeps secrets:
  it manages pre-shared keys (PSK) and the signing key of JSON-web-token-like tokens, both stored only in encrypted
  form; the encryption keys live in an OpenBao or Vault server, whose command-line client the key
  manager runs; a native cryptor does the encryption itself over OpenSSL; a random
  module owns private OpenSSL generators and makes passwords.

  \<^bold>\<open>Parts and theories.\<close> Every definition has the name of the C++ function or type it models, with a
  prefix where two classes share a name. A C++ object is a record of its fields, a method a
  function from its arguments and the state to its result and the next state.

  \<^item> \<open>CdfPrelude\<close>: bytes (a byte is a \<open>char\<close>, every string and byte vector a \<open>char list\<close>),
    machine words, and the two interfaces: \<open>codec\<close> (a decoder that inverts an encoder on its
    domain) and \<open>machine\<close> (an invariant that every operation keeps holds after every
    sequence of operations). \<open>CdfDefs\<close>: result codes, algorithms, C strings, JSON documents.
    \<open>CdfBase\<close>: \<open>base/\<close>, the range checks of enumerations and the logger.
  \<^item> \<open>CdfBase64\<close>, \<open>CdfStrUtils\<close>, \<open>CdfTimeUtils\<close>, \<open>CdfFileUtils\<close>: \<open>utils/base64.cpp\<close>, \<open>utils/str_utils.h\<close>,
    \<open>utils/time_utils.cpp\<close>, \<open>utils/file_utils.cpp\<close>. Reference encoders, and that the loops equal them; the calendar; what
    the checks on files and permissions decide.
  \<^item> \<open>CdfPsk\<close>: \<open>modules/psk_management\<close>. The manager's two maps, options, callbacks; generating, importing,
    updating, deleting, reloading. Consistency of the maps in every reachable state, agreement with what
    the callbacks were told (the abstract store), the effect of each operation, reloading.
  \<^item> \<open>CdfHmac\<close>, \<open>CdfJwt\<close>: \<open>modules/cryption/hmac.cpp\<close>, \<open>modules/authentication/jwt\<close>. Token creation and validation,
    key setting and refreshing. Accepted tokens are signed and unexpired; created tokens are accepted,
    also with the previous key after a refresh; the clock arithmetic does not wrap.
  \<^item> \<open>CdfEngine\<close>, \<open>CdfPbkdf2\<close>: \<open>native_cryptor.cpp\<close>, \<open>native_cryptor_engine.cpp\<close>. The buffer layout, the OpenSSL call
    sequences, key derivation with its text format. Round trips and the layout of a ciphertext.
  \<^item> \<open>CdfOrdMap\<close>: \<open>std::map\<close>, with the interface \<open>dict\<close>. \<open>CdfBaoUtils\<close>, \<open>CdfOpenbao\<close>, \<open>CdfBaoProof\<close>:
    \<open>modules/key_management/openbao\<close>. The client processes and their JSON output; the key manager's map of domains and keys. Its
    invariant, the effect of creating, removing and renewing keys, what \<open>Init\<close> loads, the round trip of
    encryption through a key the server holds, and the paths that do not return. \<open>CdfBaoExec\<close>, \<open>CdfBaoExecProof\<close>: the pipes, descriptors and
    children behind one client call, as a refinement of what \<open>CdfBaoUtils\<close> assumes of it.
  \<^item> \<open>CdfKmCryptor\<close>: \<open>modules/key_management/vault\<close>, \<open>key_manager_factory.cpp\<close>, \<open>km_cryptor.cpp\<close>. Both key managers
    over one state, and the cryptor through which PSK and JWT use them. \<open>CdfCompose\<close>: the PSK manager and the JWT server over
    that cryptor, through the interface \<open>cipher_service\<close>: what one state of the key manager encrypted, a later one that still has the
    keys decrypts, so stored PSKs and signed tokens survive the creation of new keys and a refresh of the signing key.
  \<^item> \<open>CdfRand\<close>, \<open>CdfRandProof\<close>: \<open>modules/rand/rand.cpp\<close>. The OpenSSL objects are numbered and \<open>live\<close> lists those that exist, so
    leaks and double frees are statements about the state. \<open>CdfHash\<close>: \<open>modules/cryption/hash.cpp\<close>.
    \<open>CdfAuthorization\<close>: \<open>modules/authorization\<close>.
  \<^item> \<open>CdfKeytab\<close>, \<open>CdfKrbCtx\<close>, \<open>CdfKrbServer\<close>, \<open>CdfKrbClient\<close>: \<open>modules/authentication/kerberos\<close>. The reader of binary
    keytabs and its choice of an entry, as the inverse of a written format; the context with its library objects, and
    the server and client built on it. The objects are numbered as in \<open>CdfRand\<close>: in every life of a server or client each is owned by
    one pointer and freed once; a client is accepted only by a completed exchange; starting ends on every keytab. \<open>CdfKrbHeap\<close>: the
    keytab reader once more, with the heap blocks of the entries it builds and allocations that may fail; it is a
    refinement of the reader of \<open>CdfKeytab\<close> and safe, but for the realm of a half-read entry.
  \<^item> \<open>CdfCli\<close>, \<open>CdfCliMain\<close>, \<open>CdfCliProof\<close>: \<open>cli/\<close>. The command-line tool over the key managers: reading the terminal, the commands; the
    configuration file and \<open>main\<close>; what a command prints, when it touches the server, and what it leaves behind.

  \<^bold>\<open>How parts interact.\<close> PSK and JWT encrypt through a cryptor: in \<open>CdfPsk\<close> and \<open>CdfJwt\<close> it is a
  parameter (\<open>pe_encrypt\<close>, \<open>je_encrypt\<close>), and the round trips they assume of it (\<open>cipher_law\<close>, \<open>cipher_back\<close>) are the laws of the
  interface \<open>cipher_service\<close>, interpreted in \<open>CdfCompose\<close> on the cryptor itself. The cryptor uses the OpenBao manager, that the native cryptor
  (\<open>be_crypto\<close>, with the law \<open>crypto_law\<close> of OpenSSL). All text formats are Base64 (\<open>CdfBase64\<close>).

  \<^bold>\<open>Parameters.\<close> Code that is not under \<open>src/\<close> is an argument, a record of functions: \<open>psk_env\<close>, \<open>jwt_env\<close>, \<open>hmac_env\<close>,
  \<open>crypto_env\<close>, \<open>bao_env\<close>, \<open>os_env\<close>, \<open>rand_env\<close>, \<open>hash_env\<close>, \<open>krb_env\<close>, \<open>gss_env\<close>, \<open>cli_env\<close>, \<open>file_sys\<close> (OpenSSL, rapidjson, the
  clock, libkrb5, GSS, the file system, the server's client). Servers and generators have a state of their own, a world that each call changes. What is assumed of
  them are named laws (\<open>hmac_law\<close>, \<open>crypto_law\<close>, \<open>cipher_law\<close>, \<open>hash_law\<close>, \<open>openssl_up\<close>, \<open>server_ids_fit\<close>, \<open>kt_law\<close>), each with an instance
  that satisfies it in the witnesses.

  \<^bold>\<open>Bounds and recursion.\<close> Integers keep their width (\<open>u8\<close> to \<open>u64\<close>) where they can wrap. Loops are structural
  recursion or have a termination proof, except the keytab reader, whose position can wrap: it is a partial function
  with \<open>None\<close> for not returning, which \<open>Kerberos_start_returns\<close> rules out; so is a call that may block on a pipe for ever, which
  \<open>OS_ExecOpenbaoCmd_refines\<close> rules out. No fuel is used: the retry counts of the source
  (1000 attempts of \<open>GetRand\<close>, the retries of \<open>GetSecurePwd\<close>) are arguments of the recursion. A call that
  does not return, throws out of the library or is undefined is a value of the type \<open>outcome\<close> in the key managers.

  \<^bold>\<open>Not modelled.\<close> What the operations write to the log (\<open>CdfBase\<close> has the logger itself); memory allocation failures, except in the
  keytab reader; the interleaving inside an operation that holds a mutex (an operation is one step, and so is a child process
  between two calls of its parent); the wrappers of libkrb5 and OpenSSL, and the methods of a facade class that only forward to its implementation.
\<close>

end
